(* ===== verification/Bot_Prelude.thy ===== *)
theory Bot_Prelude
  imports Complex_Main "HOL-Library.AList"
begin

text \<open>
  Shared vocabulary of the development: Python exceptions as values, f-strings as lists of
  parts, Python's rounding functions, dictionaries that remember insertion order, and time.

  Conventions. A Python \<^verbatim>\<open>float\<close> is modelled by an exact \<^typ>\<open>real\<close>: binary rounding, NaN and
  infinities are outside the model, while every \<^verbatim>\<open>ZeroDivisionError\<close> is inside it
  (\<open>fdiv\<close>). A Python \<^verbatim>\<open>int\<close> is an \<^typ>\<open>int\<close>. A method that mutates an object and may raise
  is a function that returns the result or the exception together with the object as it is
  left behind, because callers of this program catch exceptions and go on using the object.
\<close>

named_theorems bot_simps \<open>unfolding equations of small helper operations\<close>
named_theorems inv_intros \<open>preservation rules of component invariants\<close>

section \<open>Messages and exceptions\<close>

text \<open>
  An f-string is the list of its parts: literal text and formatted values.  \<open>FixP n x\<close> is
  \<^verbatim>\<open>{x:.nf}\<close>, \<open>SignFixP n x\<close> is \<^verbatim>\<open>{x:+.nf}\<close>; \<open>DateP d\<close> is \<^verbatim>\<open>d.isoformat()\<close>
  of a date; the other value parts are plain \<^verbatim>\<open>{x}\<close>.
  The characters a value part renders to are not modelled.
\<close>

datatype fpart =
    Lit string
  | FixP nat real
  | SignFixP nat real
  | IntP int
  | FloatP real
  | StrP string
  | ErrP string
  | DateP int

type_synonym fstr = "fpart list"

datatype py_exn =
    ValueError fstr
  | KeyError string
  | IndexError
  | ZeroDivisionError
  | RuntimeError fstr
  | AssertionError
  | TypeError
  | AttributeError
  | OSError
  | ConnectionError fstr
  | QueueFull
  | ApiError string  \<comment> \<open>raised by a third-party client call, with its \<^verbatim>\<open>str(exc)\<close>\<close>

type_synonym 'a result = "py_exn + 'a"

text \<open>Sequencing of computations that may raise.\<close>

fun and_then :: "'a result \<Rightarrow> ('a \<Rightarrow> 'b result) \<Rightarrow> 'b result" where
  "and_then (Inl e) f = Inl e"
| "and_then (Inr a) f = f a"

definition ok :: "'a result \<Rightarrow> bool" where
  "ok r \<longleftrightarrow> (case r of Inl _ \<Rightarrow> False | Inr _ \<Rightarrow> True)"

lemma ok_simps [simp]: "ok (Inr a)" "\<not> ok (Inl e)"
  by (simp_all add: ok_def)

lemma and_then_Inr_iff: "and_then r f = Inr b \<longleftrightarrow> (\<exists>a. r = Inr a \<and> f a = Inr b)"
  by (cases r) auto

text \<open>The same for methods of an object: the state is kept whether or not the call raised.\<close>

fun on_ok :: "'a result \<times> 's \<Rightarrow> ('a \<Rightarrow> 's \<Rightarrow> 'b result \<times> 's) \<Rightarrow> 'b result \<times> 's" where
  "on_ok (Inl e, s) k = (Inl e, s)"
| "on_ok (Inr a, s) k = k a s"

section \<open>Arithmetic\<close>

text \<open>Python's \<^verbatim>\<open>/\<close> on floats raises on a zero divisor.\<close>

definition fdiv :: "real \<Rightarrow> real \<Rightarrow> real result" where
  "fdiv a b = (if b = 0 then Inl ZeroDivisionError else Inr (a / b))"

lemma fdiv_nonzero [simp]: "b \<noteq> 0 \<Longrightarrow> fdiv a b = Inr (a / b)"
  by (simp add: fdiv_def)

lemma fdiv_zero [simp]: "fdiv a 0 = Inl ZeroDivisionError"
  by (simp add: fdiv_def)

text \<open>\<^verbatim>\<open>round(x)\<close> rounds half to even; \<^verbatim>\<open>round(x, n)\<close> does so at the n-th decimal.\<close>

definition round_half_even :: "real \<Rightarrow> int" where
  "round_half_even x =
     (let f = \<lfloor>x\<rfloor>; d = x - of_int f in
      if d < 1 / 2 then f
      else if 1 / 2 < d then f + 1
      else if even f then f else f + 1)"

definition py_round :: "real \<Rightarrow> nat \<Rightarrow> real" where
  "py_round x n = of_int (round_half_even (x * 10 ^ n)) / 10 ^ n"

text \<open>\<^verbatim>\<open>int(x)\<close> truncates towards zero.\<close>

definition py_int :: "real \<Rightarrow> int" where
  "py_int x = (if 0 \<le> x then \<lfloor>x\<rfloor> else \<lceil>x\<rceil>)"

lemma round_half_even_of_int [simp]: "round_half_even (of_int k) = k"
  by (simp add: round_half_even_def)

lemma round_half_even_near: "\<bar>of_int (round_half_even x) - x\<bar> \<le> 1 / 2"
proof -
  have "of_int \<lfloor>x\<rfloor> \<le> x" "x < of_int \<lfloor>x\<rfloor> + 1"
    by linarith+
  then show ?thesis
    by (auto simp: round_half_even_def Let_def abs_le_iff)
qed

text \<open>Whatever lies within less than a half of an integer rounds to that integer.\<close>

lemma round_half_even_unique:
  assumes "\<bar>x - of_int k\<bar> < 1 / 2"
  shows "round_half_even x = k"
proof -
  have "\<bar>of_int (round_half_even x) - (of_int k :: real)\<bar> < 1"
    using round_half_even_near [of x] assms by linarith
  then have "\<bar>round_half_even x - k\<bar> < 1"
    by linarith
  then show ?thesis by linarith
qed

lemma round_half_even_nonneg: "0 \<le> x \<Longrightarrow> 0 \<le> round_half_even x"
  using round_half_even_near [of x] by linarith

lemma py_round_near: "\<bar>py_round x n - x\<bar> \<le> (1 / 2) / 10 ^ n"
proof -
  have "\<bar>of_int (round_half_even (x * 10 ^ n)) - x * 10 ^ n\<bar> \<le> 1 / 2"
    by (rule round_half_even_near)
  then have "\<bar>of_int (round_half_even (x * 10 ^ n)) - x * 10 ^ n\<bar> / 10 ^ n \<le> (1 / 2) / 10 ^ n"
    by (rule divide_right_mono) simp
  then have "\<bar>(of_int (round_half_even (x * 10 ^ n)) - x * 10 ^ n) / 10 ^ n\<bar> \<le> (1 / 2) / 10 ^ n"
    by (subst abs_divide) simp
  then show ?thesis
    by (simp add: py_round_def diff_divide_distrib)
qed

lemma py_round_exact: "x * 10 ^ n = of_int k \<Longrightarrow> py_round x n = x"
  by (simp add: py_round_def) (simp add: field_simps)

lemma py_round_nonneg: "0 \<le> x \<Longrightarrow> 0 \<le> py_round x n"
  by (simp add: py_round_def round_half_even_nonneg)

lemma py_int_of_int [simp]: "py_int (of_int k) = k"
  by (simp add: py_int_def)

lemma py_int_nonneg: "0 \<le> x \<Longrightarrow> 0 \<le> py_int x \<and> of_int (py_int x) \<le> x"
  by (simp add: py_int_def)

text \<open>\<^verbatim>\<open>floor\<close> of a quotient, multiplied back, never exceeds the dividend.\<close>

lemma floor_divide_mult_le:
  fixes a b :: real
  assumes "0 < b"
  shows "of_int \<lfloor>a / b\<rfloor> * b \<le> a"
proof -
  have "of_int \<lfloor>a / b\<rfloor> * b \<le> a / b * b"
    using assms by (intro mult_right_mono) simp_all
  with assms show ?thesis by simp
qed

lemma floor_divide_mult_gt:
  fixes a b :: real
  assumes "0 < b"
  shows "a < (of_int \<lfloor>a / b\<rfloor> + 1) * b"
proof -
  have "a / b * b < (of_int \<lfloor>a / b\<rfloor> + 1) * b"
    using assms by (intro mult_strict_right_mono) linarith+
  with assms show ?thesis by simp
qed

lemma ceiling_divide_mult_ge:
  fixes a b :: real
  assumes "0 < b"
  shows "a \<le> of_int \<lceil>a / b\<rceil> * b"
proof -
  have "a / b * b \<le> of_int \<lceil>a / b\<rceil> * b"
    using assms by (intro mult_right_mono) simp_all
  with assms show ?thesis by simp
qed

text \<open>A weighted mean lies between its two values.\<close>

lemma weighted_mean_bounds:
  fixes a b :: real
  assumes "0 < m" "0 \<le> n" "lo \<le> a" "a \<le> hi" "lo \<le> b" "b \<le> hi"
  shows "lo \<le> (a * m + b * n) / (m + n)" "(a * m + b * n) / (m + n) \<le> hi"
proof -
  have "lo * m + lo * n \<le> a * m + b * n" "a * m + b * n \<le> hi * m + hi * n"
    using assms by (simp_all add: add_mono mult_right_mono)
  then have "lo * (m + n) \<le> a * m + b * n" "a * m + b * n \<le> hi * (m + n)"
    by (simp_all add: distrib_left)
  moreover have "0 < m + n" using assms by simp
  ultimately show "lo \<le> (a * m + b * n) / (m + n)" "(a * m + b * n) / (m + n) \<le> hi"
    by (simp_all add: pos_le_divide_eq pos_divide_le_eq)
qed

section \<open>Decimal text\<close>

text \<open>\<^verbatim>\<open>str(n)\<close> of an integer.\<close>

fun nat_text :: "nat \<Rightarrow> string" where
  "nat_text n = (if n < 10 then [char_of (48 + n)] else nat_text (n div 10) @ [char_of (48 + n mod 10)])"

declare nat_text.simps [simp del]

definition int_text :: "int \<Rightarrow> string" where
  "int_text i = (if i < 0 then ''-'' @ nat_text (nat (- i)) else nat_text (nat i))"

lemma length_nat_text: "n < 10 ^ Suc k \<Longrightarrow> length (nat_text n) \<le> Suc k"
proof (induction k arbitrary: n)
  case 0
  then show ?case by (subst nat_text.simps) simp
next
  case (Suc k)
  then have "n div 10 < 10 ^ Suc k" by (simp add: less_mult_imp_div_less)
  then have "length (nat_text (n div 10)) \<le> Suc k" by (rule Suc.IH)
  then show ?case by (subst nat_text.simps) simp
qed

lemma length_int_text: "\<bar>i\<bar> < 2 ^ 63 \<Longrightarrow> length (int_text i) \<le> 20"
proof -
  assume "\<bar>i\<bar> < 2 ^ 63"
  then have "nat \<bar>i\<bar> < 10 ^ Suc 18" by (simp add: nat_less_iff)
  then have "length (nat_text (nat \<bar>i\<bar>)) \<le> 19" using length_nat_text [of "nat \<bar>i\<bar>" 18] by simp
  then show ?thesis by (auto simp: int_text_def abs_if split: if_splits)
qed

section \<open>Dictionaries\<close>

text \<open>
  A dictionary whose iteration order matters is an association list in insertion order:
  \<open>AList.update\<close> overwrites in place or appends at the end, as \<^verbatim>\<open>d[k] = v\<close> does, and
  \<open>AList.delete\<close> is \<^verbatim>\<open>d.pop(k, None)\<close>.  A dictionary that is only read and written by key is
  a map.
\<close>

type_synonym ('k, 'v) dict = "('k \<times> 'v) list"

abbreviation dget :: "('k, 'v) dict \<Rightarrow> 'k \<Rightarrow> 'v option" where
  "dget d k \<equiv> map_of d k"

abbreviation dset :: "'k \<Rightarrow> 'v \<Rightarrow> ('k, 'v) dict \<Rightarrow> ('k, 'v) dict" where
  "dset k v d \<equiv> AList.update k v d"

abbreviation dpop :: "'k \<Rightarrow> ('k, 'v) dict \<Rightarrow> ('k, 'v) dict" where
  "dpop k d \<equiv> AList.delete k d"

definition dget_or :: "'v \<Rightarrow> ('k, 'v) dict \<Rightarrow> 'k \<Rightarrow> 'v" where
  "dget_or x d k = (case dget d k of None \<Rightarrow> x | Some v \<Rightarrow> v)"

definition dkeys :: "('k, 'v) dict \<Rightarrow> 'k list" where
  "dkeys d = map fst d"

definition wf_dict :: "('k, 'v) dict \<Rightarrow> bool" where
  "wf_dict d \<longleftrightarrow> distinct (map fst d)"

lemma dget_dset [simp]: "dget (dset k v d) k' = (if k' = k then Some v else dget d k')"
  by (simp add: AList.update_conv')

lemma dget_dpop [simp]: "dget (dpop k d) k' = (if k' = k then None else dget d k')"
  by (simp add: AList.delete_conv')

lemma dget_or_dset [simp]: "dget_or x (dset k v d) k' = (if k' = k then v else dget_or x d k')"
  by (simp add: dget_or_def)

lemma set_dkeys: "set (dkeys d) = dom (map_of d)"
  by (simp add: dkeys_def dom_map_of_conv_image_fst)

lemma wf_dict_Nil [simp]: "wf_dict []"
  by (simp add: wf_dict_def)

lemma wf_dict_dset [simp, inv_intros]: "wf_dict d \<Longrightarrow> wf_dict (dset k v d)"
  by (simp add: wf_dict_def AList.distinct_update)

lemma wf_dict_dpop [simp, inv_intros]: "wf_dict d \<Longrightarrow> wf_dict (dpop k d)"
  by (simp add: wf_dict_def AList.distinct_delete)

lemma wf_dict_get: "wf_dict d \<Longrightarrow> (k, v) \<in> set d \<longleftrightarrow> dget d k = Some v"
  by (simp add: wf_dict_def)

lemma length_dset_le: "length (dset k v d) \<le> Suc (length d)"
  by (induction d) auto

section \<open>Time\<close>

text \<open>
  A timezone-aware UTC \<^verbatim>\<open>datetime\<close> is its number of microseconds since the epoch, a \<^verbatim>\<open>date\<close> the
  number of its day, and \<^verbatim>\<open>time.monotonic()\<close> a real number of seconds.
\<close>

type_synonym datetime = int
type_synonym date = int

definition usec_per_day :: int where
  "usec_per_day = 86400000000"

definition date_of :: "datetime \<Rightarrow> date" where
  "date_of t = t div usec_per_day"

definition timestamp_s :: "datetime \<Rightarrow> real" where
  "timestamp_s t = of_int t / 1000000"

lemma date_of_mono: "s \<le> t \<Longrightarrow> date_of s \<le> date_of t"
  by (simp add: date_of_def usec_per_day_def zdiv_mono1)

section \<open>Lists\<close>

text \<open>Python's \<^verbatim>\<open>del xs[: len(xs) - n]\<close> and \<^verbatim>\<open>deque(maxlen=n)\<close> keep the last \<open>n\<close> elements.\<close>

definition keep_last :: "nat \<Rightarrow> 'a list \<Rightarrow> 'a list" where
  "keep_last n xs = drop (length xs - n) xs"

lemma length_keep_last: "length (keep_last n xs) = min n (length xs)"
  by (simp add: keep_last_def min_def)

lemma keep_last_short: "length xs \<le> n \<Longrightarrow> keep_last n xs = xs"
  by (simp add: keep_last_def)

lemma keep_last_suffix: "\<exists>ys. xs = ys @ keep_last n xs"
  by (metis append_take_drop_id keep_last_def)

lemma last_keep_last: "0 < n \<Longrightarrow> xs \<noteq> [] \<Longrightarrow> last (keep_last n xs) = last xs"
  by (simp add: keep_last_def)

text \<open>On a sorted list, dropping an initial segment by an upward-closed test is filtering.\<close>

lemma dropWhile_filter_sorted:
  assumes "sorted xs" "\<And>x y. x \<le> y \<Longrightarrow> P y \<Longrightarrow> P x"
  shows "dropWhile P xs = filter (\<lambda>x. \<not> P x) xs"
  using assms(1)
proof (induction xs)
  case Nil
  then show ?case by simp
next
  case (Cons x xs)
  show ?case
  proof (cases "P x")
    case True
    with Cons show ?thesis by simp
  next
    case False
    with Cons.prems assms(2) have "\<forall>y\<in>set xs. \<not> P y" by auto
    with False show ?thesis by simp
  qed
qed

lemma filter_le_takeWhile:
  fixes t :: "'a :: linorder"
  shows "sorted xs \<Longrightarrow> filter (\<lambda>u. u \<le> t) xs = takeWhile (\<lambda>u. u \<le> t) xs"
proof (induction xs)
  case Nil
  then show ?case by simp
next
  case (Cons x xs)
  show ?case
  proof (cases "x \<le> t")
    case True
    with Cons show ?thesis by simp
  next
    case False
    with Cons.prems have "filter (\<lambda>u. u \<le> t) xs = []"
      by (auto simp: filter_empty_conv)
    with False show ?thesis by simp
  qed
qed

lemma length_filter_impl:
  "(\<And>x. x \<in> set xs \<Longrightarrow> P x \<Longrightarrow> Q x) \<Longrightarrow> length (filter P xs) \<le> length (filter Q xs)"
  by (induction xs) auto

text \<open>The running maximum kept by a loop \<^verbatim>\<open>m = max(m, x)\<close>.\<close>

lemma fold_max_ge: "m \<le> fold max xs (m :: 'a :: linorder)"
  by (induction xs arbitrary: m) (auto intro: order_trans max.cobounded2)

lemma fold_max_upper: "x \<in> set xs \<Longrightarrow> x \<le> fold max xs (m :: 'a :: linorder)"
proof (induction xs arbitrary: m)
  case Nil
  then show ?case by simp
next
  case (Cons y ys)
  then show ?case using fold_max_ge [of "max y m" ys] by auto
qed

lemma fold_max_in: "fold max xs (m :: 'a :: linorder) \<in> insert m (set xs)"
  by (induction xs arbitrary: m) (auto simp: max_def split: if_splits)

section \<open>Runs\<close>

text \<open>
  Feeding a list of inputs to a step function, collecting the outputs; \<open>run_ok\<close> says that a
  guard holds at every step of that run.
\<close>

fun drive :: "('i \<Rightarrow> 's \<Rightarrow> 'o \<times> 's) \<Rightarrow> 'i list \<Rightarrow> 's \<Rightarrow> 'o list \<times> 's" where
  "drive f [] s = ([], s)"
| "drive f (i # is) s =
     (case f i s of (r, s1) \<Rightarrow> (case drive f is s1 of (rs, s2) \<Rightarrow> (r # rs, s2)))"

fun run_ok :: "('i \<Rightarrow> 's \<Rightarrow> bool) \<Rightarrow> ('i \<Rightarrow> 's \<Rightarrow> 'o \<times> 's) \<Rightarrow> 'i list \<Rightarrow> 's \<Rightarrow> bool" where
  "run_ok g f [] s \<longleftrightarrow> True"
| "run_ok g f (i # is) s \<longleftrightarrow> g i s \<and> run_ok g f is (snd (f i s))"

lemma drive_Cons:
  "drive f (i # is) s =
     (fst (f i s) # fst (drive f is (snd (f i s))), snd (drive f is (snd (f i s))))"
  by (simp split: prod.split)

declare drive.simps(2) [simp del] drive_Cons [simp]

lemma drive_append:
  "drive f (is @ js) s =
     (fst (drive f is s) @ fst (drive f js (snd (drive f is s))),
      snd (drive f js (snd (drive f is s))))"
  by (induction "is" arbitrary: s) simp_all

lemma length_drive [simp]: "length (fst (drive f is s)) = length is"
  by (induction "is" arbitrary: s) simp_all

text \<open>An invariant kept by every guarded step holds after a guarded run.\<close>

lemma drive_invariant:
  assumes "\<And>i s. I s \<Longrightarrow> g i s \<Longrightarrow> I (snd (f i s))"
  shows "I s \<Longrightarrow> run_ok g f is s \<Longrightarrow> I (snd (drive f is s))"
proof (induction "is" arbitrary: s)
  case Nil
  then show ?case by simp
next
  case (Cons i "is")
  then have "I (snd (f i s))" "run_ok g f is (snd (f i s))"
    using assms by simp_all
  then have "I (snd (drive f is (snd (f i s))))" by (rule Cons.IH)
  then show ?case by simp
qed

end
