(* ===== verification/Events.thy ===== *)
theory Events
  imports Bot_Prelude
begin

text \<open>
  The vocabulary of \<^verbatim>\<open>core/enums.py\<close> and the immutable events of \<^verbatim>\<open>core/events.py\<close>.

  Each dataclass is a record with the source's fields under a two-letter prefix.  The fields
  \<^verbatim>\<open>event_type\<close> (a constant per class, here \<open>event_type_of\<close>) and \<^verbatim>\<open>event_id\<close> (a random tag
  that no code reads) are not stored.
\<close>

section \<open>Enumerations (core/enums.py)\<close>

datatype order_side = BUY | SELL

fun side_sign :: "order_side \<Rightarrow> int" where
  "side_sign BUY = 1"
| "side_sign SELL = -1"

fun side_opposite :: "order_side \<Rightarrow> order_side" where
  "side_opposite BUY = SELL"
| "side_opposite SELL = BUY"

fun side_value :: "order_side \<Rightarrow> string" where
  "side_value BUY = ''BUY''"
| "side_value SELL = ''SELL''"

datatype order_type = MARKET | LIMIT | STOP | STOP_LIMIT | MARKET_ON_CLOSE

datatype time_in_force = DAY | GTC | IOC | FOK

datatype order_status =
    PENDING_NEW | SUBMITTED | ACKNOWLEDGED | PARTIALLY_FILLED | FILLED
  | CANCEL_PENDING | CANCELLED | REJECTED | EXPIRED

definition is_terminal :: "order_status \<Rightarrow> bool" where
  "is_terminal s \<longleftrightarrow> s \<in> {FILLED, CANCELLED, REJECTED, EXPIRED}"

definition is_working :: "order_status \<Rightarrow> bool" where
  "is_working s \<longleftrightarrow> s \<in> {SUBMITTED, ACKNOWLEDGED, PARTIALLY_FILLED}"

lemma is_terminal_simps [simp]:
  "is_terminal FILLED" "is_terminal CANCELLED" "is_terminal REJECTED" "is_terminal EXPIRED"
  "\<not> is_terminal PENDING_NEW" "\<not> is_terminal SUBMITTED" "\<not> is_terminal ACKNOWLEDGED"
  "\<not> is_terminal PARTIALLY_FILLED" "\<not> is_terminal CANCEL_PENDING"
  by (simp_all add: is_terminal_def)

lemma working_not_terminal: "is_working s \<Longrightarrow> \<not> is_terminal s"
  by (auto simp: is_working_def)

lemma side_sign_opposite [simp]: "side_sign (side_opposite s) = - side_sign s"
  by (cases s) simp_all

lemma side_opposite_opposite [simp]: "side_opposite (side_opposite s) = s"
  by (cases s) simp_all

lemma abs_side_sign [simp]: "\<bar>side_sign s\<bar> = 1"
  by (cases s) simp_all

text \<open>The finite enumerations are executable carriers for quantifiers.\<close>

instantiation order_status :: finite
begin
instance proof
  have "(UNIV :: order_status set) \<subseteq>
    {PENDING_NEW, SUBMITTED, ACKNOWLEDGED, PARTIALLY_FILLED, FILLED,
     CANCEL_PENDING, CANCELLED, REJECTED, EXPIRED}"
    by (auto intro: order_status.exhaust)
  then show "finite (UNIV :: order_status set)"
    by (rule finite_subset) simp
qed
end

section \<open>Market data events (core/events.py)\<close>

record tick_event =
  tk_ts :: datetime
  tk_symbol :: string
  tk_bid :: real
  tk_ask :: real
  tk_bid_size :: int
  tk_ask_size :: int
  tk_last :: real
  tk_last_size :: int

definition tick_mid :: "tick_event \<Rightarrow> real" where
  "tick_mid t =
     (if 0 < tk_bid t \<and> 0 < tk_ask t then (tk_bid t + tk_ask t) / 2 else tk_last t)"

record bar_event =
  br_ts :: datetime
  br_symbol :: string
  br_timeframe :: int
  br_open :: real
  br_high :: real
  br_low :: real
  br_close :: real
  br_volume :: real
  br_vwap :: real

record book_level =
  lv_price :: real
  lv_size :: int

record book_event =
  bk_ts :: datetime
  bk_symbol :: string
  bk_bids :: "book_level list"
  bk_asks :: "book_level list"

section \<open>Signals and broker events\<close>

datatype meta_val = MFloat real | MStr string

record signal_event =
  sg_ts :: datetime
  sg_symbol :: string
  sg_strategy :: string
  sg_side :: order_side
  sg_strength :: real
  sg_qty :: int
  sg_type :: order_type
  sg_limit :: "real option"
  sg_tif :: time_in_force
  sg_corr :: string
  sg_oca :: "string option"
  sg_meta :: "(string, meta_val) dict"

record ack_event =
  ak_ts :: datetime
  ak_order_id :: string
  ak_corr :: string
  ak_symbol :: string
  ak_status :: order_status
  ak_broker_id :: "string option"

record reject_event =
  rj_ts :: datetime
  rj_order_id :: string
  rj_corr :: string
  rj_symbol :: string
  rj_reason :: fstr

record exec_event =
  ex_ts :: datetime
  ex_order_id :: string
  ex_corr :: string
  ex_symbol :: string
  ex_side :: order_side
  ex_fill_qty :: int
  ex_fill_price :: real
  ex_cum_qty :: int
  ex_rem_qty :: int
  ex_commission :: real
  ex_liquidity :: string
  ex_expected :: "real option"

text \<open>The property \<^verbatim>\<open>ExecutionEvent.slippage\<close>: positive when the fill is worse than expected.\<close>

definition ex_slippage :: "exec_event \<Rightarrow> real option" where
  "ex_slippage e = (case ex_expected e of
      None \<Rightarrow> None
    | Some p \<Rightarrow>
        (let signed = (if ex_side e = BUY then 1 else -1)
         in Some ((ex_fill_price e - p) * signed)))"

record halt_event =
  rh_ts :: datetime
  rh_reason :: fstr
  rh_by :: string

record heartbeat_event =
  hb_ts :: datetime
  hb_source :: string
  hb_healthy :: bool

section \<open>The event union\<close>

datatype event_type =
    TICK | BAR | ORDER_BOOK | SIGNAL | ORDER_ACK | ORDER_REJECT | EXECUTION | RISK_HALT | HEARTBEAT

datatype event =
    TickE tick_event
  | BarE bar_event
  | BookE book_event
  | SignalE signal_event
  | AckE ack_event
  | RejectE reject_event
  | ExecE exec_event
  | HaltE halt_event
  | HeartbeatE heartbeat_event

fun event_type_of :: "event \<Rightarrow> event_type" where
  "event_type_of (TickE _) = TICK"
| "event_type_of (BarE _) = BAR"
| "event_type_of (BookE _) = ORDER_BOOK"
| "event_type_of (SignalE _) = SIGNAL"
| "event_type_of (AckE _) = ORDER_ACK"
| "event_type_of (RejectE _) = ORDER_REJECT"
| "event_type_of (ExecE _) = EXECUTION"
| "event_type_of (HaltE _) = RISK_HALT"
| "event_type_of (HeartbeatE _) = HEARTBEAT"

text \<open>
  The events a broker adapter streams: \<^verbatim>\<open>OrderAckEvent | OrderRejectEvent | ExecutionEvent\<close>.
\<close>

datatype broker_event = AckB ack_event | RejectB reject_event | ExecB exec_event

fun be_order_id :: "broker_event \<Rightarrow> string" where
  "be_order_id (AckB a) = ak_order_id a"
| "be_order_id (RejectB r) = rj_order_id r"
| "be_order_id (ExecB x) = ex_order_id x"

fun be_event :: "broker_event \<Rightarrow> event" where
  "be_event (AckB a) = AckE a"
| "be_event (RejectB r) = RejectE r"
| "be_event (ExecB x) = ExecE x"

lemma tick_mid_between:
  assumes "0 < tk_bid t" "tk_bid t \<le> tk_ask t"
  shows "tk_bid t \<le> tick_mid t" "tick_mid t \<le> tk_ask t"
  using assms by (simp_all add: tick_mid_def)

lemma ex_slippage_Some:
  "ex_expected e = Some p \<Longrightarrow>
   ex_slippage e = Some ((ex_fill_price e - p) * of_int (side_sign (ex_side e)))"
  by (cases "ex_side e") (simp_all add: ex_slippage_def)

end
