(* ===== verification/Risk_Sizing.thy ===== *)
theory Risk_Sizing
  imports Events
begin

text \<open>
  Margin checks (\<^verbatim>\<open>risk/margin.py\<close>) and position sizing (\<^verbatim>\<open>risk/position_sizing.py\<close>).
\<close>

section \<open>Margin calculator\<close>

record margin_req =
  mr_symbol :: string
  mr_initial :: real
  mr_maintenance :: real

record margin_result =
  mg_passed :: bool
  mg_reason :: fstr
  mg_required_initial :: real
  mg_required_maintenance :: real
  mg_available :: real
  mg_excess :: real

record margin_calc =
  mc_schedule :: "string \<rightharpoonup> margin_req"
  mc_initial_buffer :: real
  mc_maintenance_buffer :: real

definition mc_set_requirement :: "margin_req \<Rightarrow> margin_calc \<Rightarrow> margin_calc" where
  "mc_set_requirement req c = c\<lparr>mc_schedule := (mc_schedule c)(mr_symbol req \<mapsto> req)\<rparr>"

definition mc_check_order ::
  "margin_calc \<Rightarrow> string \<Rightarrow> int \<Rightarrow> int \<Rightarrow> real \<Rightarrow> real \<Rightarrow> real \<Rightarrow> margin_result" where
  "mc_check_order c symbol additional current net_liq initial_used maintenance_used =
     (case mc_schedule c symbol of
        None \<Rightarrow>
          \<lparr>mg_passed = False,
           mg_reason = [Lit ''no margin schedule for symbol='', StrP symbol],
           mg_required_initial = 0, mg_required_maintenance = 0,
           mg_available = net_liq - initial_used, mg_excess = 0\<rparr>
      | Some req \<Rightarrow>
          let projected = \<bar>current + additional\<bar>;
              initial = of_int projected * mr_initial req;
              maintenance = of_int projected * mr_maintenance req;
              buffered_initial = initial * (1 + mc_initial_buffer c / 100);
              buffered_maintenance = maintenance * (1 + mc_maintenance_buffer c / 100);
              excess = net_liq - buffered_initial;
              passed = (0 \<le> excess \<and> buffered_maintenance \<le> net_liq)
          in \<lparr>mg_passed = passed,
              mg_reason =
                (if passed then [Lit ''ok'']
                 else [Lit ''insufficient margin: required_initial(buffered)='', FixP 2 buffered_initial,
                       Lit '' required_maintenance(buffered)='', FixP 2 buffered_maintenance,
                       Lit '' net_liq='', FixP 2 net_liq]),
              mg_required_initial = buffered_initial,
              mg_required_maintenance = buffered_maintenance,
              mg_available = net_liq - initial_used,
              mg_excess = excess\<rparr>)"

lemma mc_check_order_passed_iff:
  "mg_passed (mc_check_order c symb add cur nl iu mu) \<longleftrightarrow>
   (\<exists>req. mc_schedule c symb = Some req
      \<and> of_int \<bar>cur + add\<bar> * mr_initial req * (1 + mc_initial_buffer c / 100) \<le> nl
      \<and> of_int \<bar>cur + add\<bar> * mr_maintenance req * (1 + mc_maintenance_buffer c / 100) \<le> nl)"
  by (auto simp: mc_check_order_def Let_def split: option.split)

lemma mc_check_order_reason:
  "mg_passed (mc_check_order c symb add cur nl iu mu) \<Longrightarrow>
   mg_reason (mc_check_order c symb add cur nl iu mu) = [Lit ''ok'']"
  by (cases "mc_schedule c symb") (simp_all add: mc_check_order_def Let_def)

lemma mc_set_requirement_schedule [simp]:
  "mc_schedule (mc_set_requirement req c) = (mc_schedule c)(mr_symbol req \<mapsto> req)"
  by (simp add: mc_set_requirement_def)

section \<open>Position sizing\<close>

definition kelly_position_size ::
  "real \<Rightarrow> real \<Rightarrow> real \<Rightarrow> real \<Rightarrow> real \<Rightarrow> real \<Rightarrow> real \<Rightarrow> int result" where
  "kelly_position_size p b equity price mult cap max_lev =
     (if \<not> (0 < p \<and> p < 1) then Inl (ValueError [Lit ''win_probability must be in (0, 1)''])
      else if b \<le> 0 then Inl (ValueError [Lit ''win_loss_ratio must be positive''])
      else if price \<le> 0 \<or> mult \<le> 0 \<or> equity \<le> 0
      then Inl (ValueError [Lit ''price, contract_multiplier, account_equity must be positive''])
      else
        let raw_kelly = p - (1 - p) / b;
            raw_kelly = max raw_kelly 0;
            fraction = min (raw_kelly * cap) max_lev;
            notional_target = fraction * equity;
            contract_notional = price * mult;
            contracts = \<lfloor>notional_target / contract_notional\<rfloor>
        in Inr (max contracts 0))"

definition target_volatility_position_size ::
  "real \<Rightarrow> real \<Rightarrow> real \<Rightarrow> real \<Rightarrow> real \<Rightarrow> real \<Rightarrow> int result" where
  "target_volatility_position_size equity target_vol instrument_vol price mult max_leverage =
     (if instrument_vol \<le> 0
      then Inl (ValueError [Lit ''instrument_annual_volatility_pct must be positive''])
      else if price \<le> 0 \<or> mult \<le> 0 \<or> equity \<le> 0
      then Inl (ValueError [Lit ''price, contract_multiplier, account_equity must be positive''])
      else
        let target_dollar_vol = equity * (target_vol / 100);
            contract_notional = price * mult;
            contract_dollar_vol = contract_notional * (instrument_vol / 100);
            contracts = \<lfloor>target_dollar_vol / contract_dollar_vol\<rfloor>;
            by_leverage = \<lfloor>equity * max_leverage / contract_notional\<rfloor>
        in Inr (max (min contracts by_leverage) 0))"

text \<open>A floored, clamped quotient is the largest whole count that stays within the budget.\<close>

lemma floor_clamp_budget:
  fixes a c :: real
  assumes "0 < c"
  shows "of_int (max \<lfloor>a / c\<rfloor> 0) * c \<le> max a 0"
    and "0 \<le> a \<Longrightarrow> a < of_int (max \<lfloor>a / c\<rfloor> 0 + 1) * c"
proof -
  show "of_int (max \<lfloor>a / c\<rfloor> 0) * c \<le> max a 0"
  proof (cases "0 \<le> \<lfloor>a / c\<rfloor>")
    case True
    then have "max \<lfloor>a / c\<rfloor> 0 = \<lfloor>a / c\<rfloor>" by (rule max_absorb1)
    then show ?thesis
      using floor_divide_mult_le [OF assms, of a] by (metis max.coboundedI1)
  next
    case False
    then have "max \<lfloor>a / c\<rfloor> 0 = 0" by (intro max_absorb2) linarith
    then show ?thesis by simp
  qed
  assume "0 \<le> a"
  with assms have "0 \<le> a / c" by simp
  then have "max \<lfloor>a / c\<rfloor> 0 = \<lfloor>a / c\<rfloor>" by (intro max_absorb1) linarith
  then show "a < of_int (max \<lfloor>a / c\<rfloor> 0 + 1) * c"
    using floor_divide_mult_gt [OF assms, of a] by (metis of_int_add of_int_1)
qed

section \<open>Properties\<close>

text \<open>
  An order passes the margin check exactly when its symbol has a schedule and the net
  liquidation value covers both buffered requirements of the projected position in that symbol.
  The margin already used by the rest of the account never enters the verdict.
\<close>

theorem mc_check_order_verdict:
  "(mg_passed (mc_check_order c symb add cur nl iu mu) \<longleftrightarrow>
     (\<exists>req. mc_schedule c symb = Some req
        \<and> of_int \<bar>cur + add\<bar> * mr_initial req * (1 + mc_initial_buffer c / 100) \<le> nl
        \<and> of_int \<bar>cur + add\<bar> * mr_maintenance req * (1 + mc_maintenance_buffer c / 100) \<le> nl))
   \<and> mg_passed (mc_check_order c symb add cur nl iu mu)
       = mg_passed (mc_check_order c symb add cur nl iu' mu')"
  using mc_check_order_passed_iff by simp

text \<open>
  Kelly sizing returns a count only for a win probability strictly between 0 and 1
  and positive ratio, price, multiplier and equity, and then the count is the largest one whose
  notional stays within the capped Kelly fraction of equity (zero for a bet without edge).
\<close>

theorem kelly_position_size_within_budget:
  assumes "kelly_position_size p b equity price mult cap max_lev = Inr n"
  defines "budget \<equiv> min (max (p - (1 - p) / b) 0 * cap) max_lev * equity"
  shows "0 < p \<and> p < 1 \<and> 0 < b \<and> 0 < price \<and> 0 < mult \<and> 0 < equity
    \<and> 0 \<le> n \<and> of_int n * (price * mult) \<le> max budget 0
    \<and> (0 \<le> budget \<longrightarrow> budget < of_int (n + 1) * (price * mult))"
proof -
  from assms(1) have pos: "0 < p" "p < 1" "0 < b" "0 < price" "0 < mult" "0 < equity"
    and n: "n = max \<lfloor>budget / (price * mult)\<rfloor> 0"
    by (auto simp: kelly_position_size_def budget_def Let_def split: if_splits)
  have c: "0 < price * mult" using pos by simp
  show ?thesis
    using pos floor_clamp_budget [OF c, of budget] by (simp add: n)
qed

theorem kelly_position_size_within_budget_witness:
  "kelly_position_size (6 / 10) 1 1000 10 2 (1 / 2) 1 = Inr 5 \<and> of_int 5 * (10 * 2) \<le> (100 :: real)"
proof -
  have h: "kelly_position_size (6 / 10) 1 1000 10 2 (1 / 2) 1 = Inr 5"
    by (simp add: kelly_position_size_def Let_def max_def min_def)
  show ?thesis
    using kelly_position_size_within_budget [OF h] h by (simp add: max_def min_def)
qed

text \<open>
  Target-volatility sizing returns a non-negative count whose dollar volatility stays
  within the target and whose notional stays within the leverage ceiling.
\<close>

theorem target_volatility_position_size_within_limits:
  assumes "target_volatility_position_size equity tv iv price mult lev = Inr n"
  shows "0 \<le> n
    \<and> of_int n * (price * mult * (iv / 100)) \<le> max (equity * (tv / 100)) 0
    \<and> of_int n * (price * mult) \<le> max (equity * lev) 0"
proof -
  let ?k = "\<lfloor>equity * (tv / 100) / (price * mult * (iv / 100))\<rfloor>"
  let ?l = "\<lfloor>equity * lev / (price * mult)\<rfloor>"
  from assms have pos: "0 < iv" "0 < price" "0 < mult" "0 < equity" and n: "n = max (min ?k ?l) 0"
    by (auto simp: target_volatility_position_size_def Let_def split: if_splits)
  have c: "0 < price * mult" "0 < price * mult * (iv / 100)" using pos by simp_all
  have "of_int n * (price * mult) \<le> of_int (max ?l 0) * (price * mult)"
    using c(1) by (intro mult_right_mono) (auto simp: n)
  also have "\<dots> \<le> max (equity * lev) 0" by (rule floor_clamp_budget [OF c(1)])
  finally have lev: "of_int n * (price * mult) \<le> max (equity * lev) 0" .
  have "of_int n * (price * mult * (iv / 100)) \<le> of_int (max ?k 0) * (price * mult * (iv / 100))"
    using c(2) by (intro mult_right_mono) (auto simp: n)
  also have "\<dots> \<le> max (equity * (tv / 100)) 0" by (rule floor_clamp_budget [OF c(2)])
  finally show ?thesis using lev by (simp add: n)
qed

theorem target_volatility_position_size_within_limits_witness:
  "target_volatility_position_size 1000 12 24 5 1 1 = Inr 100 \<and> of_int 100 * (5 * 1) \<le> (1000 :: real)"
proof -
  have h: "target_volatility_position_size 1000 12 24 5 1 1 = Inr 100"
    by (simp add: target_volatility_position_size_def Let_def max_def min_def)
  show ?thesis
    using target_volatility_position_size_within_limits [OF h] h by simp
qed

end
