(* ===== verification/Interfaces.thy ===== *)
theory Interfaces
  imports Events
begin

text \<open>
  The contracts between components, as locales.  A locale fixes the operations a client
  calls and assumes the laws the provider promises; what every client may conclude is proved
  here once, and each provider's theory interprets the locale on its own definitions.
\<close>

section \<open>A latch that fires once\<close>

text \<open>
  A step that may \<open>fire\<close> sets the latch, and a set latch neither fires again nor opens while
  inputs are admissible.  The circuit breaker promises this within one trading day.
\<close>

locale one_shot_latch =
  fixes step :: "'i \<Rightarrow> 's \<Rightarrow> bool \<times> 's"
    and latched :: "'s \<Rightarrow> bool"
    and adm :: "'i \<Rightarrow> 's \<Rightarrow> bool"
  assumes latch_stays: "adm i s \<Longrightarrow> latched s \<Longrightarrow> \<not> fst (step i s) \<and> latched (snd (step i s))"
    and latch_fires: "adm i s \<Longrightarrow> \<not> latched s \<Longrightarrow> latched (snd (step i s)) = fst (step i s)"
begin

lemma run_latched:
  "run_ok adm step is s \<Longrightarrow> latched s \<Longrightarrow>
   latched (snd (drive step is s)) \<and> True \<notin> set (fst (drive step is s))"
proof (induction "is" arbitrary: s)
  case Nil
  then show ?case by simp
next
  case (Cons i "is")
  then have "\<not> fst (step i s)" "latched (snd (step i s))"
    using latch_stays by auto
  with Cons show ?case by (simp add: drive_Cons)
qed

lemma run_fires_iff:
  "run_ok adm step is s \<Longrightarrow> \<not> latched s \<Longrightarrow>
   latched (snd (drive step is s)) \<longleftrightarrow> True \<in> set (fst (drive step is s))"
proof (induction "is" arbitrary: s)
  case Nil
  then show ?case by simp
next
  case (Cons i "is")
  then have rest: "run_ok adm step is (snd (step i s))"
    and now: "latched (snd (step i s)) = fst (step i s)"
    using latch_fires by auto
  show ?case
  proof (cases "fst (step i s)")
    case True
    with now rest show ?thesis by (simp add: drive_Cons run_latched)
  next
    case False
    with now rest Cons.IH show ?thesis by (simp add: drive_Cons)
  qed
qed

lemma run_fires_once:
  "run_ok adm step is s \<Longrightarrow> length (filter (\<lambda>fired. fired) (fst (drive step is s))) \<le> 1"
proof (induction "is" arbitrary: s)
  case Nil
  then show ?case by simp
next
  case (Cons i "is")
  then have rest: "run_ok adm step is (snd (step i s))" and "adm i s" by simp_all
  show ?case
  proof (cases "fst (step i s)")
    case True
    with \<open>adm i s\<close> have "latched (snd (step i s))"
      using latch_stays latch_fires by blast
    with rest have "True \<notin> set (fst (drive step is (snd (step i s))))"
      by (rule run_latched [THEN conjunct2])
    then have "filter (\<lambda>fired. fired) (fst (drive step is (snd (step i s)))) = []"
      by (auto simp: filter_empty_conv)
    with True show ?thesis by (simp add: drive_Cons)
  next
    case False
    with Cons.IH rest show ?thesis by (simp add: drive_Cons)
  qed
qed

end

section \<open>A sliding window that bounds a rate\<close>

text \<open>
  A component that admits a request only while fewer than \<open>capacity\<close> admissions are remembered
  from the last \<open>width\<close> seconds.  The law speaks of the recent part of the memory only, so a
  provider may forget old entries lazily, at some calls and not at others.
\<close>

definition admitted :: "('i \<Rightarrow> real) \<Rightarrow> 'i list \<Rightarrow> bool list \<Rightarrow> real list" where
  "admitted tm is rs = map (\<lambda>(i, r). tm i) (filter snd (zip is rs))"

lemma admitted_simps [simp]:
  "admitted tm [] rs = []"
  "admitted tm (i # is) (r # rs) = (if r then [tm i] else []) @ admitted tm is rs"
  by (simp_all add: admitted_def)

definition count_within :: "real \<Rightarrow> real \<Rightarrow> real list \<Rightarrow> nat" where
  "count_within w t us = length (filter (\<lambda>u. t - w \<le> u \<and> u \<le> t) us)"

definition dense_below :: "real \<Rightarrow> real \<Rightarrow> real list \<Rightarrow> bool" where
  "dense_below w c past \<longleftrightarrow>
     (\<forall>k < length past. real (length (filter (\<lambda>u. past ! k - u \<le> w) (take (Suc k) past))) < c + 1)"

lemma dense_below_snoc:
  assumes "dense_below w c past" "real (length (filter (\<lambda>u. t - u \<le> w) past)) < c" "0 \<le> w"
  shows "dense_below w c (past @ [t])"
  unfolding dense_below_def
proof (intro allI impI)
  fix k
  assume "k < length (past @ [t])"
  then consider "k < length past" | "k = length past" by fastforce
  then show "real (length (filter (\<lambda>u. (past @ [t]) ! k - u \<le> w) (take (Suc k) (past @ [t])))) < c + 1"
  proof cases
    case 1
    with assms(1) show ?thesis by (simp add: dense_below_def nth_append)
  next
    case 2
    with assms(2,3) show ?thesis by simp
  qed
qed

text \<open>Density at every admission bounds the count in every interval of the same width.\<close>

lemma dense_below_count:
  assumes "dense_below w c past" "sorted past"
  shows "count_within w t past = 0 \<or> real (count_within w t past) < c + 1"
proof (cases "filter (\<lambda>u. u \<le> t) past")
  case Nil
  then have "filter (\<lambda>u. t - w \<le> u \<and> u \<le> t) past = []"
    by (auto simp: filter_empty_conv)
  then show ?thesis by (simp add: count_within_def)
next
  case (Cons x xs)
  define low where "low = takeWhile (\<lambda>u. u \<le> t) past"
  have low: "filter (\<lambda>u. u \<le> t) past = low"
    using assms(2) by (simp add: low_def filter_le_takeWhile)
  define k where "k = length low - 1"
  have ne: "low \<noteq> []" using Cons low by auto
  then have "Suc k = length low" by (simp add: k_def)
  then have take_low: "take (Suc k) past = low"
    by (simp only: low_def takeWhile_eq_take [symmetric])
  have "past ! k = take (Suc k) past ! k" by simp
  also have "\<dots> = last low" using ne by (simp only: take_low) (simp add: k_def last_conv_nth)
  finally have "past ! k = last low" .
  moreover have "last low \<le> t"
    using ne last_in_set [of low] set_takeWhileD [of "last low" "\<lambda>u. u \<le> t" past]
    by (simp add: low_def)
  ultimately have kt: "past ! k \<le> t" by simp
  have "length low \<le> length past" by (simp add: low_def length_takeWhile_le)
  moreover have "0 < length low" using ne by simp
  ultimately have "k < length past" unfolding k_def by linarith
  then have "real (length (filter (\<lambda>u. past ! k - u \<le> w) low)) < c + 1"
    using assms(1) take_low by (metis dense_below_def)
  moreover have "count_within w t past = length (filter (\<lambda>u. t - w \<le> u) low)"
    unfolding count_within_def low [symmetric] filter_filter by (simp add: conj_commute)
  moreover have "length (filter (\<lambda>u. t - w \<le> u) low) \<le> length (filter (\<lambda>u. past ! k - u \<le> w) low)"
    using kt by (intro length_filter_impl) auto
  ultimately show ?thesis by linarith
qed

locale admission_window =
  fixes admit :: "'i \<Rightarrow> 's \<Rightarrow> bool \<times> 's"
    and tm :: "'i \<Rightarrow> real"
    and window :: "'s \<Rightarrow> real list"
    and width :: real
    and capacity :: "'s \<Rightarrow> real"
  assumes width_nonneg: "0 \<le> width"
    and window_sorted: "sorted (window s) \<Longrightarrow> (\<forall>u \<in> set (window s). u \<le> tm i) \<Longrightarrow>
      sorted (window (snd (admit i s))) \<and> (\<forall>u \<in> set (window (snd (admit i s))). u \<le> tm i)"
    and window_recent: "sorted (window s) \<Longrightarrow>
      filter (\<lambda>u. tm i - u \<le> width) (window (snd (admit i s))) =
      filter (\<lambda>u. tm i - u \<le> width) (window s) @ (if fst (admit i s) then [tm i] else [])"
    and admits_below: "sorted (window s) \<Longrightarrow> fst (admit i s) \<Longrightarrow>
      real (length (filter (\<lambda>u. tm i - u \<le> width) (window s))) < capacity s"
    and capacity_kept: "capacity (snd (admit i s)) = capacity s"
begin

lemma dense_run:
  assumes "sorted (map tm is)" "\<forall>i \<in> set is. l \<le> tm i"
    and "sorted past" "\<forall>u \<in> set past. u \<le> l"
    and "sorted (window s)" "\<forall>u \<in> set (window s). u \<le> l"
    and "\<forall>x \<ge> l. filter (\<lambda>u. x - u \<le> width) (window s) = filter (\<lambda>u. x - u \<le> width) past"
    and "dense_below width (capacity s) past"
  shows "dense_below width (capacity s) (past @ admitted tm is (fst (drive admit is s)))
    \<and> sorted (past @ admitted tm is (fst (drive admit is s)))"
  using assms
proof (induction "is" arbitrary: s past l)
  case Nil
  then show ?case by simp
next
  case (Cons i "is")
  let ?s = "snd (admit i s)" and ?g = "fst (admit i s)"
  let ?past = "past @ (if ?g then [tm i] else [])"
  have l: "l \<le> tm i" and later: "sorted (map tm is)" "\<forall>j \<in> set is. tm i \<le> tm j"
    using Cons.prems(1,2) by simp_all
  have le: "\<forall>u \<in> set past. u \<le> tm i" "\<forall>u \<in> set (window s). u \<le> tm i"
    using Cons.prems(4,6) l by (blast intro: order_trans)+
  have recent: "filter (\<lambda>u. tm i - u \<le> width) (window s) = filter (\<lambda>u. tm i - u \<le> width) past"
    using Cons.prems(7) l by blast
  have win: "sorted (window ?s)" "\<forall>u \<in> set (window ?s). u \<le> tm i"
    using window_sorted [OF Cons.prems(5) le(2)] by simp_all
  have past: "sorted ?past" "\<forall>u \<in> set ?past. u \<le> tm i"
    using Cons.prems(3) le(1) by (cases ?g; simp add: sorted_append)+
  have same: "filter (\<lambda>u. x - u \<le> width) (window ?s) = filter (\<lambda>u. x - u \<le> width) ?past"
    if "tm i \<le> x" for x
  proof -
    have narrow: "filter (\<lambda>u. x - u \<le> width) us =
        filter (\<lambda>u. x - u \<le> width) (filter (\<lambda>u. tm i - u \<le> width) us)" for us
      using that by (auto intro!: filter_cong)
    have "filter (\<lambda>u. tm i - u \<le> width) (window ?s) = filter (\<lambda>u. tm i - u \<le> width) ?past"
      using window_recent [OF Cons.prems(5), of i] recent width_nonneg by simp
    then show ?thesis using narrow [of "window ?s"] narrow [of ?past] by metis
  qed
  have dense: "dense_below width (capacity ?s) ?past"
  proof (cases ?g)
    case True
    then have "real (length (filter (\<lambda>u. tm i - u \<le> width) past)) < capacity s"
      using admits_below [OF Cons.prems(5)] recent by metis
    with True Cons.prems(8) width_nonneg show ?thesis
      by (simp add: capacity_kept dense_below_snoc)
  next
    case False
    with Cons.prems(8) show ?thesis by (simp add: capacity_kept)
  qed
  have "dense_below width (capacity ?s) (?past @ admitted tm is (fst (drive admit is ?s)))
    \<and> sorted (?past @ admitted tm is (fst (drive admit is ?s)))"
    using later past win same dense by (intro Cons.IH [of "tm i"]) auto
  then show ?case by (simp add: capacity_kept)
qed

text \<open>From an empty window, no interval of length \<open>width\<close> holds more than its capacity.\<close>

theorem admission_rate:
  assumes "sorted (map tm is)" "window s = []"
  shows "count_within width t (admitted tm is (fst (drive admit is s))) = 0
    \<or> real (count_within width t (admitted tm is (fst (drive admit is s)))) < capacity s + 1"
proof (cases "is")
  case Nil
  then show ?thesis by (simp add: count_within_def)
next
  case (Cons i js)
  have "dense_below width (capacity s) ([] @ admitted tm is (fst (drive admit is s)))
    \<and> sorted ([] @ admitted tm is (fst (drive admit is s)))"
    using assms Cons by (intro dense_run [of _ "tm i"]) (auto simp: dense_below_def)
  then show ?thesis by (intro dense_below_count) simp_all
qed

end

section \<open>A first-in first-out channel\<close>

text \<open>
  A queue that accepts or refuses an element and hands elements out in order.  Whatever the
  interleaving of puts and gets, what came out followed by what is still inside is what was
  inside at first followed by what was accepted: nothing lost, duplicated or reordered.
\<close>

datatype 'e channel_op = Put 'e | Get

locale fifo_channel =
  fixes put :: "'e \<Rightarrow> 'q \<Rightarrow> bool \<times> 'q"
    and get :: "'q \<Rightarrow> ('e \<times> 'q) option"
    and contents :: "'q \<Rightarrow> 'e list"
  assumes put_accepted: "fst (put e q) \<Longrightarrow> contents (snd (put e q)) = contents q @ [e]"
    and put_refused: "\<not> fst (put e q) \<Longrightarrow> contents (snd (put e q)) = contents q"
    and get_None: "get q = None \<longleftrightarrow> contents q = []"
    and get_Some: "get q = Some (e, q') \<Longrightarrow> contents q = e # contents q'"
begin

fun channel_run :: "'e channel_op list \<Rightarrow> 'q \<Rightarrow> ('e list \<times> 'e list) \<times> 'q" where
  "channel_run [] q = (([], []), q)"
| "channel_run (Put e # ops) q =
     (case channel_run ops (snd (put e q)) of
        ((accepted, got), q') \<Rightarrow> (((if fst (put e q) then e # accepted else accepted), got), q'))"
| "channel_run (Get # ops) q =
     (case get q of
        None \<Rightarrow> channel_run ops q
      | Some (e, q1) \<Rightarrow>
          (case channel_run ops q1 of ((accepted, got), q') \<Rightarrow> ((accepted, e # got), q')))"

lemma channel_conserves:
  "channel_run ops q = ((accepted, got), q') \<Longrightarrow> got @ contents q' = contents q @ accepted"
proof (induction ops arbitrary: q accepted got q')
  case Nil
  then show ?case by simp
next
  case (Cons oper ops)
  show ?case
  proof (cases oper)
    case (Put e)
    obtain a g q1 where r: "channel_run ops (snd (put e q)) = ((a, g), q1)"
      by (metis prod.exhaust)
    then have "g @ contents q1 = contents (snd (put e q)) @ a" by (rule Cons.IH)
    with Cons.prems Put r show ?thesis
      by (cases "fst (put e q)") (auto simp: put_accepted put_refused)
  next
    case Get
    show ?thesis
    proof (cases "get q")
      case None
      with Cons Get show ?thesis by simp
    next
      case (Some p)
      obtain e q0 where p: "p = (e, q0)" by (cases p)
      obtain a g q1 where r: "channel_run ops q0 = ((a, g), q1)"
        by (metis prod.exhaust)
      then have "g @ contents q1 = contents q0 @ a" by (rule Cons.IH)
      with Cons.prems Get Some p r get_Some [of q e q0] show ?thesis by auto
    qed
  qed
qed

end

end
