(* ===== verification/Circuit_Breaker.thy ===== *)
theory Circuit_Breaker
  imports Interfaces
begin

text \<open>
  The drawdown circuit breaker, \<^verbatim>\<open>risk/circuit_breaker.py\<close>: its dataclass is the record
  \<open>breaker\<close>, each method a function on it.  \<open>cb_update\<close> returns the method's result (or
  exception) with the breaker it leaves behind; the clock is an argument.
\<close>

section \<open>State and operations\<close>

record breaker =
  cb_max_dd :: real        \<comment> \<open>max_daily_drawdown_pct\<close>
  cb_start :: real         \<comment> \<open>starting_equity\<close>
  cb_date :: date          \<comment> \<open>_session_date\<close>
  cb_peak :: real
  cb_halted :: bool
  cb_reason :: fstr
  cb_auto_reset :: bool    \<comment> \<open>_auto_reset_pending\<close>

definition cb_init :: "real \<Rightarrow> real \<Rightarrow> date \<Rightarrow> breaker result" where
  "cb_init max_dd start today =
     (if start \<le> 0 then Inl (ValueError [Lit ''starting_equity must be positive''])
      else if \<not> (0 < max_dd \<and> max_dd \<le> 100)
      then Inl (ValueError [Lit ''max_daily_drawdown_pct must be in (0, 100]''])
      else Inr \<lparr>cb_max_dd = max_dd, cb_start = start, cb_date = today, cb_peak = start,
                cb_halted = False, cb_reason = [], cb_auto_reset = False\<rparr>)"

definition cb_consume_auto_reset :: "breaker \<Rightarrow> bool \<times> breaker" where
  "cb_consume_auto_reset b = (cb_auto_reset b, b\<lparr>cb_auto_reset := False\<rparr>)"

definition cb_reset_session :: "real \<Rightarrow> date \<Rightarrow> breaker \<Rightarrow> breaker" where
  "cb_reset_session equity session_date b =
     b\<lparr>cb_start := equity, cb_peak := equity, cb_date := session_date,
       cb_halted := False, cb_reason := []\<rparr>"

record cb_snap =
  sn_date :: date
  sn_start :: real
  sn_peak :: real
  sn_halted :: bool
  sn_reason :: fstr

definition cb_snapshot :: "breaker \<Rightarrow> cb_snap" where
  "cb_snapshot b = \<lparr>sn_date = cb_date b, sn_start = cb_start b, sn_peak = cb_peak b,
                    sn_halted = cb_halted b, sn_reason = cb_reason b\<rparr>"

definition cb_restore :: "cb_snap \<Rightarrow> breaker \<Rightarrow> breaker" where
  "cb_restore sn b =
     b\<lparr>cb_date := sn_date sn, cb_start := sn_start sn, cb_peak := sn_peak sn,
       cb_halted := sn_halted sn, cb_reason := sn_reason sn\<rparr>"

definition cb_trip_reason :: "real \<Rightarrow> real \<Rightarrow> breaker \<Rightarrow> fstr" where
  "cb_trip_reason dd equity b =
     [Lit ''daily drawdown '', FixP 3 dd, Lit ''% >= limit '', FixP 3 (cb_max_dd b),
      Lit ''% (equity='', FixP 2 equity, Lit '', start='', FixP 2 (cb_start b),
      Lit '', peak='', FixP 2 (cb_peak b), Lit '')'']"

text \<open>The two drawdowns of an update, in percent; either division may raise.\<close>

definition cb_drawdown :: "real \<Rightarrow> breaker \<Rightarrow> real result" where
  "cb_drawdown equity b =
     and_then (fdiv (cb_start b - equity) (cb_start b)) (\<lambda>from_start.
     and_then (fdiv (cb_peak b - equity) (cb_peak b)) (\<lambda>from_peak.
       Inr (max (from_start * 100) (from_peak * 100))))"

definition cb_update :: "real \<Rightarrow> datetime \<Rightarrow> breaker \<Rightarrow> bool result \<times> breaker" where
  "cb_update equity now b =
     (if date_of now \<noteq> cb_date b
      then (Inr False, (cb_reset_session equity (date_of now) b)\<lparr>cb_auto_reset := True\<rparr>)
      else
        let b1 = b\<lparr>cb_peak := max (cb_peak b) equity\<rparr> in
        if cb_halted b1 then (Inr False, b1)
        else case cb_drawdown equity b1 of
            Inl e \<Rightarrow> (Inl e, b1)
          | Inr dd \<Rightarrow>
              if cb_max_dd b1 \<le> dd
              then (Inr True, b1\<lparr>cb_halted := True, cb_reason := cb_trip_reason dd equity b1\<rparr>)
              else (Inr False, b1))"

definition cb_force_halt :: "fstr \<Rightarrow> breaker \<Rightarrow> breaker" where
  "cb_force_halt reason b = b\<lparr>cb_halted := True, cb_reason := reason\<rparr>"

section \<open>Invariant\<close>

definition cb_inv :: "breaker \<Rightarrow> bool" where
  "cb_inv b \<longleftrightarrow> 0 < cb_max_dd b \<and> cb_max_dd b \<le> 100 \<and> 0 < cb_start b \<and> cb_start b \<le> cb_peak b
     \<and> (\<not> cb_halted b \<longrightarrow> cb_reason b = [])"

lemma cb_inv_init [inv_intros]: "cb_init m s d = Inr b \<Longrightarrow> cb_inv b"
  by (auto simp: cb_init_def cb_inv_def split: if_splits)

lemma cb_inv_reset [inv_intros]: "cb_inv b \<Longrightarrow> 0 < e \<Longrightarrow> cb_inv (cb_reset_session e d b)"
  by (simp add: cb_inv_def cb_reset_session_def)

lemma cb_inv_force_halt [inv_intros]: "cb_inv b \<Longrightarrow> cb_inv (cb_force_halt r b)"
  by (simp add: cb_inv_def cb_force_halt_def)

lemma cb_inv_consume [inv_intros]: "cb_inv b \<Longrightarrow> cb_inv (snd (cb_consume_auto_reset b))"
  by (simp add: cb_inv_def cb_consume_auto_reset_def)

lemma cb_inv_restore [inv_intros]:
  "cb_inv b \<Longrightarrow> cb_inv b0 \<Longrightarrow> cb_inv (cb_restore (cb_snapshot b0) b)"
  by (simp add: cb_inv_def cb_restore_def cb_snapshot_def)

text \<open>
  Under the invariant the test of \<open>cb_update\<close> is one comparison: the drawdown from the
  session peak dominates the drawdown from the session start whenever either can matter.
\<close>

definition cb_threshold :: "breaker \<Rightarrow> real" where
  "cb_threshold b = (1 - cb_max_dd b / 100) * cb_peak b"

lemma cb_drawdown_ge_iff:
  assumes "cb_inv b" "e \<le> cb_peak b"
  shows "\<exists>dd. cb_drawdown e b = Inr dd \<and> (cb_max_dd b \<le> dd \<longleftrightarrow> e \<le> cb_threshold b)"
proof -
  let ?s = "cb_start b" and ?p = "cb_peak b" and ?m = "cb_max_dd b"
  have pos: "0 < ?s" "0 < ?p" "?s \<le> ?p" "0 < ?m" "?m \<le> 100"
    using assms by (auto simp: cb_inv_def)
  have from_peak: "?m \<le> (?p - e) / ?p * 100 \<longleftrightarrow> e \<le> cb_threshold b"
    using pos by (simp add: cb_threshold_def field_simps)
  have from_start: "e \<le> cb_threshold b" if "?m \<le> (?s - e) / ?s * 100"
  proof -
    have "e \<le> (1 - ?m / 100) * ?s" using that pos by (simp add: field_simps)
    also have "\<dots> \<le> (1 - ?m / 100) * ?p" using pos by (intro mult_left_mono) auto
    finally show ?thesis by (simp add: cb_threshold_def)
  qed
  have "cb_drawdown e b = Inr (max ((?s - e) / ?s * 100) ((?p - e) / ?p * 100))"
    using pos by (simp add: cb_drawdown_def)
  moreover have "?m \<le> max ((?s - e) / ?s * 100) ((?p - e) / ?p * 100) \<longleftrightarrow> e \<le> cb_threshold b"
    using from_peak from_start by (metis le_max_iff_disj)
  ultimately show ?thesis by blast
qed

lemma cb_inv_peak: "cb_inv b \<Longrightarrow> cb_inv (b\<lparr>cb_peak := max (cb_peak b) e\<rparr>)"
  by (auto simp: cb_inv_def)

text \<open>The three outcomes of a same-day update of a breaker that is not halted.\<close>

lemma cb_update_same_day:
  fixes b :: breaker and e :: real
  assumes "cb_inv b" "date_of now = cb_date b" "\<not> cb_halted b"
  defines "b1 \<equiv> b\<lparr>cb_peak := max (cb_peak b) e\<rparr>"
  shows "fst (cb_update e now b) = Inr (e \<le> cb_threshold b1)"
    and "cb_halted (snd (cb_update e now b)) \<longleftrightarrow> e \<le> cb_threshold b1"
    and "cb_peak (snd (cb_update e now b)) = max (cb_peak b) e"
proof -
  have "cb_inv b1" "e \<le> cb_peak b1"
    using assms(1) by (simp_all add: b1_def cb_inv_peak)
  then obtain dd where dd: "cb_drawdown e b1 = Inr dd" "cb_max_dd b1 \<le> dd \<longleftrightarrow> e \<le> cb_threshold b1"
    using cb_drawdown_ge_iff by blast
  have upd: "cb_update e now b =
      (if cb_max_dd b1 \<le> dd
       then (Inr True, b1\<lparr>cb_halted := True, cb_reason := cb_trip_reason dd e b1\<rparr>)
       else (Inr False, b1))"
    using assms(2,3) dd(1) by (simp add: cb_update_def b1_def Let_def)
  show "fst (cb_update e now b) = Inr (e \<le> cb_threshold b1)"
    and "cb_halted (snd (cb_update e now b)) \<longleftrightarrow> e \<le> cb_threshold b1"
    and "cb_peak (snd (cb_update e now b)) = max (cb_peak b) e"
    using dd(2) assms(3) by (simp_all add: upd b1_def)
qed

lemma cb_update_halted:
  "date_of now = cb_date b \<Longrightarrow> cb_halted b \<Longrightarrow>
   cb_update e now b = (Inr False, b\<lparr>cb_peak := max (cb_peak b) e\<rparr>)"
  by (simp add: cb_update_def)

lemma cb_update_rollover:
  "date_of now \<noteq> cb_date b \<Longrightarrow>
   cb_update e now b = (Inr False, (cb_reset_session e (date_of now) b)\<lparr>cb_auto_reset := True\<rparr>)"
  by (simp add: cb_update_def)

text \<open>Configuration and, within a day, the session itself are frame fields of an update.\<close>

lemma cb_update_frame:
  "cb_max_dd (snd (cb_update e now b)) = cb_max_dd b"
  "cb_date (snd (cb_update e now b)) = date_of now"
  "date_of now = cb_date b \<Longrightarrow> cb_start (snd (cb_update e now b)) = cb_start b"
  by (auto simp: cb_update_def cb_reset_session_def Let_def split: sum.splits)

lemma cb_inv_update [inv_intros]:
  assumes "cb_inv b" "0 < e"
  shows "cb_inv (snd (cb_update e now b))"
proof (cases "date_of now = cb_date b")
  case True
  then show ?thesis
    using cb_inv_peak [OF assms(1), of e]
    by (auto simp: cb_update_def Let_def cb_inv_def split: sum.splits)
next
  case False
  with assms show ?thesis
    by (simp add: cb_update_rollover cb_inv_def cb_reset_session_def)
qed

section \<open>The latch\<close>

text \<open>
  Within one day the breaker is a one-shot latch: \<open>cb_fire\<close> is \<open>cb_update\<close> seen through
  \<^verbatim>\<open>if circuit_breaker.update(equity):\<close>, where an exception is no firing.
\<close>

definition cb_fire :: "real \<times> datetime \<Rightarrow> breaker \<Rightarrow> bool \<times> breaker" where
  "cb_fire = (\<lambda>(e, now) b. (fst (cb_update e now b) = Inr True, snd (cb_update e now b)))"

definition cb_same_day :: "real \<times> datetime \<Rightarrow> breaker \<Rightarrow> bool" where
  "cb_same_day = (\<lambda>(e, now) b. date_of now = cb_date b)"

interpretation cbl: one_shot_latch cb_fire cb_halted cb_same_day
proof
  fix i :: "real \<times> datetime" and b :: breaker
  assume adm: "cb_same_day i b"
  show "cb_halted b \<Longrightarrow> \<not> fst (cb_fire i b) \<and> cb_halted (snd (cb_fire i b))"
    using adm by (cases i) (simp add: cb_fire_def cb_same_day_def cb_update_halted)
  show "\<not> cb_halted b \<Longrightarrow> cb_halted (snd (cb_fire i b)) = fst (cb_fire i b)"
    using adm by (cases i)
      (auto simp: cb_fire_def cb_same_day_def cb_update_def Let_def split: sum.splits)
qed

text \<open>A run of equities observed on one day is admissible.\<close>

lemma cb_run_same_day:
  "list_all (\<lambda>(e, now). date_of now = d) is \<Longrightarrow> cb_date b = d \<Longrightarrow> run_ok cb_same_day cb_fire is b"
proof (induction "is" arbitrary: b)
  case Nil
  then show ?case by simp
next
  case (Cons i "is")
  then show ?case
    by (cases i) (simp add: cb_same_day_def cb_fire_def cb_update_frame)
qed

text \<open>
  Halting as the operator understands it: some observed equity lay at or below the threshold
  of the highest equity seen up to then.
\<close>

definition cb_breach :: "real \<Rightarrow> real \<Rightarrow> real list \<Rightarrow> bool" where
  "cb_breach limit start es \<longleftrightarrow>
     (\<exists>k < length es. es ! k \<le> (1 - limit / 100) * fold max (take (Suc k) es) start)"

lemma cb_breach_Nil [simp]: "\<not> cb_breach m p []"
  by (simp add: cb_breach_def)

lemma cb_breach_Cons:
  "cb_breach m p (e # es) \<longleftrightarrow> e \<le> (1 - m / 100) * max e p \<or> cb_breach m (max e p) es"
proof -
  have "(\<exists>k < Suc (length es). (e # es) ! k \<le> (1 - m / 100) * fold max (take (Suc k) (e # es)) p) \<longleftrightarrow>
        (e # es) ! 0 \<le> (1 - m / 100) * fold max (take (Suc 0) (e # es)) p \<or>
        (\<exists>k < length es. (e # es) ! Suc k \<le> (1 - m / 100) * fold max (take (Suc (Suc k)) (e # es)) p)"
    by (auto simp: Ex_less_Suc2)
  then show ?thesis by (simp add: cb_breach_def)
qed

lemma cb_day_refines_breach:
  assumes "list_all (\<lambda>(e, now). 0 < e \<and> date_of now = d) is" "cb_date b = d" "cb_inv b"
    and "\<not> cb_halted b"
  shows "cb_halted (snd (drive cb_fire is b)) \<longleftrightarrow> cb_breach (cb_max_dd b) (cb_peak b) (map fst is)"
  using assms
proof (induction "is" arbitrary: b)
  case Nil
  then show ?case by simp
next
  case (Cons i "is")
  obtain e now where i: "i = (e, now)" by (cases i)
  let ?b1 = "snd (cb_update e now b)"
  have e: "0 < e" "date_of now = cb_date b"
    and rest: "list_all (\<lambda>(e, now). 0 < e \<and> date_of now = d) is"
    using Cons.prems i by auto
  note upd = cb_update_same_day [OF Cons.prems(3) e(2) Cons.prems(4), of e]
  have b1: "cb_inv ?b1" "cb_date ?b1 = d" "cb_max_dd ?b1 = cb_max_dd b"
    using Cons.prems e by (auto simp: cb_update_frame intro: cb_inv_update)
  have hd: "snd (cb_fire (e, now) b) = ?b1" by (simp add: cb_fire_def)
  show ?case
  proof (cases "cb_halted ?b1")
    case True
    have "run_ok cb_same_day cb_fire is ?b1"
      using rest b1(2) by (intro cb_run_same_day [of d]) (auto simp: list_all_iff)
    with True have "cb_halted (snd (drive cb_fire is ?b1))"
      using cbl.run_latched by blast
    with True upd(2) show ?thesis
      by (simp add: drive_Cons hd cb_breach_Cons i cb_threshold_def max.commute)
  next
    case False
    then have "cb_halted (snd (drive cb_fire is ?b1)) \<longleftrightarrow>
        cb_breach (cb_max_dd b) (max (cb_peak b) e) (map fst is)"
      using Cons.IH [OF rest b1(2,1)] b1(3) upd(3) by simp
    with False upd(2) show ?thesis
      by (simp add: drive_Cons hd cb_breach_Cons i cb_threshold_def max.commute)
  qed
qed

section \<open>Properties\<close>

text \<open>
  Property C7. A session started at equity \<open>s > 0\<close> with limit \<open>m\<close> percent and fed the equities
  of one day is halted at the end exactly when some observed equity had fallen to \<open>m\<close> percent or
  more below the highest equity seen up to that moment (the start included): the concrete update
  loop refines the drawdown rule.
\<close>

theorem cb_session_halts_iff_breach:
  assumes "cb_init m s d = Inr b"
    and "list_all (\<lambda>(e, now). 0 < e \<and> date_of now = d) is"
  shows "cb_halted (snd (drive cb_fire is b)) \<longleftrightarrow> cb_breach m s (map fst is)"
proof -
  have b: "cb_inv b" "cb_date b = d" "\<not> cb_halted b" "cb_max_dd b = m" "cb_peak b = s"
    using assms(1) cb_inv_init by (auto simp: cb_init_def split: if_splits)
  show ?thesis
    using cb_day_refines_breach [OF assms(2) b(2,1,3)] b(4,5) by simp
qed

theorem cb_session_halts_iff_breach_witness:
  "\<exists>b. cb_init 2 1000 20000 = Inr b \<and>
     cb_halted (snd (drive cb_fire [(1100, 20000 * 86400000000), (1078, 20000 * 86400000000 + 5)] b))"
proof -
  let ?is = "[(1100, 20000 * 86400000000), (1078, 20000 * 86400000000 + 5)] :: (real \<times> datetime) list"
  let ?b = "\<lparr>cb_max_dd = 2, cb_start = 1000, cb_date = 20000, cb_peak = 1000, cb_halted = False,
              cb_reason = [], cb_auto_reset = False\<rparr>"
  have i: "cb_init 2 1000 20000 = Inr ?b" by (simp add: cb_init_def)
  have d: "list_all (\<lambda>(e, now). 0 < e \<and> date_of now = 20000) ?is"
    by (simp add: date_of_def usec_per_day_def)
  have "cb_breach 2 1000 (map fst ?is)"
    by (simp add: cb_breach_Cons)
  then have "cb_halted (snd (drive cb_fire ?is ?b))"
    using cb_session_halts_iff_breach [OF i d] by simp
  with i show ?thesis by blast
qed

text \<open>
  Within one calendar day the breaker reports a trip at most once, and a breaker
  that is halted stays halted whatever equity is fed to it: there is no same-day recovery.
\<close>

theorem cb_trips_at_most_once_per_day:
  assumes "list_all (\<lambda>(e, now). date_of now = cb_date b) is"
  shows "length (filter (\<lambda>fired. fired) (fst (drive cb_fire is b))) \<le> 1
    \<and> (cb_halted b \<longrightarrow> cb_halted (snd (drive cb_fire is b)))"
proof -
  have "run_ok cb_same_day cb_fire is b"
    using assms by (intro cb_run_same_day) simp_all
  then show ?thesis
    using cbl.run_fires_once cbl.run_latched by blast
qed

theorem cb_trips_at_most_once_per_day_witness:
  "length (filter (\<lambda>fired. fired) (fst (drive cb_fire [(90, 7), (80, 8)]
     \<lparr>cb_max_dd = 5, cb_start = 100, cb_date = 0, cb_peak = 100, cb_halted = False,
      cb_reason = [], cb_auto_reset = False\<rparr>))) \<le> 1"
  using cb_trips_at_most_once_per_day
    [of "\<lparr>cb_max_dd = 5, cb_start = 100, cb_date = 0, cb_peak = 100, cb_halted = False,
          cb_reason = [], cb_auto_reset = False\<rparr>" "[(90, 7), (80, 8)]"]
  by (simp add: date_of_def usec_per_day_def)

text \<open>
  Restoring a snapshot into any breaker gives back the snapshotted session state
  exactly, a halt and its reason included; only the configured limit and the pending
  notification flag stay those of the breaker restored into.
\<close>

theorem cb_restore_snapshot:
  "cb_restore (cb_snapshot b) b' = b\<lparr>cb_max_dd := cb_max_dd b', cb_auto_reset := cb_auto_reset b'\<rparr>"
  by (simp add: cb_restore_def cb_snapshot_def)

text \<open>
  The first update on a new calendar day never trips: it opens a fresh session at
  that equity, clears any halt (one forced by an operator included), and raises the
  notification flag, which the next \<open>consume\<close> reads once and clears.
\<close>

theorem cb_new_day_clears_halt:
  assumes "date_of now \<noteq> cb_date b"
  shows "cb_update e now (cb_force_halt r b) =
      (Inr False, b\<lparr>cb_start := e, cb_peak := e, cb_date := date_of now, cb_halted := False,
                     cb_reason := [], cb_auto_reset := True\<rparr>)
    \<and> fst (drive (\<lambda>_. cb_consume_auto_reset) [(), ()] (snd (cb_update e now (cb_force_halt r b))))
        = [True, False]"
  using assms
  by (simp add: cb_update_rollover cb_force_halt_def cb_reset_session_def cb_consume_auto_reset_def)

theorem cb_new_day_clears_halt_witness:
  "date_of 86400000000 \<noteq> (0 :: date) \<and>
   fst (cb_update 50 86400000000 (cb_force_halt [Lit ''kill switch'']
     \<lparr>cb_max_dd = 5, cb_start = 100, cb_date = 0, cb_peak = 100, cb_halted = False,
      cb_reason = [], cb_auto_reset = False\<rparr>)) = Inr False"
proof -
  let ?b = "\<lparr>cb_max_dd = 5, cb_start = 100, cb_date = 0, cb_peak = 100, cb_halted = False,
              cb_reason = [], cb_auto_reset = False\<rparr>"
  have d: "date_of 86400000000 \<noteq> cb_date ?b"
    by (simp add: date_of_def usec_per_day_def)
  show ?thesis
    using cb_new_day_clears_halt [OF d, of 50 "[Lit ''kill switch'']"] d by simp
qed

text \<open>
  A session opened at zero equity (which \<open>reset_session\<close> and the day rollover
  accept, although the constructor refuses it) disables the breaker: every later update of that
  day raises \<^verbatim>\<open>ZeroDivisionError\<close> and leaves it not halted.
\<close>

theorem cb_zero_equity_session_raises:
  assumes "date_of now = d"
  shows "fst (cb_update e now (cb_reset_session 0 d b)) = Inl ZeroDivisionError
    \<and> \<not> cb_halted (snd (cb_update e now (cb_reset_session 0 d b)))"
  using assms by (simp add: cb_update_def cb_reset_session_def cb_drawdown_def Let_def)

theorem cb_zero_equity_session_raises_witness:
  "fst (cb_update 25 3 (cb_reset_session 0 0
     \<lparr>cb_max_dd = 5, cb_start = 100, cb_date = 0, cb_peak = 100, cb_halted = False,
      cb_reason = [], cb_auto_reset = False\<rparr>)) = Inl ZeroDivisionError"
  using cb_zero_equity_session_raises [of 3 0]
  by (simp add: date_of_def usec_per_day_def)

end
