(* ===== verification/Risk_Engine.thy ===== *)
theory Risk_Engine
  imports Circuit_Breaker Risk_Sizing
begin

text \<open>
  The pre-trade risk engine, \<^verbatim>\<open>risk/risk_engine.py\<close>.  The circuit breaker and the margin
  calculator, objects the engine shares with the rest of the program, are stored here and nowhere
  else, so every holder of the engine sees the same one.  The monotonic clock is an argument.
\<close>

section \<open>The sliding-window order-rate limiter\<close>

record limiter =
  rl_per_second :: real
  rl_per_minute :: int
  rl_second :: "real list"
  rl_minute :: "real list"

definition rl_init :: "real \<Rightarrow> int \<Rightarrow> limiter" where
  "rl_init per_second per_minute =
     \<lparr>rl_per_second = per_second, rl_per_minute = per_minute, rl_second = [], rl_minute = []\<rparr>"

text \<open>The two \<^verbatim>\<open>popleft\<close> loops at the head of \<^verbatim>\<open>try_acquire\<close>.\<close>

definition rl_expire :: "real \<Rightarrow> limiter \<Rightarrow> limiter" where
  "rl_expire now l =
     l\<lparr>rl_second := dropWhile (\<lambda>t. 1 < now - t) (rl_second l),
       rl_minute := dropWhile (\<lambda>t. 60 < now - t) (rl_minute l)\<rparr>"

definition rl_try_acquire :: "real \<Rightarrow> limiter \<Rightarrow> (bool \<times> fstr) \<times> limiter" where
  "rl_try_acquire now l =
     (let l1 = rl_expire now l in
      if rl_per_second l1 \<le> real (length (rl_second l1))
      then ((False, [Lit ''order rate exceeded: '', IntP (int (length (rl_second l1))),
                     Lit ''/s >= '', FloatP (rl_per_second l1), Lit ''/s'']), l1)
      else if rl_per_minute l1 \<le> int (length (rl_minute l1))
      then ((False, [Lit ''order rate exceeded: '', IntP (int (length (rl_minute l1))),
                     Lit ''/min >= '', IntP (rl_per_minute l1), Lit ''/min'']), l1)
      else ((True, [Lit ''ok'']),
            l1\<lparr>rl_second := rl_second l1 @ [now], rl_minute := rl_minute l1 @ [now]\<rparr>))"

definition rl_admit :: "real \<Rightarrow> limiter \<Rightarrow> bool \<times> limiter" where
  "rl_admit now l = (case rl_try_acquire now l of ((g, _), l') \<Rightarrow> (g, l'))"

lemma rl_admit_unfold:
  "rl_admit now l =
     (let l1 = rl_expire now l in
      if rl_per_second l1 \<le> real (length (rl_second l1)) \<or> rl_per_minute l1 \<le> int (length (rl_minute l1))
      then (False, l1)
      else (True, l1\<lparr>rl_second := rl_second l1 @ [now], rl_minute := rl_minute l1 @ [now]\<rparr>))"
  by (simp add: rl_admit_def rl_try_acquire_def Let_def)

lemma rl_expire_second:
  "sorted (rl_second l) \<Longrightarrow> rl_second (rl_expire now l) = filter (\<lambda>u. now - u \<le> 1) (rl_second l)"
  using dropWhile_filter_sorted [of "rl_second l" "\<lambda>t. 1 < now - t"]
  by (simp add: rl_expire_def not_less)

lemma rl_expire_minute:
  "sorted (rl_minute l) \<Longrightarrow> rl_minute (rl_expire now l) = filter (\<lambda>u. now - u \<le> 60) (rl_minute l)"
  using dropWhile_filter_sorted [of "rl_minute l" "\<lambda>t. 60 < now - t"]
  by (simp add: rl_expire_def not_less)

lemma rl_expire_limits [simp]:
  "rl_per_second (rl_expire now l) = rl_per_second l"
  "rl_per_minute (rl_expire now l) = rl_per_minute l"
  by (simp_all add: rl_expire_def)

lemma rl_admit_second:
  assumes "sorted (rl_second l)"
  shows "rl_second (snd (rl_admit now l)) =
    filter (\<lambda>u. now - u \<le> 1) (rl_second l) @ (if fst (rl_admit now l) then [now] else [])"
  using assms by (simp add: rl_admit_unfold rl_expire_second Let_def)

lemma rl_admit_minute:
  assumes "sorted (rl_minute l)"
  shows "rl_minute (snd (rl_admit now l)) =
    filter (\<lambda>u. now - u \<le> 60) (rl_minute l) @ (if fst (rl_admit now l) then [now] else [])"
  using assms by (simp add: rl_admit_unfold rl_expire_minute Let_def)

lemma rl_admit_limits [simp]:
  "rl_per_second (snd (rl_admit now l)) = rl_per_second l"
  "rl_per_minute (snd (rl_admit now l)) = rl_per_minute l"
  by (simp_all add: rl_admit_unfold Let_def)

interpretation rls: admission_window rl_admit "\<lambda>t. t" rl_second 1 rl_per_second
proof
  fix l :: limiter and now :: real
  assume srt: "sorted (rl_second l)"
  show "(\<forall>u \<in> set (rl_second l). u \<le> now) \<Longrightarrow> sorted (rl_second (snd (rl_admit now l))) \<and>
      (\<forall>u \<in> set (rl_second (snd (rl_admit now l))). u \<le> now)"
    using srt by (auto simp: rl_admit_second sorted_append sorted_wrt_filter)
  show "filter (\<lambda>u. now - u \<le> 1) (rl_second (snd (rl_admit now l))) =
      filter (\<lambda>u. now - u \<le> 1) (rl_second l) @ (if fst (rl_admit now l) then [now] else [])"
    using srt by (simp add: rl_admit_second)
  show "fst (rl_admit now l) \<Longrightarrow>
      real (length (filter (\<lambda>u. now - u \<le> 1) (rl_second l))) < rl_per_second l"
    using srt by (auto simp: rl_admit_unfold rl_expire_second Let_def split: if_splits)
qed simp_all

interpretation rlm: admission_window rl_admit "\<lambda>t. t" rl_minute 60 "\<lambda>l. of_int (rl_per_minute l)"
proof
  fix l :: limiter and now :: real
  assume srt: "sorted (rl_minute l)"
  show "(\<forall>u \<in> set (rl_minute l). u \<le> now) \<Longrightarrow> sorted (rl_minute (snd (rl_admit now l))) \<and>
      (\<forall>u \<in> set (rl_minute (snd (rl_admit now l))). u \<le> now)"
    using srt by (auto simp: rl_admit_minute sorted_append sorted_wrt_filter)
  show "filter (\<lambda>u. now - u \<le> 60) (rl_minute (snd (rl_admit now l))) =
      filter (\<lambda>u. now - u \<le> 60) (rl_minute l) @ (if fst (rl_admit now l) then [now] else [])"
    using srt by (simp add: rl_admit_minute)
  show "fst (rl_admit now l) \<Longrightarrow>
      real (length (filter (\<lambda>u. now - u \<le> 60) (rl_minute l))) < of_int (rl_per_minute l)"
    using srt by (auto simp: rl_admit_unfold rl_expire_minute Let_def split: if_splits)
qed simp_all

section \<open>The engine\<close>

datatype violation = Violation string fstr

record risk_engine =
  re_max_order :: int
  re_max_symbol :: int
  re_max_notional :: real
  re_max_leverage :: real
  re_breaker :: breaker
  re_margin :: margin_calc
  re_limiter :: limiter
  re_positions :: "string \<rightharpoonup> int"
  re_prices :: "string \<rightharpoonup> real"
  re_mults :: "string \<rightharpoonup> real"

text \<open>The keyword arguments of \<^verbatim>\<open>check_order\<close>, and the reading of the clock.\<close>

record account_view =
  av_equity :: real
  av_gross :: real
  av_initial_used :: real
  av_maintenance_used :: real

record risk_result =
  rr_passed :: bool
  rr_code :: string
  rr_message :: fstr
  rr_approved :: int

definition re_init ::
  "int \<Rightarrow> int \<Rightarrow> real \<Rightarrow> real \<Rightarrow> int \<Rightarrow> real \<Rightarrow> breaker \<Rightarrow> margin_calc \<Rightarrow> risk_engine" where
  "re_init max_order max_symbol max_notional per_second per_minute max_leverage cb mc =
     \<lparr>re_max_order = max_order, re_max_symbol = max_symbol, re_max_notional = max_notional,
      re_max_leverage = max_leverage, re_breaker = cb, re_margin = mc,
      re_limiter = rl_init per_second per_minute,
      re_positions = Map.empty, re_prices = Map.empty, re_mults = Map.empty\<rparr>"

definition re_update_market_state :: "string \<Rightarrow> real \<Rightarrow> risk_engine \<Rightarrow> risk_engine" where
  "re_update_market_state s price re = re\<lparr>re_prices := (re_prices re)(s \<mapsto> price)\<rparr>"

definition re_update_position :: "string \<Rightarrow> int \<Rightarrow> risk_engine \<Rightarrow> risk_engine" where
  "re_update_position s q re = re\<lparr>re_positions := (re_positions re)(s \<mapsto> q)\<rparr>"

definition re_set_contract_multiplier :: "string \<Rightarrow> real \<Rightarrow> risk_engine \<Rightarrow> risk_engine" where
  "re_set_contract_multiplier s m re = re\<lparr>re_mults := (re_mults re)(s \<mapsto> m)\<rparr>"

definition re_position :: "risk_engine \<Rightarrow> string \<Rightarrow> int" where
  "re_position re s = (case re_positions re s of None \<Rightarrow> 0 | Some q \<Rightarrow> q)"

definition re_multiplier :: "risk_engine \<Rightarrow> string \<Rightarrow> real" where
  "re_multiplier re s = (case re_mults re s of None \<Rightarrow> 1 | Some m \<Rightarrow> m)"

definition re_check_circuit_breaker :: "risk_engine \<Rightarrow> violation + unit" where
  "re_check_circuit_breaker re =
     (if cb_halted (re_breaker re)
      then Inl (Violation ''CIRCUIT_BREAKER_HALTED'' (cb_reason (re_breaker re)))
      else Inr ())"

definition re_check_fat_finger :: "signal_event \<Rightarrow> risk_engine \<Rightarrow> violation + unit" where
  "re_check_fat_finger sg re =
     (let qty = \<bar>sg_qty sg\<bar> in
      if qty \<le> 0 then Inl (Violation ''INVALID_QUANTITY'' [Lit ''non-positive quantity '', IntP qty])
      else if re_max_order re < qty
      then Inl (Violation ''FAT_FINGER_ORDER_SIZE''
             [Lit ''order size '', IntP qty, Lit '' exceeds max_contracts_per_order='', IntP (re_max_order re)])
      else Inr ())"

definition re_check_rate_limit :: "real \<Rightarrow> risk_engine \<Rightarrow> (violation + unit) \<times> risk_engine" where
  "re_check_rate_limit now re =
     (case rl_try_acquire now (re_limiter re) of
        ((granted, reason), l) \<Rightarrow>
          (if granted then Inr () else Inl (Violation ''ORDER_RATE_LIMIT'' reason),
           re\<lparr>re_limiter := l\<rparr>))"

definition re_check_position_limits :: "signal_event \<Rightarrow> risk_engine \<Rightarrow> violation + unit" where
  "re_check_position_limits sg re =
     (let current = re_position re (sg_symbol sg);
          signed_qty = sg_qty sg * side_sign (sg_side sg);
          projected = \<bar>current + signed_qty\<bar> in
      if re_max_symbol re < projected
      then Inl (Violation ''POSITION_LIMIT_BREACH''
             [Lit ''projected position '', IntP projected, Lit '' for '', StrP (sg_symbol sg),
              Lit '' exceeds max_contracts_per_symbol='', IntP (re_max_symbol re)])
      else Inr ())"

definition re_check_notional_limit :: "signal_event \<Rightarrow> risk_engine \<Rightarrow> violation + real" where
  "re_check_notional_limit sg re =
     (let multiplier = re_multiplier re (sg_symbol sg);
          no_price = Inl (Violation ''NO_REFERENCE_PRICE''
             [Lit ''no reference price for '', StrP (sg_symbol sg)]) in
      case re_prices re (sg_symbol sg) of
        None \<Rightarrow> no_price
      | Some price \<Rightarrow>
          if price \<le> 0 then no_price
          else
            let notional = of_int \<bar>sg_qty sg\<bar> * price * multiplier in
            if re_max_notional re < notional
            then Inl (Violation ''NOTIONAL_LIMIT_BREACH''
                   [Lit ''order notional '', FixP 2 notional,
                    Lit '' exceeds max_position_notional_usd='', FixP 2 (re_max_notional re)])
            else Inr notional)"

definition re_check_leverage :: "real \<Rightarrow> real \<Rightarrow> real \<Rightarrow> risk_engine \<Rightarrow> violation + unit" where
  "re_check_leverage gross notional equity re =
     (if equity \<le> 0 then Inl (Violation ''NO_EQUITY'' [Lit ''account_equity must be positive''])
      else
        let projected_gross = gross + notional; leverage = projected_gross / equity in
        if re_max_leverage re < leverage
        then Inl (Violation ''LEVERAGE_LIMIT_BREACH''
               [Lit ''projected gross leverage '', FixP 2 leverage,
                Lit ''x exceeds max_gross_leverage='', FixP 2 (re_max_leverage re), Lit ''x''])
        else Inr ())"

definition re_check_margin :: "signal_event \<Rightarrow> account_view \<Rightarrow> risk_engine \<Rightarrow> violation + unit" where
  "re_check_margin sg av re =
     (let current = re_position re (sg_symbol sg);
          signed_qty = sg_qty sg * side_sign (sg_side sg);
          r = mc_check_order (re_margin re) (sg_symbol sg) signed_qty current
                (av_equity av) (av_initial_used av) (av_maintenance_used av) in
      if mg_passed r then Inr () else Inl (Violation ''MARGIN_BREACH'' (mg_reason r)))"

text \<open>The checks after the rate limiter, which read the engine and do not change it.\<close>

definition re_check_exposure :: "signal_event \<Rightarrow> account_view \<Rightarrow> risk_engine \<Rightarrow> violation + unit" where
  "re_check_exposure sg av re =
     (case re_check_position_limits sg re of Inl v \<Rightarrow> Inl v
      | Inr _ \<Rightarrow> (case re_check_notional_limit sg re of Inl v \<Rightarrow> Inl v
      | Inr notional \<Rightarrow> (case re_check_leverage (av_gross av) notional (av_equity av) re of Inl v \<Rightarrow> Inl v
      | Inr _ \<Rightarrow> re_check_margin sg av re)))"

fun rr_reject :: "violation \<Rightarrow> risk_result" where
  "rr_reject (Violation code msg) =
     \<lparr>rr_passed = False, rr_code = code, rr_message = msg, rr_approved = 0\<rparr>"

definition rr_approve :: "signal_event \<Rightarrow> risk_result" where
  "rr_approve sg = \<lparr>rr_passed = True, rr_code = ''OK'',
     rr_message = [Lit ''all pre-trade checks passed''], rr_approved = sg_qty sg\<rparr>"

definition re_check_order ::
  "signal_event \<Rightarrow> account_view \<Rightarrow> real \<Rightarrow> risk_engine \<Rightarrow> risk_result \<times> risk_engine" where
  "re_check_order sg av now re =
     (case re_check_circuit_breaker re of Inl v \<Rightarrow> (rr_reject v, re)
      | Inr _ \<Rightarrow> (case re_check_fat_finger sg re of Inl v \<Rightarrow> (rr_reject v, re)
      | Inr _ \<Rightarrow> (case re_check_rate_limit now re of
            (Inl v, re1) \<Rightarrow> (rr_reject v, re1)
          | (Inr _, re1) \<Rightarrow>
              (case re_check_exposure sg av re1 of Inl v \<Rightarrow> (rr_reject v, re1)
               | Inr _ \<Rightarrow> (rr_approve sg, re1)))))"

section \<open>What approval means\<close>

text \<open>The exposure limits of the engine, as one predicate.\<close>

definition re_notional :: "signal_event \<Rightarrow> real \<Rightarrow> risk_engine \<Rightarrow> real" where
  "re_notional sg price re = of_int \<bar>sg_qty sg\<bar> * price * re_multiplier re (sg_symbol sg)"

definition re_within_limits :: "signal_event \<Rightarrow> account_view \<Rightarrow> risk_engine \<Rightarrow> bool" where
  "re_within_limits sg av re \<longleftrightarrow>
     \<bar>re_position re (sg_symbol sg) + sg_qty sg * side_sign (sg_side sg)\<bar> \<le> re_max_symbol re
   \<and> (case re_prices re (sg_symbol sg) of
        None \<Rightarrow> False
      | Some price \<Rightarrow> 0 < price \<and> re_notional sg price re \<le> re_max_notional re
          \<and> av_gross av + re_notional sg price re \<le> re_max_leverage re * av_equity av)
   \<and> 0 < av_equity av
   \<and> mg_passed (mc_check_order (re_margin re) (sg_symbol sg) (sg_qty sg * side_sign (sg_side sg))
        (re_position re (sg_symbol sg)) (av_equity av) (av_initial_used av) (av_maintenance_used av))"

lemma re_check_exposure_Inr_iff:
  "re_check_exposure sg av re = Inr u \<longleftrightarrow> re_within_limits sg av re"
proof (cases "0 < av_equity av")
  case False
  then show ?thesis
    by (auto simp: re_check_exposure_def re_within_limits_def re_check_leverage_def split: sum.split)
next
  case True
  then have lev: "re_check_leverage g n (av_equity av) re = Inr v \<longleftrightarrow>
      g + n \<le> re_max_leverage re * av_equity av" for g n v
    by (simp add: re_check_leverage_def Let_def not_less not_le pos_divide_le_eq pos_less_divide_eq)
  have pos: "re_check_position_limits sg re = Inr v \<longleftrightarrow>
      \<bar>re_position re (sg_symbol sg) + sg_qty sg * side_sign (sg_side sg)\<bar> \<le> re_max_symbol re" for v
    by (simp add: re_check_position_limits_def Let_def not_less)
  have notional: "re_check_notional_limit sg re = Inr n \<longleftrightarrow>
      (\<exists>price. re_prices re (sg_symbol sg) = Some price \<and> 0 < price
         \<and> n = re_notional sg price re \<and> n \<le> re_max_notional re)" for n
    by (auto simp: re_check_notional_limit_def re_notional_def Let_def not_less not_le split: option.split)
  have margin: "re_check_margin sg av re = Inr v \<longleftrightarrow>
      mg_passed (mc_check_order (re_margin re) (sg_symbol sg) (sg_qty sg * side_sign (sg_side sg))
        (re_position re (sg_symbol sg)) (av_equity av) (av_initial_used av) (av_maintenance_used av))" for v
    by (simp add: re_check_margin_def Let_def)
  have "re_check_exposure sg av re = Inr u \<longleftrightarrow>
      (re_check_position_limits sg re = Inr () \<and>
       (\<exists>n. re_check_notional_limit sg re = Inr n \<and>
            re_check_leverage (av_gross av) n (av_equity av) re = Inr () \<and>
            re_check_margin sg av re = Inr ()))"
    by (auto simp: re_check_exposure_def split: sum.split)
  also have "\<dots> \<longleftrightarrow> re_within_limits sg av re"
    using True by (auto simp: pos notional lev margin re_within_limits_def split: option.split)
  finally show ?thesis .
qed

lemma re_within_limits_limiter [simp]:
  "re_within_limits sg av (re\<lparr>re_limiter := l\<rparr>) = re_within_limits sg av re"
  by (simp add: re_within_limits_def re_notional_def re_position_def re_multiplier_def
      split: option.split)

definition re_size_ok :: "signal_event \<Rightarrow> risk_engine \<Rightarrow> bool" where
  "re_size_ok sg re \<longleftrightarrow> 0 < \<bar>sg_qty sg\<bar> \<and> \<bar>sg_qty sg\<bar> \<le> re_max_order re"

text \<open>Whether a call reaches the rate limiter and is granted a token.\<close>

definition re_takes_token :: "signal_event \<Rightarrow> real \<Rightarrow> risk_engine \<Rightarrow> bool" where
  "re_takes_token sg now re \<longleftrightarrow>
     \<not> cb_halted (re_breaker re) \<and> re_size_ok sg re \<and> fst (rl_admit now (re_limiter re))"

lemma re_check_fat_finger_Inr_iff: "re_check_fat_finger sg re = Inr u \<longleftrightarrow> re_size_ok sg re"
  by (auto simp: re_check_fat_finger_def re_size_ok_def Let_def)

lemma re_check_breaker_Inr_iff: "re_check_circuit_breaker re = Inr u \<longleftrightarrow> \<not> cb_halted (re_breaker re)"
  by (simp add: re_check_circuit_breaker_def)

lemma re_check_rate_limit_admit:
  "re_check_rate_limit now re =
     (if fst (rl_admit now (re_limiter re)) then Inr ()
      else Inl (Violation ''ORDER_RATE_LIMIT'' (snd (fst (rl_try_acquire now (re_limiter re))))),
      re\<lparr>re_limiter := snd (rl_admit now (re_limiter re))\<rparr>)"
  by (simp add: re_check_rate_limit_def rl_admit_def split: prod.split)

text \<open>The engine after a check: only the limiter can have changed.\<close>

lemma re_check_order_state:
  "snd (re_check_order sg av now re) =
     (if \<not> cb_halted (re_breaker re) \<and> re_size_ok sg re
      then re\<lparr>re_limiter := snd (rl_admit now (re_limiter re))\<rparr> else re)"
proof (cases "cb_halted (re_breaker re)")
  case True
  then show ?thesis by (simp add: re_check_order_def re_check_circuit_breaker_def)
next
  case running: False
  then have cb: "re_check_circuit_breaker re = Inr ()"
    by (simp add: re_check_circuit_breaker_def)
  show ?thesis
  proof (cases "re_check_fat_finger sg re")
    case (Inl v)
    then have "\<not> re_size_ok sg re"
      using re_check_fat_finger_Inr_iff [of sg re "()"] by simp
    with cb Inl show ?thesis by (simp add: re_check_order_def)
  next
    case (Inr u)
    then have "re_size_ok sg re"
      using re_check_fat_finger_Inr_iff by blast
    with running cb Inr show ?thesis
      by (simp add: re_check_order_def re_check_rate_limit_admit split: sum.split)
  qed
qed

lemma rr_reject_not_passed [simp]: "\<not> rr_passed (rr_reject v)"
  by (cases v) simp

lemma re_check_order_result:
  "fst (re_check_order sg av now re) =
     (case re_check_circuit_breaker re of Inl v \<Rightarrow> rr_reject v
      | Inr _ \<Rightarrow> (case re_check_fat_finger sg re of Inl v \<Rightarrow> rr_reject v
      | Inr _ \<Rightarrow> (case fst (re_check_rate_limit now re) of Inl v \<Rightarrow> rr_reject v
      | Inr _ \<Rightarrow> (case re_check_exposure sg av (re\<lparr>re_limiter := snd (rl_admit now (re_limiter re))\<rparr>) of
            Inl v \<Rightarrow> rr_reject v | Inr _ \<Rightarrow> rr_approve sg))))"
  by (simp add: re_check_order_def re_check_rate_limit_admit split: sum.split)

lemma re_check_order_passed_iff:
  "rr_passed (fst (re_check_order sg av now re)) \<longleftrightarrow>
     re_takes_token sg now re \<and> re_within_limits sg av re"
proof -
  have "rr_passed (fst (re_check_order sg av now re)) \<longleftrightarrow>
      re_check_circuit_breaker re = Inr () \<and> re_check_fat_finger sg re = Inr () \<and>
      fst (re_check_rate_limit now re) = Inr () \<and>
      re_check_exposure sg av (re\<lparr>re_limiter := snd (rl_admit now (re_limiter re))\<rparr>) = Inr ()"
    by (auto simp: re_check_order_result rr_approve_def split: sum.split)
  then show ?thesis
    by (simp add: re_check_breaker_Inr_iff re_check_fat_finger_Inr_iff re_check_rate_limit_admit
        re_check_exposure_Inr_iff re_takes_token_def)
qed

section \<open>The engine as a rate-limited gate\<close>

type_synonym check_call = "signal_event \<times> account_view \<times> real"

definition re_call_time :: "check_call \<Rightarrow> real" where
  "re_call_time = (\<lambda>(sg, av, now). now)"

definition re_token_step :: "check_call \<Rightarrow> risk_engine \<Rightarrow> bool \<times> risk_engine" where
  "re_token_step = (\<lambda>(sg, av, now) re. (re_takes_token sg now re, snd (re_check_order sg av now re)))"

definition re_approve_step :: "check_call \<Rightarrow> risk_engine \<Rightarrow> bool \<times> risk_engine" where
  "re_approve_step = (\<lambda>(sg, av, now) re.
     (rr_passed (fst (re_check_order sg av now re)), snd (re_check_order sg av now re)))"

lemma re_token_step_limiter:
  "re_limiter (snd (re_token_step (sg, av, now) re)) =
     (if \<not> cb_halted (re_breaker re) \<and> re_size_ok sg re
      then snd (rl_admit now (re_limiter re)) else re_limiter re)"
  by (simp add: re_token_step_def re_check_order_state)

text \<open>
  The engine inherits both windows of its limiter: a call that stops before the limiter leaves
  the windows alone, every other call is a limiter step.
\<close>

lemma admission_window_engine:
  assumes "admission_window rl_admit (\<lambda>t. t) win w cap"
  shows "admission_window re_token_step re_call_time (\<lambda>re. win (re_limiter re)) w (\<lambda>re. cap (re_limiter re))"
proof -
  note law = admission_window.width_nonneg [OF assms] admission_window.window_sorted [OF assms]
    admission_window.window_recent [OF assms] admission_window.admits_below [OF assms]
    admission_window.capacity_kept [OF assms]
  show ?thesis
  proof
    show "0 \<le> w" by (rule law(1))
  next
    fix re :: risk_engine and i :: check_call
    obtain sg av now where i: "i = (sg, av, now)" by (cases i)
    let ?go = "\<not> cb_halted (re_breaker re) \<and> re_size_ok sg re"
    have took: "fst (re_token_step i re) \<longleftrightarrow> ?go \<and> fst (rl_admit now (re_limiter re))"
      by (simp add: i re_token_step_def re_takes_token_def)
    have lim: "re_limiter (snd (re_token_step i re)) =
        (if ?go then snd (rl_admit now (re_limiter re)) else re_limiter re)"
      by (simp add: i re_token_step_limiter)
    have time: "re_call_time i = now" by (simp add: i re_call_time_def)
    show "cap (re_limiter (snd (re_token_step i re))) = cap (re_limiter re)"
      by (simp add: lim law(5))
    assume srt: "sorted (win (re_limiter re))"
    show "(\<forall>u \<in> set (win (re_limiter re)). u \<le> re_call_time i) \<Longrightarrow>
        sorted (win (re_limiter (snd (re_token_step i re)))) \<and>
        (\<forall>u \<in> set (win (re_limiter (snd (re_token_step i re)))). u \<le> re_call_time i)"
      using srt law(2) [OF srt, of now] by (simp add: lim time)
    show "filter (\<lambda>u. re_call_time i - u \<le> w) (win (re_limiter (snd (re_token_step i re)))) =
        filter (\<lambda>u. re_call_time i - u \<le> w) (win (re_limiter re)) @
        (if fst (re_token_step i re) then [re_call_time i] else [])"
      using law(3) [OF srt, of now] by (simp add: lim time took)
    show "fst (re_token_step i re) \<Longrightarrow>
        real (length (filter (\<lambda>u. re_call_time i - u \<le> w) (win (re_limiter re)))) < cap (re_limiter re)"
      using law(4) [OF srt, of now] by (simp add: time took)
  qed
qed

interpretation res: admission_window re_token_step re_call_time
  "\<lambda>re. rl_second (re_limiter re)" 1 "\<lambda>re. rl_per_second (re_limiter re)"
  by (rule admission_window_engine) (rule rls.admission_window_axioms)

interpretation rem: admission_window re_token_step re_call_time
  "\<lambda>re. rl_minute (re_limiter re)" 60 "\<lambda>re. of_int (rl_per_minute (re_limiter re))"
  by (rule admission_window_engine) (rule rlm.admission_window_axioms)

text \<open>Approvals are a subset of the tokens granted, call by call.\<close>

lemma re_approvals_within_tokens:
  "count_within w t (admitted re_call_time is (fst (drive re_approve_step is re)))
     \<le> count_within w t (admitted re_call_time is (fst (drive re_token_step is re)))"
proof (induction "is" arbitrary: re)
  case Nil
  then show ?case by simp
next
  case (Cons i "is")
  have st: "snd (re_approve_step i re) = snd (re_token_step i re)"
    and le: "fst (re_approve_step i re) \<Longrightarrow> fst (re_token_step i re)"
    by (cases i; simp add: re_approve_step_def re_token_step_def re_check_order_passed_iff)+
  show ?case
    using Cons.IH [of "snd (re_token_step i re)"] le
    by (auto simp: st count_within_def)
qed

section \<open>Properties\<close>

text \<open>A concrete engine and a concrete order, on which the properties below are instantiated.\<close>

definition sample_engine :: risk_engine where
  "sample_engine =
     re_init 20 50 100000 2 3 4
       \<lparr>cb_max_dd = 2, cb_start = 1000, cb_date = 0, cb_peak = 1000, cb_halted = False,
        cb_reason = [], cb_auto_reset = False\<rparr>
       \<lparr>mc_schedule = [''ES'' \<mapsto> \<lparr>mr_symbol = ''ES'', mr_initial = 5, mr_maintenance = 4\<rparr>],
        mc_initial_buffer = 25, mc_maintenance_buffer = 10\<rparr>"

definition sample_signal :: "order_side \<Rightarrow> int \<Rightarrow> signal_event" where
  "sample_signal side qty =
     \<lparr>sg_ts = 0, sg_symbol = ''ES'', sg_strategy = ''s'', sg_side = side, sg_strength = 1,
      sg_qty = qty, sg_type = MARKET, sg_limit = None, sg_tif = DAY, sg_corr = ''c'',
      sg_oca = None, sg_meta = []\<rparr>"

definition sample_account :: account_view where
  "sample_account = \<lparr>av_equity = 1000, av_gross = 0, av_initial_used = 0, av_maintenance_used = 0\<rparr>"

text \<open>
  Property C1. An order is approved exactly when the breaker is not halted, its size is within the
  per-order limit, the rate limiter grants a token, and the projected position, notional, gross
  leverage and margin are all within their limits; the approved quantity is the requested one.
  The check changes nothing in the engine but the limiter's windows.
\<close>

theorem re_approval_characterised:
  "(rr_passed (fst (re_check_order sg av now re)) \<longleftrightarrow>
      \<not> cb_halted (re_breaker re)
    \<and> 0 < \<bar>sg_qty sg\<bar> \<and> \<bar>sg_qty sg\<bar> \<le> re_max_order re
    \<and> fst (rl_admit now (re_limiter re))
    \<and> re_within_limits sg av re)
   \<and> (rr_passed (fst (re_check_order sg av now re)) \<longleftrightarrow> rr_code (fst (re_check_order sg av now re)) = ''OK'')
   \<and> rr_approved (fst (re_check_order sg av now re)) =
        (if rr_passed (fst (re_check_order sg av now re)) then sg_qty sg else 0)
   \<and> (\<exists>l. snd (re_check_order sg av now re) = re\<lparr>re_limiter := l\<rparr>)"
proof -
  have code: "rr_code (rr_reject v) = ''OK'' \<Longrightarrow> v = Violation ''OK'' (rr_message (rr_reject v))" for v
    by (cases v) simp
  have inl: "re_check_circuit_breaker re = Inl v \<Longrightarrow> rr_code (rr_reject v) \<noteq> ''OK''"
       "re_check_fat_finger sg re = Inl v \<Longrightarrow> rr_code (rr_reject v) \<noteq> ''OK''"
       "fst (re_check_rate_limit now re) = Inl v \<Longrightarrow> rr_code (rr_reject v) \<noteq> ''OK''"
       "re_check_exposure sg av re' = Inl v \<Longrightarrow> rr_code (rr_reject v) \<noteq> ''OK''" for v re'
    by (auto simp: re_check_circuit_breaker_def re_check_fat_finger_def re_check_rate_limit_admit
        re_check_exposure_def re_check_position_limits_def re_check_notional_limit_def
        re_check_leverage_def re_check_margin_def Let_def split: if_splits sum.splits option.splits)
  have approved: "rr_approved (rr_reject v) = 0" for v by (cases v) simp
  have same: "re = re\<lparr>re_limiter := re_limiter re\<rparr>" by simp
  have "\<exists>l. snd (re_check_order sg av now re) = re\<lparr>re_limiter := l\<rparr>"
    unfolding re_check_order_state by (split if_split) (use same in blast)
  moreover have "rr_passed (fst (re_check_order sg av now re)) \<longleftrightarrow>
      rr_code (fst (re_check_order sg av now re)) = ''OK''"
    using inl by (auto simp: re_check_order_result rr_approve_def split: sum.split)
  moreover have "rr_approved (fst (re_check_order sg av now re)) =
      (if rr_passed (fst (re_check_order sg av now re)) then sg_qty sg else 0)"
    by (auto simp: re_check_order_result rr_approve_def approved split: sum.split)
  ultimately show ?thesis
    by (simp add: re_check_order_passed_iff re_takes_token_def re_size_ok_def)
qed

text \<open>
  The checks fail fast in the documented order: the code of the result names the first
  limit violated, from the halted breaker down to the margin.
\<close>

theorem re_first_violation_wins:
  "rr_code (fst (re_check_order sg av now re)) =
     (if cb_halted (re_breaker re) then ''CIRCUIT_BREAKER_HALTED''
      else if sg_qty sg = 0 then ''INVALID_QUANTITY''
      else if re_max_order re < \<bar>sg_qty sg\<bar> then ''FAT_FINGER_ORDER_SIZE''
      else if \<not> fst (rl_admit now (re_limiter re)) then ''ORDER_RATE_LIMIT''
      else if re_max_symbol re < \<bar>re_position re (sg_symbol sg) + sg_qty sg * side_sign (sg_side sg)\<bar>
        then ''POSITION_LIMIT_BREACH''
      else (case re_prices re (sg_symbol sg) of
          None \<Rightarrow> ''NO_REFERENCE_PRICE''
        | Some price \<Rightarrow>
            if price \<le> 0 then ''NO_REFERENCE_PRICE''
            else if re_max_notional re < re_notional sg price re then ''NOTIONAL_LIMIT_BREACH''
            else if av_equity av \<le> 0 then ''NO_EQUITY''
            else if re_max_leverage re < (av_gross av + re_notional sg price re) / av_equity av
              then ''LEVERAGE_LIMIT_BREACH''
            else if \<not> mg_passed (mc_check_order (re_margin re) (sg_symbol sg)
                (sg_qty sg * side_sign (sg_side sg)) (re_position re (sg_symbol sg))
                (av_equity av) (av_initial_used av) (av_maintenance_used av)) then ''MARGIN_BREACH''
            else ''OK''))"
proof -
  have qty: "\<bar>sg_qty sg\<bar> \<le> 0 \<longleftrightarrow> sg_qty sg = 0" by simp
  show ?thesis
    unfolding re_check_order_result re_check_circuit_breaker_def re_check_fat_finger_def
      re_check_rate_limit_admit re_check_exposure_def re_check_position_limits_def
      re_check_notional_limit_def re_check_leverage_def re_check_margin_def Let_def
      re_notional_def rr_approve_def qty re_position_def re_multiplier_def
    by (simp split: option.split)
qed

text \<open>
  A halted engine approves nothing, over any sequence of orders, and no rejected
  attempt changes its state: no rate-limit token is spent while the system is halted.
\<close>

theorem re_halted_rejects_everything:
  assumes "cb_halted (re_breaker re)"
  shows "drive re_approve_step calls re = (replicate (length calls) False, re)"
proof (induction calls)
  case Nil
  then show ?case by simp
next
  case (Cons c calls)
  obtain sg av now where c: "c = (sg, av, now)" by (cases c)
  have "re_approve_step c re = (False, re)"
    using assms by (simp add: c re_approve_step_def re_check_order_passed_iff re_takes_token_def
        re_check_order_state)
  with Cons show ?case by simp
qed

theorem re_halted_rejects_everything_witness:
  "drive re_approve_step [(sample_signal BUY 1, sample_account, 0), (sample_signal SELL 2, sample_account, 1)]
      (sample_engine\<lparr>re_breaker := cb_force_halt [Lit ''stop''] (re_breaker sample_engine)\<rparr>)
    = ([False, False], sample_engine\<lparr>re_breaker := cb_force_halt [Lit ''stop''] (re_breaker sample_engine)\<rparr>)"
proof -
  let ?re = "sample_engine\<lparr>re_breaker := cb_force_halt [Lit ''stop''] (re_breaker sample_engine)\<rparr>"
  have h: "cb_halted (re_breaker ?re)" by (simp add: cb_force_halt_def)
  show ?thesis
    using re_halted_rejects_everything [OF h,
      of "[(sample_signal BUY 1, sample_account, 0), (sample_signal SELL 2, sample_account, 1)]"]
    by simp
qed

text \<open>
  Property C8. Whatever sequence of orders is checked (the clock being monotonic), every closed
  interval of one second holds fewer than \<open>max_orders_per_second + 1\<close> approvals and every
  interval of sixty seconds at most \<open>max_orders_per_minute\<close> of them.
\<close>

theorem re_approval_rate_bounded:
  assumes "sorted (map re_call_time calls)" "re_limiter re = rl_init per_second per_minute"
  defines "approvals \<equiv> admitted re_call_time calls (fst (drive re_approve_step calls re))"
  shows "(count_within 1 t approvals = 0 \<or> real (count_within 1 t approvals) < per_second + 1)
    \<and> int (count_within 60 t approvals) \<le> max per_minute 0"
proof -
  let ?tokens = "admitted re_call_time calls (fst (drive re_token_step calls re))"
  have le: "count_within w t approvals \<le> count_within w t ?tokens" for w
    unfolding approvals_def by (rule re_approvals_within_tokens)
  have "count_within 1 t ?tokens = 0 \<or> real (count_within 1 t ?tokens) < per_second + 1"
    using res.admission_rate [OF assms(1), of re t] assms(2) by (simp add: rl_init_def)
  then have sec: "count_within 1 t approvals = 0 \<or> real (count_within 1 t approvals) < per_second + 1"
    using le [of 1] by linarith
  have "count_within 60 t ?tokens = 0 \<or> real (count_within 60 t ?tokens) < of_int per_minute + 1"
    using rem.admission_rate [OF assms(1), of re t] assms(2) by (simp add: rl_init_def)
  then have "int (count_within 60 t ?tokens) \<le> max per_minute 0" by linarith
  with sec le [of 60] show ?thesis by linarith
qed

theorem re_approval_rate_bounded_witness:
  "sorted (map re_call_time [(sample_signal BUY 1, sample_account, 0), (sample_signal BUY 1, sample_account, 1 / 2)])
   \<and> int (count_within 60 1 (admitted re_call_time
        [(sample_signal BUY 1, sample_account, 0), (sample_signal BUY 1, sample_account, 1 / 2)]
        (fst (drive re_approve_step
          [(sample_signal BUY 1, sample_account, 0), (sample_signal BUY 1, sample_account, 1 / 2)]
          (re_update_market_state ''ES'' 100 sample_engine))))) \<le> 3"
proof -
  let ?calls = "[(sample_signal BUY 1, sample_account, 0), (sample_signal BUY 1, sample_account, 1 / 2)]"
  let ?re = "re_update_market_state ''ES'' 100 sample_engine"
  have srt: "sorted (map re_call_time ?calls)" by (simp add: re_call_time_def)
  have lim: "re_limiter ?re = rl_init 2 3"
    by (simp add: re_update_market_state_def sample_engine_def re_init_def)
  show ?thesis
    using re_approval_rate_bounded [OF srt lim, of 1] srt by simp
qed

end
