(* ===== verification/Trade_Tracker.thy ===== *)
theory Trade_Tracker
  imports Events
begin

text \<open>
  Round-trip trades rebuilt from executions (\<^verbatim>\<open>execution/trade_tracker.py\<close>).  The multiplier
  lookup is the callback given to the constructor and may raise.  The main result is an
  accounting identity: realised profit is cash flow, with what is still open valued at cost.
\<close>

section \<open>Trades\<close>

record closed_trade =
  ct_symbol :: string
  ct_side :: order_side
  ct_entry_ts :: datetime
  ct_exit_ts :: datetime
  ct_qty :: int
  ct_entry_price :: real
  ct_exit_price :: real
  ct_pnl :: real

definition ct_duration_seconds :: "closed_trade \<Rightarrow> real" where
  "ct_duration_seconds c = timestamp_s (ct_exit_ts c - ct_entry_ts c)"

record open_trade =
  ot_entry_ts :: datetime
  ot_side :: order_side
  ot_qty :: int
  ot_avg :: real
  ot_exit_notional :: real
  ot_exit_qty :: real
  ot_realized :: real

record tracker =
  tt_open :: "(string, open_trade) dict"
  tt_closed :: "closed_trade list"

definition tt_init :: tracker where
  "tt_init = \<lparr>tt_open = [], tt_closed = []\<rparr>"

definition tt_open_trades :: "tracker \<Rightarrow> (string, open_trade) dict" where
  "tt_open_trades tt = tt_open tt"

section \<open>One execution\<close>

definition tt_signed_fill :: "exec_event \<Rightarrow> int" where
  "tt_signed_fill e = ex_fill_qty e * (if ex_side e = BUY then 1 else -1)"

definition tt_new_trade :: "exec_event \<Rightarrow> open_trade" where
  "tt_new_trade e =
     \<lparr>ot_entry_ts = ex_ts e, ot_side = (if 0 < tt_signed_fill e then BUY else SELL),
      ot_qty = \<bar>tt_signed_fill e\<bar>, ot_avg = ex_fill_price e, ot_exit_notional = 0, ot_exit_qty = 0,
      ot_realized = - ex_commission e\<rparr>"

definition tt_closing :: "exec_event \<Rightarrow> open_trade \<Rightarrow> bool" where
  "tt_closing e t =
     ((0 < tt_signed_fill e) \<noteq> (0 < ot_qty t * (if ot_side t = BUY then 1 else -1)))"

text \<open>Scaling into the same side: the average is over the total quantity, which may not be zero.\<close>

definition tt_scale :: "exec_event \<Rightarrow> open_trade \<Rightarrow> open_trade result" where
  "tt_scale e t =
     (let total_qty = ot_qty t + \<bar>tt_signed_fill e\<bar> in
      and_then (fdiv (ot_avg t * of_int (ot_qty t) + ex_fill_price e * of_int \<bar>tt_signed_fill e\<bar>)
                     (of_int total_qty))
        (\<lambda>avg. Inr (t\<lparr>ot_avg := avg, ot_qty := total_qty, ot_realized := ot_realized t - ex_commission e\<rparr>)))"

definition tt_close :: "real \<Rightarrow> exec_event \<Rightarrow> open_trade \<Rightarrow> open_trade" where
  "tt_close m e t =
     (let closing_qty = min \<bar>tt_signed_fill e\<bar> (ot_qty t);
          pnl_sign = (if ot_side t = BUY then 1 else -1)
      in t\<lparr>ot_realized := ot_realized t
              + pnl_sign * (ex_fill_price e - ot_avg t) * of_int closing_qty * m - ex_commission e,
           ot_exit_notional := ot_exit_notional t + ex_fill_price e * of_int closing_qty,
           ot_exit_qty := ot_exit_qty t + of_int closing_qty,
           ot_qty := ot_qty t - closing_qty\<rparr>)"

definition tt_record :: "exec_event \<Rightarrow> open_trade \<Rightarrow> closed_trade" where
  "tt_record e t =
     \<lparr>ct_symbol = ex_symbol e, ct_side = ot_side t, ct_entry_ts = ot_entry_ts t, ct_exit_ts = ex_ts e,
      ct_qty = py_int (ot_exit_qty t), ct_entry_price = ot_avg t,
      ct_exit_price = (if ot_exit_qty t \<noteq> 0 then ot_exit_notional t / ot_exit_qty t else ex_fill_price e),
      ct_pnl = ot_realized t\<rparr>"

definition tt_on_execution ::
  "(string \<Rightarrow> real result) \<Rightarrow> exec_event \<Rightarrow> tracker \<Rightarrow> closed_trade option result \<times> tracker" where
  "tt_on_execution lookup e tt =
     (case lookup (ex_symbol e) of
        Inl x \<Rightarrow> (Inl x, tt)
      | Inr m \<Rightarrow>
         (case dget (tt_open tt) (ex_symbol e) of
            None \<Rightarrow>
              if tt_signed_fill e = 0 then (Inr None, tt)
              else (Inr None, tt\<lparr>tt_open := dset (ex_symbol e) (tt_new_trade e) (tt_open tt)\<rparr>)
          | Some t \<Rightarrow>
              if \<not> tt_closing e t
              then (case tt_scale e t of
                      Inl x \<Rightarrow> (Inl x, tt)
                    | Inr t1 \<Rightarrow> (Inr None, tt\<lparr>tt_open := dset (ex_symbol e) t1 (tt_open tt)\<rparr>))
              else
                let t1 = tt_close m e t in
                if 0 < ot_qty t1
                then (Inr None, tt\<lparr>tt_open := dset (ex_symbol e) t1 (tt_open tt)\<rparr>)
                else (Inr (Some (tt_record e t1)),
                      tt\<lparr>tt_open := dpop (ex_symbol e) (tt_open tt),
                         tt_closed := tt_closed tt @ [tt_record e t1]\<rparr>)))"

section \<open>Invariant\<close>

definition tt_inv :: "tracker \<Rightarrow> bool" where
  "tt_inv tt \<longleftrightarrow> (\<forall>s t. dget (tt_open tt) s = Some t \<longrightarrow> 0 < ot_qty t)"

lemma tt_inv_init [simp, inv_intros]: "tt_inv tt_init"
  by (simp add: tt_inv_def tt_init_def)

lemma tt_scale_ok:
  assumes "0 < ot_qty t"
  shows "tt_scale e t = Inr (t\<lparr>
      ot_avg := (ot_avg t * of_int (ot_qty t) + ex_fill_price e * of_int \<bar>tt_signed_fill e\<bar>)
                  / of_int (ot_qty t + \<bar>tt_signed_fill e\<bar>),
      ot_qty := ot_qty t + \<bar>tt_signed_fill e\<bar>, ot_realized := ot_realized t - ex_commission e\<rparr>)"
proof -
  have "real_of_int (ot_qty t + \<bar>tt_signed_fill e\<bar>) \<noteq> 0" using assms by linarith
  then show ?thesis by (simp add: tt_scale_def Let_def fdiv_def del: of_int_add)
qed

text \<open>The three ways an execution can be taken, for the proofs below.\<close>

lemma tt_cases:
  assumes "tt_inv tt" "lookup (ex_symbol e) = Inr m" "tt_signed_fill e \<noteq> 0"
  obtains
    (opened) "dget (tt_open tt) (ex_symbol e) = None"
      "tt_on_execution lookup e tt =
        (Inr None, tt\<lparr>tt_open := dset (ex_symbol e) (tt_new_trade e) (tt_open tt)\<rparr>)"
  | (scaled) t t1 where "dget (tt_open tt) (ex_symbol e) = Some t" "\<not> tt_closing e t" "tt_scale e t = Inr t1"
      "tt_on_execution lookup e tt = (Inr None, tt\<lparr>tt_open := dset (ex_symbol e) t1 (tt_open tt)\<rparr>)"
  | (reduced) t where "dget (tt_open tt) (ex_symbol e) = Some t" "tt_closing e t" "0 < ot_qty (tt_close m e t)"
      "tt_on_execution lookup e tt =
        (Inr None, tt\<lparr>tt_open := dset (ex_symbol e) (tt_close m e t) (tt_open tt)\<rparr>)"
  | (flat) t where "dget (tt_open tt) (ex_symbol e) = Some t" "tt_closing e t" "ot_qty (tt_close m e t) = 0"
      "tt_on_execution lookup e tt = (Inr (Some (tt_record e (tt_close m e t))),
        tt\<lparr>tt_open := dpop (ex_symbol e) (tt_open tt),
           tt_closed := tt_closed tt @ [tt_record e (tt_close m e t)]\<rparr>)"
proof (cases "dget (tt_open tt) (ex_symbol e)")
  case None
  with assms show ?thesis by (intro opened) (simp_all add: tt_on_execution_def)
next
  case (Some t)
  then have pos: "0 < ot_qty t" using assms(1) by (simp add: tt_inv_def)
  show ?thesis
  proof (cases "tt_closing e t")
    case False
    obtain t1 where "tt_scale e t = Inr t1" using tt_scale_ok [OF pos] by blast
    with Some False assms(2) show ?thesis by (intro scaled) (simp_all add: tt_on_execution_def)
  next
    case True
    have "0 \<le> ot_qty (tt_close m e t)" using pos by (simp add: tt_close_def Let_def)
    then consider "0 < ot_qty (tt_close m e t)" | "ot_qty (tt_close m e t) = 0" by linarith
    then show ?thesis
    proof cases
      case 1
      with Some True assms(2) show ?thesis by (intro reduced) (simp_all add: tt_on_execution_def Let_def)
    next
      case 2
      with Some True assms(2) show ?thesis by (intro flat) (simp_all add: tt_on_execution_def Let_def)
    qed
  qed
qed

section \<open>Accounting\<close>

text \<open>What a symbol has realised, holds, and holds at cost, according to the tracker.\<close>

definition tt_realized :: "string \<Rightarrow> tracker \<Rightarrow> real" where
  "tt_realized s tt =
     sum_list (map ct_pnl (filter (\<lambda>c. ct_symbol c = s) (tt_closed tt)))
     + (case dget (tt_open tt) s of None \<Rightarrow> 0 | Some t \<Rightarrow> ot_realized t)"

definition tt_position :: "string \<Rightarrow> tracker \<Rightarrow> int" where
  "tt_position s tt =
     (case dget (tt_open tt) s of None \<Rightarrow> 0 | Some t \<Rightarrow> side_sign (ot_side t) * ot_qty t)"

definition tt_cost :: "string \<Rightarrow> tracker \<Rightarrow> real" where
  "tt_cost s tt =
     (case dget (tt_open tt) s of
        None \<Rightarrow> 0 | Some t \<Rightarrow> of_int (side_sign (ot_side t) * ot_qty t) * ot_avg t)"

text \<open>What the executions themselves say: money received, commissions, quantity.\<close>

definition fills_cash :: "string \<Rightarrow> exec_event list \<Rightarrow> real" where
  "fills_cash s es = sum_list (map (\<lambda>e. - of_int (tt_signed_fill e) * ex_fill_price e)
     (filter (\<lambda>e. ex_symbol e = s) es))"

definition fills_commission :: "string \<Rightarrow> exec_event list \<Rightarrow> real" where
  "fills_commission s es = sum_list (map ex_commission (filter (\<lambda>e. ex_symbol e = s) es))"

definition fills_position :: "string \<Rightarrow> exec_event list \<Rightarrow> int" where
  "fills_position s es = sum_list (map tt_signed_fill (filter (\<lambda>e. ex_symbol e = s) es))"

text \<open>No empty fill, and none that closes more than is open: the shapes the bot's strategies produce.\<close>

definition tt_no_flip :: "exec_event \<Rightarrow> tracker \<Rightarrow> bool" where
  "tt_no_flip e tt \<longleftrightarrow> tt_signed_fill e \<noteq> 0 \<and>
     (case dget (tt_open tt) (ex_symbol e) of
        None \<Rightarrow> True
      | Some t \<Rightarrow> tt_closing e t \<longrightarrow> \<bar>tt_signed_fill e\<bar> \<le> ot_qty t)"

lemma tt_side_cases:
  assumes "0 < ot_qty t" "tt_signed_fill e \<noteq> 0"
  shows "tt_closing e t \<longleftrightarrow> tt_signed_fill e * side_sign (ot_side t) < 0"
  using assms by (cases "ot_side t") (auto simp: tt_closing_def)

lemma tt_new_trade_position:
  "tt_signed_fill e \<noteq> 0 \<Longrightarrow>
   side_sign (ot_side (tt_new_trade e)) * ot_qty (tt_new_trade e) = tt_signed_fill e"
  by (auto simp: tt_new_trade_def)

lemma tt_scale_books:
  assumes "tt_scale e t = Inr t1" "0 < ot_qty t" "tt_signed_fill e \<noteq> 0" "\<not> tt_closing e t"
  shows "0 < ot_qty t1"
    and "side_sign (ot_side t1) * ot_qty t1 = side_sign (ot_side t) * ot_qty t + tt_signed_fill e"
    and "of_int (side_sign (ot_side t1) * ot_qty t1) * ot_avg t1 =
      of_int (side_sign (ot_side t) * ot_qty t) * ot_avg t + of_int (tt_signed_fill e) * ex_fill_price e"
    and "ot_realized t1 = ot_realized t - ex_commission e"
proof -
  let ?q = "ot_qty t + \<bar>tt_signed_fill e\<bar>"
  have t1: "t1 = t\<lparr>ot_avg := (ot_avg t * of_int (ot_qty t) + ex_fill_price e * of_int \<bar>tt_signed_fill e\<bar>) / of_int ?q,
      ot_qty := ?q, ot_realized := ot_realized t - ex_commission e\<rparr>"
    using tt_scale_ok [OF assms(2), of e] assms(1) by simp
  show "0 < ot_qty t1" using assms(2) by (simp add: t1)
  have same: "side_sign (ot_side t) * \<bar>tt_signed_fill e\<bar> = tt_signed_fill e"
    using assms(2-4) tt_side_cases [of t e] by (cases "ot_side t") auto
  show pos: "side_sign (ot_side t1) * ot_qty t1 = side_sign (ot_side t) * ot_qty t + tt_signed_fill e"
    using same by (simp add: t1 distrib_left)
  have nz: "real_of_int ?q \<noteq> 0" using assms(2) by linarith
  have avg: "of_int ?q * ot_avg t1 = of_int (ot_qty t) * ot_avg t + of_int \<bar>tt_signed_fill e\<bar> * ex_fill_price e"
    using nz by (simp add: t1 mult.commute del: of_int_add)
  have "of_int (side_sign (ot_side t1) * ot_qty t1) * ot_avg t1 = of_int (side_sign (ot_side t)) * (of_int ?q * ot_avg t1)"
    by (simp add: t1)
  also have "\<dots> = of_int (side_sign (ot_side t) * ot_qty t) * ot_avg t
      + of_int (side_sign (ot_side t) * \<bar>tt_signed_fill e\<bar>) * ex_fill_price e"
    by (simp only: avg) (simp add: distrib_left)
  finally show "of_int (side_sign (ot_side t1) * ot_qty t1) * ot_avg t1 =
      of_int (side_sign (ot_side t) * ot_qty t) * ot_avg t + of_int (tt_signed_fill e) * ex_fill_price e"
    by (simp only: same)
  show "ot_realized t1 = ot_realized t - ex_commission e" by (simp add: t1)
qed

lemma tt_close_books:
  assumes "0 < ot_qty t" "tt_signed_fill e \<noteq> 0" "tt_closing e t" "\<bar>tt_signed_fill e\<bar> \<le> ot_qty t"
  shows "side_sign (ot_side (tt_close m e t)) * ot_qty (tt_close m e t)
      = side_sign (ot_side t) * ot_qty t + tt_signed_fill e"
    and "ot_avg (tt_close m e t) = ot_avg t"
    and "ot_realized (tt_close m e t) = ot_realized t
      + m * of_int (tt_signed_fill e) * (ot_avg t - ex_fill_price e) - ex_commission e"
proof -
  have opp: "tt_signed_fill e = - (side_sign (ot_side t) * \<bar>tt_signed_fill e\<bar>)"
    using assms(1-3) tt_side_cases [of t e] by (cases "ot_side t") auto
  have closing_qty: "min \<bar>tt_signed_fill e\<bar> (ot_qty t) = \<bar>tt_signed_fill e\<bar>" using assms(4) by simp
  show "side_sign (ot_side (tt_close m e t)) * ot_qty (tt_close m e t)
      = side_sign (ot_side t) * ot_qty t + tt_signed_fill e"
    using opp by (simp add: tt_close_def Let_def closing_qty right_diff_distrib)
  show "ot_avg (tt_close m e t) = ot_avg t" by (simp add: tt_close_def Let_def)
  have "(if ot_side t = BUY then 1 else -1) * (ex_fill_price e - ot_avg t) * of_int \<bar>tt_signed_fill e\<bar> * m
      = m * of_int (tt_signed_fill e) * (ot_avg t - ex_fill_price e)"
    using opp by (cases "ot_side t") (auto simp: algebra_simps)
  then show "ot_realized (tt_close m e t) = ot_realized t
      + m * of_int (tt_signed_fill e) * (ot_avg t - ex_fill_price e) - ex_commission e"
    by (simp add: tt_close_def Let_def closing_qty)
qed

definition tt_step :: "(string \<Rightarrow> real) \<Rightarrow> exec_event \<Rightarrow> tracker \<Rightarrow> closed_trade option result \<times> tracker" where
  "tt_step mult e tt = tt_on_execution (\<lambda>s. Inr (mult s)) e tt"

text \<open>How much one execution moves a symbol's books.\<close>

definition tt_moves :: "(string \<Rightarrow> real) \<Rightarrow> exec_event \<Rightarrow> tracker \<Rightarrow> tracker \<Rightarrow> bool" where
  "tt_moves mult e tt tt' \<longleftrightarrow> (\<forall>s.
      tt_position s tt' = tt_position s tt + (if ex_symbol e = s then tt_signed_fill e else 0)
    \<and> tt_realized s tt' - mult s * tt_cost s tt' = tt_realized s tt - mult s * tt_cost s tt
        + (if ex_symbol e = s
           then mult s * (- of_int (tt_signed_fill e) * ex_fill_price e) - ex_commission e else 0))"

text \<open>An execution replaces the open trade of its own symbol only.\<close>

lemma tt_moves_replace:
  assumes tt': "tt_open tt' = dset (ex_symbol e) t1 (tt_open tt)" "tt_closed tt' = tt_closed tt"
    and pos: "side_sign (ot_side t1) * ot_qty t1 = tt_position (ex_symbol e) tt + tt_signed_fill e"
    and val: "ot_realized t1 - mult (ex_symbol e) * (of_int (side_sign (ot_side t1) * ot_qty t1) * ot_avg t1)
      = (case dget (tt_open tt) (ex_symbol e) of None \<Rightarrow> 0 | Some t \<Rightarrow> ot_realized t)
        - mult (ex_symbol e) * tt_cost (ex_symbol e) tt
        + mult (ex_symbol e) * (- of_int (tt_signed_fill e) * ex_fill_price e) - ex_commission e"
  shows "tt_moves mult e tt tt'"
  unfolding tt_moves_def
proof (intro allI conjI)
  fix s
  show "tt_position s tt' = tt_position s tt + (if ex_symbol e = s then tt_signed_fill e else 0)"
    using pos by (simp add: tt_position_def tt')
  show "tt_realized s tt' - mult s * tt_cost s tt' = tt_realized s tt - mult s * tt_cost s tt
        + (if ex_symbol e = s
           then mult s * (- of_int (tt_signed_fill e) * ex_fill_price e) - ex_commission e else 0)"
  proof (cases "ex_symbol e = s")
    case True
    with val show ?thesis by (simp add: tt_realized_def tt_cost_def tt')
  next
    case False
    then show ?thesis by (simp add: tt_realized_def tt_cost_def tt')
  qed
qed

lemma tt_step_moves:
  assumes inv: "tt_inv tt" and fit: "tt_no_flip e tt"
  shows "tt_moves mult e tt (snd (tt_step mult e tt)) \<and> tt_inv (snd (tt_step mult e tt))
    \<and> ok (fst (tt_step mult e tt))"
proof -
  let ?s = "ex_symbol e" and ?f = "tt_signed_fill e"
  have nz: "?f \<noteq> 0" using fit by (simp add: tt_no_flip_def)
  note step = tt_step_def tt_inv_def
  show ?thesis
  proof (rule tt_cases [where lookup = "\<lambda>s. Inr (mult s)", OF inv refl nz])
    assume none: "dget (tt_open tt) ?s = None"
      and r: "tt_on_execution (\<lambda>s. Inr (mult s)) e tt =
        (Inr None, tt\<lparr>tt_open := dset ?s (tt_new_trade e) (tt_open tt)\<rparr>)"
    have "tt_moves mult e tt (tt\<lparr>tt_open := dset ?s (tt_new_trade e) (tt_open tt)\<rparr>)"
      using tt_new_trade_position [OF nz] none
      by (intro tt_moves_replace [of _ _ "tt_new_trade e"])
        (simp_all add: tt_position_def tt_cost_def, simp add: tt_new_trade_def)
    with inv nz show ?thesis by (auto simp: step r tt_new_trade_def)
  next
    fix t t1
    assume some: "dget (tt_open tt) ?s = Some t" and dir: "\<not> tt_closing e t" and sc: "tt_scale e t = Inr t1"
      and r: "tt_on_execution (\<lambda>s. Inr (mult s)) e tt = (Inr None, tt\<lparr>tt_open := dset ?s t1 (tt_open tt)\<rparr>)"
    have pos: "0 < ot_qty t" using inv some by (simp add: tt_inv_def)
    note b = tt_scale_books [OF sc pos nz dir]
    have v: "of_int (side_sign (ot_side t1) * ot_qty t1) * ot_avg t1 = tt_cost ?s tt + of_int ?f * ex_fill_price e"
      using some b(3) by (simp only: tt_cost_def option.case)
    have w: "ot_realized t1 - mult ?s * (of_int (side_sign (ot_side t1) * ot_qty t1) * ot_avg t1)
        = ot_realized t - mult ?s * tt_cost ?s tt + mult ?s * (- of_int ?f * ex_fill_price e) - ex_commission e"
      by (simp only: v b(4)) (simp add: algebra_simps)
    have "tt_moves mult e tt (tt\<lparr>tt_open := dset ?s t1 (tt_open tt)\<rparr>)"
      using some b(2) w by (intro tt_moves_replace [of _ _ t1]) (simp_all add: tt_position_def)
    with inv b(1) show ?thesis by (simp add: step r)
  next
    fix t
    assume some: "dget (tt_open tt) ?s = Some t" and dir: "tt_closing e t" and left: "0 < ot_qty (tt_close (mult ?s) e t)"
      and r: "tt_on_execution (\<lambda>s. Inr (mult s)) e tt =
        (Inr None, tt\<lparr>tt_open := dset ?s (tt_close (mult ?s) e t) (tt_open tt)\<rparr>)"
    have pos: "0 < ot_qty t" using inv some by (simp add: tt_inv_def)
    have le: "\<bar>?f\<bar> \<le> ot_qty t" using fit some dir by (simp add: tt_no_flip_def)
    note b = tt_close_books [OF pos nz dir le, of "mult ?s"]
    have "tt_moves mult e tt (tt\<lparr>tt_open := dset ?s (tt_close (mult ?s) e t) (tt_open tt)\<rparr>)"
      using some by (intro tt_moves_replace [of _ _ "tt_close (mult ?s) e t"])
        (simp_all only: tt_position_def tt_cost_def b, simp_all add: algebra_simps)
    with inv left show ?thesis by (simp add: step r)
  next
    fix t
    assume some: "dget (tt_open tt) ?s = Some t" and dir: "tt_closing e t" and flat: "ot_qty (tt_close (mult ?s) e t) = 0"
      and r: "tt_on_execution (\<lambda>s. Inr (mult s)) e tt = (Inr (Some (tt_record e (tt_close (mult ?s) e t))),
        tt\<lparr>tt_open := dpop ?s (tt_open tt),
           tt_closed := tt_closed tt @ [tt_record e (tt_close (mult ?s) e t)]\<rparr>)"
    have pos: "0 < ot_qty t" using inv some by (simp add: tt_inv_def)
    have le: "\<bar>?f\<bar> \<le> ot_qty t" using fit some dir by (simp add: tt_no_flip_def)
    note b = tt_close_books [OF pos nz dir le, of "mult ?s"]
    have f: "side_sign (ot_side t) * ot_qty t = - ?f" using b(1) flat by simp
    let ?tt = "tt\<lparr>tt_open := dpop ?s (tt_open tt),
           tt_closed := tt_closed tt @ [tt_record e (tt_close (mult ?s) e t)]\<rparr>"
    have other: "tt_realized s ?tt = tt_realized s tt" "tt_cost s ?tt = tt_cost s tt"
      if "?s \<noteq> s" for s
      using that by (simp_all add: tt_realized_def tt_cost_def tt_record_def)
    have c: "real_of_int (side_sign (ot_side t) * ot_qty t) = - of_int ?f" by (simp only: f of_int_minus)
    have own: "tt_realized ?s ?tt = tt_realized ?s tt + (mult ?s * of_int ?f * (ot_avg t - ex_fill_price e) - ex_commission e)"
      "tt_cost ?s ?tt = 0" "tt_cost ?s tt = - of_int ?f * ot_avg t"
      using some c by (simp_all add: tt_realized_def tt_cost_def tt_record_def b(3))
    have "tt_moves mult e tt ?tt"
      unfolding tt_moves_def
    proof (intro allI conjI)
      fix s
      show "tt_position s ?tt = tt_position s tt + (if ?s = s then ?f else 0)"
        using some f by (auto simp: tt_position_def)
      show "tt_realized s ?tt - mult s * tt_cost s ?tt = tt_realized s tt - mult s * tt_cost s tt
          + (if ?s = s then mult s * (- of_int ?f * ex_fill_price e) - ex_commission e else 0)"
        by (cases "?s = s") (use own other in \<open>auto simp: algebra_simps\<close>)
    qed
    with inv show ?thesis by (simp add: step r)
  qed
qed

lemma fills_snoc [simp]:
  "fills_cash s (es @ [e]) = fills_cash s es + (if ex_symbol e = s then - of_int (tt_signed_fill e) * ex_fill_price e else 0)"
  "fills_commission s (es @ [e]) = fills_commission s es + (if ex_symbol e = s then ex_commission e else 0)"
  "fills_position s (es @ [e]) = fills_position s es + (if ex_symbol e = s then tt_signed_fill e else 0)"
  by (simp_all add: fills_cash_def fills_commission_def fills_position_def)

lemma run_ok_snoc: "run_ok g f (xs @ [x]) s \<longleftrightarrow> run_ok g f xs s \<and> g x (snd (drive f xs s))"
  by (induction xs arbitrary: s) simp_all

lemma tt_run_books:
  assumes "run_ok tt_no_flip (tt_step mult) es tt_init"
  shows "let tt = snd (drive (tt_step mult) es tt_init) in
      tt_inv tt \<and> (\<forall>r \<in> set (fst (drive (tt_step mult) es tt_init)). ok r)
    \<and> tt_position s tt = fills_position s es
    \<and> tt_realized s tt = mult s * (fills_cash s es + tt_cost s tt) - fills_commission s es"
  using assms
proof (induction es rule: rev_induct)
  case Nil
  then show ?case
    by (simp add: tt_init_def tt_inv_def fills_position_def fills_cash_def fills_commission_def
        tt_position_def tt_realized_def tt_cost_def)
next
  case (snoc e es)
  let ?tt = "snd (drive (tt_step mult) es tt_init)"
  have run: "run_ok tt_no_flip (tt_step mult) es tt_init" "tt_no_flip e ?tt"
    using snoc.prems by (simp_all add: run_ok_snoc)
  note IH = snoc.IH [OF run(1), unfolded Let_def]
  have mv: "tt_moves mult e ?tt (snd (tt_step mult e ?tt))" "tt_inv (snd (tt_step mult e ?tt))"
      "ok (fst (tt_step mult e ?tt))"
    using tt_step_moves [OF _ run(2)] IH by simp_all
  have "tt_position s (snd (tt_step mult e ?tt)) = fills_position s (es @ [e])"
    using mv(1) IH by (simp add: tt_moves_def)
  moreover have "tt_realized s (snd (tt_step mult e ?tt)) =
      mult s * (fills_cash s (es @ [e]) + tt_cost s (snd (tt_step mult e ?tt))) - fills_commission s (es @ [e])"
    using mv(1) IH by (auto simp: tt_moves_def algebra_simps dest!: spec [of _ s])
  ultimately show ?case using mv(2,3) IH by (auto simp: Let_def drive_append)
qed

text \<open>
  Property C4. Over any interleaving of executions of any symbols, none empty and none closing
  more than is open, the tracker raises nothing and, for each symbol, what it has realised (closed
  and open trades) is the multiplier times the cash flow with the open quantity valued at average
  cost, less the commissions; when the executions net to zero it is the plain net cash flow.
\<close>

theorem tt_realized_is_cash_flow:
  assumes "run_ok tt_no_flip (tt_step mult) es tt_init"
  defines "tt \<equiv> snd (drive (tt_step mult) es tt_init)"
  shows "(\<forall>r \<in> set (fst (drive (tt_step mult) es tt_init)). ok r)
    \<and> tt_position s tt = fills_position s es
    \<and> tt_realized s tt = mult s * (fills_cash s es + tt_cost s tt) - fills_commission s es
    \<and> (fills_position s es = 0 \<longrightarrow>
        dget (tt_open tt) s = None
        \<and> sum_list (map ct_pnl (filter (\<lambda>c. ct_symbol c = s) (tt_closed tt)))
          = mult s * fills_cash s es - fills_commission s es)"
proof -
  have books: "tt_inv tt" "\<forall>r \<in> set (fst (drive (tt_step mult) es tt_init)). ok r"
      "tt_position s tt = fills_position s es"
      "tt_realized s tt = mult s * (fills_cash s es + tt_cost s tt) - fills_commission s es"
    using tt_run_books [OF assms(1), of s] by (simp_all add: tt_def Let_def)
  have "dget (tt_open tt) s = None" if "fills_position s es = 0"
  proof (rule ccontr)
    assume "dget (tt_open tt) s \<noteq> None"
    then obtain t where t: "dget (tt_open tt) s = Some t" by blast
    then have "0 < ot_qty t" using books(1) by (simp add: tt_inv_def)
    moreover have "side_sign (ot_side t) * ot_qty t = 0"
      using books(3) that t by (simp add: tt_position_def)
    ultimately show False by (cases "ot_side t") simp_all
  qed
  with books show ?thesis by (auto simp: tt_realized_def tt_cost_def)
qed

definition sample_exec :: "string \<Rightarrow> order_side \<Rightarrow> int \<Rightarrow> real \<Rightarrow> exec_event" where
  "sample_exec symb sd q px =
     \<lparr>ex_ts = 0, ex_order_id = ''o'', ex_corr = ''c'', ex_symbol = symb, ex_side = sd, ex_fill_qty = q,
      ex_fill_price = px, ex_cum_qty = q, ex_rem_qty = 0, ex_commission = 1, ex_liquidity = ''TAKER'',
      ex_expected = None\<rparr>"

theorem tt_realized_is_cash_flow_witness:
  "sum_list (map ct_pnl (filter (\<lambda>c. ct_symbol c = ''X'')
      (tt_closed (snd (drive (tt_step (\<lambda>_. 2))
        [sample_exec ''X'' BUY 2 10, sample_exec ''Y'' SELL 1 5, sample_exec ''X'' BUY 2 12, sample_exec ''X'' SELL 4 15]
        tt_init))))) = 29"
proof -
  let ?es = "[sample_exec ''X'' BUY 2 10, sample_exec ''Y'' SELL 1 5, sample_exec ''X'' BUY 2 12, sample_exec ''X'' SELL 4 15]"
  have "run_ok tt_no_flip (tt_step (\<lambda>_. 2)) ?es tt_init"
    by (simp add: tt_no_flip_def tt_step_def tt_on_execution_def tt_init_def sample_exec_def tt_new_trade_def
        tt_signed_fill_def tt_closing_def tt_scale_def Let_def)
  from tt_realized_is_cash_flow [OF this, of "''X''"]
  show ?thesis
    by (simp add: fills_position_def fills_cash_def fills_commission_def sample_exec_def tt_signed_fill_def)
qed

end
