(* ===== verification/Event_Bus.thy ===== *)
theory Event_Bus
  imports Interfaces "HOL-Library.Multiset" "HOL-Library.Sublist"
begin

text \<open>
  The asyncio event bus, \<^verbatim>\<open>core/event_bus.py\<close>: the bounded queue, the subscriber tables, and the
  dispatch task as a program counter with one step function.  A handler is an opaque name; what
  it does when called is the argument \<open>run\<close>, which returns the events it publishes, whether it
  raises, and the new state of the world outside the bus.  The optional Redis fan-out is not
  modelled (no entry point of the program configures it).
\<close>

section \<open>asyncio.Queue\<close>

record 'e aqueue =
  aq_items :: "'e list"
  aq_max :: nat            \<comment> \<open>0 means unbounded\<close>
  aq_unfinished :: nat

definition aq_new :: "nat \<Rightarrow> 'e aqueue" where
  "aq_new maxsize = \<lparr>aq_items = [], aq_max = maxsize, aq_unfinished = 0\<rparr>"

definition aq_full :: "'e aqueue \<Rightarrow> bool" where
  "aq_full q \<longleftrightarrow> 0 < aq_max q \<and> aq_max q \<le> length (aq_items q)"

text \<open>\<^verbatim>\<open>put_nowait\<close>: \<^verbatim>\<open>False\<close> stands for the \<^verbatim>\<open>QueueFull\<close> exception.\<close>

definition aq_put_nowait :: "'e \<Rightarrow> 'e aqueue \<Rightarrow> bool \<times> 'e aqueue" where
  "aq_put_nowait e q =
     (if aq_full q then (False, q)
      else (True, q\<lparr>aq_items := aq_items q @ [e], aq_unfinished := Suc (aq_unfinished q)\<rparr>))"

definition aq_get :: "'e aqueue \<Rightarrow> ('e \<times> 'e aqueue) option" where
  "aq_get q = (case aq_items q of [] \<Rightarrow> None | e # es \<Rightarrow> Some (e, q\<lparr>aq_items := es\<rparr>))"

definition aq_task_done :: "'e aqueue \<Rightarrow> 'e aqueue result" where
  "aq_task_done q =
     (if aq_unfinished q = 0 then Inl (ValueError [Lit ''task_done() called too many times''])
      else Inr (q\<lparr>aq_unfinished := aq_unfinished q - 1\<rparr>))"

interpretation aqc: fifo_channel aq_put_nowait aq_get aq_items
  by unfold_locales (auto simp: aq_put_nowait_def aq_get_def split: if_splits list.splits)

section \<open>The bus\<close>

datatype loop_pc = LoopTest | LoopGet | LoopExited

record 'h bus =
  eb_queue :: "event aqueue"
  eb_subs :: "event_type \<Rightarrow> 'h list"
  eb_global :: "'h list"
  eb_running :: bool
  eb_pc :: loop_pc
  eb_published :: nat
  eb_dropped :: nat

type_synonym ('h, 'w) handler_sem = "'h \<Rightarrow> event \<Rightarrow> 'w \<Rightarrow> (event list \<times> bool) \<times> 'w"

definition eb_init :: "nat \<Rightarrow> 'h bus" where
  "eb_init maxsize = \<lparr>eb_queue = aq_new maxsize, eb_subs = (\<lambda>_. []), eb_global = [],
     eb_running = False, eb_pc = LoopExited, eb_published = 0, eb_dropped = 0\<rparr>"

definition eb_start :: "'h bus \<Rightarrow> 'h bus" where
  "eb_start b = b\<lparr>eb_running := True, eb_pc := LoopTest\<rparr>"

definition eb_subscribe :: "event_type \<Rightarrow> 'h \<Rightarrow> 'h bus \<Rightarrow> 'h bus" where
  "eb_subscribe t h b = b\<lparr>eb_subs := (eb_subs b)(t := eb_subs b t @ [h])\<rparr>"

definition eb_subscribe_all :: "'h \<Rightarrow> 'h bus \<Rightarrow> 'h bus" where
  "eb_subscribe_all h b = b\<lparr>eb_global := eb_global b @ [h]\<rparr>"

definition eb_publish :: "event \<Rightarrow> 'h bus \<Rightarrow> 'h bus" where
  "eb_publish e b =
     (case aq_put_nowait e (eb_queue b) of
        (True, q) \<Rightarrow> b\<lparr>eb_queue := q, eb_published := Suc (eb_published b)\<rparr>
      | (False, _) \<Rightarrow> b\<lparr>eb_dropped := Suc (eb_dropped b)\<rparr>)"

text \<open>\<^verbatim>\<open>publish_and_wait\<close>: \<open>None\<close> while the caller is suspended for lack of room.\<close>

definition eb_publish_and_wait :: "event \<Rightarrow> 'h bus \<Rightarrow> 'h bus option" where
  "eb_publish_and_wait e b =
     (case aq_put_nowait e (eb_queue b) of
        (True, q) \<Rightarrow> Some (b\<lparr>eb_queue := q, eb_published := Suc (eb_published b)\<rparr>)
      | (False, _) \<Rightarrow> None)"

text \<open>
  \<^verbatim>\<open>_dispatch\<close>: the handlers of the event's type, then the global ones, in order of
  subscription, over the table as it was at the start; an exception abandons the rest.
\<close>

fun eb_run_handlers ::
  "('h, 'w) handler_sem \<Rightarrow> 'h list \<Rightarrow> event \<Rightarrow> 'h bus \<Rightarrow> 'w \<Rightarrow> 'h bus \<times> 'w \<times> bool" where
  "eb_run_handlers run [] e b w = (b, w, False)"
| "eb_run_handlers run (h # hs) e b w =
     (case run h e w of ((pubs, raised), w1) \<Rightarrow>
        (let b1 = fold eb_publish pubs b in
         if raised then (b1, w1, True) else eb_run_handlers run hs e b1 w1))"

definition eb_dispatch ::
  "('h, 'w) handler_sem \<Rightarrow> event \<Rightarrow> 'h bus \<Rightarrow> 'w \<Rightarrow> 'h bus \<times> 'w \<times> bool" where
  "eb_dispatch run e b w =
     eb_run_handlers run (eb_subs b (event_type_of e) @ eb_global b) e b w"

text \<open>
  One step of \<^verbatim>\<open>_dispatch_loop\<close>: the loop test, or taking one event and dispatching it to the end
  (an exception is logged, \<^verbatim>\<open>task_done\<close> runs either way).  \<open>None\<close>: blocked in \<^verbatim>\<open>get\<close>, or exited.
\<close>

definition eb_loop_step ::
  "('h, 'w) handler_sem \<Rightarrow> 'h bus \<times> 'w \<Rightarrow> ('h bus \<times> 'w) option" where
  "eb_loop_step run bw = (case bw of (b, w) \<Rightarrow>
     (case eb_pc b of
        LoopExited \<Rightarrow> None
      | LoopTest \<Rightarrow> Some (b\<lparr>eb_pc := if eb_running b then LoopGet else LoopExited\<rparr>, w)
      | LoopGet \<Rightarrow>
          (case aq_get (eb_queue b) of
             None \<Rightarrow> None
           | Some (e, q) \<Rightarrow>
               (case eb_dispatch run e (b\<lparr>eb_queue := q\<rparr>) w of (b1, w1, _) \<Rightarrow>
                  (case aq_task_done (eb_queue b1) of
                     Inl _ \<Rightarrow> None
                   | Inr q1 \<Rightarrow> Some (b1\<lparr>eb_queue := q1, eb_pc := LoopTest\<rparr>, w1))))))"

text \<open>
  \<^verbatim>\<open>stop()\<close> clears the flag and then awaits \<^verbatim>\<open>queue.join()\<close>, which returns only once no task is
  unfinished; \<^verbatim>\<open>join()\<close> awaits the same condition.
\<close>

definition eb_stop_request :: "'h bus \<Rightarrow> 'h bus" where
  "eb_stop_request b = b\<lparr>eb_running := False\<rparr>"

definition eb_joined :: "'h bus \<Rightarrow> bool" where
  "eb_joined b \<longleftrightarrow> aq_unfinished (eb_queue b) = 0"

definition eb_queue_depth :: "'h bus \<Rightarrow> nat" where
  "eb_queue_depth b = length (aq_items (eb_queue b))"

section \<open>Invariant\<close>

text \<open>Between two steps of the loop every queued event is unfinished and nothing else is.\<close>

definition eb_inv :: "'h bus \<Rightarrow> bool" where
  "eb_inv b \<longleftrightarrow> aq_unfinished (eb_queue b) = length (aq_items (eb_queue b))
     \<and> (0 < aq_max (eb_queue b) \<longrightarrow> length (aq_items (eb_queue b)) \<le> aq_max (eb_queue b))"

lemma eb_inv_init [simp, inv_intros]: "eb_inv (eb_init n)"
  by (simp add: eb_inv_def eb_init_def aq_new_def)

lemma eb_publish_unfold:
  "eb_publish e b =
     (if aq_full (eb_queue b) then b\<lparr>eb_dropped := Suc (eb_dropped b)\<rparr>
      else b\<lparr>eb_queue := (eb_queue b)\<lparr>aq_items := aq_items (eb_queue b) @ [e],
                                     aq_unfinished := Suc (aq_unfinished (eb_queue b))\<rparr>,
             eb_published := Suc (eb_published b)\<rparr>)"
  by (simp add: eb_publish_def aq_put_nowait_def)

lemma eb_inv_publish [inv_intros]: "eb_inv b \<Longrightarrow> eb_inv (eb_publish e b)"
  by (auto simp: eb_inv_def eb_publish_unfold aq_full_def)

text \<open>
  What a sequence of publications does to the bus: it appends some of the events, counts every
  one either as published or as dropped, and touches nothing else.
\<close>

definition eb_extends :: "'h bus \<Rightarrow> event list \<Rightarrow> 'h bus \<Rightarrow> bool" where
  "eb_extends b pubs b' \<longleftrightarrow> (\<exists>es. subseq es pubs
     \<and> aq_items (eb_queue b') = aq_items (eb_queue b) @ es
     \<and> aq_unfinished (eb_queue b') = aq_unfinished (eb_queue b) + length es
     \<and> aq_max (eb_queue b') = aq_max (eb_queue b)
     \<and> eb_published b' = eb_published b + length es
     \<and> eb_dropped b' + length es = eb_dropped b + length pubs
     \<and> length es \<le> length pubs
     \<and> eb_subs b' = eb_subs b \<and> eb_global b' = eb_global b
     \<and> eb_running b' = eb_running b \<and> eb_pc b' = eb_pc b)"

lemma eb_extends_refl [simp]: "eb_extends b [] b"
  by (simp add: eb_extends_def)

lemma eb_extends_publish: "eb_extends b [e] (eb_publish e b)"
proof (cases "aq_full (eb_queue b)")
  case True
  then show ?thesis by (auto simp: eb_extends_def eb_publish_unfold intro: exI [of _ "[]"])
next
  case False
  then show ?thesis by (auto simp: eb_extends_def eb_publish_unfold intro!: exI [of _ "[e]"])
qed

lemma eb_extends_trans:
  assumes "eb_extends b ps b1" "eb_extends b1 qs b2"
  shows "eb_extends b (ps @ qs) b2"
proof -
  from assms(1) obtain es where es: "subseq es ps"
     "aq_items (eb_queue b1) = aq_items (eb_queue b) @ es"
     "aq_unfinished (eb_queue b1) = aq_unfinished (eb_queue b) + length es"
     "aq_max (eb_queue b1) = aq_max (eb_queue b)"
     "eb_published b1 = eb_published b + length es"
     "eb_dropped b1 + length es = eb_dropped b + length ps" "length es \<le> length ps"
     "eb_subs b1 = eb_subs b" "eb_global b1 = eb_global b"
     "eb_running b1 = eb_running b" "eb_pc b1 = eb_pc b"
    unfolding eb_extends_def by blast
  from assms(2) obtain fs where fs: "subseq fs qs"
     "aq_items (eb_queue b2) = aq_items (eb_queue b1) @ fs"
     "aq_unfinished (eb_queue b2) = aq_unfinished (eb_queue b1) + length fs"
     "aq_max (eb_queue b2) = aq_max (eb_queue b1)"
     "eb_published b2 = eb_published b1 + length fs"
     "eb_dropped b2 + length fs = eb_dropped b1 + length qs" "length fs \<le> length qs"
     "eb_subs b2 = eb_subs b1" "eb_global b2 = eb_global b1"
     "eb_running b2 = eb_running b1" "eb_pc b2 = eb_pc b1"
    unfolding eb_extends_def by blast
  show ?thesis
    unfolding eb_extends_def
    by (rule exI [of _ "es @ fs"]) (use es fs in \<open>auto intro: list_emb_append_mono\<close>)
qed

lemma eb_extends_fold: "eb_extends b pubs (fold eb_publish pubs b)"
proof (induction pubs arbitrary: b)
  case Nil
  then show ?case by simp
next
  case (Cons e pubs)
  have "eb_extends b ([e] @ pubs) (fold eb_publish pubs (eb_publish e b))"
    using eb_extends_publish Cons.IH by (rule eb_extends_trans)
  then show ?case by simp
qed

text \<open>The events a list of handlers publishes, up to and including the first that raises.\<close>

fun handlers_publish :: "('h, 'w) handler_sem \<Rightarrow> 'h list \<Rightarrow> event \<Rightarrow> 'w \<Rightarrow> event list" where
  "handlers_publish run [] e w = []"
| "handlers_publish run (h # hs) e w =
     (case run h e w of ((pubs, raised), w1) \<Rightarrow>
        pubs @ (if raised then [] else handlers_publish run hs e w1))"

lemma eb_run_handlers_extends:
  "eb_run_handlers run hs e b w = (b', w', raised) \<Longrightarrow>
   eb_extends b (handlers_publish run hs e w) b'"
proof (induction hs arbitrary: b w)
  case Nil
  then show ?case by simp
next
  case (Cons h hs)
  obtain pubs r w1 where r: "run h e w = ((pubs, r), w1)" by (metis prod.exhaust)
  show ?case
  proof (cases r)
    case True
    with Cons.prems r show ?thesis by (auto simp: Let_def eb_extends_fold)
  next
    case False
    with Cons.prems r have "eb_run_handlers run hs e (fold eb_publish pubs b) w1 = (b', w', raised)"
      by (simp add: Let_def)
    then have "eb_extends (fold eb_publish pubs b) (handlers_publish run hs e w1) b'"
      by (rule Cons.IH)
    with eb_extends_fold have "eb_extends b (pubs @ handlers_publish run hs e w1) b'"
      by (rule eb_extends_trans)
    with False r show ?thesis by simp
  qed
qed

lemma eb_run_handlers_cap:
  "eb_run_handlers run hs e b w = (b', w', raised) \<Longrightarrow>
   (0 < aq_max (eb_queue b) \<longrightarrow> length (aq_items (eb_queue b)) \<le> aq_max (eb_queue b)) \<Longrightarrow>
   0 < aq_max (eb_queue b') \<longrightarrow> length (aq_items (eb_queue b')) \<le> aq_max (eb_queue b')"
proof (induction hs arbitrary: b w)
  case Nil
  then show ?case by simp
next
  case (Cons h hs)
  obtain pubs r w1 where r: "run h e w = ((pubs, r), w1)" by (metis prod.exhaust)
  have pub: "0 < aq_max (eb_queue b) \<longrightarrow> length (aq_items (eb_queue b)) \<le> aq_max (eb_queue b) \<Longrightarrow>
    0 < aq_max (eb_queue (fold eb_publish pubs b)) \<longrightarrow>
      length (aq_items (eb_queue (fold eb_publish pubs b))) \<le> aq_max (eb_queue (fold eb_publish pubs b))"
    for b :: "'a bus"
    by (induction pubs arbitrary: b) (auto simp: eb_publish_unfold aq_full_def)
  show ?case
    using Cons.prems Cons.IH [of "fold eb_publish pubs b" w1] pub [of b] r
    by (cases r) (auto simp: Let_def)
qed

section \<open>Steps of the dispatch loop\<close>

abbreviation eb_targets :: "'h bus \<Rightarrow> event \<Rightarrow> 'h list" where
  "eb_targets b e \<equiv> eb_subs b (event_type_of e) @ eb_global b"

lemma eb_step_test:
  "eb_pc b = LoopTest \<Longrightarrow>
   eb_loop_step run (b, w) = Some (b\<lparr>eb_pc := if eb_running b then LoopGet else LoopExited\<rparr>, w)"
  by (simp add: eb_loop_step_def)

lemma eb_step_exited [simp]: "eb_pc b = LoopExited \<Longrightarrow> eb_loop_step run (b, w) = None"
  by (simp add: eb_loop_step_def)

lemma eb_step_idle: "eb_pc b = LoopGet \<Longrightarrow> aq_items (eb_queue b) = [] \<Longrightarrow> eb_loop_step run (b, w) = None"
  by (simp add: eb_loop_step_def aq_get_def)

text \<open>
  Taking an event always succeeds: whatever the handlers do, the loop is back at its test, the
  event is gone from the head of the queue and what the handlers published stands at its end.
\<close>

lemma eb_step_get:
  assumes inv: "eb_inv b" and pc: "eb_pc b = LoopGet" and items: "aq_items (eb_queue b) = e # es"
  obtains b' w' fs where "eb_loop_step run (b, w) = Some (b', w')"
    "aq_items (eb_queue b') = es @ fs"
    "subseq fs (handlers_publish run (eb_targets b e) e w)"
    "eb_published b' = eb_published b + length fs"
    "eb_dropped b' + length fs = eb_dropped b + length (handlers_publish run (eb_targets b e) e w)"
    "eb_pc b' = LoopTest" "eb_running b' = eb_running b" "eb_inv b'"
    "eb_subs b' = eb_subs b" "eb_global b' = eb_global b" "aq_max (eb_queue b') = aq_max (eb_queue b)"
proof -
  let ?q = "(eb_queue b)\<lparr>aq_items := es\<rparr>" and ?ps = "handlers_publish run (eb_targets b e) e w"
  let ?b = "b\<lparr>eb_queue := ?q\<rparr>"
  obtain b1 w1 raised where run: "eb_run_handlers run (eb_targets b e) e ?b w = (b1, w1, raised)"
    by (metis prod.exhaust)
  then obtain fs where fs: "subseq fs ?ps" "aq_items (eb_queue b1) = es @ fs"
      "aq_unfinished (eb_queue b1) = aq_unfinished (eb_queue b) + length fs"
      "aq_max (eb_queue b1) = aq_max (eb_queue b)"
      "eb_published b1 = eb_published b + length fs"
      "eb_dropped b1 + length fs = eb_dropped b + length ?ps"
      "eb_subs b1 = eb_subs b" "eb_global b1 = eb_global b"
      "eb_running b1 = eb_running b" "eb_pc b1 = eb_pc b"
    using eb_run_handlers_extends [OF run] by (auto simp: eb_extends_def)
  have cap: "0 < aq_max (eb_queue b) \<Longrightarrow> length (es @ fs) \<le> aq_max (eb_queue b)"
    using eb_run_handlers_cap [OF run] inv items fs(2,4) by (simp add: eb_inv_def)
  let ?b' = "b1\<lparr>eb_queue := (eb_queue b1)\<lparr>aq_unfinished := aq_unfinished (eb_queue b1) - 1\<rparr>,
                eb_pc := LoopTest\<rparr>"
  have unf: "aq_unfinished (eb_queue b) = Suc (length es)"
    using inv items by (simp add: eb_inv_def)
  have step: "eb_loop_step run (b, w) = Some (?b', w1)"
    using pc items run unf fs(3)
    by (simp add: eb_loop_step_def aq_get_def eb_dispatch_def aq_task_done_def)
  have "eb_inv ?b'" using unf fs(2,3,4) cap by (simp add: eb_inv_def)
  then show ?thesis
    using step fs by (intro that [of ?b' w1 fs]) simp_all
qed

section \<open>Runs of the bus\<close>

text \<open>
  The reachable states of a bus whose task has been started, with two logs: the events the loop
  has dispatched and those anyone has tried to publish.  Other tasks may publish between any two
  steps of the loop, and may ask it to stop.
\<close>

inductive bus_reach ::
  "('h, 'w) handler_sem \<Rightarrow> nat \<Rightarrow> 'h bus \<Rightarrow> 'w \<Rightarrow> event list \<Rightarrow> event list \<Rightarrow> bool"
  for run :: "('h, 'w) handler_sem" and n :: nat where
  start: "bus_reach run n
     (eb_start ((eb_init n :: 'h bus)\<lparr>eb_subs := subs, eb_global := glob\<rparr>)) w [] []"
| publish: "bus_reach run n b w ds ps \<Longrightarrow> bus_reach run n (eb_publish e b) w ds (ps @ [e])"
| test: "bus_reach run n b w ds ps \<Longrightarrow> eb_pc b = LoopTest \<Longrightarrow>
     eb_loop_step run (b, w) = Some (b', w') \<Longrightarrow> bus_reach run n b' w' ds ps"
| get: "bus_reach run n b w ds ps \<Longrightarrow> eb_pc b = LoopGet \<Longrightarrow> aq_items (eb_queue b) = e # es \<Longrightarrow>
     eb_loop_step run (b, w) = Some (b', w') \<Longrightarrow>
     bus_reach run n b' w' (ds @ [e]) (ps @ handlers_publish run (eb_targets b e) e w)"
| stop: "bus_reach run n b w ds ps \<Longrightarrow> bus_reach run n (eb_stop_request b) w ds ps"

definition bus_books :: "nat \<Rightarrow> 'h bus \<Rightarrow> event list \<Rightarrow> event list \<Rightarrow> bool" where
  "bus_books n b ds ps \<longleftrightarrow> eb_inv b \<and> aq_max (eb_queue b) = n
     \<and> eb_published b = length ds + length (aq_items (eb_queue b))
     \<and> eb_published b + eb_dropped b = length ps
     \<and> subseq (ds @ aq_items (eb_queue b)) ps"

lemma bus_books_extend:
  assumes "bus_books n b ds ps" "eb_extends b qs b'" "eb_inv b'"
  shows "bus_books n b' ds (ps @ qs)"
proof -
  from assms(2) obtain fs where fs: "subseq fs qs" "aq_items (eb_queue b') = aq_items (eb_queue b) @ fs"
     "aq_max (eb_queue b') = aq_max (eb_queue b)" "eb_published b' = eb_published b + length fs"
     "eb_dropped b' + length fs = eb_dropped b + length qs" "length fs \<le> length qs"
    by (auto simp: eb_extends_def)
  have "subseq ((ds @ aq_items (eb_queue b)) @ fs) (ps @ qs)"
    using assms(1) fs(1) by (intro list_emb_append_mono) (simp_all add: bus_books_def)
  then show ?thesis
    using assms(1,3) fs by (simp add: bus_books_def)
qed

lemma bus_reach_books: "bus_reach run n b w ds ps \<Longrightarrow> bus_books n b ds ps"
proof (induction rule: bus_reach.induct)
  case (start subs glob w)
  show ?case by (simp add: bus_books_def eb_start_def eb_init_def aq_new_def eb_inv_def)
next
  case (publish b w ds ps e)
  then show ?case
    by (intro bus_books_extend [OF _ eb_extends_publish]) (auto simp: bus_books_def eb_inv_publish)
next
  case (test b w ds ps b' w')
  then show ?case by (auto simp: eb_step_test bus_books_def eb_inv_def)
next
  case (get b w ds ps e es b' w')
  then have inv: "eb_inv b" and books: "bus_books n b ds ps" by (simp_all add: bus_books_def)
  let ?qs = "handlers_publish run (eb_targets b e) e w"
  obtain b1 w1 fs where step: "eb_loop_step run (b, w) = Some (b1, w1)"
    and "aq_items (eb_queue b1) = es @ fs" "subseq fs ?qs" "eb_published b1 = eb_published b + length fs"
      "eb_dropped b1 + length fs = eb_dropped b + length ?qs"
      "eb_inv b1" "aq_max (eb_queue b1) = aq_max (eb_queue b)"
    by (rule eb_step_get [OF inv get.hyps(2,3), of run w]) blast
  moreover have "b1 = b'" using step get.hyps(4) by simp
  ultimately have fs: "aq_items (eb_queue b') = es @ fs" "subseq fs ?qs"
      "eb_published b' = eb_published b + length fs"
      "eb_dropped b' + length fs = eb_dropped b + length ?qs"
      "eb_inv b'" "aq_max (eb_queue b') = aq_max (eb_queue b)"
    by simp_all
  have "subseq ((ds @ e # es) @ fs) (ps @ ?qs)"
    using books get.hyps(3) fs(2) by (intro list_emb_append_mono) (simp_all add: bus_books_def)
  then show ?case
    using books get.hyps(3) fs by (simp add: bus_books_def)
next
  case (stop b w ds ps)
  then show ?case by (auto simp: bus_books_def eb_stop_request_def eb_inv_def)
qed

section \<open>Draining\<close>

text \<open>\<^verbatim>\<open>join()\<close> as the loop steps it waits for; \<open>None\<close>: not returned within the fuel.\<close>

fun eb_drain :: "('h, 'w) handler_sem \<Rightarrow> nat \<Rightarrow> 'h bus \<times> 'w \<Rightarrow> ('h bus \<times> 'w) option" where
  "eb_drain run 0 (b, w) = (if eb_joined b then Some (b, w) else None)"
| "eb_drain run (Suc n) (b, w) =
     (if eb_joined b then Some (b, w)
      else case eb_loop_step run (b, w) of None \<Rightarrow> None | Some bw \<Rightarrow> eb_drain run n bw)"

text \<open>
  Handlers are stratified when everything a handler publishes in reaction to an event ranks
  strictly below it (ticks cause bars, bars cause signals, signals cause nothing on the bus).
\<close>

definition stratified :: "(event \<Rightarrow> nat) \<Rightarrow> ('h, 'w) handler_sem \<Rightarrow> bool" where
  "stratified rank run \<longleftrightarrow> (\<forall>h e w. \<forall>p \<in> set (fst (fst (run h e w))). rank p < rank e)"

lemma stratified_publish:
  "stratified rank run \<Longrightarrow> p \<in> set (handlers_publish run hs e w) \<Longrightarrow> rank p < rank e"
proof (induction hs arbitrary: w)
  case Nil
  then show ?case by simp
next
  case (Cons h hs)
  obtain pubs r w1 where r: "run h e w = ((pubs, r), w1)" by (metis prod.exhaust)
  with Cons.prems(1) have "\<forall>p \<in> set pubs. rank p < rank e"
    unfolding stratified_def by (metis fst_conv)
  with Cons r show ?case by (auto split: if_splits)
qed

lemma eb_drain_returns:
  assumes strat: "stratified rank run"
  shows "eb_inv b \<Longrightarrow> eb_running b \<Longrightarrow> eb_pc b = LoopTest \<Longrightarrow> \<exists>n b' w'. eb_drain run n (b, w) = Some (b', w')"
proof (induction "mset (map rank (aq_items (eb_queue b)))" arbitrary: b w
    rule: wf_induct_rule [OF wf_mult [OF wf_less_than]])
  case 1
  show ?case
  proof (cases "aq_items (eb_queue b)")
    case Nil
    with 1 have "eb_joined b" by (simp add: eb_joined_def eb_inv_def)
    then have "eb_drain run 0 (b, w) = Some (b, w)" by simp
    then show ?thesis by blast
  next
    case (Cons e es)
    let ?b = "b\<lparr>eb_pc := LoopGet\<rparr>"
    have step1: "eb_loop_step run (b, w) = Some (?b, w)"
      using 1 by (simp add: eb_step_test)
    have inv: "eb_inv ?b" and pc: "eb_pc ?b = LoopGet" and items: "aq_items (eb_queue ?b) = e # es"
      using 1 Cons by (simp_all add: eb_inv_def)
    obtain b1 w1 fs where step2: "eb_loop_step run (?b, w) = Some (b1, w1)"
      and b1: "aq_items (eb_queue b1) = es @ fs" "eb_pc b1 = LoopTest" "eb_running b1 = eb_running ?b" "eb_inv b1"
      and fs: "subseq fs (handlers_publish run (eb_targets ?b e) e w)"
      by (rule eb_step_get [OF inv pc items, of run w]) blast
    have "\<forall>p \<in> set fs. rank p < rank e"
      using fs stratified_publish [OF strat] by (auto dest: list_emb_set)
    then have "(mset (map rank es) + mset (map rank fs), mset (map rank es) + {#rank e#}) \<in> mult less_than"
      by (intro one_step_implies_mult) auto
    then have less: "(mset (map rank (aq_items (eb_queue b1))), mset (map rank (aq_items (eb_queue b)))) \<in> mult less_than"
      using Cons b1(1) by simp
    have "\<exists>n b' w'. eb_drain run n (b1, w1) = Some (b', w')"
      by (rule "1.hyps" [OF less]) (use b1 "1.prems" in simp_all)
    then obtain n b' w' where drain: "eb_drain run n (b1, w1) = Some (b', w')" by blast
    have "\<not> eb_joined b" "\<not> eb_joined ?b"
      using 1 Cons by (simp_all add: eb_joined_def eb_inv_def)
    with step1 step2 drain have "eb_drain run (Suc (Suc n)) (b, w) = Some (b', w')" by simp
    then show ?thesis by blast
  qed
qed

section \<open>What handlers keep\<close>

text \<open>
  The contract of a set of handlers with the rest of the program: as long as the events on the bus
  are \<open>fit\<close>, every handler keeps \<open>good\<close> of the world and publishes only fit events.  Then so does
  the loop.
\<close>

locale bus_client =
  fixes run :: "('h, 'w) handler_sem"
    and good :: "'w \<Rightarrow> bool"
    and fit :: "event \<Rightarrow> bool"
  assumes handler_keeps: "good w \<Longrightarrow> fit e \<Longrightarrow> good (snd (run h e w))"
    and handler_publishes: "good w \<Longrightarrow> fit e \<Longrightarrow> \<forall>p \<in> set (fst (fst (run h e w))). fit p"
begin

definition queue_fit :: "'k bus \<Rightarrow> bool" where
  "queue_fit b \<longleftrightarrow> (\<forall>e \<in> set (aq_items (eb_queue b)). fit e)"

lemma queue_fit_publish: "queue_fit b \<Longrightarrow> fit e \<Longrightarrow> queue_fit (eb_publish e b)"
  by (auto simp: queue_fit_def eb_publish_unfold)

lemma queue_fit_fold: "queue_fit b \<Longrightarrow> \<forall>p \<in> set pubs. fit p \<Longrightarrow> queue_fit (fold eb_publish pubs b)"
  by (induction pubs arbitrary: b) (simp_all add: queue_fit_publish)

lemma run_handlers_keep:
  "good w \<Longrightarrow> fit e \<Longrightarrow> queue_fit b \<Longrightarrow>
   good (fst (snd (eb_run_handlers run hs e b w))) \<and> queue_fit (fst (eb_run_handlers run hs e b w))"
proof (induction hs arbitrary: b w)
  case Nil
  then show ?case by simp
next
  case (Cons h hs)
  obtain pubs r w1 where r: "run h e w = ((pubs, r), w1)" by (metis prod.exhaust)
  have "good w1" "\<forall>p \<in> set pubs. fit p"
    using handler_keeps [of w e h] handler_publishes [of w e h] Cons.prems r by simp_all
  with Cons r show ?case by (simp add: Let_def queue_fit_fold)
qed

lemma loop_step_keeps:
  assumes "eb_loop_step run (b, w) = Some (b1, w1)" "good w" "queue_fit b"
  shows "good w1 \<and> queue_fit b1"
proof (cases "eb_pc b")
  case LoopGet
  then obtain e q where e: "aq_get (eb_queue b) = Some (e, q)"
    using assms(1) by (cases "aq_get (eb_queue b)") (auto simp: eb_loop_step_def)
  then have "queue_fit (b\<lparr>eb_queue := q\<rparr>)" "fit e"
    using assms(3) by (auto simp: queue_fit_def aq_get_def split: list.splits)
  moreover obtain b2 w2 raised where d: "eb_run_handlers run (eb_targets b e) e (b\<lparr>eb_queue := q\<rparr>) w = (b2, w2, raised)"
    by (metis prod.exhaust)
  ultimately have "good w2 \<and> queue_fit b2"
    using run_handlers_keep [OF assms(2), of e "b\<lparr>eb_queue := q\<rparr>" "eb_targets b e"] by simp
  with assms(1) LoopGet e d show ?thesis
    by (auto simp: eb_loop_step_def eb_dispatch_def aq_task_done_def queue_fit_def split: if_splits)
qed (use assms in \<open>auto simp: eb_step_test queue_fit_def\<close>)

end

section \<open>Properties\<close>

text \<open>
  A concrete bus for the instances below: one handler, \<open>1\<close>, on heartbeats, that does nothing, and
  one, \<open>2\<close>, that raises; the world is a counter of calls.
\<close>

definition sample_run :: "(nat, nat) handler_sem" where
  "sample_run h e w = (([], h = 2), Suc w)"

definition beat :: "datetime \<Rightarrow> event" where
  "beat t = HeartbeatE \<lparr>hb_ts = t, hb_source = ''x'', hb_healthy = True\<rparr>"

definition sample_bus :: "nat bus" where
  "sample_bus = eb_start ((eb_init 10)\<lparr>eb_subs := (\<lambda>_. [2]), eb_global := [1]\<rparr>)"

lemma sample_bus_reach: "bus_reach sample_run 10 sample_bus 0 [] []"
  unfolding sample_bus_def by (rule bus_reach.start)

text \<open>
  Property C15. In every reachable state of the bus the books balance: events published equal those
  dispatched plus those queued, published plus dropped equal those anyone tried to publish, the
  queue never exceeds its capacity, and the dispatched events followed by the queued ones are, in
  order, the published ones; if nothing was dropped they are all of them, in publication order.
\<close>

theorem bus_delivers_in_order:
  assumes "bus_reach run n b w dispatched attempted"
  shows "eb_published b = length dispatched + eb_queue_depth b
    \<and> eb_published b + eb_dropped b = length attempted
    \<and> (0 < n \<longrightarrow> eb_queue_depth b \<le> n)
    \<and> subseq (dispatched @ aq_items (eb_queue b)) attempted
    \<and> (eb_dropped b = 0 \<longrightarrow> dispatched @ aq_items (eb_queue b) = attempted)"
proof -
  have books: "bus_books n b dispatched attempted" using assms by (rule bus_reach_books)
  have "dispatched @ aq_items (eb_queue b) = attempted" if "eb_dropped b = 0"
    using books that by (intro subseq_same_length) (simp_all add: bus_books_def)
  with books show ?thesis by (auto simp: bus_books_def eb_inv_def eb_queue_depth_def)
qed

theorem bus_delivers_in_order_witness:
  "bus_reach sample_run 10 (eb_publish (beat 1) sample_bus) 0 [] [beat 1]
   \<and> eb_published (eb_publish (beat 1) sample_bus) = 0 + eb_queue_depth (eb_publish (beat 1) sample_bus)"
proof -
  have r: "bus_reach sample_run 10 (eb_publish (beat 1) sample_bus) 0 [] [beat 1]"
    using bus_reach.publish [OF sample_bus_reach, of "beat 1"] by simp
  show ?thesis using bus_delivers_in_order [OF r] r by simp
qed

text \<open>
  No handler can stop the dispatcher: from every reachable state the loop makes a step
  unless it is waiting on an empty queue or has been told to stop, whatever the handlers raise.
\<close>

theorem bus_dispatcher_survives_handlers:
  assumes "bus_reach run n b w dispatched attempted" "eb_loop_step run (b, w) = None"
  shows "eb_pc b = LoopExited \<or> (eb_pc b = LoopGet \<and> eb_queue_depth b = 0)"
proof -
  have inv: "eb_inv b" using bus_reach_books [OF assms(1)] by (simp add: bus_books_def)
  show ?thesis
  proof (cases "eb_pc b")
    case LoopGet
    show ?thesis
    proof (cases "aq_items (eb_queue b)")
      case Nil
      with LoopGet show ?thesis by (simp add: eb_queue_depth_def)
    next
      case (Cons e es)
      with eb_step_get [OF inv LoopGet this, of run w] assms(2) show ?thesis by auto
    qed
  next
    case LoopTest
    with assms(2) show ?thesis by (simp add: eb_step_test)
  next
    case LoopExited
    then show ?thesis by simp
  qed
qed

theorem bus_dispatcher_survives_handlers_witness:
  "\<exists>b. bus_reach sample_run 10 b 0 [] [] \<and> eb_loop_step sample_run (b, 0) = None
     \<and> eb_pc b = LoopGet \<and> eb_queue_depth b = 0"
proof -
  let ?b = "sample_bus\<lparr>eb_pc := LoopGet\<rparr>"
  have pc: "eb_pc sample_bus = LoopTest" "eb_running sample_bus"
    by (simp_all add: sample_bus_def eb_start_def)
  have r: "bus_reach sample_run 10 ?b 0 [] []"
    using pc by (intro bus_reach.test [OF sample_bus_reach]) (simp_all add: eb_step_test)
  have idle: "aq_items (eb_queue ?b) = []"
    by (simp add: sample_bus_def eb_start_def eb_init_def aq_new_def)
  then have none: "eb_loop_step sample_run (?b, 0) = None" by (intro eb_step_idle) simp_all
  have "eb_pc ?b = LoopExited \<or> (eb_pc ?b = LoopGet \<and> eb_queue_depth ?b = 0)"
    by (rule bus_dispatcher_survives_handlers [OF r none])
  with r none show ?thesis by auto
qed

text \<open>
  When everything a handler publishes ranks below the event it reacts to, \<open>join\<close>
  returns: finitely many loop steps empty the queue, cascades included.
\<close>

theorem bus_join_returns:
  assumes "stratified rank run" "eb_inv b" "eb_running b" "eb_pc b = LoopTest"
  shows "\<exists>fuel b' w'. eb_drain run fuel (b, w) = Some (b', w')"
  using assms by (rule eb_drain_returns)

theorem bus_join_returns_witness:
  "\<exists>fuel b' w'. eb_drain sample_run fuel (eb_publish (beat 1) sample_bus, 0) = Some (b', w')"
proof -
  have s: "stratified (\<lambda>_. 0) sample_run" by (simp add: stratified_def sample_run_def)
  have i: "eb_inv (eb_publish (beat 1) sample_bus)"
    by (intro eb_inv_publish) (simp add: sample_bus_def eb_start_def eb_init_def aq_new_def eb_inv_def)
  show ?thesis
    by (rule bus_join_returns [OF s i])
      (simp_all add: eb_publish_unfold sample_bus_def eb_start_def)
qed

text \<open>A stop that finds two events waiting.\<close>

lemma eb_stop_hangs:
  assumes "eb_inv b" "eb_pc b = LoopGet" "2 \<le> eb_queue_depth b"
  shows "eb_drain run fuel (eb_stop_request b, w) = None"
proof -
  let ?b = "eb_stop_request b"
  obtain e es where "aq_items (eb_queue b) = e # es"
    using assms(3) by (cases "aq_items (eb_queue b)") (auto simp: eb_queue_depth_def)
  then have items: "aq_items (eb_queue b) = e # es" "es \<noteq> []"
    using assms(3) by (auto simp: eb_queue_depth_def)
  have b: "eb_inv ?b" "eb_pc ?b = LoopGet" "aq_items (eb_queue ?b) = e # es"
    using assms(1,2) items by (simp_all add: eb_stop_request_def eb_inv_def)
  obtain b1 w1 fs where step1: "eb_loop_step run (?b, w) = Some (b1, w1)"
    and b1: "aq_items (eb_queue b1) = es @ fs" "eb_pc b1 = LoopTest" "eb_running b1 = eb_running ?b" "eb_inv b1"
    by (rule eb_step_get [OF b, of run w]) blast
  let ?b2 = "b1\<lparr>eb_pc := LoopExited\<rparr>"
  have step2: "eb_loop_step run (b1, w1) = Some (?b2, w1)"
    using b1 by (simp add: eb_step_test eb_stop_request_def)
  have nj: "\<not> eb_joined ?b" "\<not> eb_joined b1" "\<not> eb_joined ?b2"
    using b(1,3) b1(1,4) items by (auto simp: eb_joined_def eb_inv_def)
  have "eb_drain run k (?b2, w1) = None" for k
    using nj(3) by (cases k) simp_all
  then have "eb_drain run k (b1, w1) = None" for k
    using nj(2) step2 by (cases k) simp_all
  then show ?thesis using nj(1) step1 by (cases fuel) simp_all
qed

text \<open>
  Stopping with two or more events queued never completes: the loop handles one event,
  sees the cleared flag and exits, the rest stay unfinished, and the \<open>join\<close> inside \<open>stop\<close> waits
  for ever.
\<close>

theorem bus_stop_hangs_on_backlog:
  assumes "eb_inv b" "eb_pc b = LoopGet" "2 \<le> eb_queue_depth b"
  shows "eb_drain run fuel (eb_stop_request b, w) = None"
  using assms by (rule eb_stop_hangs)

theorem bus_stop_hangs_on_backlog_witness:
  "eb_drain sample_run 100 (eb_stop_request
     (eb_publish (beat 2) (eb_publish (beat 1) (sample_bus\<lparr>eb_pc := LoopGet\<rparr>))), 0) = None"
proof -
  let ?b0 = "sample_bus\<lparr>eb_pc := LoopGet\<rparr>"
  have i: "eb_inv (eb_publish (beat 2) (eb_publish (beat 1) ?b0))"
    by (intro eb_inv_publish) (simp add: sample_bus_def eb_start_def eb_init_def aq_new_def eb_inv_def)
  have p: "eb_pc (eb_publish (beat 2) (eb_publish (beat 1) ?b0)) = LoopGet"
    by (simp add: eb_publish_unfold)
  have d: "2 \<le> eb_queue_depth (eb_publish (beat 2) (eb_publish (beat 1) ?b0))"
    by (simp add: eb_publish_unfold eb_queue_depth_def aq_full_def sample_bus_def eb_start_def
        eb_init_def aq_new_def)
  show ?thesis by (rule bus_stop_hangs_on_backlog [OF i p d])
qed

end
