(* ===== verification/Order_Manager.thy ===== *)
theory Order_Manager
  imports Event_Bus
begin

text \<open>
  The order lifecycle manager (\<^verbatim>\<open>execution/order_manager.py\<close>), the slippage tracker
  (\<^verbatim>\<open>execution/slippage.py\<close>) and the broker contract both rely on
  (\<^verbatim>\<open>execution/broker_interface.py\<close>).  The order table is a dictionary in insertion order; a
  fresh \<^verbatim>\<open>uuid4\<close> and the clock are arguments; the broker is a record of operations on a state
  of its own, of which the locale \<open>order_venue\<close> states what the adapters promise.
\<close>

section \<open>The broker contract\<close>

record broker_request =
  rq_id :: string
  rq_corr :: string
  rq_symbol :: string
  rq_side :: order_side
  rq_qty :: int
  rq_type :: order_type
  rq_limit :: "real option"
  rq_tif :: time_in_force
  rq_oca :: "string option"
  rq_oca_type :: int

record 'v venue =
  vn_place :: "broker_request \<Rightarrow> 'v \<Rightarrow> unit result \<times> 'v"
  vn_cancel :: "string \<Rightarrow> 'v \<Rightarrow> unit result \<times> 'v"
  vn_cancel_all :: "'v \<Rightarrow> unit result \<times> 'v"

section \<open>Slippage\<close>

type_synonym slippage_book = "(string, (int \<times> real) list) dict"

record slippage_stats =
  ss_symbol :: string
  ss_fills :: int
  ss_total_qty :: int
  ss_mean :: real
  ss_worst :: real
  ss_cost :: real

definition sl_record :: "exec_event \<Rightarrow> slippage_book \<Rightarrow> slippage_book" where
  "sl_record e b =
     (case ex_slippage e of
        None \<Rightarrow> b
      | Some s \<Rightarrow> dset (ex_symbol e) (dget_or [] b (ex_symbol e) @ [(ex_fill_qty e, s)]) b)"

text \<open>\<^verbatim>\<open>max(xs, key=abs)\<close> returns the first element of largest magnitude.\<close>

fun max_by_abs :: "real \<Rightarrow> real list \<Rightarrow> real" where
  "max_by_abs m [] = m"
| "max_by_abs m (x # xs) = max_by_abs (if \<bar>m\<bar> < \<bar>x\<bar> then x else m) xs"

definition sl_stats_of :: "string \<Rightarrow> (int \<times> real) list \<Rightarrow> slippage_stats" where
  "sl_stats_of symb rs =
     \<lparr>ss_symbol = symb,
      ss_fills = int (length rs),
      ss_total_qty = sum_list (map fst rs),
      ss_mean = sum_list (map snd rs) / real (length rs),
      ss_worst = max_by_abs (hd (map snd rs)) (tl (map snd rs)),
      ss_cost = sum_list (map (\<lambda>(q, s). of_int q * s) rs)\<rparr>"

definition sl_stats :: "string \<Rightarrow> slippage_book \<Rightarrow> slippage_stats option" where
  "sl_stats symb b =
     (case dget b symb of
        None \<Rightarrow> None
      | Some rs \<Rightarrow> if rs = [] then None else Some (sl_stats_of symb rs))"

definition sl_all_stats :: "slippage_book \<Rightarrow> (string, slippage_stats) dict" where
  "sl_all_stats b =
     map (\<lambda>symb. (symb, the (sl_stats symb b))) (filter (\<lambda>symb. sl_stats symb b \<noteq> None) (dkeys b))"

lemma max_by_abs_in: "max_by_abs m xs \<in> insert m (set xs)"
  by (induction xs arbitrary: m) auto

lemma max_by_abs_ge: "\<bar>m\<bar> \<le> \<bar>max_by_abs m xs\<bar>"
  by (induction xs arbitrary: m) (auto intro: order_trans less_imp_le)

lemma max_by_abs_upper: "x \<in> set xs \<Longrightarrow> \<bar>x\<bar> \<le> \<bar>max_by_abs m xs\<bar>"
proof (induction xs arbitrary: m)
  case Nil
  then show ?case by simp
next
  case (Cons y ys)
  then show ?case
    using max_by_abs_ge [of "if \<bar>m\<bar> < \<bar>y\<bar> then y else m" ys] by (auto split: if_splits)
qed

text \<open>Everything recorded for a symbol is what its executions reported, in order.\<close>

definition sl_samples :: "string \<Rightarrow> exec_event list \<Rightarrow> (int \<times> real) list" where
  "sl_samples symb es =
     List.map_filter (\<lambda>e. if ex_symbol e = symb
        then map_option (\<lambda>s. (ex_fill_qty e, s)) (ex_slippage e) else None) es"

lemma sl_samples_simps [simp]:
  "sl_samples symb [] = []"
  "sl_samples symb (e # es) =
     (if ex_symbol e = symb
      then (case ex_slippage e of None \<Rightarrow> [] | Some s \<Rightarrow> [(ex_fill_qty e, s)]) else []) @ sl_samples symb es"
  by (auto simp: sl_samples_def map_filter_simps split: option.split)

lemma sl_record_get:
  "dget_or [] (fold sl_record es b) symb = dget_or [] b symb @ sl_samples symb es"
proof (induction es arbitrary: b)
  case Nil
  then show ?case by simp
next
  case (Cons e es)
  have "dget_or [] (sl_record e b) symb =
      dget_or [] b symb @ (if ex_symbol e = symb
        then (case ex_slippage e of None \<Rightarrow> [] | Some s \<Rightarrow> [(ex_fill_qty e, s)]) else [])"
    by (auto simp: sl_record_def split: option.split)
  with Cons show ?case by simp
qed

lemma sl_stats_get:
  "sl_stats symb b =
     (if dget_or [] b symb = [] then None else Some (sl_stats_of symb (dget_or [] b symb)))"
  by (auto simp: sl_stats_def dget_or_def split: option.split)

section \<open>The order table\<close>

record managed_order =
  mo_id :: string
  mo_corr :: string
  mo_symbol :: string
  mo_side :: order_side
  mo_qty :: int
  mo_type :: order_type
  mo_limit :: "real option"
  mo_tif :: time_in_force
  mo_expected :: "real option"
  mo_oca :: "string option"
  mo_status :: order_status
  mo_filled :: int
  mo_remaining :: int
  mo_avg :: real
  mo_reject :: fstr
  mo_created :: datetime
  mo_updated :: datetime

record order_manager =
  om_orders :: "(string, managed_order) dict"
  om_slippage :: slippage_book

definition om_init :: order_manager where
  "om_init = \<lparr>om_orders = [], om_slippage = []\<rparr>"

definition om_new_order :: "string \<Rightarrow> datetime \<Rightarrow> signal_event \<Rightarrow> real option \<Rightarrow> managed_order" where
  "om_new_order oid now sg expected =
     \<lparr>mo_id = oid, mo_corr = sg_corr sg, mo_symbol = sg_symbol sg, mo_side = sg_side sg,
      mo_qty = \<bar>sg_qty sg\<bar>, mo_type = sg_type sg, mo_limit = sg_limit sg, mo_tif = sg_tif sg,
      mo_expected = expected, mo_oca = sg_oca sg, mo_status = PENDING_NEW, mo_filled = 0,
      mo_remaining = \<bar>sg_qty sg\<bar>, mo_avg = 0, mo_reject = [], mo_created = now, mo_updated = now\<rparr>"

definition om_request :: "string \<Rightarrow> signal_event \<Rightarrow> broker_request" where
  "om_request oid sg =
     \<lparr>rq_id = oid, rq_corr = sg_corr sg, rq_symbol = sg_symbol sg, rq_side = sg_side sg,
      rq_qty = \<bar>sg_qty sg\<bar>, rq_type = sg_type sg, rq_limit = sg_limit sg, rq_tif = sg_tif sg,
      rq_oca = sg_oca sg, rq_oca_type = 1\<rparr>"

text \<open>
  \<^verbatim>\<open>submit\<close>: the order is in the table, and marked submitted, before the broker is called; an
  exception of the broker reaches the caller and leaves it there.
\<close>

definition om_submit ::
  "'v venue \<Rightarrow> string \<Rightarrow> datetime \<Rightarrow> signal_event \<Rightarrow> real option \<Rightarrow> order_manager \<times> 'v
   \<Rightarrow> managed_order result \<times> order_manager \<times> 'v" where
  "om_submit vn oid now sg expected omv = (case omv of (om, v) \<Rightarrow>
     (let managed = (om_new_order oid now sg expected)\<lparr>mo_status := SUBMITTED\<rparr>;
          om1 = om\<lparr>om_orders := dset oid managed (om_orders om)\<rparr>
      in case vn_place vn (om_request oid sg) v of
           (Inl e, v1) \<Rightarrow> (Inl e, om1, v1)
         | (Inr _, v1) \<Rightarrow> (Inr managed, om1, v1)))"

text \<open>The legs of a one-cancels-other group are submitted one by one.\<close>

fun om_submit_each ::
  "'v venue \<Rightarrow> string list \<Rightarrow> datetime \<Rightarrow> signal_event list \<Rightarrow> order_manager \<times> 'v
   \<Rightarrow> managed_order list result \<times> order_manager \<times> 'v" where
  "om_submit_each vn (oid # oids) now (sg # sgs) omv =
     (case om_submit vn oid now sg None omv of
        (Inl e, omv1) \<Rightarrow> (Inl e, omv1)
      | (Inr mo, omv1) \<Rightarrow>
          (case om_submit_each vn oids now sgs omv1 of
             (Inl e, omv2) \<Rightarrow> (Inl e, omv2)
           | (Inr mos, omv2) \<Rightarrow> (Inr (mo # mos), omv2)))"
| "om_submit_each vn _ now _ omv = (Inr [], omv)"

definition om_submit_oco ::
  "'v venue \<Rightarrow> string list \<Rightarrow> string \<Rightarrow> datetime \<Rightarrow> signal_event list \<Rightarrow> order_manager \<times> 'v
   \<Rightarrow> managed_order list result \<times> order_manager \<times> 'v" where
  "om_submit_oco vn oids group_hex now sgs omv =
     (if length sgs < 2 then (Inl (ValueError [Lit ''OCO group requires at least 2 signals'']), omv)
      else om_submit_each vn oids now (map (\<lambda>s. s\<lparr>sg_oca := Some (''oca-'' @ group_hex)\<rparr>) sgs) omv)"

definition om_cancel ::
  "'v venue \<Rightarrow> string \<Rightarrow> order_manager \<times> 'v \<Rightarrow> unit result \<times> order_manager \<times> 'v" where
  "om_cancel vn oid omv = (case omv of (om, v) \<Rightarrow>
     (case dget (om_orders om) oid of
        None \<Rightarrow> (Inr (), om, v)
      | Some mo \<Rightarrow>
          (let om1 = om\<lparr>om_orders := dset oid (mo\<lparr>mo_status := CANCEL_PENDING\<rparr>) (om_orders om)\<rparr>
           in case vn_cancel vn oid v of (r, v1) \<Rightarrow> (r, om1, v1))))"

definition om_cancel_all ::
  "'v venue \<Rightarrow> order_manager \<times> 'v \<Rightarrow> unit result \<times> order_manager \<times> 'v" where
  "om_cancel_all vn omv = (case omv of (om, v) \<Rightarrow>
     (case vn_cancel_all vn v of (r, v1) \<Rightarrow> (r, om, v1)))"

definition om_get_order :: "order_manager \<Rightarrow> string \<Rightarrow> managed_order option" where
  "om_get_order om oid = dget (om_orders om) oid"

definition om_open_orders :: "order_manager \<Rightarrow> managed_order list" where
  "om_open_orders om = filter (\<lambda>mo. \<not> is_terminal (mo_status mo)) (map snd (om_orders om))"

section \<open>Broker events\<close>

definition om_fill :: "exec_event \<Rightarrow> managed_order \<Rightarrow> managed_order" where
  "om_fill x mo =
     (let prev_notional = mo_avg mo * of_int (mo_filled mo);
          new_notional = prev_notional + ex_fill_price x * of_int (ex_fill_qty x)
      in mo\<lparr>mo_filled := ex_cum_qty x,
            mo_remaining := ex_rem_qty x,
            mo_avg := (if ex_cum_qty x \<noteq> 0 then new_notional / of_int (ex_cum_qty x) else 0),
            mo_status := (if ex_rem_qty x = 0 then FILLED else PARTIALLY_FILLED)\<rparr>)"

fun om_apply :: "broker_event \<Rightarrow> managed_order \<Rightarrow> managed_order" where
  "om_apply (AckB a) mo = mo\<lparr>mo_status := ak_status a\<rparr>"
| "om_apply (RejectB r) mo = mo\<lparr>mo_status := REJECTED, mo_reject := rj_reason r\<rparr>"
| "om_apply (ExecB x) mo = om_fill x mo"

text \<open>The event as republished: an execution gains the price expected at decision time.\<close>

fun om_enrich :: "managed_order \<Rightarrow> broker_event \<Rightarrow> broker_event" where
  "om_enrich mo (AckB a) = AckB a"
| "om_enrich mo (RejectB r) = RejectB r"
| "om_enrich mo (ExecB x) = ExecB (x\<lparr>ex_expected := mo_expected mo\<rparr>)"

fun om_track :: "broker_event \<Rightarrow> slippage_book \<Rightarrow> slippage_book" where
  "om_track (ExecB x) b = sl_record x b"
| "om_track _ b = b"

definition om_handle_broker_event ::
  "datetime \<Rightarrow> broker_event \<Rightarrow> order_manager \<times> 'h bus \<Rightarrow> order_manager \<times> 'h bus" where
  "om_handle_broker_event now ev omb = (case omb of (om, b) \<Rightarrow>
     (case dget (om_orders om) (be_order_id ev) of
        None \<Rightarrow> (om, b)
      | Some mo \<Rightarrow>
          (let mo1 = om_apply ev (mo\<lparr>mo_updated := now\<rparr>);
               ev1 = om_enrich mo ev
           in (om\<lparr>om_orders := dset (be_order_id ev) mo1 (om_orders om),
                  om_slippage := om_track ev1 (om_slippage om)\<rparr>,
               eb_publish (be_event ev1) b))))"

text \<open>\<^verbatim>\<open>_consume_broker_events\<close> over a finite prefix of the broker's stream.\<close>

definition om_consume ::
  "(datetime \<times> broker_event) list \<Rightarrow> order_manager \<times> 'h bus \<Rightarrow> order_manager \<times> 'h bus" where
  "om_consume evs omb = fold (\<lambda>(now, ev). om_handle_broker_event now ev) evs omb"

section \<open>Orders do not interfere\<close>

lemma update_length_known: "dget d k = Some v0 \<Longrightarrow> length (dset k v d) = length d"
  by (induction d) (auto split: if_splits)

lemma update_keys_known: "dget d k = Some v0 \<Longrightarrow> map fst (dset k v d) = map fst d"
  by (induction d) (auto split: if_splits)

definition om_touch :: "datetime \<times> broker_event \<Rightarrow> managed_order \<Rightarrow> managed_order" where
  "om_touch p mo = om_apply (snd p) (mo\<lparr>mo_updated := fst p\<rparr>)"

definition om_own :: "string \<Rightarrow> (datetime \<times> broker_event) list \<Rightarrow> (datetime \<times> broker_event) list" where
  "om_own oid evs = filter (\<lambda>p. be_order_id (snd p) = oid) evs"

lemma om_own_simps [simp]:
  "om_own oid [] = []"
  "om_own oid (p # evs) = (if be_order_id (snd p) = oid then p # om_own oid evs else om_own oid evs)"
  by (simp_all add: om_own_def)

lemma om_apply_fixed [simp]:
  "mo_expected (om_apply ev mo) = mo_expected mo" "mo_id (om_apply ev mo) = mo_id mo"
  "mo_side (om_apply ev mo) = mo_side mo" "mo_qty (om_apply ev mo) = mo_qty mo"
  "mo_symbol (om_apply ev mo) = mo_symbol mo"
  by (cases ev; simp add: om_fill_def Let_def)+

lemma om_touch_fixed [simp]:
  "mo_expected (om_touch p mo) = mo_expected mo" "mo_id (om_touch p mo) = mo_id mo"
  "mo_side (om_touch p mo) = mo_side mo" "mo_qty (om_touch p mo) = mo_qty mo"
  "mo_symbol (om_touch p mo) = mo_symbol mo"
  by (simp_all add: om_touch_def)

lemma om_handle_order:
  "dget (om_orders (fst (om_handle_broker_event now ev (om, b)))) oid =
     (if be_order_id ev = oid then map_option (om_touch (now, ev)) (dget (om_orders om) oid)
      else dget (om_orders om) oid)"
  by (auto simp: om_handle_broker_event_def om_touch_def Let_def split: option.split)

lemma om_consume_simps [simp]:
  "om_consume [] omb = omb"
  "om_consume (p # evs) omb = om_consume evs (om_handle_broker_event (fst p) (snd p) omb)"
  by (simp_all add: om_consume_def split: prod.split)

text \<open>An order's record depends on the events that carry its id, and on nothing else.\<close>

lemma om_consume_order:
  "dget (om_orders (fst (om_consume evs (om, b)))) oid =
     map_option (fold om_touch (om_own oid evs)) (dget (om_orders om) oid)"
proof (induction evs arbitrary: om b)
  case Nil
  then show ?case by (simp add: option.map_ident)
next
  case (Cons p evs)
  obtain om1 b1 where h: "om_handle_broker_event (fst p) (snd p) (om, b) = (om1, b1)"
    by (cases "om_handle_broker_event (fst p) (snd p) (om, b)")
  have "dget (om_orders om1) oid =
      (if be_order_id (snd p) = oid then map_option (om_touch p) (dget (om_orders om) oid)
       else dget (om_orders om) oid)"
    using om_handle_order [of "fst p" "snd p" om b oid] by (simp add: h)
  then show ?case by (simp add: h Cons.IH option.map_comp o_def)
qed

section \<open>Fills\<close>

fun om_exec :: "broker_event \<Rightarrow> exec_event option" where
  "om_exec (ExecB x) = Some x"
| "om_exec _ = None"

definition om_execs :: "string \<Rightarrow> (datetime \<times> broker_event) list \<Rightarrow> exec_event list" where
  "om_execs oid evs = List.map_filter (\<lambda>p. om_exec (snd p)) (om_own oid evs)"

text \<open>What a broker reports: positive fills, and the running total of them.\<close>

fun fills_coherent :: "int \<Rightarrow> exec_event list \<Rightarrow> bool" where
  "fills_coherent d [] \<longleftrightarrow> True"
| "fills_coherent d (x # xs) \<longleftrightarrow>
     0 < ex_fill_qty x \<and> ex_cum_qty x = d + ex_fill_qty x \<and> fills_coherent (ex_cum_qty x) xs"

definition fill_qty :: "exec_event list \<Rightarrow> int" where
  "fill_qty xs = sum_list (map ex_fill_qty xs)"

definition fill_notional :: "exec_event list \<Rightarrow> real" where
  "fill_notional xs = sum_list (map (\<lambda>x. ex_fill_price x * of_int (ex_fill_qty x)) xs)"

lemma om_touch_exec:
  assumes "om_exec (snd p) = Some x" "0 \<le> mo_filled mo" "0 < ex_fill_qty x"
    and "ex_cum_qty x = mo_filled mo + ex_fill_qty x"
  shows "mo_filled (om_touch p mo) = mo_filled mo + ex_fill_qty x"
    and "mo_avg (om_touch p mo) * of_int (mo_filled (om_touch p mo)) =
      mo_avg mo * of_int (mo_filled mo) + ex_fill_price x * of_int (ex_fill_qty x)"
    and "mo_avg (om_touch p mo) =
      (mo_avg mo * of_int (mo_filled mo) + ex_fill_price x * of_int (ex_fill_qty x))
        / (of_int (mo_filled mo) + of_int (ex_fill_qty x))"
proof -
  obtain now ev where p: "p = (now, ev)" by (cases p)
  with assms(1) have ev: "ev = ExecB x" by (cases ev) simp_all
  have pos: "0 < mo_filled mo + ex_fill_qty x" using assms(2,3) by linarith
  then have nz: "real_of_int (mo_filled mo + ex_fill_qty x) \<noteq> 0" by linarith
  show "mo_filled (om_touch p mo) = mo_filled mo + ex_fill_qty x"
    using assms(4) by (simp add: p ev om_touch_def om_fill_def Let_def)
  show avg: "mo_avg (om_touch p mo) =
      (mo_avg mo * of_int (mo_filled mo) + ex_fill_price x * of_int (ex_fill_qty x))
        / (of_int (mo_filled mo) + of_int (ex_fill_qty x))"
    using assms(4) pos by (simp add: p ev om_touch_def om_fill_def Let_def)
  show "mo_avg (om_touch p mo) * of_int (mo_filled (om_touch p mo)) =
      mo_avg mo * of_int (mo_filled mo) + ex_fill_price x * of_int (ex_fill_qty x)"
    using assms(4) nz by (simp add: p ev om_touch_def om_fill_def Let_def)
qed

lemma om_touch_other:
  "om_exec (snd p) = None \<Longrightarrow>
   mo_filled (om_touch p mo) = mo_filled mo \<and> mo_avg (om_touch p mo) = mo_avg mo"
  by (cases "snd p") (simp_all add: om_touch_def)

lemma fold_om_touch_fixed:
  "mo_expected (fold om_touch ps mo) = mo_expected mo \<and> mo_side (fold om_touch ps mo) = mo_side mo
   \<and> mo_qty (fold om_touch ps mo) = mo_qty mo \<and> mo_symbol (fold om_touch ps mo) = mo_symbol mo"
  by (induction ps arbitrary: mo) simp_all

lemma fold_om_touch_fills:
  assumes "fills_coherent (mo_filled mo) (List.map_filter (\<lambda>p. om_exec (snd p)) ps)"
    and "0 \<le> mo_filled mo"
  shows "mo_filled (fold om_touch ps mo) =
      mo_filled mo + fill_qty (List.map_filter (\<lambda>p. om_exec (snd p)) ps)
    \<and> mo_avg (fold om_touch ps mo) * of_int (mo_filled (fold om_touch ps mo)) =
      mo_avg mo * of_int (mo_filled mo) + fill_notional (List.map_filter (\<lambda>p. om_exec (snd p)) ps)"
  using assms
proof (induction ps arbitrary: mo)
  case Nil
  then show ?case by (simp add: map_filter_simps fill_qty_def fill_notional_def)
next
  case (Cons p ps)
  show ?case
  proof (cases "om_exec (snd p)")
    case None
    with Cons.IH [of "om_touch p mo"] Cons.prems om_touch_other [OF None, of mo] None
    show ?thesis by (auto simp: map_filter_simps)
  next
    case (Some x)
    with Cons.prems have x: "0 < ex_fill_qty x" "ex_cum_qty x = mo_filled mo + ex_fill_qty x"
      and rest: "fills_coherent (ex_cum_qty x) (List.map_filter (\<lambda>p. om_exec (snd p)) ps)"
      by (auto simp: map_filter_simps)
    note touch = om_touch_exec [OF Some Cons.prems(2) x]
    have "0 \<le> mo_filled (om_touch p mo)" using Cons.prems(2) x(1) touch(1) by linarith
    with Cons.IH [of "om_touch p mo"] rest x touch(1,2) Some show ?thesis
      by (auto simp: map_filter_simps fill_qty_def fill_notional_def)
  qed
qed

lemma fills_coherent_pos:
  "fills_coherent d xs \<Longrightarrow> x \<in> set xs \<Longrightarrow> 0 < ex_fill_qty x"
  by (induction d xs rule: fills_coherent.induct) auto

lemma fill_notional_bounds:
  assumes "\<forall>x \<in> set xs. 0 < ex_fill_qty x \<and> lo \<le> ex_fill_price x \<and> ex_fill_price x \<le> hi"
  shows "lo * of_int (fill_qty xs) \<le> fill_notional xs \<and> fill_notional xs \<le> hi * of_int (fill_qty xs)"
  using assms
proof (induction xs)
  case Nil
  then show ?case by (simp add: fill_qty_def fill_notional_def)
next
  case (Cons x xs)
  have "lo * of_int (ex_fill_qty x) \<le> ex_fill_price x * of_int (ex_fill_qty x)"
       "ex_fill_price x * of_int (ex_fill_qty x) \<le> hi * of_int (ex_fill_qty x)"
    using Cons.prems by (auto intro!: mult_right_mono)
  moreover have "lo * of_int (fill_qty xs) \<le> fill_notional xs"
       "fill_notional xs \<le> hi * of_int (fill_qty xs)"
    using Cons by auto
  ultimately have "lo * of_int (ex_fill_qty x) + lo * of_int (fill_qty xs)
        \<le> ex_fill_price x * of_int (ex_fill_qty x) + fill_notional xs"
      "ex_fill_price x * of_int (ex_fill_qty x) + fill_notional xs
        \<le> hi * of_int (ex_fill_qty x) + hi * of_int (fill_qty xs)"
    by (auto intro: add_mono)
  then show ?case by (simp add: fill_qty_def fill_notional_def distrib_left)
qed

lemma fill_qty_pos: "fills_coherent d xs \<Longrightarrow> xs \<noteq> [] \<Longrightarrow> 0 < fill_qty xs"
proof (induction d xs rule: fills_coherent.induct)
  case (2 d x xs)
  then show ?case by (cases "xs = []") (auto simp: fill_qty_def)
qed simp

text \<open>
  Property C6. Whatever acknowledgements, rejections and fills of this and other orders arrive in
  between, an order whose broker reports positive fills with their running total ends with the
  total quantity filled and the quantity-weighted average of its own fill prices, which lies
  between the lowest and the highest of them.
\<close>

theorem om_fills_accounted:
  assumes "dget (om_orders om) oid = Some mo" "mo_filled mo = 0"
    and "fills_coherent 0 (om_execs oid evs)"
  shows "\<exists>mo'. dget (om_orders (fst (om_consume evs (om, b)))) oid = Some mo'
    \<and> mo_filled mo' = fill_qty (om_execs oid evs)
    \<and> mo_avg mo' * of_int (mo_filled mo') = fill_notional (om_execs oid evs)
    \<and> (om_execs oid evs \<noteq> [] \<longrightarrow>
        Min (ex_fill_price ` set (om_execs oid evs)) \<le> mo_avg mo'
        \<and> mo_avg mo' \<le> Max (ex_fill_price ` set (om_execs oid evs)))"
proof -
  let ?xs = "om_execs oid evs" and ?mo = "fold om_touch (om_own oid evs) mo"
  have lookup: "dget (om_orders (fst (om_consume evs (om, b)))) oid = Some ?mo"
    by (simp add: om_consume_order assms(1))
  have fills: "mo_filled ?mo = fill_qty ?xs"
      "mo_avg ?mo * of_int (mo_filled ?mo) = fill_notional ?xs"
    using fold_om_touch_fills [of mo "om_own oid evs"] assms(2,3) by (auto simp: om_execs_def)
  have "Min (ex_fill_price ` set ?xs) \<le> mo_avg ?mo \<and> mo_avg ?mo \<le> Max (ex_fill_price ` set ?xs)"
    if ne: "?xs \<noteq> []"
  proof -
    have pos: "0 < real_of_int (fill_qty ?xs)" using fill_qty_pos [OF assms(3) ne] by simp
    have "\<forall>x \<in> set ?xs. 0 < ex_fill_qty x \<and> Min (ex_fill_price ` set ?xs) \<le> ex_fill_price x
        \<and> ex_fill_price x \<le> Max (ex_fill_price ` set ?xs)"
      using fills_coherent_pos [OF assms(3)] by simp
    from fill_notional_bounds [OF this]
    have "Min (ex_fill_price ` set ?xs) * of_int (fill_qty ?xs) \<le> mo_avg ?mo * of_int (fill_qty ?xs)"
      and "mo_avg ?mo * of_int (fill_qty ?xs) \<le> Max (ex_fill_price ` set ?xs) * of_int (fill_qty ?xs)"
      using fills by simp_all
    then show ?thesis using mult_right_le_imp_le pos by blast
  qed
  with lookup fills show ?thesis by blast
qed

definition sample_order_signal :: "string \<Rightarrow> order_side \<Rightarrow> int \<Rightarrow> signal_event" where
  "sample_order_signal symb sd q =
     \<lparr>sg_ts = 0, sg_symbol = symb, sg_strategy = ''s'', sg_side = sd, sg_strength = 1, sg_qty = q,
      sg_type = MARKET, sg_limit = None, sg_tif = DAY, sg_corr = ''c'', sg_oca = None, sg_meta = []\<rparr>"

definition sample_manager :: order_manager where
  "sample_manager = \<lparr>om_orders = [(''a'', om_new_order ''a'' 0 (sample_order_signal ''X'' BUY 3) (Some 10))],
     om_slippage = []\<rparr>"

definition sample_fill :: "string \<Rightarrow> int \<Rightarrow> real \<Rightarrow> int \<Rightarrow> int \<Rightarrow> broker_event" where
  "sample_fill oid q px cum rem =
     ExecB \<lparr>ex_ts = 0, ex_order_id = oid, ex_corr = ''c'', ex_symbol = ''X'', ex_side = BUY,
       ex_fill_qty = q, ex_fill_price = px, ex_cum_qty = cum, ex_rem_qty = rem, ex_commission = 0,
       ex_liquidity = ''TAKER'', ex_expected = None\<rparr>"

theorem om_fills_accounted_witness:
  "\<exists>mo'. dget (om_orders (fst (om_consume
        [(1, sample_fill ''a'' 1 10 1 2), (2, sample_fill ''z'' 9 9 9 0), (3, sample_fill ''a'' 2 13 3 0)]
        (sample_manager, eb_init 5 :: nat bus)))) ''a'' = Some mo'
    \<and> mo_filled mo' = 3 \<and> mo_avg mo' * 3 = 36"
proof -
  let ?evs = "[(1, sample_fill ''a'' 1 10 1 2), (2, sample_fill ''z'' 9 9 9 0), (3, sample_fill ''a'' 2 13 3 0)]"
  have "dget (om_orders sample_manager) ''a'' =
      Some (om_new_order ''a'' 0 (sample_order_signal ''X'' BUY 3) (Some 10))"
    by (simp add: sample_manager_def)
  moreover have "mo_filled (om_new_order ''a'' 0 (sample_order_signal ''X'' BUY 3) (Some 10)) = 0"
    by (simp add: om_new_order_def)
  moreover have "fills_coherent 0 (om_execs ''a'' ?evs)"
    by (simp add: om_execs_def sample_fill_def map_filter_simps)
  ultimately obtain mo' where
    "dget (om_orders (fst (om_consume ?evs (sample_manager, eb_init 5 :: nat bus)))) ''a'' = Some mo'"
    "mo_filled mo' = fill_qty (om_execs ''a'' ?evs)"
    "mo_avg mo' * of_int (mo_filled mo') = fill_notional (om_execs ''a'' ?evs)"
    using om_fills_accounted [of sample_manager "''a''" _ ?evs "eb_init 5 :: nat bus"] by blast
  then show ?thesis
    by (simp add: om_execs_def sample_fill_def map_filter_simps fill_qty_def fill_notional_def)
qed

section \<open>What reaches the bus\<close>

definition om_republished :: "order_manager \<Rightarrow> broker_event list \<Rightarrow> event list" where
  "om_republished om evs =
     List.map_filter (\<lambda>ev. map_option (\<lambda>mo. be_event (om_enrich mo ev)) (dget (om_orders om) (be_order_id ev))) evs"

lemma om_enrich_cong: "mo_expected mo = mo_expected mo' \<Longrightarrow> om_enrich mo ev = om_enrich mo' ev"
  by (cases ev) simp_all

lemma om_republished_handle:
  "om_republished (fst (om_handle_broker_event now ev (om, b))) evs = om_republished om evs"
proof -
  have "map_option (\<lambda>mo. be_event (om_enrich mo e))
      (dget (om_orders (fst (om_handle_broker_event now ev (om, b)))) (be_order_id e)) =
    map_option (\<lambda>mo. be_event (om_enrich mo e)) (dget (om_orders om) (be_order_id e))" for e
    using om_enrich_cong [of "om_touch (now, ev) mo" mo e for mo]
    by (cases "dget (om_orders om) (be_order_id e)") (simp_all add: om_handle_order)
  then show ?thesis by (simp add: om_republished_def)
qed

text \<open>
  The order manager republishes exactly the broker events of orders it knows, in the
  order received and each once, executions carrying the price expected when the order was
  submitted; events of unknown orders change neither the table nor the bus.
\<close>

theorem om_republishes_known_events:
  "snd (om_consume evs (om, b)) = fold eb_publish (om_republished om (map snd evs)) b
   \<and> dkeys (om_orders (fst (om_consume evs (om, b)))) = dkeys (om_orders om)"
proof (induction evs arbitrary: om b)
  case Nil
  then show ?case by (simp add: om_republished_def map_filter_simps)
next
  case (Cons p evs)
  obtain now ev where p: "p = (now, ev)" by (cases p)
  obtain om1 b1 where h: "om_handle_broker_event now ev (om, b) = (om1, b1)"
    by (cases "om_handle_broker_event now ev (om, b)")
  have "om_republished om1 (map snd evs) = om_republished om (map snd evs)"
    using om_republished_handle [of now ev om b] by (simp add: h)
  moreover have "dkeys (om_orders om1) = dkeys (om_orders om)
      \<and> b1 = fold eb_publish (om_republished om [ev]) b"
    using h by (auto simp: om_handle_broker_event_def om_republished_def map_filter_simps Let_def
        dkeys_def update_keys_known split: option.splits)
  ultimately show ?case
    using Cons.IH [of om1 b1]
    by (auto simp: p h om_republished_def map_filter_simps split: option.splits)
qed

section \<open>Submission and cancellation\<close>

lemma om_submit_frame:
  "dget (om_orders (fst (snd (om_submit vn oid now sg expected (om, v))))) oid' =
     (if oid' = oid then Some ((om_new_order oid now sg expected)\<lparr>mo_status := SUBMITTED\<rparr>)
      else dget (om_orders om) oid')
   \<and> snd (snd (om_submit vn oid now sg expected (om, v))) = snd (vn_place vn (om_request oid sg) v)
   \<and> ok (fst (om_submit vn oid now sg expected (om, v))) = ok (fst (vn_place vn (om_request oid sg) v))"
  by (auto simp: om_submit_def Let_def split: prod.split sum.split)

text \<open>
  Submitting a signal enters the order in the table as submitted, with the absolute
  value of the signal's quantity, asks the broker once with the same side and quantity, and
  touches no other order.  The entry is made whether or not the broker call succeeds: after an
  exception the order counts as open although no broker has it.
\<close>

theorem om_submit_registers:
  "dget (om_orders (fst (snd (om_submit vn oid now sg expected (om, v))))) oid' =
     (if oid' = oid then Some ((om_new_order oid now sg expected)\<lparr>mo_status := SUBMITTED\<rparr>)
      else dget (om_orders om) oid')
   \<and> snd (snd (om_submit vn oid now sg expected (om, v))) = snd (vn_place vn (om_request oid sg) v)
   \<and> rq_side (om_request oid sg) = sg_side sg \<and> rq_qty (om_request oid sg) = \<bar>sg_qty sg\<bar>
   \<and> ok (fst (om_submit vn oid now sg expected (om, v))) = ok (fst (vn_place vn (om_request oid sg) v))
   \<and> (om_new_order oid now sg expected)\<lparr>mo_status := SUBMITTED\<rparr>
       \<in> set (om_open_orders (fst (snd (om_submit vn oid now sg expected (om, v)))))"
proof -
  let ?mo = "(om_new_order oid now sg expected)\<lparr>mo_status := SUBMITTED\<rparr>"
  have om: "fst (snd (om_submit vn oid now sg expected (om, v))) = om\<lparr>om_orders := dset oid ?mo (om_orders om)\<rparr>"
    by (auto simp: om_submit_def Let_def split: prod.split sum.split)
  have "(oid, ?mo) \<in> set (dset oid ?mo (om_orders om))"
    by (rule map_of_SomeD) simp
  then have "?mo \<in> snd ` set (dset oid ?mo (om_orders om))" by force
  then have "?mo \<in> set (om_open_orders (om\<lparr>om_orders := dset oid ?mo (om_orders om)\<rparr>))"
    by (simp add: om_open_orders_def is_terminal_def)
  then show ?thesis using om_submit_frame [of vn oid now sg expected om v oid']
    by (simp add: om om_request_def)
qed

text \<open>
  Cancelling an order that is already filled, cancelled, rejected or expired puts it
  back among the open orders, and a broker that has nothing to cancel sends no event that would
  take it out again.
\<close>

theorem om_cancel_reopens_terminal:
  assumes "om_get_order om oid = Some mo" "is_terminal (mo_status mo)"
  shows "mo\<lparr>mo_status := CANCEL_PENDING\<rparr> \<in> set (om_open_orders (fst (snd (om_cancel vn oid (om, v)))))
    \<and> (\<forall>evs. om_own oid evs = [] \<longrightarrow>
        om_get_order (fst (om_consume evs (fst (snd (om_cancel vn oid (om, v))), b))) oid
          = Some (mo\<lparr>mo_status := CANCEL_PENDING\<rparr>))"
proof -
  let ?mo = "mo\<lparr>mo_status := CANCEL_PENDING\<rparr>"
  have om: "fst (snd (om_cancel vn oid (om, v))) = om\<lparr>om_orders := dset oid ?mo (om_orders om)\<rparr>"
    using assms(1) by (auto simp: om_cancel_def om_get_order_def Let_def split: prod.split)
  have "(oid, ?mo) \<in> set (dset oid ?mo (om_orders om))" by (rule map_of_SomeD) simp
  then have "?mo \<in> snd ` set (dset oid ?mo (om_orders om))" by force
  then have "?mo \<in> set (om_open_orders (om\<lparr>om_orders := dset oid ?mo (om_orders om)\<rparr>))"
    by (simp add: om_open_orders_def is_terminal_def)
  then show ?thesis by (simp add: om om_get_order_def om_consume_order)
qed

definition silent_venue :: "unit venue" where
  "silent_venue = \<lparr>vn_place = (\<lambda>_ v. (Inr (), v)), vn_cancel = (\<lambda>_ v. (Inr (), v)), vn_cancel_all = (\<lambda>v. (Inr (), v))\<rparr>"

definition filled_manager :: order_manager where
  "filled_manager = fst (om_consume [(1, sample_fill ''a'' 3 10 3 0)] (sample_manager, eb_init 5 :: nat bus))"

theorem om_cancel_reopens_terminal_witness:
  "om_open_orders filled_manager = []
   \<and> length (om_open_orders (fst (snd (om_cancel silent_venue ''a'' (filled_manager, ()))))) = 1"
proof -
  obtain mo where mo: "om_get_order filled_manager ''a'' = Some mo" "is_terminal (mo_status mo)"
    by (simp add: filled_manager_def om_get_order_def om_consume_order sample_manager_def
        om_touch_def sample_fill_def om_fill_def Let_def del: om_consume_simps)
  have one: "length (om_orders filled_manager) = 1"
    by (simp add: filled_manager_def sample_manager_def om_handle_broker_event_def sample_fill_def Let_def)
  have "length (om_open_orders (fst (snd (om_cancel silent_venue ''a'' (filled_manager, ()))))) \<le> 1"
    using one mo(1) update_length_known [of "om_orders filled_manager" "''a''" mo]
    by (auto simp: om_cancel_def om_get_order_def silent_venue_def Let_def om_open_orders_def
        intro!: order_trans [OF length_filter_le])
  moreover have "om_open_orders (fst (snd (om_cancel silent_venue ''a'' (filled_manager, ())))) \<noteq> []"
    using om_cancel_reopens_terminal [OF mo, of silent_venue "()"] by force
  ultimately have "length (om_open_orders (fst (snd (om_cancel silent_venue ''a'' (filled_manager, ()))))) = 1"
    by (simp add: le_Suc_eq)
  then show ?thesis
    by (simp add: filled_manager_def sample_manager_def om_handle_broker_event_def sample_fill_def Let_def
        om_open_orders_def is_terminal_def om_fill_def om_new_order_def sample_order_signal_def)
qed

section \<open>Venues\<close>

text \<open>
  What a broker adapter promises the order manager: a call to it adds to the stream of events, and
  adds only events of the order it was called for.  Then every event waiting in the stream is one
  the manager will accept, through any sequence of submissions and cancellations.
\<close>

locale order_venue =
  fixes vn :: "'v venue"
    and outbox :: "'v \<Rightarrow> broker_event list"
  assumes place_reports: "\<exists>es. outbox (snd (vn_place vn rq v)) = outbox v @ es
      \<and> (\<forall>e \<in> set es. be_order_id e = rq_id rq)"
    and cancel_reports: "\<exists>es. outbox (snd (vn_cancel vn oid v)) = outbox v @ es
      \<and> (\<forall>e \<in> set es. be_order_id e = oid)"
begin

definition outbox_known :: "order_manager \<times> 'v \<Rightarrow> bool" where
  "outbox_known omv \<longleftrightarrow>
     (\<forall>e \<in> set (outbox (snd omv)). dget (om_orders (fst omv)) (be_order_id e) \<noteq> None)"

lemma submit_outbox_known:
  assumes "outbox_known omv"
  shows "outbox_known (snd (om_submit vn oid now sg expected omv))"
proof -
  obtain om v where omv: "omv = (om, v)" by (cases omv)
  let ?r = "om_submit vn oid now sg expected (om, v)"
  have v: "snd (snd ?r) = snd (vn_place vn (om_request oid sg) v)"
    by (simp add: om_submit_frame)
  have om: "dget (om_orders (fst (snd ?r))) k \<noteq> None \<longleftrightarrow> k = oid \<or> dget (om_orders om) k \<noteq> None" for k
    by (simp add: om_submit_frame)
  obtain es where "outbox (snd (snd ?r)) = outbox v @ es" "\<forall>e \<in> set es. be_order_id e = oid"
    using place_reports [of "om_request oid sg" v] v by (auto simp: om_request_def)
  with assms om show ?thesis by (auto simp: omv outbox_known_def)
qed

lemma submit_each_outbox_known:
  "outbox_known omv \<Longrightarrow> outbox_known (snd (om_submit_each vn oids now sgs omv))"
proof (induction vn\<equiv>vn oids now sgs omv rule: om_submit_each.induct)
  case (1 oid oids now sg sgs omv)
  have one: "outbox_known (snd (om_submit vn oid now sg None omv))"
    using 1(2) by (rule submit_outbox_known)
  obtain r omv1 where sub: "om_submit vn oid now sg None omv = (r, omv1)"
    by (cases "om_submit vn oid now sg None omv")
  with one have "outbox_known omv1" by simp
  with 1(1) sub show ?case by (cases r) (auto split: prod.split sum.split)
qed simp_all

lemma submit_oco_outbox_known:
  "outbox_known omv \<Longrightarrow> outbox_known (snd (om_submit_oco vn oids g now sgs omv))"
  by (simp add: om_submit_oco_def submit_each_outbox_known)

lemma cancel_outbox_known:
  assumes "outbox_known omv"
  shows "outbox_known (snd (om_cancel vn oid omv))"
proof -
  obtain om v where omv: "omv = (om, v)" by (cases omv)
  show ?thesis
  proof (cases "dget (om_orders om) oid")
    case None
    with assms show ?thesis by (simp add: omv om_cancel_def)
  next
    case (Some mo)
    obtain es where es: "outbox (snd (vn_cancel vn oid v)) = outbox v @ es"
        "\<forall>e \<in> set es. be_order_id e = oid"
      using cancel_reports [of oid v] by blast
    obtain r v1 where c: "vn_cancel vn oid v = (r, v1)" by (cases "vn_cancel vn oid v")
    have "outbox_known (om\<lparr>om_orders := dset oid (mo\<lparr>mo_status := CANCEL_PENDING\<rparr>) (om_orders om)\<rparr>, v1)"
      using assms es Some by (auto simp: omv outbox_known_def c)
    with Some c show ?thesis by (simp add: omv om_cancel_def Let_def)
  qed
qed

end

end
