(* ===== verification/Binance_Symbols.thy ===== *)
theory Binance_Symbols
  imports Order_Manager
begin

text \<open>
  Exchange precision on Binance (\<^verbatim>\<open>execution/binance_broker.py\<close>): the filters of a symbol, the
  conversion between whole lots and fractional quantities, step rounding, and the trigger price
  of the native stop-loss.  Payloads of the exchange are records; a numeric string of a payload
  is the number it denotes.
\<close>

section \<open>Tables\<close>

fun bn_order_type :: "order_type \<Rightarrow> string" where
  "bn_order_type MARKET = ''MARKET''"
| "bn_order_type LIMIT = ''LIMIT''"
| "bn_order_type STOP = ''STOP_MARKET''"
| "bn_order_type STOP_LIMIT = ''STOP''"
| "bn_order_type MARKET_ON_CLOSE = ''MARKET''"

fun bn_tif :: "time_in_force \<Rightarrow> string" where
  "bn_tif DAY = ''GTC''"
| "bn_tif GTC = ''GTC''"
| "bn_tif IOC = ''IOC''"
| "bn_tif FOK = ''FOK''"

definition bn_order_status :: "string \<Rightarrow> order_status option" where
  "bn_order_status =
     map_of [(''NEW'', ACKNOWLEDGED), (''PARTIALLY_FILLED'', PARTIALLY_FILLED), (''FILLED'', FILLED),
       (''CANCELED'', CANCELLED), (''EXPIRED'', EXPIRED), (''REJECTED'', REJECTED)]"

section \<open>Filters\<close>

record symbol_filters =
  sf_symbol :: string
  sf_tick :: real
  sf_step :: real
  sf_min_qty :: real
  sf_min_notional :: real
  sf_qty_prec :: nat
  sf_price_prec :: nat

datatype raw_filter =
    PRICE_FILTER real
  | LOT_SIZE real real
  | MIN_NOTIONAL "real option"
  | OTHER_FILTER string

record symbol_info =
  si_symbol :: string
  si_filters :: "raw_filter list"
  si_qty_prec :: nat
  si_price_prec :: nat
  si_status :: "string option"
  si_contract :: "string option"
  si_quote :: "string option"

fun bn_scan_filter :: "raw_filter \<Rightarrow> symbol_filters \<Rightarrow> symbol_filters" where
  "bn_scan_filter (PRICE_FILTER tick) f = f\<lparr>sf_tick := tick\<rparr>"
| "bn_scan_filter (LOT_SIZE step min_qty) f = f\<lparr>sf_step := step, sf_min_qty := min_qty\<rparr>"
| "bn_scan_filter (MIN_NOTIONAL notional) f =
     f\<lparr>sf_min_notional := (case notional of None \<Rightarrow> 0 | Some x \<Rightarrow> x)\<rparr>"
| "bn_scan_filter (OTHER_FILTER _) f = f"

definition bn_parse_filters :: "string \<Rightarrow> symbol_info \<Rightarrow> symbol_filters" where
  "bn_parse_filters symb data =
     fold bn_scan_filter (si_filters data)
       \<lparr>sf_symbol = symb, sf_tick = 0, sf_step = 0, sf_min_qty = 0, sf_min_notional = 0,
        sf_qty_prec = si_qty_prec data, sf_price_prec = si_price_prec data\<rparr>"

lemma bn_scan_filter_fixed [simp]:
  "sf_symbol (bn_scan_filter r f) = sf_symbol f"
  "sf_qty_prec (bn_scan_filter r f) = sf_qty_prec f"
  "sf_price_prec (bn_scan_filter r f) = sf_price_prec f"
  by (cases r; simp)+

lemma fold_scan_fixed [simp]:
  "sf_symbol (fold bn_scan_filter rs f) = sf_symbol f"
  "sf_qty_prec (fold bn_scan_filter rs f) = sf_qty_prec f"
  "sf_price_prec (fold bn_scan_filter rs f) = sf_price_prec f"
  by (induction rs arbitrary: f) simp_all

lemma bn_parse_filters_symbol [simp]: "sf_symbol (bn_parse_filters symb d) = symb"
  by (simp add: bn_parse_filters_def)

section \<open>Step rounding\<close>

definition round_step :: "real \<Rightarrow> real \<Rightarrow> real" where
  "round_step val step =
     (if step \<le> 0 then val
      else let steps = \<lfloor>val / step + 1 / 10 ^ 9\<rfloor> in py_round (of_int steps * step) 12)"

text \<open>
  Rounding to a step keeps a multiple of the step as it is (up to the twelfth
  decimal), and otherwise goes down by less than one step; but the tolerance added before the
  floor lets the result exceed the value, by up to a billionth of the step.
\<close>

theorem round_step_bounds:
  assumes "0 < step"
  shows "val - step + step / 10 ^ 9 - 1 / 10 ^ 12 < round_step val step
    \<and> round_step val step \<le> val + step / 10 ^ 9 + 1 / 10 ^ 12
    \<and> (\<exists>k :: int. \<bar>round_step val step - of_int k * step\<bar> \<le> 1 / 10 ^ 12)
    \<and> round_step (1 - 1 / 10 ^ 10) 1 = 1"
proof -
  let ?k = "\<lfloor>val / step + 1 / 10 ^ 9\<rfloor>"
  have r: "round_step val step = py_round (of_int ?k * step) 12"
    using assms by (simp add: round_step_def Let_def)
  have near: "\<bar>round_step val step - of_int ?k * step\<bar> \<le> (1 / 2) / 10 ^ 12"
    unfolding r by (rule py_round_near)
  have "val / step + 1 / 10 ^ 9 = (val + step / 10 ^ 9) / step"
    using assms by (simp add: add_divide_distrib)
  then have k: "?k = \<lfloor>(val + step / 10 ^ 9) / step\<rfloor>" by simp
  have hi: "of_int ?k * step \<le> val + step / 10 ^ 9"
    unfolding k by (rule floor_divide_mult_le [OF assms])
  have lo: "val + step / 10 ^ 9 < (of_int ?k + 1) * step"
    unfolding k by (rule floor_divide_mult_gt [OF assms])
  have "\<lfloor>(1 - 1 / 10 ^ 10) / 1 + 1 / 10 ^ 9 :: real\<rfloor> = 1" by (simp add: floor_eq_iff)
  then have ex: "round_step (1 - 1 / 10 ^ 10) 1 = 1"
    by (simp add: round_step_def Let_def py_round_exact [of 1 12 "10 ^ 12"])
  show ?thesis
  proof (intro conjI ex)
    show "val - step + step / 10 ^ 9 - 1 / 10 ^ 12 < round_step val step"
      using lo abs_le_D2 [OF near] by (simp add: distrib_right)
    show "round_step val step \<le> val + step / 10 ^ 9 + 1 / 10 ^ 12"
      using hi abs_le_D1 [OF near] by simp
    show "\<exists>k :: int. \<bar>round_step val step - of_int k * step\<bar> \<le> 1 / 10 ^ 12"
      by (rule exI [of _ ?k]) (use near in simp)
  qed
qed

theorem round_step_bounds_witness: "round_step 17 5 \<le> 17 + 5 / 10 ^ 9 + 1 / 10 ^ 12"
  using round_step_bounds [of 5 17] by simp

section \<open>Lots\<close>

text \<open>\<^verbatim>\<open>self._filters[symbol]\<close> raises \<^verbatim>\<open>KeyError\<close> for a symbol without filters.\<close>

definition lots_to_quantity :: "symbol_filters \<Rightarrow> int \<Rightarrow> real" where
  "lots_to_quantity filt lots = py_round (of_int lots * sf_step filt) (sf_qty_prec filt)"

definition quantity_to_lots :: "symbol_filters \<Rightarrow> real \<Rightarrow> int" where
  "quantity_to_lots filt q =
     (if sf_step filt \<le> 0 then round_half_even q else round_half_even (q / sf_step filt))"

text \<open>
  Converting lots to an exchange quantity and back gives the same number of lots,
  provided the quantity precision is at least as fine as the step.
\<close>

theorem lots_roundtrip:
  assumes "1 / 10 ^ sf_qty_prec filt \<le> sf_step filt"
  shows "quantity_to_lots filt (lots_to_quantity filt n) = n"
proof -
  let ?s = "sf_step filt" and ?p = "sf_qty_prec filt"
  have "0 < 1 / (10 :: real) ^ ?p" by simp
  then have pos: "0 < ?s" using assms by linarith
  have near: "\<bar>lots_to_quantity filt n - of_int n * ?s\<bar> \<le> (1 / 2) / 10 ^ ?p"
    unfolding lots_to_quantity_def by (rule py_round_near)
  have "round_half_even (lots_to_quantity filt n / ?s) = n"
  proof (cases "?s = 1 / 10 ^ ?p")
    case True
    then have "lots_to_quantity filt n = of_int n * ?s"
      by (simp add: lots_to_quantity_def py_round_exact [of _ _ n])
    with pos show ?thesis by simp
  next
    case False
    with assms have "1 / 10 ^ ?p < ?s" by simp
    then have "(1 / 2) * (1 / 10 ^ ?p) < (1 / 2) * ?s" by simp
    with near have "\<bar>lots_to_quantity filt n - of_int n * ?s\<bar> < (1 / 2) * ?s" by simp
    then have "\<bar>lots_to_quantity filt n - of_int n * ?s\<bar> / ?s < 1 / 2"
      using pos by (simp add: divide_less_eq)
    moreover have "lots_to_quantity filt n / ?s - of_int n = (lots_to_quantity filt n - of_int n * ?s) / ?s"
      using pos by (simp add: diff_divide_distrib)
    ultimately have "\<bar>lots_to_quantity filt n / ?s - of_int n\<bar> < 1 / 2"
      using pos by (simp add: abs_divide)
    then show ?thesis by (rule round_half_even_unique)
  qed
  with pos show ?thesis by (simp add: quantity_to_lots_def)
qed

definition sample_filters :: symbol_filters where
  "sample_filters = bn_parse_filters ''BTCUSDT''
     \<lparr>si_symbol = ''BTCUSDT'', si_filters = [PRICE_FILTER (1 / 10), LOT_SIZE (1 / 1000) (1 / 1000), MIN_NOTIONAL (Some 5)],
      si_qty_prec = 3, si_price_prec = 2, si_status = Some ''TRADING'', si_contract = Some ''PERPETUAL'',
      si_quote = Some ''USDT''\<rparr>"

lemma sample_filters_simps:
  "sample_filters = \<lparr>sf_symbol = ''BTCUSDT'', sf_tick = 1 / 10, sf_step = 1 / 1000, sf_min_qty = 1 / 1000,
     sf_min_notional = 5, sf_qty_prec = 3, sf_price_prec = 2\<rparr>"
  by (simp add: sample_filters_def bn_parse_filters_def)

theorem lots_roundtrip_witness:
  "quantity_to_lots sample_filters (lots_to_quantity sample_filters 734) = 734"
  by (rule lots_roundtrip) (simp add: sample_filters_simps)

section \<open>The stop-loss price\<close>

text \<open>
  The price computed by \<^verbatim>\<open>place_stop_loss\<close>: entry price less (plus, for a short) the loss allowed
  per unit, moved to a tick towards the entry.
\<close>

definition stop_raw_price :: "bool \<Rightarrow> real \<Rightarrow> real \<Rightarrow> real \<Rightarrow> real" where
  "stop_raw_price is_long entry real_qty max_loss =
     (if is_long then entry - max_loss / real_qty else entry + max_loss / real_qty)"

definition stop_loss_price :: "symbol_filters \<Rightarrow> bool \<Rightarrow> real \<Rightarrow> real \<Rightarrow> real \<Rightarrow> real" where
  "stop_loss_price filt is_long entry real_qty max_loss =
     (let raw = stop_raw_price is_long entry real_qty max_loss;
          tick = sf_tick filt
      in if 0 < tick
         then py_round (of_int (if is_long then \<lceil>raw / tick\<rceil> else \<lfloor>raw / tick\<rfloor>) * tick) (sf_price_prec filt)
         else py_round raw (sf_price_prec filt))"

lemma stop_loss_price_tick:
  assumes "0 < sf_tick filt" "sf_tick filt * 10 ^ sf_price_prec filt = of_int k"
  shows "stop_loss_price filt is_long entry q l =
    of_int (if is_long then \<lceil>stop_raw_price is_long entry q l / sf_tick filt\<rceil>
            else \<lfloor>stop_raw_price is_long entry q l / sf_tick filt\<rfloor>) * sf_tick filt"
proof -
  have "of_int n * sf_tick filt * 10 ^ sf_price_prec filt = of_int (n * k)" for n
    using assms(2) by (simp add: mult.assoc)
  then have "py_round (of_int n * sf_tick filt) (sf_price_prec filt) = of_int n * sf_tick filt" for n
    by (rule py_round_exact)
  with assms(1) show ?thesis by (simp add: stop_loss_price_def Let_def)
qed

text \<open>
  When the price precision of a symbol resolves its tick, the native stop price keeps
  the loss of the whole position at its trigger within the allowed loss, and gives away less than
  one tick of it, on both sides.
\<close>

lemma stop_loss_price_within_loss:
  assumes "0 < sf_tick filt" "sf_tick filt * 10 ^ sf_price_prec filt = of_int k" "0 < q"
  shows "(if is_long then entry - stop_loss_price filt is_long entry q l
          else stop_loss_price filt is_long entry q l - entry) * q \<le> l
    \<and> l < (if is_long then entry - stop_loss_price filt is_long entry q l + sf_tick filt
          else stop_loss_price filt is_long entry q l - entry + sf_tick filt) * q"
proof -
  let ?t = "sf_tick filt" and ?s = "stop_loss_price filt is_long entry q l"
  have eq: "l / q * q = l" using assms(3) by simp
  have gap: "0 \<le> (if is_long then ?s - (entry - l / q) else entry + l / q - ?s)
    \<and> (if is_long then ?s - (entry - l / q) else entry + l / q - ?s) < ?t"
  proof (cases is_long)
    case True
    have "entry - l / q \<le> of_int \<lceil>(entry - l / q) / ?t\<rceil> * ?t"
      by (rule ceiling_divide_mult_ge [OF assms(1)])
    moreover have "of_int \<lceil>(entry - l / q) / ?t\<rceil> < (entry - l / q) / ?t + 1" by linarith
    then have "of_int \<lceil>(entry - l / q) / ?t\<rceil> * ?t < ((entry - l / q) / ?t + 1) * ?t"
      using assms(1) by (rule mult_strict_right_mono)
    moreover have "((entry - l / q) / ?t + 1) * ?t = entry - l / q + ?t"
      using assms(1) by (simp add: distrib_right)
    ultimately show ?thesis
      using True by (simp add: stop_loss_price_tick [OF assms(1,2)] stop_raw_price_def)
  next
    case False
    have "of_int \<lfloor>(entry + l / q) / ?t\<rfloor> * ?t \<le> entry + l / q"
      by (rule floor_divide_mult_le [OF assms(1)])
    moreover have "entry + l / q < (of_int \<lfloor>(entry + l / q) / ?t\<rfloor> + 1) * ?t"
      by (rule floor_divide_mult_gt [OF assms(1)])
    ultimately show ?thesis
      using False by (simp add: stop_loss_price_tick [OF assms(1,2)] stop_raw_price_def distrib_right)
  qed
  have "(if is_long then entry - ?s else ?s - entry) \<le> l / q"
       "l / q < (if is_long then entry - ?s + ?t else ?s - entry + ?t)"
    using gap by (auto split: if_splits)
  then have "(if is_long then entry - ?s else ?s - entry) * q \<le> l / q * q"
       "l / q * q < (if is_long then entry - ?s + ?t else ?s - entry + ?t) * q"
    using assms(3) by (intro mult_right_mono mult_strict_right_mono; simp)+
  then show ?thesis by (simp only: eq)
qed

text \<open>
  Without that hypothesis the final rounding undoes the guarantee: a stop that should lose at most
  one unit of money on one unit of the asset loses one and a half.
\<close>

lemma stop_loss_price_coarse_precision:
  "stop_loss_price (sample_filters\<lparr>sf_tick := 1 / 2, sf_price_prec := 0\<rparr>) True (23 / 2) 1 1 = 10"
proof -
  have "round_half_even (21 / 2) = 10"
  proof -
    have "\<lfloor>21 / 2 :: real\<rfloor> = 10" by (simp add: floor_eq_iff)
    then show ?thesis by (simp add: round_half_even_def Let_def)
  qed
  then show ?thesis
    by (simp add: stop_loss_price_def stop_raw_price_def Let_def sample_filters_simps py_round_def)
qed

end
