(* ===== verification/Binance_Broker.thy ===== *)
theory Binance_Broker
  imports Binance_Symbols "HOL-Library.Char_ord" "HOL-Library.List_Lexorder"
begin

text \<open>
  The Binance futures adapter (\<^verbatim>\<open>execution/binance_broker.py\<close>).  The exchange client is a record of
  calls on an opaque state \<open>'c\<close>, each of which may raise; the adapter's own tables, event queue and
  caches are the record \<open>binance\<close>.  The set of orders of a one-cancels-other group is a list
  without repetitions in order of insertion; the event queue is unbounded.
\<close>

section \<open>The exchange client\<close>

record order_params =
  op_symbol :: string
  op_side :: string
  op_type :: string
  op_qty :: "real option"
  op_client_id :: string
  op_price :: "real option"
  op_tif :: "string option"
  op_stop :: "real option"
  op_close_position :: bool
  op_recv_window :: int

datatype cancel_ref = OrigClientId string | ExchangeId int

record account_row =
  ac_margin_balance :: real
  ac_initial_margin :: real
  ac_maint_margin :: real

record position_row =
  pr_symbol :: string
  pr_amt :: real
  pr_entry :: real
  pr_mark :: real
  pr_pnl :: real

type_synonym kline_row = "int \<times> real \<times> real \<times> real \<times> real"

record 'c api =
  ap_exchange_info :: "'c \<Rightarrow> symbol_info list result \<times> 'c"
  ap_margin_type :: "string \<Rightarrow> string \<Rightarrow> 'c \<Rightarrow> unit result \<times> 'c"
  ap_set_leverage :: "string \<Rightarrow> int \<Rightarrow> 'c \<Rightarrow> unit result \<times> 'c"
  ap_first_bracket :: "string \<Rightarrow> 'c \<Rightarrow> int result \<times> 'c"
  ap_create_order :: "order_params \<Rightarrow> 'c \<Rightarrow> string option result \<times> 'c"
  ap_cancel :: "string \<Rightarrow> cancel_ref \<Rightarrow> 'c \<Rightarrow> unit result \<times> 'c"
  ap_cancel_open :: "string \<Rightarrow> 'c \<Rightarrow> unit result \<times> 'c"
  ap_account :: "'c \<Rightarrow> account_row result \<times> 'c"
  ap_positions :: "'c \<Rightarrow> position_row list result \<times> 'c"
  ap_klines :: "string \<Rightarrow> string \<Rightarrow> int \<Rightarrow> 'c \<Rightarrow> kline_row list result \<times> 'c"
  ap_close :: "'c \<Rightarrow> unit result \<times> 'c"

section \<open>State\<close>

record position_detail =
  pd_symbol :: string
  pd_side :: order_side
  pd_qty :: int
  pd_entry :: real
  pd_mark :: real
  pd_pnl :: real

record 'c binance =
  bn_testnet :: bool
  bn_symbols :: "string list"
  bn_leverage :: int
  bn_margin_type :: string
  bn_recv_window :: int
  bn_backoff :: real
  bn_backoff_max :: real
  bn_client :: "'c option"
  bn_filters :: "(string, symbol_filters) dict"
  bn_info :: "(string, symbol_info) dict"
  bn_configured :: "string \<rightharpoonup> int \<times> string"
  bn_events :: "broker_event list"
  bn_corr :: "string \<rightharpoonup> string"
  bn_internal :: "string \<rightharpoonup> string"
  bn_order_symbol :: "string \<rightharpoonup> string"
  bn_oca_groups :: "string \<rightharpoonup> string list"
  bn_order_group :: "string \<rightharpoonup> string"
  bn_connected :: bool

definition bn_init :: "bool \<Rightarrow> string list \<Rightarrow> int \<Rightarrow> string \<Rightarrow> int \<Rightarrow> real \<Rightarrow> real \<Rightarrow> 'c binance" where
  "bn_init testnet symbs leverage margin_type recv_window backoff backoff_max =
     \<lparr>bn_testnet = testnet, bn_symbols = symbs, bn_leverage = leverage, bn_margin_type = margin_type,
      bn_recv_window = recv_window, bn_backoff = backoff, bn_backoff_max = backoff_max,
      bn_client = None, bn_filters = [], bn_info = [], bn_configured = Map.empty, bn_events = [],
      bn_corr = Map.empty, bn_internal = Map.empty, bn_order_symbol = Map.empty,
      bn_oca_groups = Map.empty, bn_order_group = Map.empty, bn_connected = False\<rparr>"

text \<open>A call of the client; \<^verbatim>\<open>assert self._client is not None\<close> before it.\<close>

definition bn_call :: "('c \<Rightarrow> 'a result \<times> 'c) \<Rightarrow> 'c binance \<Rightarrow> 'a result \<times> 'c binance" where
  "bn_call f bn =
     (case bn_client bn of
        None \<Rightarrow> (Inl AssertionError, bn)
      | Some c \<Rightarrow> (case f c of (r, c1) \<Rightarrow> (r, bn\<lparr>bn_client := Some c1\<rparr>)))"

definition bn_get_client :: "'c binance \<Rightarrow> 'c result" where
  "bn_get_client bn =
     (case bn_client bn of
        None \<Rightarrow> Inl (RuntimeError [Lit ''BinanceFuturesBroker.connect() has not been called yet''])
      | Some c \<Rightarrow> Inr c)"

fun exn_text :: "py_exn \<Rightarrow> fstr" where
  "exn_text (ValueError m) = m"
| "exn_text (RuntimeError m) = m"
| "exn_text (KeyError k) = [Lit [CHR 0x27], StrP k, Lit [CHR 0x27]]"
| "exn_text (ApiError s) = [ErrP s]"
| "exn_text ZeroDivisionError = [Lit ''division by zero'']"
| "exn_text IndexError = [Lit ''list index out of range'']"
| "exn_text AssertionError = []"
| "exn_text QueueFull = []"
| "exn_text (ConnectionError m) = m"
| "exn_text TypeError = [ErrP []]"     \<comment> \<open>the interpreter's own message is not modelled\<close>
| "exn_text AttributeError = [ErrP []]"
| "exn_text OSError = [ErrP []]"

section \<open>Connecting\<close>

text \<open>
  \<^verbatim>\<open>connect\<close> retries until the client is created, sleeping for a doubling, capped time after each
  failure.  Over a list of attempt outcomes: the sleeps made and the client, if one was created.
\<close>

fun bn_connect_loop :: "real \<Rightarrow> real \<Rightarrow> 'c result list \<Rightarrow> real list \<times> 'c option" where
  "bn_connect_loop backoff backoff_max [] = ([], None)"
| "bn_connect_loop backoff backoff_max (Inr c # rest) = ([], Some c)"
| "bn_connect_loop backoff backoff_max (Inl e # rest) =
     (case bn_connect_loop (min (backoff * 2) backoff_max) backoff_max rest of
        (sleeps, c) \<Rightarrow> (backoff # sleeps, c))"

definition bn_refresh_exchange_info :: "'c api \<Rightarrow> 'c binance \<Rightarrow> unit result \<times> 'c binance" where
  "bn_refresh_exchange_info api bn =
     on_ok (bn_call (ap_exchange_info api) bn)
       (\<lambda>rows bn1. (Inr (), bn1\<lparr>bn_info := fold (\<lambda>s d. dset (si_symbol s) s d) rows []\<rparr>))"

text \<open>\<^verbatim>\<open>if not self._exchange_info_by_symbol: await self._refresh_exchange_info()\<close>\<close>

definition bn_ensure_info :: "'c api \<Rightarrow> 'c binance \<Rightarrow> unit result \<times> 'c binance" where
  "bn_ensure_info api bn =
     (if bn_info bn = [] then bn_refresh_exchange_info api bn else (Inr (), bn))"

definition bn_not_found :: "string \<Rightarrow> py_exn" where
  "bn_not_found symb = ValueError [Lit ''symbol '', StrP symb, Lit '' not found on Binance Futures'']"

definition bn_load_filter :: "string \<Rightarrow> 'c binance \<Rightarrow> unit result \<times> 'c binance" where
  "bn_load_filter symb bn =
     (case dget (bn_info bn) symb of
        None \<Rightarrow> (Inl (bn_not_found symb), bn)
      | Some d \<Rightarrow> (Inr (), bn\<lparr>bn_filters := dset symb (bn_parse_filters symb d) (bn_filters bn)\<rparr>))"

fun bn_for_each :: "('x \<Rightarrow> 's \<Rightarrow> unit result \<times> 's) \<Rightarrow> 'x list \<Rightarrow> 's \<Rightarrow> unit result \<times> 's" where
  "bn_for_each f [] s = (Inr (), s)"
| "bn_for_each f (x # xs) s = on_ok (f x s) (\<lambda>_. bn_for_each f xs)"

definition bn_load_symbol_filters :: "'c api \<Rightarrow> 'c binance \<Rightarrow> unit result \<times> 'c binance" where
  "bn_load_symbol_filters api bn =
     on_ok (bn_ensure_info api bn) (\<lambda>_ bn1. bn_for_each bn_load_filter (bn_symbols bn1) bn1)"

definition bn_max_leverage_for :: "'c api \<Rightarrow> string \<Rightarrow> 'c binance \<Rightarrow> int option result \<times> 'c binance" where
  "bn_max_leverage_for api symb bn =
     (if bn_client bn = None then (Inl AssertionError, bn)
      else case bn_call (ap_first_bracket api symb) bn of
          (Inl _, bn1) \<Rightarrow> (Inr None, bn1)
        | (Inr lev, bn1) \<Rightarrow> (Inr (Some lev), bn1))"

definition bn_mark_configured :: "string \<Rightarrow> int \<Rightarrow> string \<Rightarrow> 'c binance \<Rightarrow> 'c binance" where
  "bn_mark_configured symb lev mt bn = bn\<lparr>bn_configured := (bn_configured bn)(symb \<mapsto> (lev, mt))\<rparr>"

definition bn_configure_leverage_and_margin ::
  "'c api \<Rightarrow> string \<Rightarrow> int \<Rightarrow> string \<Rightarrow> 'c binance \<Rightarrow> unit result \<times> 'c binance" where
  "bn_configure_leverage_and_margin api symb lev mt bn =
     (if bn_client bn = None then (Inl AssertionError, bn)
      else if bn_configured bn symb \<noteq> None then (Inr (), bn)
      else
        let bn1 = snd (bn_call (ap_margin_type api symb mt) bn) in
        (case bn_call (ap_set_leverage api symb lev) bn1 of
           (Inr _, bn2) \<Rightarrow> (Inr (), bn_mark_configured symb lev mt bn2)
         | (Inl e, bn2) \<Rightarrow>
             on_ok (bn_max_leverage_for api symb bn2)
               (\<lambda>mx bn3. case mx of
                   None \<Rightarrow> (Inl e, bn3)
                 | Some m \<Rightarrow>
                     if m < lev
                     then on_ok (bn_call (ap_set_leverage api symb m) bn3)
                            (\<lambda>_ bn4. (Inr (), bn_mark_configured symb m mt bn4))
                     else (Inl e, bn3))))"

definition bn_configure_symbols :: "'c api \<Rightarrow> 'c binance \<Rightarrow> unit result \<times> 'c binance" where
  "bn_configure_symbols api bn =
     bn_for_each (\<lambda>symb. bn_configure_leverage_and_margin api symb (bn_leverage bn) (bn_margin_type bn))
       (bn_symbols bn) bn"

definition bn_connect ::
  "'c api \<Rightarrow> 'c result list \<Rightarrow> 'c binance \<Rightarrow> real list \<times> (unit result \<times> 'c binance) option" where
  "bn_connect api attempts bn =
     (case bn_connect_loop (bn_backoff bn) (bn_backoff_max bn) attempts of
        (sleeps, None) \<Rightarrow> (sleeps, None)
      | (sleeps, Some c) \<Rightarrow>
          (sleeps, Some (on_ok (bn_load_symbol_filters api (bn\<lparr>bn_client := Some c\<rparr>))
             (\<lambda>_ bn1. on_ok (bn_configure_symbols api bn1)
               (\<lambda>_ bn2. (Inr (), bn2\<lparr>bn_connected := True\<rparr>))))))"

definition bn_disconnect :: "'c api \<Rightarrow> 'c binance \<Rightarrow> unit result \<times> 'c binance" where
  "bn_disconnect api bn =
     (let bn1 = bn\<lparr>bn_connected := False\<rparr> in
      if bn_client bn1 = None then (Inr (), bn1) else bn_call (ap_close api) bn1)"

section \<open>The universe\<close>

definition bn_tradeable :: "symbol_info \<Rightarrow> bool" where
  "bn_tradeable d \<longleftrightarrow> si_status d = Some ''TRADING'' \<and> si_contract d = Some ''PERPETUAL''
     \<and> si_quote d = Some ''USDT''"

definition bn_get_universe :: "'c api \<Rightarrow> bool \<Rightarrow> 'c binance \<Rightarrow> string list result \<times> 'c binance" where
  "bn_get_universe api force bn =
     on_ok (if force \<or> bn_info bn = [] then bn_refresh_exchange_info api bn else (Inr (), bn))
       (\<lambda>_ bn1. (Inr (sort (map fst (filter (\<lambda>(_, d). bn_tradeable d) (bn_info bn1)))), bn1))"

definition bn_load_all_filters :: "'c api \<Rightarrow> 'c binance \<Rightarrow> unit result \<times> 'c binance" where
  "bn_load_all_filters api bn =
     on_ok (bn_ensure_info api bn)
       (\<lambda>_ bn1. (Inr (), bn1\<lparr>bn_filters :=
          fold (\<lambda>(symb, d) fs. if dget fs symb = None then dset symb (bn_parse_filters symb d) fs else fs)
            (bn_info bn1) (bn_filters bn1)\<rparr>))"

definition bn_ensure_symbol_ready ::
  "'c api \<Rightarrow> string \<Rightarrow> int \<Rightarrow> string \<Rightarrow> 'c binance \<Rightarrow> symbol_filters result \<times> 'c binance" where
  "bn_ensure_symbol_ready api symb lev mt bn =
     on_ok (if dget (bn_filters bn) symb \<noteq> None then (Inr (), bn)
            else on_ok (if dget (bn_info bn) symb = None then bn_refresh_exchange_info api bn else (Inr (), bn))
                   (\<lambda>_. bn_load_filter symb))
       (\<lambda>_ bn1. on_ok (bn_configure_leverage_and_margin api symb lev mt bn1)
          (\<lambda>_ bn2. case dget (bn_filters bn2) symb of
              None \<Rightarrow> (Inl (KeyError symb), bn2) | Some f \<Rightarrow> (Inr f, bn2)))"

definition bn_get_step_size :: "string \<Rightarrow> 'c binance \<Rightarrow> real result" where
  "bn_get_step_size symb bn =
     (case dget (bn_filters bn) symb of None \<Rightarrow> Inl (KeyError symb) | Some f \<Rightarrow> Inr (sf_step f))"

definition bn_lots_to_quantity :: "string \<Rightarrow> int \<Rightarrow> 'c binance \<Rightarrow> real result" where
  "bn_lots_to_quantity symb lots bn =
     (case dget (bn_filters bn) symb of None \<Rightarrow> Inl (KeyError symb) | Some f \<Rightarrow> Inr (lots_to_quantity f lots))"

definition bn_quantity_to_lots :: "string \<Rightarrow> real \<Rightarrow> 'c binance \<Rightarrow> int result" where
  "bn_quantity_to_lots symb q bn =
     (case dget (bn_filters bn) symb of None \<Rightarrow> Inl (KeyError symb) | Some f \<Rightarrow> Inr (quantity_to_lots f q))"

section \<open>Orders\<close>

text \<open>
  \<^verbatim>\<open>await event_queue.put\<close>.  The code's queue holds ten thousand events and a put waits while it is
  full; the model's list has no bound, so that wait is not modelled.
\<close>

definition bn_emit :: "broker_event \<Rightarrow> 'c binance \<Rightarrow> 'c binance" where
  "bn_emit e bn = bn\<lparr>bn_events := bn_events bn @ [e]\<rparr>"

definition bn_reject :: "datetime \<Rightarrow> broker_request \<Rightarrow> fstr \<Rightarrow> broker_event" where
  "bn_reject now rq reason =
     RejectB \<lparr>rj_ts = now, rj_order_id = rq_id rq, rj_corr = rq_corr rq, rj_symbol = rq_symbol rq,
       rj_reason = reason\<rparr>"

text \<open>The four tables an accepted request is entered in.\<close>

definition bn_register :: "broker_request \<Rightarrow> 'c binance \<Rightarrow> 'c binance" where
  "bn_register rq bn =
     (let cid = take 36 (rq_id rq);
          bn1 = bn\<lparr>bn_corr := (bn_corr bn)(cid \<mapsto> rq_corr rq),
                   bn_internal := (bn_internal bn)(cid \<mapsto> rq_id rq),
                   bn_order_symbol := (bn_order_symbol bn)(rq_id rq \<mapsto> rq_symbol rq)\<rparr>
      in case rq_oca rq of
           None \<Rightarrow> bn1
         | Some g \<Rightarrow>
             if g = [] then bn1
             else bn1\<lparr>bn_order_group := (bn_order_group bn1)(rq_id rq \<mapsto> g),
                      bn_oca_groups := (bn_oca_groups bn1)(g \<mapsto>
                        (let os = (case bn_oca_groups bn1 g of None \<Rightarrow> [] | Some os \<Rightarrow> os)
                         in if rq_id rq \<in> set os then os else os @ [rq_id rq]))\<rparr>)"

definition bn_order_params :: "broker_request \<Rightarrow> symbol_filters \<Rightarrow> real \<Rightarrow> int \<Rightarrow> order_params result" where
  "bn_order_params rq filt raw_qty recv =
     (let p = \<lparr>op_symbol = rq_symbol rq, op_side = side_value (rq_side rq), op_type = bn_order_type (rq_type rq),
               op_qty = Some raw_qty, op_client_id = take 36 (rq_id rq), op_price = None, op_tif = None,
               op_stop = None, op_close_position = False, op_recv_window = recv\<rparr>
      in if rq_type rq = LIMIT
         then (case rq_limit rq of
                 None \<Rightarrow> Inl (ValueError [Lit ''LIMIT order requires limit_price''])
               | Some px \<Rightarrow> Inr (p\<lparr>op_price := Some (round_step px (sf_tick filt)), op_tif := Some (bn_tif (rq_tif rq))\<rparr>))
         else Inr p)"

definition bn_place_order ::
  "'c api \<Rightarrow> datetime \<Rightarrow> broker_request \<Rightarrow> 'c binance \<Rightarrow> unit result \<times> 'c binance" where
  "bn_place_order api now rq bn =
     (if bn_client bn = None then (Inl AssertionError, bn)
      else case dget (bn_filters bn) (rq_symbol rq) of
        None \<Rightarrow> (Inl (ValueError [Lit ''no exchange filters loaded for symbol='', StrP (rq_symbol rq),
                                Lit ''; was connect() called?'']), bn)
      | Some filt \<Rightarrow>
          (let raw_qty = lots_to_quantity filt (rq_qty rq) in
           if raw_qty < sf_min_qty filt
           then (Inr (), bn_emit (bn_reject now rq
                   [Lit ''quantity '', FloatP raw_qty, Lit '' below exchange minimum '', FloatP (sf_min_qty filt),
                    Lit '' for '', StrP (rq_symbol rq)]) bn)
           else
             let bn1 = bn_register rq bn in
             (case bn_order_params rq filt raw_qty (bn_recv_window bn) of
                Inl e \<Rightarrow> (Inl e, bn1)
              | Inr p \<Rightarrow>
                  (case bn_call (ap_create_order api p) bn1 of
                     (Inl e, bn2) \<Rightarrow> (Inr (), bn_emit (bn_reject now rq (exn_text e)) bn2)
                   | (Inr _, bn2) \<Rightarrow> (Inr (), bn2)))))"

definition bn_cancel_order :: "'c api \<Rightarrow> string \<Rightarrow> 'c binance \<Rightarrow> unit result \<times> 'c binance" where
  "bn_cancel_order api oid bn =
     (if bn_client bn = None then (Inl AssertionError, bn)
      else case bn_order_symbol bn oid of
        None \<Rightarrow> (Inr (), bn)
      | Some symb \<Rightarrow> (Inr (), snd (bn_call (ap_cancel api symb (OrigClientId (take 36 oid))) bn)))"

definition bn_cancel_all :: "'c api \<Rightarrow> 'c binance \<Rightarrow> unit result \<times> 'c binance" where
  "bn_cancel_all api bn =
     (if bn_client bn = None then (Inl AssertionError, bn)
      else (Inr (), fold (\<lambda>symb b. snd (bn_call (ap_cancel_open api symb) b)) (bn_symbols bn) bn))"

section \<open>The native stop-loss\<close>

text \<open>\<^verbatim>\<open>int(text)\<close> of a digit string.\<close>

definition digit_value :: "char \<Rightarrow> int" where
  "digit_value c = int (of_char c) - 48"

definition int_of_text :: "string \<Rightarrow> int option" where
  "int_of_text s =
     (if s \<noteq> [] \<and> (\<forall>c \<in> set s. 0 \<le> digit_value c \<and> digit_value c \<le> 9)
      then Some (foldl (\<lambda>n c. 10 * n + digit_value c) 0 s) else None)"

definition bn_stop_client_id :: "datetime \<Rightarrow> string \<Rightarrow> string" where
  "bn_stop_client_id now symb =
     take 36 (''sl-'' @ symb @ ''-'' @ nat_text (nat (py_int (timestamp_s now * 1000))))"

definition bn_stop_params :: "datetime \<Rightarrow> string \<Rightarrow> bool \<Rightarrow> real \<Rightarrow> int \<Rightarrow> order_params" where
  "bn_stop_params now symb is_long price recv =
     \<lparr>op_symbol = symb, op_side = side_value (if is_long then SELL else BUY), op_type = ''STOP_MARKET'',
      op_qty = None, op_client_id = bn_stop_client_id now symb, op_price = None, op_tif = None,
      op_stop = Some price, op_close_position = True, op_recv_window = recv\<rparr>"

definition bn_place_stop_loss ::
  "'c api \<Rightarrow> datetime \<Rightarrow> string \<Rightarrow> bool \<Rightarrow> real \<Rightarrow> int \<Rightarrow> real \<Rightarrow> 'c binance
   \<Rightarrow> string option result \<times> 'c binance" where
  "bn_place_stop_loss api now symb is_long entry lots max_loss bn =
     (if bn_client bn = None then (Inl AssertionError, bn)
      else case dget (bn_filters bn) symb of
        None \<Rightarrow> (Inr None, bn)
      | Some filt \<Rightarrow>
          if lots \<le> 0 then (Inr None, bn)
          else
            let real_qty = lots_to_quantity filt lots in
            if real_qty \<le> 0 then (Inr None, bn)
            else
              let price = stop_loss_price filt is_long entry real_qty max_loss in
              if price \<le> 0 then (Inr None, bn)
              else
                (case bn_call (ap_create_order api (bn_stop_params now symb is_long price (bn_recv_window bn))) bn of
                   (Inl _, bn1) \<Rightarrow> (Inr None, bn1)
                 | (Inr None, bn1) \<Rightarrow> (Inr (Some (bn_stop_client_id now symb)), bn1)
                 | (Inr (Some oid), bn1) \<Rightarrow> (Inr (Some oid), bn1)))"

definition bn_cancel_stop_loss :: "'c api \<Rightarrow> string \<Rightarrow> string \<Rightarrow> 'c binance \<Rightarrow> unit result \<times> 'c binance" where
  "bn_cancel_stop_loss api symb oid bn =
     (if bn_client bn = None then (Inl AssertionError, bn)
      else case int_of_text oid of
        None \<Rightarrow> (Inr (), bn)
      | Some n \<Rightarrow> (Inr (), snd (bn_call (ap_cancel api symb (ExchangeId n)) bn)))"

section \<open>Account and positions\<close>

definition bn_get_account_equity :: "'c api \<Rightarrow> 'c binance \<Rightarrow> real result \<times> 'c binance" where
  "bn_get_account_equity api bn =
     on_ok (bn_call (ap_account api) bn) (\<lambda>a bn1. (Inr (ac_margin_balance a), bn1))"

definition bn_get_margin_usage :: "'c api \<Rightarrow> 'c binance \<Rightarrow> (real \<times> real) result \<times> 'c binance" where
  "bn_get_margin_usage api bn =
     on_ok (bn_call (ap_account api) bn) (\<lambda>a bn1. (Inr (ac_initial_margin a, ac_maint_margin a), bn1))"

text \<open>Rows of known symbols with a position; the lots of a short are negative.\<close>

definition bn_row_lots :: "(string, symbol_filters) dict \<Rightarrow> position_row \<Rightarrow> int option" where
  "bn_row_lots fs p =
     (case dget fs (pr_symbol p) of
        None \<Rightarrow> None
      | Some filt \<Rightarrow>
          if pr_amt p = 0 then None
          else let lots = quantity_to_lots filt \<bar>pr_amt p\<bar> in Some (if 0 < pr_amt p then lots else - lots))"

definition bn_positions_of :: "(string, symbol_filters) dict \<Rightarrow> position_row list \<Rightarrow> (string, int) dict" where
  "bn_positions_of fs rows =
     fold (\<lambda>p d. case bn_row_lots fs p of None \<Rightarrow> d | Some n \<Rightarrow> dset (pr_symbol p) n d) rows []"

definition bn_get_positions :: "'c api \<Rightarrow> 'c binance \<Rightarrow> (string, int) dict result \<times> 'c binance" where
  "bn_get_positions api bn =
     on_ok (bn_call (ap_positions api) bn) (\<lambda>rows bn1. (Inr (bn_positions_of (bn_filters bn1) rows), bn1))"

definition bn_reconcile_state :: "'c api \<Rightarrow> 'c binance \<Rightarrow> (string, int) dict result \<times> 'c binance" where
  "bn_reconcile_state api bn = bn_get_positions api bn"

definition bn_get_position_pnl :: "'c api \<Rightarrow> 'c binance \<Rightarrow> (string, real) dict result \<times> 'c binance" where
  "bn_get_position_pnl api bn =
     on_ok (bn_call (ap_positions api) bn)
       (\<lambda>rows bn1. (Inr (fold (\<lambda>p d. if pr_amt p \<noteq> 0 then dset (pr_symbol p) (pr_pnl p) d else d) rows []), bn1))"

definition bn_details_of :: "(string, symbol_filters) dict \<Rightarrow> position_row list \<Rightarrow> position_detail list" where
  "bn_details_of fs rows =
     List.map_filter (\<lambda>p.
       case dget fs (pr_symbol p) of
         None \<Rightarrow> None
       | Some filt \<Rightarrow>
           if pr_amt p = 0 then None
           else Some \<lparr>pd_symbol = pr_symbol p, pd_side = (if 0 < pr_amt p then BUY else SELL),
                      pd_qty = quantity_to_lots filt \<bar>pr_amt p\<bar>, pd_entry = pr_entry p,
                      pd_mark = pr_mark p, pd_pnl = pr_pnl p\<rparr>) rows"

definition bn_get_position_details :: "'c api \<Rightarrow> 'c binance \<Rightarrow> position_detail list result \<times> 'c binance" where
  "bn_get_position_details api bn =
     on_ok (bn_call (ap_positions api) bn) (\<lambda>rows bn1. (Inr (bn_details_of (bn_filters bn1) rows), bn1))"

record candle =
  cd_time :: int
  cd_open :: real
  cd_high :: real
  cd_low :: real
  cd_close :: real
  cd_volume :: real

definition bn_candle :: "kline_row \<Rightarrow> candle" where
  "bn_candle row = (case row of (t, opn, h, l, c) \<Rightarrow>
     \<lparr>cd_time = py_int (of_int t / 1000), cd_open = opn, cd_high = h, cd_low = l, cd_close = c, cd_volume = 0\<rparr>)"

definition bn_get_mark_price_klines :: "'c api \<Rightarrow> string \<Rightarrow> int \<Rightarrow> 'c binance \<Rightarrow> candle list result \<times> 'c binance" where
  "bn_get_mark_price_klines api symb limit bn =
     on_ok (bn_call (ap_klines api symb ''1m'' (min limit 1500)) bn)
       (\<lambda>rows bn1. (Inr (map bn_candle rows), bn1))"

section \<open>The user data stream\<close>

record user_msg =
  um_event :: "string option"
  um_client_id :: string
  um_symbol :: string
  um_side :: string
  um_exec :: string
  um_status :: string
  um_last_qty :: real
  um_cum_qty :: real
  um_orig_qty :: real
  um_last_price :: real
  um_time_ms :: int
  um_commission :: "real option"
  um_maker :: bool
  um_order_id :: "string option"

definition bn_handle_oca_fill :: "'c api \<Rightarrow> string \<Rightarrow> 'c binance \<Rightarrow> unit result \<times> 'c binance" where
  "bn_handle_oca_fill api oid bn =
     (case bn_order_group bn oid of
        None \<Rightarrow> (Inr (), bn)
      | Some g \<Rightarrow>
          (case bn_oca_groups bn g of
             None \<Rightarrow> (Inr (), bn)
           | Some os \<Rightarrow>
               on_ok (bn_for_each (bn_cancel_order api) (filter (\<lambda>o2. o2 \<noteq> oid) os) bn)
                 (\<lambda>_ bn1. (Inr (), bn1\<lparr>bn_oca_groups := (bn_oca_groups bn1)(g \<mapsto> [])\<rparr>))))"

definition bn_internal_id :: "string \<Rightarrow> 'c binance \<Rightarrow> string" where
  "bn_internal_id cid bn = (case bn_internal bn cid of None \<Rightarrow> cid | Some oid \<Rightarrow> oid)"

definition bn_corr_of :: "string \<Rightarrow> 'c binance \<Rightarrow> string" where
  "bn_corr_of cid bn = (case bn_corr bn cid of None \<Rightarrow> [] | Some c \<Rightarrow> c)"

definition bn_trade_event :: "user_msg \<Rightarrow> symbol_filters \<Rightarrow> 'c binance \<Rightarrow> exec_event" where
  "bn_trade_event m filt bn =
     (let cumulative = quantity_to_lots filt (um_cum_qty m) in
      \<lparr>ex_ts = um_time_ms m * 1000, ex_order_id = bn_internal_id (um_client_id m) bn,
       ex_corr = bn_corr_of (um_client_id m) bn, ex_symbol = um_symbol m,
       ex_side = (if um_side m = ''BUY'' then BUY else SELL),
       ex_fill_qty = quantity_to_lots filt (um_last_qty m), ex_fill_price = um_last_price m,
       ex_cum_qty = cumulative, ex_rem_qty = max (quantity_to_lots filt (um_orig_qty m) - cumulative) 0,
       ex_commission = (case um_commission m of None \<Rightarrow> 0 | Some x \<Rightarrow> x),
       ex_liquidity = (if um_maker m then ''MAKER'' else ''TAKER''), ex_expected = None\<rparr>)"

definition bn_handle_user_message ::
  "'c api \<Rightarrow> datetime \<Rightarrow> user_msg \<Rightarrow> 'c binance \<Rightarrow> unit result \<times> 'c binance" where
  "bn_handle_user_message api now m bn =
     (if um_event m \<noteq> Some ''ORDER_TRADE_UPDATE'' then (Inr (), bn)
      else
        let oid = bn_internal_id (um_client_id m) bn; corr = bn_corr_of (um_client_id m) bn in
        if um_exec m = ''TRADE''
        then (case dget (bn_filters bn) (um_symbol m) of
                None \<Rightarrow> (Inl (KeyError (um_symbol m)), bn)
              | Some filt \<Rightarrow>
                  (let bn1 = bn_emit (ExecB (bn_trade_event m filt bn)) bn in
                   if um_status m = ''FILLED'' then bn_handle_oca_fill api oid bn1 else (Inr (), bn1)))
        else (case bn_order_status (um_status m) of
                None \<Rightarrow> (Inr (), bn)
              | Some st \<Rightarrow>
                  if st = REJECTED
                  then (Inr (), bn_emit (RejectB \<lparr>rj_ts = now, rj_order_id = oid, rj_corr = corr,
                          rj_symbol = um_symbol m, rj_reason = [Lit ''Binance order status='', StrP (um_status m)]\<rparr>) bn)
                  else (Inr (), bn_emit (AckB \<lparr>ak_ts = now, ak_order_id = oid, ak_corr = corr,
                          ak_symbol = um_symbol m, ak_status = st,
                          ak_broker_id = Some (case um_order_id m of None \<Rightarrow> ''None'' | Some i \<Rightarrow> i)\<rparr>) bn)))"

text \<open>
  \<^verbatim>\<open>_consume_user_stream\<close> as a machine over what the socket does: the state is whether a socket is
  open and the current backoff, the output the sleep made.  An exception of the handler closes the
  socket as an exception of the socket does.
\<close>

datatype socket_event = SockOpened | SockFailed | SockMsg datetime user_msg

definition bn_stream_step ::
  "'c api \<Rightarrow> socket_event \<Rightarrow> (bool \<times> real) \<times> 'c binance \<Rightarrow> real option \<times> ((bool \<times> real) \<times> 'c binance)" where
  "bn_stream_step api ev st = (case st of ((opn, backoff), bn) \<Rightarrow>
     (let failed = (\<lambda>b. (Some backoff, ((False, min (backoff * 2) (bn_backoff_max b)), b))) in
      if \<not> bn_connected bn then (None, st)
      else case ev of
          SockOpened \<Rightarrow> if opn then (None, st) else (None, ((True, bn_backoff bn), bn))
        | SockFailed \<Rightarrow> failed bn
        | SockMsg now m \<Rightarrow>
            if \<not> opn then (None, st)
            else (case bn_handle_user_message api now m bn of
                    (Inr _, bn1) \<Rightarrow> (None, ((True, backoff), bn1))
                  | (Inl _, bn1) \<Rightarrow> failed bn1)))"

text \<open>\<^verbatim>\<open>stream_events\<close> hands the queued events out in order.\<close>

definition bn_next_event :: "'c binance \<Rightarrow> (broker_event \<times> 'c binance) option" where
  "bn_next_event bn =
     (case bn_events bn of [] \<Rightarrow> None | e # es \<Rightarrow> Some (e, bn\<lparr>bn_events := es\<rparr>))"

section \<open>What the operations leave alone\<close>

lemma bn_call_Some:
  "bn_client bn = Some c \<Longrightarrow> bn_call f bn = (fst (f c), bn\<lparr>bn_client := Some (snd (f c))\<rparr>)"
  by (simp add: bn_call_def split: prod.split)

lemma bn_call_frame [simp]:
  "bn_events (snd (bn_call f bn)) = bn_events bn"
  "bn_filters (snd (bn_call f bn)) = bn_filters bn"
  "bn_info (snd (bn_call f bn)) = bn_info bn"
  "bn_configured (snd (bn_call f bn)) = bn_configured bn"
  "bn_order_symbol (snd (bn_call f bn)) = bn_order_symbol bn"
  "bn_oca_groups (snd (bn_call f bn)) = bn_oca_groups bn"
  "bn_order_group (snd (bn_call f bn)) = bn_order_group bn"
  "bn_internal (snd (bn_call f bn)) = bn_internal bn"
  "bn_corr (snd (bn_call f bn)) = bn_corr bn"
  "bn_client (snd (bn_call f bn)) = None \<longleftrightarrow> bn_client bn = None"
  by (simp_all add: bn_call_def split: option.split prod.split)

lemma bn_register_fixed [simp]:
  "bn_client (bn_register rq bn) = bn_client bn"
  "bn_events (bn_register rq bn) = bn_events bn"
  "bn_filters (bn_register rq bn) = bn_filters bn"
  "bn_recv_window (bn_register rq bn) = bn_recv_window bn"
  by (simp_all add: bn_register_def Let_def split: option.split)

lemma bn_register_tables [simp]:
  "bn_internal (bn_register rq bn) = (bn_internal bn)(take 36 (rq_id rq) \<mapsto> rq_id rq)"
  "bn_corr (bn_register rq bn) = (bn_corr bn)(take 36 (rq_id rq) \<mapsto> rq_corr rq)"
  "bn_order_symbol (bn_register rq bn) = (bn_order_symbol bn)(rq_id rq \<mapsto> rq_symbol rq)"
  by (simp_all add: bn_register_def Let_def split: option.split)

lemma bn_emit_simps [simp]:
  "bn_events (bn_emit e bn) = bn_events bn @ [e]"
  "bn_client (bn_emit e bn) = bn_client bn" "bn_filters (bn_emit e bn) = bn_filters bn"
  "bn_internal (bn_emit e bn) = bn_internal bn" "bn_corr (bn_emit e bn) = bn_corr bn"
  "bn_order_symbol (bn_emit e bn) = bn_order_symbol bn" "bn_oca_groups (bn_emit e bn) = bn_oca_groups bn"
  "bn_order_group (bn_emit e bn) = bn_order_group bn" "bn_recv_window (bn_emit e bn) = bn_recv_window bn"
  by (simp_all add: bn_emit_def)

text \<open>Every way \<open>bn_place_order\<close> can go.\<close>

lemma bn_place_cases:
  obtains
    (refused) e where "bn_place_order api now rq bn = (Inl e, bn)"
  | (invalid) e where "bn_place_order api now rq bn = (Inl e, bn_register rq bn)"
  | (small) reason where "bn_place_order api now rq bn = (Inr (), bn_emit (bn_reject now rq reason) bn)"
  | (failed) p e c reason where "bn_client bn = Some c" "fst (ap_create_order api p c) = Inl e"
      "bn_place_order api now rq bn = (Inr (), bn_emit (bn_reject now rq reason)
         ((bn_register rq bn)\<lparr>bn_client := Some (snd (ap_create_order api p c))\<rparr>))"
  | (sent) filt p r c where "bn_client bn = Some c" "dget (bn_filters bn) (rq_symbol rq) = Some filt"
      "bn_order_params rq filt (lots_to_quantity filt (rq_qty rq)) (bn_recv_window bn) = Inr p"
      "fst (ap_create_order api p c) = Inr r"
      "bn_place_order api now rq bn =
         (Inr (), (bn_register rq bn)\<lparr>bn_client := Some (snd (ap_create_order api p c))\<rparr>)"
proof (cases "bn_client bn")
  case None
  then show ?thesis by (intro refused) (simp add: bn_place_order_def)
next
  case c: (Some c)
  show ?thesis
  proof (cases "dget (bn_filters bn) (rq_symbol rq)")
    case None
    with c show ?thesis by (intro refused) (simp add: bn_place_order_def)
  next
    case f: (Some filt)
    let ?q = "lots_to_quantity filt (rq_qty rq)"
    show ?thesis
    proof (cases "?q < sf_min_qty filt")
      case True
      with c f show ?thesis by (intro small) (simp add: bn_place_order_def Let_def)
    next
      case big: False
      show ?thesis
      proof (cases "bn_order_params rq filt ?q (bn_recv_window bn)")
        case (Inl e)
        with c f big show ?thesis by (intro invalid) (simp add: bn_place_order_def Let_def)
      next
        case p: (Inr p)
        have call: "bn_call (ap_create_order api p) (bn_register rq bn) =
            (fst (ap_create_order api p c), (bn_register rq bn)\<lparr>bn_client := Some (snd (ap_create_order api p c))\<rparr>)"
          by (rule bn_call_Some) (simp add: c)
        show ?thesis
        proof (cases "fst (ap_create_order api p c)")
          case (Inl e)
          with c f big p call show ?thesis
            by (intro failed [OF c Inl]) (simp add: bn_place_order_def Let_def)
        next
          case (Inr r)
          with c f big p call show ?thesis
            by (intro sent [OF c f p Inr]) (simp add: bn_place_order_def Let_def)
        qed
      qed
    qed
  qed
qed

lemma bn_place_events:
  "\<exists>es. bn_events (snd (bn_place_order api now rq bn)) = bn_events bn @ es
     \<and> (\<forall>e \<in> set es. be_order_id e = rq_id rq)"
  by (rule bn_place_cases [of api now rq bn]) (auto simp: bn_reject_def)

lemma bn_cancel_order_frame [simp]:
  "bn_events (snd (bn_cancel_order api oid bn)) = bn_events bn"
  "bn_order_symbol (snd (bn_cancel_order api oid bn)) = bn_order_symbol bn"
  "bn_oca_groups (snd (bn_cancel_order api oid bn)) = bn_oca_groups bn"
  "bn_order_group (snd (bn_cancel_order api oid bn)) = bn_order_group bn"
  "bn_internal (snd (bn_cancel_order api oid bn)) = bn_internal bn"
  "bn_filters (snd (bn_cancel_order api oid bn)) = bn_filters bn"
  by (simp_all add: bn_cancel_order_def split: option.split)

text \<open>The adapter as the order manager sees it, and its side of the contract.\<close>

definition bn_venue :: "'c api \<Rightarrow> datetime \<Rightarrow> 'c binance venue" where
  "bn_venue api now = \<lparr>vn_place = bn_place_order api now, vn_cancel = bn_cancel_order api,
     vn_cancel_all = bn_cancel_all api\<rparr>"

interpretation bnv: order_venue "bn_venue api now" bn_events
  by unfold_locales (simp_all add: bn_venue_def bn_place_events)

section \<open>Leverage\<close>

text \<open>
  Configuring a symbol either raises or records a leverage no higher than the one asked
  for; from then on every configuration of that symbol is a successful no-op, even one that asks for
  another leverage or margin type.
\<close>

theorem bn_configure_once:
  assumes "bn_configured bn symb = None" "fst (bn_configure_leverage_and_margin api symb lev mt bn) = Inr ()"
  shows "\<exists>l \<le> lev. bn_configured (snd (bn_configure_leverage_and_margin api symb lev mt bn)) symb = Some (l, mt)
    \<and> bn_configure_leverage_and_margin api symb lev' mt' (snd (bn_configure_leverage_and_margin api symb lev mt bn))
        = (Inr (), snd (bn_configure_leverage_and_margin api symb lev mt bn))"
proof -
  let ?r = "bn_configure_leverage_and_margin api symb lev mt bn"
  have c: "bn_client bn \<noteq> None" 
    using assms(2) by (rule contrapos_pn) (simp add: bn_configure_leverage_and_margin_def)
  define bn1 where "bn1 = snd (bn_call (ap_margin_type api symb mt) bn)"
  have c1: "bn_client bn1 \<noteq> None" using c by (simp add: bn1_def)
  obtain r bn2 where lev: "bn_call (ap_set_leverage api symb lev) bn1 = (r, bn2)"
    by (cases "bn_call (ap_set_leverage api symb lev) bn1")
  have c2: "bn_client bn2 \<noteq> None"
    using c1 bn_call_frame(10) [of "ap_set_leverage api symb lev" bn1] by (simp add: lev)
  have unfold: "?r = (case r of Inr _ \<Rightarrow> (Inr (), bn_mark_configured symb lev mt bn2)
       | Inl e \<Rightarrow> on_ok (bn_max_leverage_for api symb bn2)
               (\<lambda>mx bn3. case mx of None \<Rightarrow> (Inl e, bn3)
                 | Some m \<Rightarrow> if m < lev
                     then on_ok (bn_call (ap_set_leverage api symb m) bn3)
                            (\<lambda>_ bn4. (Inr (), bn_mark_configured symb m mt bn4))
                     else (Inl e, bn3)))"
    using c assms(1) by (auto simp: bn_configure_leverage_and_margin_def bn1_def [symmetric] lev Let_def)
  have "\<exists>l bn'. l \<le> lev \<and> snd ?r = bn_mark_configured symb l mt bn' \<and> bn_client bn' \<noteq> None"
  proof (cases r)
    case (Inr u)
    with unfold c2 show ?thesis by auto
  next
    case (Inl e)
    obtain x bn3 where m: "bn_max_leverage_for api symb bn2 = (x, bn3)"
      by (cases "bn_max_leverage_for api symb bn2")
    have "snd (bn_max_leverage_for api symb bn2) = snd (bn_call (ap_first_bracket api symb) bn2)"
      using c2 by (auto simp: bn_max_leverage_for_def split: prod.split sum.split)
    then have c3: "bn_client bn3 \<noteq> None"
      using m c2 bn_call_frame(10) [of "ap_first_bracket api symb" bn2] by simp
    from assms(2) unfold Inl m obtain mx where x: "x = Inr (Some mx)" "mx < lev"
      by (cases x) (auto split: option.splits if_splits)
    obtain y bn4 where y: "bn_call (ap_set_leverage api symb mx) bn3 = (y, bn4)"
      by (cases "bn_call (ap_set_leverage api symb mx) bn3")
    have c4: "bn_client bn4 \<noteq> None"
      using c3 bn_call_frame(10) [of "ap_set_leverage api symb mx" bn3] by (simp add: y)
    from assms(2) unfold Inl m x y have "snd ?r = bn_mark_configured symb mx mt bn4"
      by (cases y) simp_all
    with x(2) c4 show ?thesis by (intro exI [of _ mx] exI [of _ bn4]) simp
  qed
  then obtain l bn' where l: "l \<le> lev" "snd ?r = bn_mark_configured symb l mt bn'" "bn_client bn' \<noteq> None" by blast
  have "bn_configure_leverage_and_margin api symb lev' mt' (bn_mark_configured symb l mt bn')
      = (Inr (), bn_mark_configured symb l mt bn')"
    using l(3) by (auto simp: bn_mark_configured_def bn_configure_leverage_and_margin_def)
  with l(1,2) show ?thesis by (auto simp: bn_mark_configured_def)
qed

text \<open>A client that accepts everything and records the cancellations it is asked for.\<close>

definition sample_api :: "(string \<times> cancel_ref) list api" where
  "sample_api = \<lparr>ap_exchange_info = (\<lambda>c. (Inr [], c)), ap_margin_type = (\<lambda>_ _ c. (Inr (), c)),
     ap_set_leverage = (\<lambda>_ l c. (if l \<le> 20 then Inr () else Inl (ApiError ''-4028''), c)),
     ap_first_bracket = (\<lambda>_ c. (Inr 20, c)), ap_create_order = (\<lambda>_ c. (Inr (Some ''77''), c)),
     ap_cancel = (\<lambda>s r c. (Inr (), c @ [(s, r)])), ap_cancel_open = (\<lambda>_ c. (Inr (), c)),
     ap_account = (\<lambda>c. (Inr \<lparr>ac_margin_balance = 1000, ac_initial_margin = 0, ac_maint_margin = 0\<rparr>, c)),
     ap_positions = (\<lambda>c. (Inr [], c)), ap_klines = (\<lambda>_ _ _ c. (Inr [], c)), ap_close = (\<lambda>c. (Inr (), c))\<rparr>"

definition sample_binance :: "(string \<times> cancel_ref) list binance" where
  "sample_binance = (bn_init True [''BTCUSDT''] 2 ''ISOLATED'' 5000 2 60)
     \<lparr>bn_client := Some [], bn_filters := [(''BTCUSDT'', sample_filters)]\<rparr>"

theorem bn_configure_once_witness:
  "\<exists>l \<le> 50. bn_configured (snd (bn_configure_leverage_and_margin sample_api ''BTCUSDT'' 50 ''ISOLATED'' sample_binance))
      ''BTCUSDT'' = Some (l, ''ISOLATED'')"
proof -
  have "bn_configured sample_binance ''BTCUSDT'' = None" by (simp add: sample_binance_def bn_init_def)
  moreover have "fst (bn_configure_leverage_and_margin sample_api ''BTCUSDT'' 50 ''ISOLATED'' sample_binance) = Inr ()"
    by (simp add: bn_configure_leverage_and_margin_def sample_binance_def bn_init_def bn_call_def sample_api_def
        bn_max_leverage_for_def Let_def)
  ultimately show ?thesis using bn_configure_once [of sample_binance "''BTCUSDT''" sample_api 50 "''ISOLATED''"] by blast
qed

section \<open>Backoff\<close>

text \<open>
  Connecting sleeps once per failed attempt, for the base time doubled at each failure
  and capped, and ends at the first attempt that succeeds.
\<close>

theorem bn_connect_backoff:
  assumes "0 \<le> b" "b \<le> m"
  shows "fst (bn_connect_loop b m xs) = map (\<lambda>i. min (b * 2 ^ i) m) [0..<length (takeWhile (\<lambda>x. \<not> ok x) xs)]
    \<and> snd (bn_connect_loop b m xs) =
       (case dropWhile (\<lambda>x. \<not> ok x) xs of Inr c # _ \<Rightarrow> Some c | _ \<Rightarrow> None)"
  using assms
proof (induction b m xs rule: bn_connect_loop.induct)
  case (3 b m e rest)
  have IH: "fst (bn_connect_loop (min (b * 2) m) m rest) =
        map (\<lambda>i. min (min (b * 2) m * 2 ^ i) m) [0..<length (takeWhile (\<lambda>x. \<not> ok x) rest)]"
     "snd (bn_connect_loop (min (b * 2) m) m rest) =
       (case dropWhile (\<lambda>x. \<not> ok x) rest of Inr c # _ \<Rightarrow> Some c | _ \<Rightarrow> None)"
    using 3 by auto
  have step: "min (min (b * 2) m * 2 ^ i) m = min (b * 2 ^ Suc i) m" for i
  proof (cases "b * 2 \<le> m")
    case True
    then show ?thesis by (simp add: ac_simps)
  next
    case False
    then have "m < b * 2" by simp
    moreover have "b * 2 * 1 \<le> b * 2 * 2 ^ i" using 3(2) by (intro mult_left_mono) simp_all
    moreover have "m * 1 \<le> m * 2 ^ i" using 3(2,3) by (intro mult_left_mono) simp_all
    ultimately show ?thesis by (simp add: ac_simps min_def)
  qed
  have "map (\<lambda>i. min (b * 2 ^ i) m) [0..<Suc n] = min b m # map (\<lambda>i. min (b * 2 ^ Suc i) m) [0..<n]" for n
    by (subst upt_conv_Cons) (simp_all only: map_Suc_upt [symmetric] map_map list.map o_def, simp_all)
  with 3(3) IH step show ?case
    by (cases "bn_connect_loop (min (b * 2) m) m rest") simp
qed simp_all

theorem bn_connect_backoff_witness:
  "fst (bn_connect_loop 2 5 [Inl (ApiError ''x''), Inl (ApiError ''y''), Inr ''client'']) = [2, 4]"
proof -
  have "(0::real) \<le> 2" "(2::real) \<le> 5" by simp_all
  from bn_connect_backoff [OF this, of "[Inl (ApiError ''x''), Inl (ApiError ''y''), Inr ''client'']"]
  show ?thesis by (simp add: upt_rec numeral_2_eq_2)
qed

section \<open>One-cancels-other groups\<close>

text \<open>Every order of a group is registered with its symbol and its group.\<close>

definition bn_inv :: "'c binance \<Rightarrow> bool" where
  "bn_inv bn \<longleftrightarrow> (\<forall>g os. bn_oca_groups bn g = Some os \<longrightarrow>
     distinct os \<and> (\<forall>oid \<in> set os. bn_order_symbol bn oid \<noteq> None))"

lemma bn_inv_init [simp, inv_intros]: "bn_inv (bn_init t ss l mt rw b bm)"
  by (simp add: bn_inv_def bn_init_def)

lemma bn_inv_register [inv_intros]:
  assumes "bn_inv bn"
  shows "bn_inv (bn_register rq bn)"
proof -
  have groups: "bn_oca_groups (bn_register rq bn) g =
      (if rq_oca rq = Some g \<and> g \<noteq> []
       then Some (let os = (case bn_oca_groups bn g of None \<Rightarrow> [] | Some os \<Rightarrow> os)
                  in if rq_id rq \<in> set os then os else os @ [rq_id rq])
       else bn_oca_groups bn g)" for g
    by (auto simp: bn_register_def Let_def split: option.split)
  have old: "distinct os" "\<forall>oid \<in> set os. bn_order_symbol bn oid \<noteq> None"
    if "bn_oca_groups bn g = Some os" for g os
    using assms that by (auto simp: bn_inv_def)
  show ?thesis
    unfolding bn_inv_def groups
    using old by (auto simp: Let_def split: if_splits option.splits)
qed

lemma bn_inv_cong:
  "bn_inv bn \<Longrightarrow> bn_oca_groups bn' = bn_oca_groups bn \<Longrightarrow> bn_order_symbol bn' = bn_order_symbol bn \<Longrightarrow> bn_inv bn'"
  by (simp add: bn_inv_def)

lemma bn_inv_place [inv_intros]: "bn_inv bn \<Longrightarrow> bn_inv (snd (bn_place_order api now rq bn))"
  by (rule bn_place_cases [of api now rq bn]) (auto intro: bn_inv_register bn_inv_cong)

text \<open>Cancelling a list of registered orders asks the client for each, in order.\<close>

definition bn_cancel_calls :: "'c api \<Rightarrow> (string \<rightharpoonup> string) \<Rightarrow> string list \<Rightarrow> 'c \<Rightarrow> 'c" where
  "bn_cancel_calls api symb_of os c =
     fold (\<lambda>oid c. snd (ap_cancel api (the (symb_of oid)) (OrigClientId (take 36 oid)) c)) os c"

lemma bn_cancel_each:
  assumes "bn_client bn = Some c" "\<forall>oid \<in> set os. bn_order_symbol bn oid \<noteq> None"
  shows "bn_for_each (bn_cancel_order api) os bn =
    (Inr (), bn\<lparr>bn_client := Some (bn_cancel_calls api (bn_order_symbol bn) os c)\<rparr>)"
  using assms
proof (induction os arbitrary: bn c)
  case Nil
  then show ?case by (simp add: bn_cancel_calls_def)
next
  case (Cons oid os)
  then obtain symb where symb: "bn_order_symbol bn oid = Some symb" by auto
  let ?c = "snd (ap_cancel api symb (OrigClientId (take 36 oid)) c)"
  have "bn_cancel_order api oid bn = (Inr (), bn\<lparr>bn_client := Some ?c\<rparr>)"
    using Cons.prems(1) symb by (simp add: bn_cancel_order_def bn_call_Some)
  with Cons.IH [of "bn\<lparr>bn_client := Some ?c\<rparr>" ?c] Cons.prems(2) symb show ?case
    by (simp add: bn_cancel_calls_def)
qed

text \<open>
  Property C34. When the exchange reports an order of a group filled, the adapter queues the
  execution, asks the exchange to cancel every other order of the group once and in order, and
  empties the group, so the fill of a sibling cancels nothing any more.
\<close>

theorem bn_fill_cancels_siblings:
  assumes "bn_inv bn" "bn_client bn = Some c" "um_event m = Some ''ORDER_TRADE_UPDATE''" "um_exec m = ''TRADE''"
    and "um_status m = ''FILLED''" "dget (bn_filters bn) (um_symbol m) = Some filt"
    and "bn_order_group bn (bn_internal_id (um_client_id m) bn) = Some g" "bn_oca_groups bn g = Some os"
  shows "bn_handle_user_message api now m bn = (Inr (), bn
      \<lparr>bn_events := bn_events bn @ [ExecB (bn_trade_event m filt bn)],
       bn_client := Some (bn_cancel_calls api (bn_order_symbol bn)
          (filter (\<lambda>oid. oid \<noteq> bn_internal_id (um_client_id m) bn) os) c),
       bn_oca_groups := (bn_oca_groups bn)(g \<mapsto> [])\<rparr>)
    \<and> distinct os"
proof -
  let ?oid = "bn_internal_id (um_client_id m) bn"
  let ?bn = "bn_emit (ExecB (bn_trade_event m filt bn)) bn"
  have reg: "\<forall>oid \<in> set (filter (\<lambda>oid. oid \<noteq> ?oid) os). bn_order_symbol ?bn oid \<noteq> None" "distinct os"
    using assms(1,8) by (auto simp: bn_inv_def)
  have "bn_client ?bn = Some c" using assms(2) by simp
  note each = bn_cancel_each [OF this reg(1), of api]
  show ?thesis
    using assms reg(2) each
    by (simp add: bn_handle_user_message_def Let_def bn_handle_oca_fill_def) (simp add: bn_emit_def)
qed

definition sample_request :: "string \<Rightarrow> int \<Rightarrow> string option \<Rightarrow> broker_request" where
  "sample_request oid q g =
     \<lparr>rq_id = oid, rq_corr = ''corr'', rq_symbol = ''BTCUSDT'', rq_side = BUY, rq_qty = q, rq_type = MARKET,
      rq_limit = None, rq_tif = DAY, rq_oca = g, rq_oca_type = 1\<rparr>"

definition sample_user_fill :: "string \<Rightarrow> user_msg" where
  "sample_user_fill cid =
     \<lparr>um_event = Some ''ORDER_TRADE_UPDATE'', um_client_id = cid, um_symbol = ''BTCUSDT'', um_side = ''BUY'',
      um_exec = ''TRADE'', um_status = ''FILLED'', um_last_qty = 3 / 1000, um_cum_qty = 3 / 1000,
      um_orig_qty = 3 / 1000, um_last_price = 100, um_time_ms = 7, um_commission = None, um_maker = False,
      um_order_id = None\<rparr>"

definition sample_group_binance :: "(string \<times> cancel_ref) list binance" where
  "sample_group_binance = bn_register (sample_request ''b'' 3 (Some ''g''))
     (bn_register (sample_request ''a'' 3 (Some ''g'')) sample_binance)"

theorem bn_fill_cancels_siblings_witness:
  "bn_client (snd (bn_handle_user_message sample_api 0 (sample_user_fill ''a'') sample_group_binance))
    = Some [(''BTCUSDT'', OrigClientId ''b'')]"
proof -
  have inv: "bn_inv sample_group_binance"
    unfolding sample_group_binance_def
    by (intro bn_inv_register) (simp add: sample_binance_def bn_inv_def bn_init_def)
  note defs = sample_group_binance_def sample_request_def sample_binance_def bn_init_def
    bn_register_def Let_def sample_user_fill_def bn_internal_id_def
  have "bn_client sample_group_binance = Some []" "bn_internal_id ''a'' sample_group_binance = ''a''"
      "dget (bn_filters sample_group_binance) ''BTCUSDT'' = Some sample_filters"
      "bn_order_group sample_group_binance ''a'' = Some ''g''"
      "bn_oca_groups sample_group_binance ''g'' = Some [''a'', ''b'']"
      "bn_order_symbol sample_group_binance ''b'' = Some ''BTCUSDT''"
    by (simp_all add: defs)
  with bn_fill_cancels_siblings [OF inv, of "[]" "sample_user_fill ''a''" sample_filters "''g''"
      "[''a'', ''b'']" sample_api 0]
  show ?thesis by (simp add: sample_user_fill_def bn_cancel_calls_def sample_api_def)
qed

section \<open>The stop order sent\<close>

text \<open>
  Property C25. A native stop that is placed is one create-order call for a close-position stop on the
  opposite side at a positive price, and, when the symbol's price precision resolves its tick, closing
  the given lots at that price loses at most the allowed amount.
\<close>

theorem bn_stop_order_caps_loss:
  assumes "bn_client bn = Some c" "dget (bn_filters bn) symb = Some filt"
    and "0 < sf_tick filt" "sf_tick filt * 10 ^ sf_price_prec filt = of_int k"
    and "fst (bn_place_stop_loss api now symb is_long entry lots max_loss bn) = Inr (Some oid)"
  shows "\<exists>price. 0 < price
    \<and> snd (bn_place_stop_loss api now symb is_long entry lots max_loss bn) = bn\<lparr>bn_client :=
        Some (snd (ap_create_order api (bn_stop_params now symb is_long price (bn_recv_window bn)) c))\<rparr>
    \<and> op_side (bn_stop_params now symb is_long price (bn_recv_window bn)) = (if is_long then ''SELL'' else ''BUY'')
    \<and> (if is_long then entry - price else price - entry) * lots_to_quantity filt lots \<le> max_loss"
proof -
  let ?q = "lots_to_quantity filt lots"
  let ?price = "stop_loss_price filt is_long entry ?q max_loss"
  let ?p = "bn_stop_params now symb is_long ?price (bn_recv_window bn)"
  have pos: "0 < ?q" "0 < ?price"
    using assms(1,2,5) by (auto simp: bn_place_stop_loss_def Let_def split: if_splits)
  have st: "snd (bn_place_stop_loss api now symb is_long entry lots max_loss bn) =
      bn\<lparr>bn_client := Some (snd (ap_create_order api ?p c))\<rparr>"
    using assms(1,2,5) bn_call_Some [OF assms(1), of "ap_create_order api ?p"]
    by (auto simp: bn_place_stop_loss_def Let_def split: if_splits sum.splits option.splits)
  have "(if is_long then entry - ?price else ?price - entry) * ?q \<le> max_loss"
    using stop_loss_price_within_loss [OF assms(3,4) pos(1)] by blast
  with pos(2) st show ?thesis
    by (intro exI [of _ ?price]) (simp add: bn_stop_params_def)
qed

theorem bn_stop_order_caps_loss_witness:
  "\<exists>price > 0. (100 - price) * lots_to_quantity sample_filters 2000 \<le> 3"
proof -
  have q: "lots_to_quantity sample_filters 2000 = 2"
    by (simp add: lots_to_quantity_def sample_filters_simps py_round_exact [of 2 3 2000])
  have ceil: "\<lceil>(197 / 2 :: real) * 10\<rceil> = 985" by simp
  have price: "stop_loss_price sample_filters True 100 2 3 = 197 / 2"
    by (subst stop_loss_price_tick [of _ 10]) (simp_all add: sample_filters_simps stop_raw_price_def ceil)
  have "fst (bn_place_stop_loss sample_api 0 ''BTCUSDT'' True 100 2000 3 sample_binance) = Inr (Some ''77'')"
    by (simp add: bn_place_stop_loss_def sample_binance_def bn_init_def Let_def q price bn_call_def sample_api_def)
  from bn_stop_order_caps_loss [OF _ _ _ _ this, of "[]" sample_filters 10]
  show ?thesis by (force simp: sample_binance_def sample_filters_simps)
qed

section \<open>Positions\<close>

text \<open>
  The book reconciled from the exchange and the position details shown to the monitor
  always agree: the signed lots of the details, entered in order, are the reconciled positions.
\<close>

theorem bn_positions_agree_with_details:
  "bn_positions_of fs rows =
     fold (\<lambda>d. dset (pd_symbol d) (if pd_side d = BUY then pd_qty d else - pd_qty d)) (bn_details_of fs rows) []"
proof -
  have "fold (\<lambda>p d. case bn_row_lots fs p of None \<Rightarrow> d | Some n \<Rightarrow> dset (pr_symbol p) n d) rows d0 =
      fold (\<lambda>d. dset (pd_symbol d) (if pd_side d = BUY then pd_qty d else - pd_qty d)) (bn_details_of fs rows) d0" for d0
  proof (induction rows arbitrary: d0)
    case Nil
    then show ?case by (simp add: bn_details_of_def map_filter_simps)
  next
    case (Cons p rows)
    then show ?case
      by (cases "dget fs (pr_symbol p)"; cases "pr_amt p = 0")
        (auto simp: bn_details_of_def map_filter_simps bn_row_lots_def Let_def)
  qed
  then show ?thesis by (simp add: bn_positions_of_def)
qed

end
