(* ===== verification/Position_Monitor.thy ===== *)
theory Position_Monitor
  imports Binance_Broker
begin

text \<open>
  The position monitor (\<^verbatim>\<open>execution/position_monitor.py\<close>): it polls the exchange's positions, freezes
  a stop-loss amount per position when it first sees it, arms a native stop, tracks the peak return
  and closes through the order manager.  The step-size lookup and the close callback are the
  callables given to the constructor; the fresh order and correlation ids are a function of the symbol.  Sets of
  symbols are lists; the order in which vanished positions are disarmed is that of the table.
\<close>

section \<open>State\<close>

record monitor_cfg =
  mon_stop_loss_pct :: real
  mon_leverage :: real
  mon_arm :: real
  mon_base :: real
  mon_step :: real
  mon_increment :: real
  mon_cap :: real

record monitor =
  pm_positions :: "(string, int) dict"
  pm_closing :: "string list"
  pm_native :: "string \<rightharpoonup> string"
  pm_peak :: "string \<rightharpoonup> real"
  pm_stop :: "string \<rightharpoonup> real"

definition pm_init :: monitor where
  "pm_init = \<lparr>pm_positions = [], pm_closing = [], pm_native = Map.empty, pm_peak = Map.empty, pm_stop = Map.empty\<rparr>"

definition pm_open_symbols :: "monitor \<Rightarrow> string set" where
  "pm_open_symbols m = set (dkeys (pm_positions m))"

definition pm_open_count :: "monitor \<Rightarrow> nat" where
  "pm_open_count m = length (pm_positions m)"

text \<open>The monitor with the order manager and the broker it works on, and its callables.\<close>

record ('c, 'w) desk =
  dk_mon :: monitor
  dk_om :: order_manager
  dk_bn :: "'c binance"
  dk_world :: 'w      \<comment> \<open>what the close callback works on\<close>

record ('c, 'w) monitor_env =
  me_api :: "'c api"
  me_step_size :: "string \<Rightarrow> real result"
  me_on_close :: "string \<Rightarrow> fstr \<Rightarrow> 'w \<Rightarrow> unit result \<times> 'w"
  me_price :: "string \<Rightarrow> real option"

definition dk_broker :: "('c binance \<Rightarrow> 'a result \<times> 'c binance) \<Rightarrow> ('c, 'w) desk \<Rightarrow> 'a result \<times> ('c, 'w) desk" where
  "dk_broker f dk = (case f (dk_bn dk) of (r, bn) \<Rightarrow> (r, dk\<lparr>dk_bn := bn\<rparr>))"

definition dk_monitor :: "(monitor \<Rightarrow> monitor) \<Rightarrow> ('c, 'w) desk \<Rightarrow> ('c, 'w) desk" where
  "dk_monitor f dk = dk\<lparr>dk_mon := f (dk_mon dk)\<rparr>"

section \<open>When to close\<close>

text \<open>\<^verbatim>\<open>_trailing_stop_level\<close>: base plus one step per full increment of peak profit beyond the arming level.\<close>

definition pm_trailing_level :: "monitor_cfg \<Rightarrow> real \<Rightarrow> real result" where
  "pm_trailing_level cfg peak =
     and_then (fdiv (peak - mon_arm cfg) (mon_increment cfg))
       (\<lambda>x. Inr (mon_base cfg + of_int \<lfloor>x\<rfloor> * mon_step cfg))"

definition pm_margin :: "monitor_cfg \<Rightarrow> real \<Rightarrow> position_detail \<Rightarrow> real" where
  "pm_margin cfg step d =
     (if 0 < mon_leverage cfg then of_int (pd_qty d) * step * pd_entry d / mon_leverage cfg else 0)"

definition pm_roi :: "monitor_cfg \<Rightarrow> real \<Rightarrow> position_detail \<Rightarrow> real" where
  "pm_roi cfg step d = (if 0 < pm_margin cfg step d then pd_pnl d / pm_margin cfg step d * 100 else 0)"

text \<open>The chain of tests of \<^verbatim>\<open>_check_once\<close>: the reason to close now, if any.\<close>

definition pm_decide :: "monitor_cfg \<Rightarrow> real \<Rightarrow> real \<Rightarrow> real \<Rightarrow> real \<Rightarrow> fstr option result" where
  "pm_decide cfg stop pnl roi peak =
     (if pnl \<le> - stop
      then Inr (Some [Lit ''STOP-LOSS: '', FixP 2 pnl, Lit '' USDT <= -'', FixP 0 stop, Lit '' USDT''])
      else if mon_cap cfg \<le> roi
      then Inr (Some [Lit ''PROFIT-CAP: '', FixP 2 roi, Lit ''% ROI >= cap '', FixP 0 (mon_cap cfg), Lit ''%''])
      else if mon_arm cfg \<le> peak
      then and_then (pm_trailing_level cfg peak)
             (\<lambda>level. Inr (if roi \<le> level
                then Some [Lit ''TRAILING-PROFIT: '', FixP 2 roi, Lit ''% ROI <= trail '', FixP 2 level,
                           Lit ''% (peak '', FixP 2 peak, Lit ''%)'']
                else None))
      else Inr None)"

section \<open>Operations\<close>

definition pm_arm_native_stop ::
  "('c, 'w) monitor_env \<Rightarrow> datetime \<Rightarrow> position_detail \<Rightarrow> real \<Rightarrow> ('c, 'w) desk \<Rightarrow> unit result \<times> ('c, 'w) desk" where
  "pm_arm_native_stop env now d max_loss dk =
     on_ok (dk_broker (bn_place_stop_loss (me_api env) now (pd_symbol d) (pd_side d = BUY) (pd_entry d)
              (pd_qty d) max_loss) dk)
       (\<lambda>oid dk1. case oid of
           None \<Rightarrow> (Inr (), dk1)
         | Some i \<Rightarrow> (Inr (), dk_monitor (\<lambda>m. m\<lparr>pm_native := (pm_native m)(pd_symbol d \<mapsto> i)\<rparr>) dk1))"

definition pm_disarm_native_stop :: "('c, 'w) monitor_env \<Rightarrow> string \<Rightarrow> ('c, 'w) desk \<Rightarrow> unit result \<times> ('c, 'w) desk" where
  "pm_disarm_native_stop env symb dk =
     (let dk1 = dk_monitor (\<lambda>m. m\<lparr>pm_native := (pm_native m)(symb := None)\<rparr>) dk in
      case pm_native (dk_mon dk) symb of
        None \<Rightarrow> (Inr (), dk1)
      | Some oid \<Rightarrow> dk_broker (bn_cancel_stop_loss (me_api env) symb oid) dk1)"

definition pm_close_signal :: "datetime \<Rightarrow> string \<Rightarrow> int \<Rightarrow> string \<Rightarrow> signal_event" where
  "pm_close_signal now symb qty corr =
     \<lparr>sg_ts = now, sg_symbol = symb, sg_strategy = ''position-monitor'', sg_side = (if 0 < qty then SELL else BUY),
      sg_strength = 1, sg_qty = \<bar>qty\<bar>, sg_type = MARKET, sg_limit = None, sg_tif = DAY, sg_corr = corr,
      sg_oca = None, sg_meta = []\<rparr>"

definition pm_close_position ::
  "('c, 'w) monitor_env \<Rightarrow> datetime \<Rightarrow> string \<times> string \<Rightarrow> string \<Rightarrow> int \<Rightarrow> fstr \<Rightarrow> ('c, 'w) desk \<Rightarrow> unit result \<times> ('c, 'w) desk" where
  "pm_close_position env now ids symb qty reason dk =
     (let dk1 = dk_monitor (\<lambda>m. m\<lparr>pm_closing := List.insert symb (pm_closing m)\<rparr>) dk in
      case me_on_close env symb reason (dk_world dk1) of
        (Inl e, w) \<Rightarrow> (Inl e, dk1\<lparr>dk_world := w\<rparr>)
      | (Inr _, w) \<Rightarrow>
          (case om_submit (bn_venue (me_api env) now) (fst ids) now (pm_close_signal now symb qty (snd ids))
                  (me_price env symb) (dk_om dk1, dk_bn dk1) of
             (r, om, bn) \<Rightarrow>
               (case r of Inl e \<Rightarrow> Inl e | Inr _ \<Rightarrow> Inr (), dk1\<lparr>dk_world := w, dk_om := om, dk_bn := bn\<rparr>)))"

text \<open>First sight of a position: freeze the stop-loss amount, then arm the native stop.\<close>

definition pm_first_seen ::
  "monitor_cfg \<Rightarrow> ('c, 'w) monitor_env \<Rightarrow> datetime \<Rightarrow> position_detail \<Rightarrow> ('c, 'w) desk \<Rightarrow> unit result \<times> ('c, 'w) desk" where
  "pm_first_seen cfg env now d dk =
     on_ok (dk_broker (bn_get_account_equity (me_api env)) dk)
       (\<lambda>equity dk1.
          let max_loss = equity * mon_stop_loss_pct cfg / 100 in
          pm_arm_native_stop env now d max_loss
            (dk_monitor (\<lambda>m. m\<lparr>pm_stop := (pm_stop m)(pd_symbol d \<mapsto> max_loss)\<rparr>) dk1))"

definition pm_check_one ::
  "monitor_cfg \<Rightarrow> ('c, 'w) monitor_env \<Rightarrow> datetime \<Rightarrow> (string \<Rightarrow> string \<times> string) \<Rightarrow> string list
   \<Rightarrow> position_detail \<Rightarrow> ('c, 'w) desk \<Rightarrow> unit result \<times> ('c, 'w) desk" where
  "pm_check_one cfg env now oids previous d dk =
     (let symb = pd_symbol d in
      if symb \<in> set (pm_closing (dk_mon dk)) then (Inr (), dk)
      else on_ok (if symb \<notin> set previous then pm_first_seen cfg env now d dk else (Inr (), dk))
        (\<lambda>_ dk1.
          let stop = (case pm_stop (dk_mon dk1) symb of None \<Rightarrow> 0 | Some x \<Rightarrow> x) in
          (case me_step_size env symb of
             Inl e \<Rightarrow> (Inl e, dk1)
           | Inr step \<Rightarrow>
               (let roi = pm_roi cfg step d;
                    peak = max (case pm_peak (dk_mon dk1) symb of None \<Rightarrow> roi | Some p \<Rightarrow> p) roi;
                    dk2 = dk_monitor (\<lambda>m. m\<lparr>pm_peak := (pm_peak m)(symb \<mapsto> peak)\<rparr>) dk1
                in case pm_decide cfg stop (pd_pnl d) roi peak of
                     Inl e \<Rightarrow> (Inl e, dk2)
                   | Inr None \<Rightarrow> (Inr (), dk2)
                   | Inr (Some reason) \<Rightarrow>
                       (case dget (pm_positions (dk_mon dk2)) symb of
                          None \<Rightarrow> (Inl (KeyError symb), dk2)
                        | Some qty \<Rightarrow> pm_close_position env now (oids symb) symb qty reason dk2)))))"

definition pm_forget :: "('c, 'w) monitor_env \<Rightarrow> string \<Rightarrow> ('c, 'w) desk \<Rightarrow> unit result \<times> ('c, 'w) desk" where
  "pm_forget env symb dk =
     on_ok (pm_disarm_native_stop env symb dk)
       (\<lambda>_ dk1. (Inr (), dk_monitor (\<lambda>m. m\<lparr>pm_peak := (pm_peak m)(symb := None),
                                           pm_stop := (pm_stop m)(symb := None)\<rparr>) dk1))"

definition pm_snapshot :: "position_detail list \<Rightarrow> (string, int) dict" where
  "pm_snapshot ds = fold (\<lambda>d. dset (pd_symbol d) (if pd_side d = BUY then pd_qty d else - pd_qty d)) ds []"

text \<open>\<^verbatim>\<open>_check_once\<close>; an exception ends the round, and the loop logs it and goes on polling.\<close>

definition pm_check_once ::
  "monitor_cfg \<Rightarrow> ('c, 'w) monitor_env \<Rightarrow> datetime \<Rightarrow> (string \<Rightarrow> string \<times> string) \<Rightarrow> ('c, 'w) desk \<Rightarrow> unit result \<times> ('c, 'w) desk" where
  "pm_check_once cfg env now oids dk =
     on_ok (dk_broker (bn_get_position_details (me_api env)) dk)
       (\<lambda>ds dk1.
          let current = map pd_symbol ds;
              previous = dkeys (pm_positions (dk_mon dk1));
              dk2 = dk_monitor (\<lambda>m. m\<lparr>pm_closing := filter (\<lambda>s. s \<in> set current) (pm_closing m),
                                      pm_positions := pm_snapshot ds\<rparr>) dk1
          in on_ok (bn_for_each (pm_check_one cfg env now oids previous) ds dk2)
               (\<lambda>_. bn_for_each (pm_forget env) (filter (\<lambda>s. s \<notin> set current) previous)))"

definition pm_loop_step ::
  "monitor_cfg \<Rightarrow> ('c, 'w) monitor_env \<Rightarrow> datetime \<times> (string \<Rightarrow> string \<times> string) \<Rightarrow> ('c, 'w) desk \<Rightarrow> unit result \<times> ('c, 'w) desk" where
  "pm_loop_step cfg env tick dk = pm_check_once cfg env (fst tick) (snd tick) dk"

section \<open>The trailing level\<close>

text \<open>
  With a positive increment and a step no larger than it, the trailing level never
  falls as the peak rises, starts at the base level when the peak reaches the arming level, and
  never comes closer to the peak than the arming level is to the base.
\<close>

theorem pm_trailing_level_ratchets:
  assumes "0 < mon_increment cfg" "0 \<le> mon_step cfg" "mon_step cfg \<le> mon_increment cfg"
    and "mon_arm cfg \<le> p" "p \<le> q"
  shows "\<exists>x y. pm_trailing_level cfg p = Inr x \<and> pm_trailing_level cfg q = Inr y
    \<and> mon_base cfg \<le> x \<and> x \<le> y \<and> y \<le> q - (mon_arm cfg - mon_base cfg)
    \<and> pm_trailing_level cfg (mon_arm cfg) = Inr (mon_base cfg)"
proof -
  let ?n = "\<lambda>p. \<lfloor>(p - mon_arm cfg) / mon_increment cfg\<rfloor>"
  have level: "pm_trailing_level cfg p = Inr (mon_base cfg + of_int (?n p) * mon_step cfg)" for p
    using assms(1) by (simp add: pm_trailing_level_def)
  have n: "0 \<le> ?n p" "?n p \<le> ?n q"
    using assms(1,4,5) by (auto intro!: floor_mono divide_right_mono)
  have nq: "0 \<le> ?n q" using n by (rule order_trans)
  have up: "mon_base cfg \<le> mon_base cfg + of_int (?n p) * mon_step cfg"
    using n(1) assms(2) by simp
  have mono: "of_int (?n p) * mon_step cfg \<le> of_int (?n q) * mon_step cfg"
    using n(2) assms(2) by (intro mult_right_mono) simp_all
  have "of_int (?n q) * mon_step cfg \<le> of_int (?n q) * mon_increment cfg"
    using nq assms(3) by (intro mult_left_mono) simp_all
  also have "\<dots> \<le> q - mon_arm cfg" by (rule floor_divide_mult_le [OF assms(1)])
  finally show ?thesis using up mono by (simp add: level)
qed

definition sample_cfg :: monitor_cfg where
  "sample_cfg = \<lparr>mon_stop_loss_pct = 5, mon_leverage = 10, mon_arm = 50, mon_base = 30, mon_step = 10,
     mon_increment = 20, mon_cap = 300\<rparr>"

theorem pm_trailing_level_ratchets_witness:
  "\<exists>y. pm_trailing_level sample_cfg 95 = Inr y \<and> 30 \<le> y \<and> y \<le> 95 - 20"
  using pm_trailing_level_ratchets [of sample_cfg 60 95] by (auto simp: sample_cfg_def)

section \<open>One position over many polls\<close>

text \<open>
  What the monitor is to do with the successive readings (profit, return) of one position, given its
  frozen stop-loss amount: close at the first reading that hits the stop, the cap, or, once the
  running peak has reached the arming level, the trailing level of that peak.
\<close>

definition pm_exit_now :: "monitor_cfg \<Rightarrow> real \<Rightarrow> real list \<Rightarrow> real \<times> real \<Rightarrow> bool" where
  "pm_exit_now cfg stop earlier reading = (case reading of (pnl, roi) \<Rightarrow>
     (let peak = fold max earlier roi in
      pnl \<le> - stop \<or> mon_cap cfg \<le> roi
      \<or> (mon_arm cfg \<le> peak
         \<and> roi \<le> mon_base cfg + of_int \<lfloor>(peak - mon_arm cfg) / mon_increment cfg\<rfloor> * mon_step cfg)))"

fun pm_exit_at :: "monitor_cfg \<Rightarrow> real \<Rightarrow> real list \<Rightarrow> (real \<times> real) list \<Rightarrow> nat option" where
  "pm_exit_at cfg stop earlier [] = None"
| "pm_exit_at cfg stop earlier (r # rs) =
     (if pm_exit_now cfg stop earlier r then Some 0
      else map_option Suc (pm_exit_at cfg stop (earlier @ [snd r]) rs))"

lemma pm_decide_exit:
  assumes "mon_increment cfg \<noteq> 0" "peak = fold max earlier roi"
  shows "\<exists>why. pm_decide cfg stop pnl roi peak = Inr why
    \<and> (why \<noteq> None \<longleftrightarrow> pm_exit_now cfg stop earlier (pnl, roi))"
  using assms by (auto simp: pm_decide_def pm_exit_now_def pm_trailing_level_def Let_def)

lemma dk_monitor_simps [simp]:
  "dk_mon (dk_monitor f dk) = f (dk_mon dk)" "dk_om (dk_monitor f dk) = dk_om dk" "dk_bn (dk_monitor f dk) = dk_bn dk"
  by (simp_all add: dk_monitor_def)

lemma dk_broker_mon [simp]:
  "dk_mon (snd (dk_broker f dk)) = dk_mon dk" "dk_om (snd (dk_broker f dk)) = dk_om dk"
  by (simp_all add: dk_broker_def split: prod.split)

lemma pm_close_closing [simp]:
  "pm_closing (dk_mon (snd (pm_close_position env now ids symb qty reason dk)))
    = List.insert symb (pm_closing (dk_mon dk))"
  by (simp add: pm_close_position_def Let_def split: sum.split prod.split)

lemma pm_check_closing:
  "pd_symbol d \<in> set (pm_closing (dk_mon dk)) \<Longrightarrow> pm_check_one cfg env now oids previous d dk = (Inr (), dk)"
  by (simp add: pm_check_one_def Let_def)

text \<open>The peak remembered after some readings.\<close>

definition pm_peak_of :: "real list \<Rightarrow> real option" where
  "pm_peak_of earlier = (case earlier of [] \<Rightarrow> None | x # xs \<Rightarrow> Some (fold max xs x))"

lemma fold_max_swap: "fold max xs (max x y) = max (fold max xs x) (y :: 'a :: linorder)"
proof -
  have "fold max xs (max x y) = Max (set (y # x # xs))"
    by (simp only: Max.set_eq_fold) simp
  also have "\<dots> = max y (Max (set (x # xs)))" by simp
  finally show ?thesis by (simp only: Max.set_eq_fold max.commute)
qed

lemma pm_peak_of_max:
  "(case pm_peak_of earlier of None \<Rightarrow> roi | Some p \<Rightarrow> max p roi) = fold max earlier roi"
  by (cases earlier) (simp_all add: pm_peak_of_def fold_max_swap)

lemma pm_peak_of_snoc: "pm_peak_of (earlier @ [roi]) = Some (fold max earlier roi)"
  by (cases earlier) (simp_all add: pm_peak_of_def fold_max_swap max.commute)

text \<open>A poll of a known position that is not being closed.\<close>

lemma pm_check_known:
  assumes "pd_symbol d = symb" "symb \<notin> set (pm_closing (dk_mon dk))" "symb \<in> set previous"
    and "pm_stop (dk_mon dk) symb = Some stop" "pm_peak (dk_mon dk) symb = pm_peak_of earlier"
    and "me_step_size env symb = Inr step" "dget (pm_positions (dk_mon dk)) symb = Some qty"
    and "mon_increment cfg \<noteq> 0"
  defines "roi \<equiv> pm_roi cfg step d"
  defines "dk2 \<equiv> dk_monitor (\<lambda>m. m\<lparr>pm_peak := (pm_peak m)(symb \<mapsto> fold max earlier roi)\<rparr>) dk"
  shows "(pm_exit_now cfg stop earlier (pd_pnl d, roi) \<longrightarrow>
      (\<exists>reason. pm_check_one cfg env now oids previous d dk = pm_close_position env now (oids symb) symb qty reason dk2))
    \<and> (\<not> pm_exit_now cfg stop earlier (pd_pnl d, roi) \<longrightarrow>
      pm_check_one cfg env now oids previous d dk = (Inr (), dk2))"
proof -
  let ?peak = "fold max earlier roi"
  have peak: "max (case pm_peak (dk_mon dk) symb of None \<Rightarrow> roi | Some p \<Rightarrow> p) roi = ?peak"
    using pm_peak_of_max [of roi earlier] by (simp add: assms(5) split: option.splits)
  obtain why where why: "pm_decide cfg stop (pd_pnl d) roi ?peak = Inr why"
      "why \<noteq> None \<longleftrightarrow> pm_exit_now cfg stop earlier (pd_pnl d, roi)"
    using pm_decide_exit [OF assms(8) refl, of stop "pd_pnl d" roi earlier] by blast
  have "pm_check_one cfg env now oids previous d dk =
     (case why of None \<Rightarrow> (Inr (), dk2)
        | Some reason \<Rightarrow> pm_close_position env now (oids symb) symb qty reason dk2)"
    using assms(1-4,6,7) peak why(1)
    by (simp add: pm_check_one_def roi_def [symmetric] dk2_def Let_def split: option.split)
  with why(2) show ?thesis by (cases why) auto
qed

text \<open>
  A poll of the loop.  Between two polls the other tasks run, and may change everything but the
  monitor's own tables: so each poll is given the order table, the broker and the callback's
  surroundings it finds, and only the monitor is carried from poll to poll.
\<close>

record ('c, 'w) poll =
  po_tick :: "datetime \<times> (string \<Rightarrow> string \<times> string)"
  po_om :: order_manager
  po_bn :: "'c binance"
  po_world :: 'w

definition pm_poll :: "monitor_cfg \<Rightarrow> ('c, 'w) monitor_env \<Rightarrow> ('c, 'w) poll \<Rightarrow> monitor \<Rightarrow> ('c, 'w) desk" where
  "pm_poll cfg env p m = snd (pm_loop_step cfg env (po_tick p)
     \<lparr>dk_mon = m, dk_om = po_om p, dk_bn = po_bn p, dk_world = po_world p\<rparr>)"

fun pm_polls :: "monitor_cfg \<Rightarrow> ('c, 'w) monitor_env \<Rightarrow> ('c, 'w) poll list \<Rightarrow> monitor \<Rightarrow> ('c, 'w) desk list" where
  "pm_polls cfg env [] m = []"
| "pm_polls cfg env (p # ps) m = pm_poll cfg env p m # pm_polls cfg env ps (dk_mon (pm_poll cfg env p m))"

lemma length_pm_polls [simp]: "length (pm_polls cfg env ps m) = length ps"
  by (induction ps arbitrary: m) simp_all

text \<open>The exchange answers a poll with one position, of at least a lot.\<close>

definition pm_sees :: "('c, 'w) monitor_env \<Rightarrow> string \<Rightarrow> ('c, 'w) poll \<Rightarrow> position_detail \<Rightarrow> bool" where
  "pm_sees env symb p d \<longleftrightarrow>
     fst (bn_get_position_details (me_api env) (po_bn p)) = Inr [d] \<and> pd_symbol d = symb \<and> 0 < pd_qty d"

text \<open>The order a close leaves in the table: the whole position, at market, on the other side.\<close>

definition pm_close_order :: "('c, 'w) monitor_env \<Rightarrow> ('c, 'w) poll \<Rightarrow> position_detail \<Rightarrow> managed_order" where
  "pm_close_order env p d =
     (let symb = pd_symbol d; now = fst (po_tick p); ids = snd (po_tick p) symb in
      \<lparr>mo_id = fst ids, mo_corr = snd ids, mo_symbol = symb, mo_side = (if pd_side d = BUY then SELL else BUY),
       mo_qty = pd_qty d, mo_type = MARKET, mo_limit = None, mo_tif = DAY, mo_expected = me_price env symb,
       mo_oca = None, mo_status = SUBMITTED, mo_filled = 0, mo_remaining = pd_qty d, mo_avg = 0,
       mo_reject = [], mo_created = now, mo_updated = now\<rparr>)"

definition pm_closed_book :: "('c, 'w) monitor_env \<Rightarrow> ('c, 'w) poll \<Rightarrow> position_detail \<Rightarrow> order_manager" where
  "pm_closed_book env p d =
     (po_om p)\<lparr>om_orders := dset (mo_id (pm_close_order env p d)) (pm_close_order env p d) (om_orders (po_om p))\<rparr>"

lemma om_submit_book:
  "fst (snd (om_submit vn oid now sg expected (om, v))) =
     om\<lparr>om_orders := dset oid ((om_new_order oid now sg expected)\<lparr>mo_status := SUBMITTED\<rparr>) (om_orders om)\<rparr>"
  by (simp add: om_submit_def Let_def split: prod.split sum.split)

lemma pm_close_book:
  assumes "\<And>reason. fst (me_on_close env symb reason (dk_world dk)) = Inr ()" "pd_symbol d = symb" "0 < pd_qty d"
    and "qty = (if pd_side d = BUY then pd_qty d else - pd_qty d)" "dk_om dk = po_om p"
  shows "dk_om (snd (pm_close_position env (fst (po_tick p)) (snd (po_tick p) symb) symb qty reason dk))
    = pm_closed_book env p d"
proof -
  obtain w where w: "me_on_close env symb reason (dk_world dk) = (Inr (), w)"
    using assms(1) by (metis prod.collapse)
  have world: "dk_world (dk_monitor f dk) = dk_world dk" for f by (simp add: dk_monitor_def)
  show ?thesis
    using om_submit_book [of "bn_venue (me_api env) (fst (po_tick p))" "fst (snd (po_tick p) symb)" "fst (po_tick p)"
        "pm_close_signal (fst (po_tick p)) symb qty (snd (snd (po_tick p) symb))" "me_price env symb"
        "po_om p" "dk_bn dk"] assms(2-5)
    by (auto simp: pm_close_position_def Let_def w world pm_closed_book_def pm_close_order_def om_new_order_def
        pm_close_signal_def split: prod.splits sum.splits)
qed

lemma dk_broker_call:
  "bn_client (dk_bn dk) = Some c \<Longrightarrow> ap_positions api c = (Inr rows, c1) \<Longrightarrow>
   dk_broker (bn_get_position_details api) dk =
     (Inr (bn_details_of (bn_filters (dk_bn dk)) rows), dk\<lparr>dk_bn := (dk_bn dk)\<lparr>bn_client := Some c1\<rparr>\<rparr>)"
  by (simp add: dk_broker_def bn_get_position_details_def bn_call_def)

text \<open>A round over one reported position, none of the known ones having vanished.\<close>

lemma on_ok_done [simp]: "snd (on_ok r (\<lambda>_ s. (Inr (), s))) = snd r"
  by (cases r rule: prod.exhaust; cases "fst r") auto

lemma pm_check_once_single:
  assumes "bn_client (dk_bn dk) = Some c" "ap_positions (me_api env) c = (Inr [r], c1)"
    and "bn_details_of (bn_filters (dk_bn dk)) [r] = [d]" "set (dkeys (pm_positions (dk_mon dk))) \<subseteq> {pd_symbol d}"
  shows "snd (pm_check_once cfg env now oids dk) =
    snd (pm_check_one cfg env now oids (dkeys (pm_positions (dk_mon dk))) d
      (dk_monitor (\<lambda>m. m\<lparr>pm_closing := filter (\<lambda>s. s = pd_symbol d) (pm_closing m), pm_positions := pm_snapshot [d]\<rparr>)
        (dk\<lparr>dk_bn := (dk_bn dk)\<lparr>bn_client := Some c1\<rparr>\<rparr>)))"
proof -
  have none: "filter (\<lambda>s. s \<noteq> pd_symbol d) (dkeys (pm_positions (dk_mon dk))) = []"
    using assms(4) by (auto simp: filter_empty_conv)
  have each: "bn_for_each f [] = (\<lambda>s. (Inr (), s))" for f :: "'x \<Rightarrow> 's \<Rightarrow> unit result \<times> 's"
    by (rule ext) simp
  show ?thesis
    by (simp add: pm_check_once_def dk_broker_call [OF assms(1,2)] assms(3) none each Let_def)
qed

section \<open>One position from its first poll to its close\<close>

lemma pm_poll_single:
  assumes "pm_sees env symb p d" "set (dkeys (pm_positions m)) \<subseteq> {symb}"
  shows "pm_poll cfg env p m = snd (pm_check_one cfg env (fst (po_tick p)) (snd (po_tick p)) (dkeys (pm_positions m)) d
     \<lparr>dk_mon = m\<lparr>pm_closing := filter (\<lambda>s. s = symb) (pm_closing m), pm_positions := pm_snapshot [d]\<rparr>,
      dk_om = po_om p, dk_bn = snd (bn_get_position_details (me_api env) (po_bn p)), dk_world = po_world p\<rparr>)"
proof -
  let ?dk = "\<lparr>dk_mon = m, dk_om = po_om p, dk_bn = po_bn p, dk_world = po_world p\<rparr>"
  have d: "pd_symbol d = symb" "fst (bn_get_position_details (me_api env) (po_bn p)) = Inr [d]"
    using assms(1) by (simp_all add: pm_sees_def)
  then have call: "dk_broker (bn_get_position_details (me_api env)) ?dk =
      (Inr [d], ?dk\<lparr>dk_bn := snd (bn_get_position_details (me_api env) (po_bn p))\<rparr>)"
    by (cases "bn_get_position_details (me_api env) (po_bn p)") (simp add: dk_broker_def)
  have none: "filter (\<lambda>s. s \<noteq> symb) (dkeys (pm_positions m)) = []"
    using assms(2) by (auto simp: filter_empty_conv)
  have each: "bn_for_each f [] = (\<lambda>s. (Inr (), s))" for f :: "'x \<Rightarrow> 's \<Rightarrow> unit result \<times> 's"
    by (rule ext) simp
  show ?thesis
    by (simp add: pm_poll_def pm_loop_step_def pm_check_once_def call d none each Let_def dk_monitor_def)
qed

definition pm_watching :: "string \<Rightarrow> real \<Rightarrow> real list \<Rightarrow> monitor \<Rightarrow> bool" where
  "pm_watching symb stop earlier m \<longleftrightarrow> dkeys (pm_positions m) = [symb] \<and> symb \<notin> set (pm_closing m)
     \<and> pm_stop m symb = Some stop \<and> pm_peak m symb = pm_peak_of earlier"

definition pm_done :: "string \<Rightarrow> monitor \<Rightarrow> bool" where
  "pm_done symb m \<longleftrightarrow> dkeys (pm_positions m) = [symb] \<and> symb \<in> set (pm_closing m)"

lemma pm_snapshot_one: "pm_snapshot [d] = [(pd_symbol d, if pd_side d = BUY then pd_qty d else - pd_qty d)]"
  by (simp add: pm_snapshot_def)

lemma pm_close_mon:
  "pm_positions (dk_mon (snd (pm_close_position env now ids symb qty reason dk))) = pm_positions (dk_mon dk)"
  by (simp add: pm_close_position_def Let_def split: sum.split prod.split)

text \<open>What one look at a known position, not yet being closed, does to the order table and the monitor.\<close>

lemma pm_look:
  assumes "pm_watching symb stop earlier (dk_mon dk)" "pd_symbol d = symb" "0 < pd_qty d"
    and "pm_positions (dk_mon dk) = pm_snapshot [d]" "dk_om dk = po_om p" "dk_world dk = po_world p"
    and "\<And>reason. fst (me_on_close env symb reason (po_world p)) = Inr ()"
    and "me_step_size env symb = Inr step" "mon_increment cfg \<noteq> 0"
  defines "dk' \<equiv> snd (pm_check_one cfg env (fst (po_tick p)) (snd (po_tick p)) [symb] d dk)"
  shows "if pm_exit_now cfg stop earlier (pd_pnl d, pm_roi cfg step d)
    then dk_om dk' = pm_closed_book env p d \<and> pm_done symb (dk_mon dk')
    else dk_om dk' = po_om p \<and> pm_watching symb stop (earlier @ [pm_roi cfg step d]) (dk_mon dk')"
proof -
  let ?qty = "if pd_side d = BUY then pd_qty d else - pd_qty d"
  let ?dk2 = "dk_monitor (\<lambda>m. m\<lparr>pm_peak := (pm_peak m)(symb \<mapsto> fold max earlier (pm_roi cfg step d))\<rparr>) dk"
  have w: "symb \<notin> set (pm_closing (dk_mon dk))" "pm_stop (dk_mon dk) symb = Some stop"
      "pm_peak (dk_mon dk) symb = pm_peak_of earlier" "dkeys (pm_positions (dk_mon dk)) = [symb]"
    using assms(1) by (simp_all add: pm_watching_def)
  have qty: "dget (pm_positions (dk_mon dk)) symb = Some ?qty" using assms(2,4) by (simp add: pm_snapshot_one)
  note known = pm_check_known [OF assms(2) w(1) _ w(2,3) assms(8) qty assms(9), of "[symb]" "fst (po_tick p)" "snd (po_tick p)"]
  show ?thesis
  proof (cases "pm_exit_now cfg stop earlier (pd_pnl d, pm_roi cfg step d)")
    case True
    with known obtain reason where r: "dk' = snd (pm_close_position env (fst (po_tick p)) (snd (po_tick p) symb) symb ?qty reason ?dk2)"
      unfolding dk'_def by auto
    have "dk_om dk' = pm_closed_book env p d"
      unfolding r using assms(2,3,5-7) by (intro pm_close_book) (simp_all add: dk_monitor_def)
    moreover have "pm_done symb (dk_mon dk')" using w(4) by (simp add: r pm_done_def pm_close_mon)
    ultimately show ?thesis using True by simp
  next
    case False
    with known have "dk' = ?dk2" unfolding dk'_def by simp
    with False w assms(5) show ?thesis by (simp add: pm_watching_def pm_peak_of_snoc)
  qed
qed

lemma pm_poll_watching:
  assumes "pm_sees env symb p d" "pm_watching symb stop earlier m"
    and "\<And>reason. fst (me_on_close env symb reason (po_world p)) = Inr ()"
    and "me_step_size env symb = Inr step" "mon_increment cfg \<noteq> 0"
  shows "if pm_exit_now cfg stop earlier (pd_pnl d, pm_roi cfg step d)
    then dk_om (pm_poll cfg env p m) = pm_closed_book env p d \<and> pm_done symb (dk_mon (pm_poll cfg env p m))
    else dk_om (pm_poll cfg env p m) = po_om p
      \<and> pm_watching symb stop (earlier @ [pm_roi cfg step d]) (dk_mon (pm_poll cfg env p m))"
proof -
  have d: "pd_symbol d = symb" "0 < pd_qty d" and keys: "dkeys (pm_positions m) = [symb]"
    using assms(1,2) by (simp_all add: pm_sees_def pm_watching_def)
  have "set (dkeys (pm_positions m)) \<subseteq> {symb}" using keys by simp
  from pm_poll_single [OF assms(1) this, of cfg]
  show ?thesis
    unfolding keys
    by (simp only:) (rule pm_look [OF _ d _ _ _ assms(3-5)], use assms(2) d in
      \<open>simp_all add: pm_watching_def pm_snapshot_one dkeys_def\<close>)
qed

lemma pm_poll_done:
  assumes "pm_sees env symb p d" "pm_done symb m"
  shows "dk_om (pm_poll cfg env p m) = po_om p \<and> pm_done symb (dk_mon (pm_poll cfg env p m))"
proof -
  have d: "pd_symbol d = symb" and keys: "set (dkeys (pm_positions m)) \<subseteq> {symb}" and c: "symb \<in> set (pm_closing m)"
    using assms by (simp_all add: pm_sees_def pm_done_def)
  show ?thesis
    unfolding pm_poll_single [OF assms(1) keys]
    using d c by (simp add: pm_check_closing pm_done_def pm_snapshot_one dkeys_def)
qed

lemma pm_polls_done:
  assumes "list_all2 (pm_sees env symb) ps ds" "pm_done symb m" "k < length ps"
  shows "dk_om (pm_polls cfg env ps m ! k) = po_om (ps ! k)"
  using assms
proof (induction ps ds arbitrary: m k rule: list_all2_induct)
  case Nil
  then show ?case by simp
next
  case (Cons p ps d ds)
  from pm_poll_done [OF Cons.hyps(1) Cons.prems(1), of cfg] Cons.IH Cons.prems(2)
  show ?case by (cases k) simp_all
qed

lemma pm_polls_watching:
  assumes "list_all2 (pm_sees env symb) ps ds" "pm_watching symb stop earlier m" "k < length ps"
    and "\<forall>p \<in> set ps. \<forall>reason. fst (me_on_close env symb reason (po_world p)) = Inr ()"
    and "me_step_size env symb = Inr step" "mon_increment cfg \<noteq> 0"
  shows "dk_om (pm_polls cfg env ps m ! k) =
    (if pm_exit_at cfg stop earlier (map (\<lambda>d. (pd_pnl d, pm_roi cfg step d)) ds) = Some k
     then pm_closed_book env (ps ! k) (ds ! k) else po_om (ps ! k))"
  using assms(1-4)
proof (induction ps ds arbitrary: m earlier k rule: list_all2_induct)
  case Nil
  then show ?case by simp
next
  case (Cons p ps d ds)
  have call: "fst (me_on_close env symb reason (po_world p)) = Inr ()" for reason using Cons.prems(3) by simp
  note poll = pm_poll_watching [OF Cons.hyps(1) Cons.prems(1) call assms(5,6)]
  show ?case
  proof (cases "pm_exit_now cfg stop earlier (pd_pnl d, pm_roi cfg step d)")
    case True
    with poll pm_polls_done [OF Cons.hyps(2)] Cons.prems(2) show ?thesis by (cases k) auto
  next
    case False
    with poll have "pm_watching symb stop (earlier @ [pm_roi cfg step d]) (dk_mon (pm_poll cfg env p m))"
        "dk_om (pm_poll cfg env p m) = po_om p"
      by simp_all
    with Cons.IH [OF this(1)] Cons.prems(2,3) False show ?thesis
      by (cases k) (auto simp: map_option_case split: option.splits)
  qed
qed

text \<open>The first poll: the stop-loss amount is frozen, a native stop is armed or not, and the look follows.\<close>

lemma bn_place_stop_loss_ok:
  fixes bn :: "'c binance"
  assumes "bn_client bn \<noteq> None"
  shows "\<exists>oid. fst (bn_place_stop_loss api now symb is_long entry lots max_loss bn) = Inr oid"
proof -
  have call: "\<exists>oid. fst (case r of (Inl _, bn1) \<Rightarrow> (Inr None, bn1)
      | (Inr None, bn1) \<Rightarrow> (Inr (Some x), bn1) | (Inr (Some oid), bn1) \<Rightarrow> (Inr (Some oid), bn1)) = Inr oid"
    for r :: "string option result \<times> 'c binance" and x
    by (cases r rule: prod.exhaust; cases "fst r") (auto split: option.split)
  show ?thesis
    using assms
    by (cases "dget (bn_filters bn) symb") (auto simp: bn_place_stop_loss_def Let_def intro: call)
qed

lemma pm_first_seen_ok:
  assumes "fst (bn_get_account_equity (me_api env) (dk_bn dk)) = Inr equity"
  obtains native bn where "pm_first_seen cfg env now d dk = (Inr (),
    dk\<lparr>dk_mon := (dk_mon dk)\<lparr>pm_stop := (pm_stop (dk_mon dk))(pd_symbol d \<mapsto> equity * mon_stop_loss_pct cfg / 100),
        pm_native := native\<rparr>, dk_bn := bn\<rparr>)"
proof -
  let ?stop = "equity * mon_stop_loss_pct cfg / 100"
  obtain bn0 where eq: "bn_get_account_equity (me_api env) (dk_bn dk) = (Inr equity, bn0)"
    using assms by (metis prod.collapse)
  let ?place = "bn_place_stop_loss (me_api env) now (pd_symbol d) (pd_side d = BUY) (pd_entry d) (pd_qty d) ?stop bn0"
  have "bn_client bn0 \<noteq> None"
    using eq by (cases "fst (ap_account (me_api env) (the (bn_client (dk_bn dk))))")
      (auto simp: bn_get_account_equity_def bn_call_def split: option.splits prod.splits)
  then obtain oid where oid: "fst ?place = Inr oid"
    by (rule bn_place_stop_loss_ok [THEN exE])
  obtain bn where place: "?place = (Inr oid, bn)" using oid by (metis prod.collapse)
  show thesis
  proof (cases oid)
    case None
    show thesis
      by (rule that [of bn "pm_native (dk_mon dk)"])
        (simp add: pm_first_seen_def pm_arm_native_stop_def dk_broker_def eq place None dk_monitor_def)
  next
    case (Some i)
    show thesis
      by (rule that [of bn "(pm_native (dk_mon dk))(pd_symbol d \<mapsto> i)"])
        (simp add: pm_first_seen_def pm_arm_native_stop_def dk_broker_def eq place Some dk_monitor_def)
  qed
qed

lemma pm_poll_first:
  assumes "pm_sees env symb p d" "pm_positions m = []" "symb \<notin> set (pm_closing m)" "pm_peak m symb = None"
    and "fst (bn_get_account_equity (me_api env) (snd (bn_get_position_details (me_api env) (po_bn p)))) = Inr equity"
    and "\<And>reason. fst (me_on_close env symb reason (po_world p)) = Inr ()"
    and "me_step_size env symb = Inr step" "mon_increment cfg \<noteq> 0"
  defines "stop \<equiv> equity * mon_stop_loss_pct cfg / 100"
  shows "if pm_exit_now cfg stop [] (pd_pnl d, pm_roi cfg step d)
    then dk_om (pm_poll cfg env p m) = pm_closed_book env p d \<and> pm_done symb (dk_mon (pm_poll cfg env p m))
    else dk_om (pm_poll cfg env p m) = po_om p
      \<and> pm_watching symb stop ([] @ [pm_roi cfg step d]) (dk_mon (pm_poll cfg env p m))"
proof -
  have d: "pd_symbol d = symb" "0 < pd_qty d" using assms(1) by (simp_all add: pm_sees_def)
  have keys: "dkeys (pm_positions m) = []" using assms(2) by (simp add: dkeys_def)
  let ?dk = "\<lparr>dk_mon = m\<lparr>pm_closing := filter (\<lambda>s. s = symb) (pm_closing m), pm_positions := pm_snapshot [d]\<rparr>,
      dk_om = po_om p, dk_bn = snd (bn_get_position_details (me_api env) (po_bn p)), dk_world = po_world p\<rparr>"
  have "fst (bn_get_account_equity (me_api env) (dk_bn ?dk)) = Inr equity" using assms(5) by simp
  then obtain native bn where first: "pm_first_seen cfg env (fst (po_tick p)) d ?dk = (Inr (),
    ?dk\<lparr>dk_mon := (dk_mon ?dk)\<lparr>pm_stop := (pm_stop (dk_mon ?dk))(pd_symbol d \<mapsto> stop),
        pm_native := native\<rparr>, dk_bn := bn\<rparr>)" (is "_ = (Inr (), ?dk1)")
    unfolding stop_def by (rule pm_first_seen_ok)
  have "pm_check_one cfg env (fst (po_tick p)) (snd (po_tick p)) [] d ?dk =
      pm_check_one cfg env (fst (po_tick p)) (snd (po_tick p)) [symb] d ?dk1"
    using assms(3) d(1) by (simp add: pm_check_one_def [where previous = "[]"] pm_check_one_def [where previous = "[symb]"] first)
  then have poll: "pm_poll cfg env p m = snd (pm_check_one cfg env (fst (po_tick p)) (snd (po_tick p)) [symb] d ?dk1)"
    using pm_poll_single [OF assms(1), of m cfg] keys by simp
  have "pm_watching symb stop [] (dk_mon ?dk1)"
    using assms(3,4) d(1) by (simp add: pm_watching_def pm_snapshot_one pm_peak_of_def dkeys_def)
  then show ?thesis
    unfolding poll by (rule pm_look [OF _ d _ _ _ assms(6-8)]) simp_all
qed

text \<open>What the exit rules read off one report: the profit, and its percentage of the margin.\<close>

definition pm_reading :: "monitor_cfg \<Rightarrow> real \<Rightarrow> position_detail \<Rightarrow> real \<times> real" where
  "pm_reading cfg step d = (let cost = of_int (pd_qty d) * step * pd_entry d in
     (pd_pnl d, if 0 < mon_leverage cfg \<and> 0 < cost then 100 * pd_pnl d * mon_leverage cfg / cost else 0))"

lemma pm_reading_roi: "(pd_pnl d, pm_roi cfg step d) = pm_reading cfg step d"
  by (auto simp: pm_reading_def pm_roi_def pm_margin_def Let_def zero_less_divide_iff)

text \<open>
  Property C18. Follow a position from the poll that first sees it, over any number of polls that report it
  as the one open position, whatever the other tasks do to the order table and the exchange between the
  polls, given that the account request of the first poll is answered and the close callbacks return.
  The stop-loss amount is the configured share of the equity at the first poll.  The poll whose reading is the first to
  hit the stop-loss, the profit cap or the trailing level of the running peak enters one order, at market
  for the whole position on the other side; no other poll, before or after, changes the order table.
\<close>

theorem pm_closes_at_first_exit:
  assumes "list_all2 (pm_sees env symb) ps ds" "k < length ps"
    and "pm_positions m = []" "symb \<notin> set (pm_closing m)" "pm_peak m symb = None"
    and "fst (bn_get_account_equity (me_api env) (snd (bn_get_position_details (me_api env) (po_bn (hd ps))))) = Inr equity"
    and "\<forall>p \<in> set ps. \<forall>reason. fst (me_on_close env symb reason (po_world p)) = Inr ()"
    and "me_step_size env symb = Inr step" "mon_increment cfg \<noteq> 0"
  shows "dk_om (pm_polls cfg env ps m ! k) =
    (if pm_exit_at cfg (equity * mon_stop_loss_pct cfg / 100) [] (map (pm_reading cfg step) ds) = Some k
     then pm_closed_book env (ps ! k) (ds ! k) else po_om (ps ! k))"
proof -
  let ?stop = "equity * mon_stop_loss_pct cfg / 100"
  obtain p ps' d ds' where split: "ps = p # ps'" "ds = d # ds'" "pm_sees env symb p d" "list_all2 (pm_sees env symb) ps' ds'"
    using assms(1,2) by (cases ps; cases ds) auto
  have call: "fst (me_on_close env symb reason (po_world p)) = Inr ()" for reason using assms(7) split by simp
  have eq: "fst (bn_get_account_equity (me_api env) (snd (bn_get_position_details (me_api env) (po_bn p)))) = Inr equity"
    using assms(6) split by simp
  note poll = pm_poll_first [OF split(3) assms(3-5) eq call assms(8,9)]
  show ?thesis
  proof (cases "pm_exit_now cfg ?stop [] (pm_reading cfg step d)")
    case True
    with poll pm_polls_done [OF split(4)] assms(2) show ?thesis
      by (cases k) (auto simp: split(1,2) pm_reading_roi)
  next
    case False
    with poll have w: "pm_watching symb ?stop [pm_roi cfg step d] (dk_mon (pm_poll cfg env p m))"
        "dk_om (pm_poll cfg env p m) = po_om p"
      by (simp_all add: pm_reading_roi)
    have "snd (pm_reading cfg step d) = pm_roi cfg step d" by (simp flip: pm_reading_roi)
    with pm_polls_watching [OF split(4) w(1) _ _ assms(8,9), of "k - 1"] assms(2,7) False w(2) show ?thesis
      by (cases k) (auto simp: split(1,2) pm_reading_roi map_option_case split: option.splits)
  qed
qed

definition sample_detail :: "real \<Rightarrow> position_detail" where
  "sample_detail pnl = \<lparr>pd_symbol = ''BTCUSDT'', pd_side = BUY, pd_qty = 1000, pd_entry = 100, pd_mark = 100, pd_pnl = pnl\<rparr>"

definition sample_desk :: "((string \<times> cancel_ref) list, unit) desk" where
  "sample_desk = \<lparr>dk_mon = pm_init\<lparr>pm_positions := [(''BTCUSDT'', 1000)], pm_stop := [''BTCUSDT'' \<mapsto> 50]\<rparr>,
     dk_om = om_init, dk_bn = sample_binance, dk_world = ()\<rparr>"

definition sample_env :: "((string \<times> cancel_ref) list, unit) monitor_env" where
  "sample_env = \<lparr>me_api = sample_api, me_step_size = (\<lambda>_. Inr (1 / 1000)), me_on_close = (\<lambda>_ _ w. (Inr (), w)),
     me_price = (\<lambda>_. None)\<rparr>"

definition sample_row :: "real \<Rightarrow> position_row" where
  "sample_row pnl = \<lparr>pr_symbol = ''BTCUSDT'', pr_amt = 1, pr_entry = 100, pr_mark = 100, pr_pnl = pnl\<rparr>"

text \<open>An exchange whose report changes with the calls it has seen, polled three times.\<close>

definition moving_api :: "(string \<times> cancel_ref) list api" where
  "moving_api = sample_api\<lparr>ap_positions := (\<lambda>c. (Inr [sample_row (if c = [] then 1 else if length c = 1 then 7 else 3)], c))\<rparr>"

definition sample_poll :: "nat \<Rightarrow> ((string \<times> cancel_ref) list, unit) poll" where
  "sample_poll n = \<lparr>po_tick = (0, \<lambda>s. (s, s)), po_om = om_init,
     po_bn = sample_binance\<lparr>bn_client := Some (replicate n (''X'', ExchangeId 1))\<rparr>, po_world = ()\<rparr>"

theorem pm_closes_at_first_exit_witness:
  "dk_om (pm_polls sample_cfg (sample_env\<lparr>me_api := moving_api\<rparr>) (map sample_poll [0, 1, 2]) pm_init ! 1) = om_init
  \<and> dk_om (pm_polls sample_cfg (sample_env\<lparr>me_api := moving_api\<rparr>) (map sample_poll [0, 1, 2]) pm_init ! 2)
    = pm_closed_book (sample_env\<lparr>me_api := moving_api\<rparr>) (sample_poll 2) (sample_detail 3)"
proof -
  let ?env = "sample_env\<lparr>me_api := moving_api\<rparr>" and ?ps = "map sample_poll [0, 1, 2]"
  let ?ds = "map sample_detail [1, 7, 3]"
  have lots: "quantity_to_lots sample_filters 1 = 1000"
    by (simp add: quantity_to_lots_def sample_filters_simps round_half_even_def Let_def)
  have sees: "pm_sees ?env ''BTCUSDT'' (sample_poll n) (sample_detail (if n = 0 then 1 else if n = 1 then 7 else 3))" for n
    by (simp add: pm_sees_def moving_api_def sample_poll_def bn_get_position_details_def bn_call_def sample_binance_def
        bn_init_def bn_details_of_def map_filter_simps sample_row_def sample_detail_def lots)
  have exit: "pm_exit_at sample_cfg 50 [] (map (pm_reading sample_cfg (1 / 1000)) ?ds) = Some 2"
    by (simp add: pm_exit_now_def sample_cfg_def pm_reading_def sample_detail_def Let_def)
  have equity: "fst (bn_get_account_equity moving_api (snd (bn_get_position_details moving_api (po_bn (sample_poll 0))))) = Inr 1000"
    by (simp add: moving_api_def sample_api_def sample_poll_def bn_get_position_details_def bn_get_account_equity_def
        bn_call_def sample_binance_def bn_init_def)
  have all: "list_all2 (pm_sees ?env ''BTCUSDT'') ?ps ?ds"
    using sees [of 0] sees [of 1] sees [of 2] by simp
  have run: "dk_om (pm_polls sample_cfg ?env ?ps pm_init ! k) =
      (if k = 2 then pm_closed_book ?env (?ps ! k) (?ds ! k) else po_om (?ps ! k))" if "k < 3" for k
    using pm_closes_at_first_exit [OF all, of k pm_init 1000 "1 / 1000" sample_cfg] that equity exit
    by (simp add: pm_init_def sample_env_def sample_cfg_def)
  show ?thesis using run [of 1] run [of 2] by (simp add: sample_poll_def del: pm_polls.simps)
qed

section \<open>Two ways the watch fails\<close>

lemma pm_closing_run:
  assumes "bn_client (dk_bn dk) \<noteq> None" "\<forall>c. \<exists>r c'. ap_positions (me_api env) c = (Inr [r], c') \<and> pr_symbol r = symb \<and> pr_amt r \<noteq> 0"
    and "dget (bn_filters (dk_bn dk)) symb \<noteq> None" "symb \<in> set (pm_closing (dk_mon dk))"
    and "dkeys (pm_positions (dk_mon dk)) = [symb]"
  shows "dk_om (snd (drive (pm_loop_step cfg env) ticks dk)) = dk_om dk
    \<and> symb \<in> set (pm_closing (dk_mon (snd (drive (pm_loop_step cfg env) ticks dk))))"
  using assms(1,3-5)
proof (induction ticks arbitrary: dk)
  case Nil
  then show ?case by simp
next
  case (Cons tick ticks)
  obtain c where c: "bn_client (dk_bn dk) = Some c" using Cons.prems(1) by blast
  obtain r c' where r: "ap_positions (me_api env) c = (Inr [r], c')" "pr_symbol r = symb" "pr_amt r \<noteq> 0"
    using assms(2) by blast
  obtain filt where filt: "dget (bn_filters (dk_bn dk)) symb = Some filt" using Cons.prems(2) by blast
  obtain d where d: "bn_details_of (bn_filters (dk_bn dk)) [r] = [d]" "pd_symbol d = symb"
    using r filt by (simp add: bn_details_of_def map_filter_simps)
  let ?dk1 = "dk\<lparr>dk_bn := (dk_bn dk)\<lparr>bn_client := Some c'\<rparr>\<rparr>"
  let ?dk2 = "dk_monitor (\<lambda>m. m\<lparr>pm_closing := filter (\<lambda>s. s \<in> set [symb]) (pm_closing m),
      pm_positions := pm_snapshot [d]\<rparr>) ?dk1"
  have "pm_check_one cfg env (fst tick) (snd tick) [symb] d ?dk2 = (Inr (), ?dk2)"
    using d(2) Cons.prems(3) by (intro pm_check_closing) simp
  then have step: "pm_loop_step cfg env tick dk = (Inr (), ?dk2)"
    using d Cons.prems(4)
    by (simp add: pm_loop_step_def pm_check_once_def dk_broker_call [OF c r(1)] dkeys_def Let_def)
  have "dk_om (snd (drive (pm_loop_step cfg env) ticks ?dk2)) = dk_om ?dk2
    \<and> symb \<in> set (pm_closing (dk_mon (snd (drive (pm_loop_step cfg env) ticks ?dk2))))"
    using Cons.prems d by (intro Cons.IH) (simp_all add: pm_snapshot_def dkeys_def)
  then show ?case by (simp add: step)
qed

text \<open>
  A position marked as closing is never looked at again while it stays open: however the
  exchange reports it, whatever it loses and whatever became of the closing order, no poll submits
  another order for it.
\<close>

theorem pm_closing_never_retried:
  assumes "bn_client (dk_bn dk) \<noteq> None" "\<forall>c. \<exists>r c'. ap_positions (me_api env) c = (Inr [r], c') \<and> pr_symbol r = symb \<and> pr_amt r \<noteq> 0"
    and "dget (bn_filters (dk_bn dk)) symb \<noteq> None" "symb \<in> set (pm_closing (dk_mon dk))"
    and "dkeys (pm_positions (dk_mon dk)) = [symb]"
  shows "dk_om (snd (drive (pm_loop_step cfg env) ticks dk)) = dk_om dk
    \<and> symb \<in> set (pm_closing (dk_mon (snd (drive (pm_loop_step cfg env) ticks dk))))"
  using assms by (rule pm_closing_run)

text \<open>A client that reports one position and, for a while, cannot report the account.\<close>

definition limited_api :: "real \<Rightarrow> (string \<times> cancel_ref) list api" where
  "limited_api pnl = sample_api\<lparr>ap_positions := (\<lambda>c. (Inr [sample_row pnl], c)),
     ap_account := (\<lambda>c. (Inl (ApiError ''-1003''), c))\<rparr>"

theorem pm_closing_never_retried_witness:
  "dk_om (snd (drive (pm_loop_step sample_cfg (sample_env\<lparr>me_api := limited_api (-900)\<rparr>))
      [(1, \<lambda>s. (s, s)), (2, \<lambda>s. (s, s))]
      (sample_desk\<lparr>dk_mon := (dk_mon sample_desk)\<lparr>pm_closing := [''BTCUSDT'']\<rparr>\<rparr>))) = om_init"
  using pm_closing_never_retried [of "sample_desk\<lparr>dk_mon := (dk_mon sample_desk)\<lparr>pm_closing := [''BTCUSDT'']\<rparr>\<rparr>"
      "sample_env\<lparr>me_api := limited_api (-900)\<rparr>" "''BTCUSDT''" sample_cfg "[(1, \<lambda>s. (s, s)), (2, \<lambda>s. (s, s))]"]
  by (simp add: sample_desk_def limited_api_def sample_row_def sample_binance_def bn_init_def dkeys_def del: drive_Cons)

text \<open>
  When the account request fails at the first sight of a position, the round ends with
  the position known but without a stop-loss amount, and the next poll treats the amount as zero: it
  closes the position if its profit is zero or negative.
\<close>

theorem pm_failed_first_sight_closes_at_zero:
  assumes "bn_client (dk_bn dk) = Some c" "ap_positions (me_api env) c = (Inr [r], c1)"
    and "ap_account (me_api env) c1 = (Inl e, c2)" "ap_positions (me_api env) c2 = (Inr [r'], c3)"
    and "pr_symbol r = symb" "pr_symbol r' = symb" "pr_amt r \<noteq> 0" "pr_amt r' \<noteq> 0" "pr_pnl r' \<le> 0"
    and "dget (bn_filters (dk_bn dk)) symb \<noteq> None" "me_step_size env symb = Inr step"
    and "symb \<notin> set (dkeys (pm_positions (dk_mon dk)))" "symb \<notin> set (pm_closing (dk_mon dk))"
    and "pm_stop (dk_mon dk) symb = None"
  shows "fst (pm_check_once cfg env now oids dk) = Inl e
    \<and> (\<exists>qty reason dk0. dk_om dk0 = dk_om dk
      \<and> snd (pm_check_once cfg env now' oids' (snd (pm_check_once cfg env now oids dk)))
          = snd (pm_close_position env now' (oids' symb) symb qty reason dk0))"
proof -
  obtain filt where filt: "dget (bn_filters (dk_bn dk)) symb = Some filt" using assms(10) by blast
  obtain d where d: "bn_details_of (bn_filters (dk_bn dk)) [r] = [d]" "pd_symbol d = symb"
    using assms(5,7) filt by (simp add: bn_details_of_def map_filter_simps)
  obtain d' where d': "bn_details_of (bn_filters (dk_bn dk)) [r'] = [d']" "pd_symbol d' = symb" "pd_pnl d' \<le> 0"
    using assms(6,8,9) filt by (simp add: bn_details_of_def map_filter_simps)
  let ?upd = "\<lambda>d c. dk_monitor (\<lambda>m. m\<lparr>pm_closing := filter (\<lambda>s. s = symb) (pm_closing m),
      pm_positions := pm_snapshot [d]\<rparr>) (dk\<lparr>dk_bn := (dk_bn dk)\<lparr>bn_client := Some c\<rparr>\<rparr>)"
  have seen: "pm_first_seen cfg env now d (?upd d c1) = (Inl e, ?upd d c2)"
    by (simp add: pm_first_seen_def dk_broker_def bn_get_account_equity_def bn_call_def assms(3) dk_monitor_def)
  have one: "pm_check_one cfg env now oids (dkeys (pm_positions (dk_mon dk))) d (?upd d c1) = (Inl e, ?upd d c2)"
    using assms(12,13) d(2) by (simp add: pm_check_one_def seen Let_def)
  have first: "pm_check_once cfg env now oids dk = (Inl e, ?upd d c2)"
    using d one by (simp add: pm_check_once_def dk_broker_call [OF assms(1,2)] Let_def)
  let ?dk = "?upd d c2"
  have c2: "bn_client (dk_bn ?dk) = Some c2" by simp
  let ?dk1 = "?upd d' c3"
  have same: "dk_monitor (\<lambda>m. m\<lparr>pm_closing := filter (\<lambda>s. s = symb) (pm_closing m),
      pm_positions := pm_snapshot [d']\<rparr>) (?dk\<lparr>dk_bn := (dk_bn dk)\<lparr>bn_client := Some c3\<rparr>\<rparr>) = ?dk1"
    by (simp add: dk_monitor_def)
  let ?roi = "pm_roi cfg step d'"
  define peak where "peak = max (case pm_peak (dk_mon dk) symb of None \<Rightarrow> ?roi | Some p \<Rightarrow> p) ?roi"
  let ?dk2 = "dk_monitor (\<lambda>m. m\<lparr>pm_peak := (pm_peak m)(symb \<mapsto> peak)\<rparr>) ?dk1"
  obtain reason where reason: "pm_decide cfg 0 (pd_pnl d') ?roi peak = Inr (Some reason)"
    using d'(3) by (simp add: pm_decide_def)
  obtain qty where qty: "dget (pm_snapshot [d']) symb = Some qty"
    using d'(2) by (simp add: pm_snapshot_def)
  have "pm_check_one cfg env now' oids' [symb] d' ?dk1 = pm_close_position env now' (oids' symb) symb qty reason ?dk2"
    using assms(11,13,14) d'(2) reason qty
    by (simp add: pm_check_one_def Let_def peak_def [symmetric])
  moreover have "dkeys (pm_positions (dk_mon ?dk)) = [symb]"
    using d(2) by (simp add: pm_snapshot_def dkeys_def)
  moreover have "bn_filters (dk_bn ?dk) = bn_filters (dk_bn dk)" by simp
  ultimately have "snd (pm_check_once cfg env now' oids' ?dk)
      = snd (pm_close_position env now' (oids' symb) symb qty reason ?dk2)"
    using pm_check_once_single [OF c2 assms(4), of d' cfg now' oids'] d'(1,2) same by simp
  then show ?thesis
    unfolding first by (intro conjI exI [of _ qty] exI [of _ reason] exI [of _ ?dk2]) simp_all
qed

theorem pm_failed_first_sight_closes_at_zero_witness:
  "fst (pm_check_once sample_cfg (sample_env\<lparr>me_api := limited_api (-1)\<rparr>) 0 (\<lambda>s. (s, s))
      (sample_desk\<lparr>dk_mon := pm_init\<rparr>)) = Inl (ApiError ''-1003'')"
  by (rule pm_failed_first_sight_closes_at_zero [of _ "[]" _ "sample_row (-1)" "[]" _ "[]" "sample_row (-1)" "[]" "''BTCUSDT''" "1 / 1000",
        THEN conjunct1])
    (simp_all add: sample_desk_def sample_env_def limited_api_def sample_row_def sample_binance_def bn_init_def
      pm_init_def dkeys_def)

end
