(* ===== verification/Market_Feed.thy ===== *)
theory Market_Feed
  imports Event_Bus
begin

text \<open>
  Market data: the exchange-wide feed with its rolling windows
  (\<^verbatim>\<open>data/binance_universe_feed.py\<close>) and the aggregation of ticks into bars
  (\<^verbatim>\<open>data/bar_aggregator.py\<close>).  A window is a number of microseconds; klines and messages are
  lists of rows as the exchange client returns them.
\<close>

section \<open>Rolling windows\<close>

type_synonym history = "(datetime \<times> real) list"

definition uf_append_trimmed :: "datetime \<Rightarrow> real \<Rightarrow> int \<Rightarrow> history \<Rightarrow> history" where
  "uf_append_trimmed ts val window h =
     (let cutoff = ts - window in dropWhile (\<lambda>p. fst p < cutoff) (h @ [(ts, val)]))"

text \<open>Nine tenths of a window, as \<^verbatim>\<open>timedelta * 0.9\<close> rounds it.\<close>

definition uf_most_of :: "int \<Rightarrow> int" where
  "uf_most_of window = round_half_even (of_int window * (9 / 10))"

definition uf_change_pct :: "int \<Rightarrow> history \<Rightarrow> real option" where
  "uf_change_pct window h =
     (if length h < 2 then None
      else case h ! 0 of (oldest_ts, oldest_price) \<Rightarrow>
        if fst (last h) - oldest_ts < uf_most_of window \<or> oldest_price = 0 then None
        else Some ((snd (last h) - oldest_price) / oldest_price * 100))"

definition uf_trend :: "int \<Rightarrow> history \<Rightarrow> (real \<times> real) option" where
  "uf_trend window h =
     (if length h < 2 then None
      else case h ! 0 of (oldest_ts, oldest_rate) \<Rightarrow>
        if fst (last h) - oldest_ts < uf_most_of window then None
        else Some (snd (last h), oldest_rate))"

section \<open>The feed\<close>

record universe_feed =
  uf_price_window :: int
  uf_funding_window :: int
  uf_price_history :: "string \<Rightarrow> history"
  uf_funding_history :: "string \<Rightarrow> history"
  uf_latest :: "string \<rightharpoonup> real"
  uf_connected :: bool
  uf_messages :: nat

definition uf_init :: "int \<Rightarrow> int \<Rightarrow> universe_feed" where
  "uf_init price_window funding_window =
     \<lparr>uf_price_window = price_window, uf_funding_window = funding_window, uf_price_history = (\<lambda>_. []),
      uf_funding_history = (\<lambda>_. []), uf_latest = Map.empty, uf_connected = False, uf_messages = 0\<rparr>"

definition uf_latest_price :: "universe_feed \<Rightarrow> string \<Rightarrow> real option" where
  "uf_latest_price f symb = uf_latest f symb"

definition uf_price_change_pct :: "universe_feed \<Rightarrow> string \<Rightarrow> real option" where
  "uf_price_change_pct f symb = uf_change_pct (uf_price_window f) (uf_price_history f symb)"

definition uf_funding_trend :: "universe_feed \<Rightarrow> string \<Rightarrow> (real \<times> real) option" where
  "uf_funding_trend f symb = uf_trend (uf_funding_window f) (uf_funding_history f symb)"

definition uf_push_price :: "string \<Rightarrow> datetime \<Rightarrow> real \<Rightarrow> universe_feed \<Rightarrow> universe_feed" where
  "uf_push_price symb ts x f =
     f\<lparr>uf_price_history := (uf_price_history f)
        (symb := uf_append_trimmed ts x (uf_price_window f) (uf_price_history f symb))\<rparr>"

definition uf_push_funding :: "string \<Rightarrow> datetime \<Rightarrow> real \<Rightarrow> universe_feed \<Rightarrow> universe_feed" where
  "uf_push_funding symb ts x f =
     f\<lparr>uf_funding_history := (uf_funding_history f)
        (symb := uf_append_trimmed ts x (uf_funding_window f) (uf_funding_history f symb))\<rparr>"

text \<open>An item of the mark-price message; \<open>None\<close> is one that lacks a field or has a malformed number.\<close>

type_synonym mark_item = "(string \<times> real \<times> real) option"

definition uf_tick :: "datetime \<Rightarrow> string \<Rightarrow> real \<Rightarrow> tick_event" where
  "uf_tick now symb price =
     \<lparr>tk_ts = now, tk_symbol = symb, tk_bid = price, tk_ask = price, tk_bid_size = 0, tk_ask_size = 0,
      tk_last = price, tk_last_size = 0\<rparr>"

fun uf_handle_item :: "datetime \<Rightarrow> mark_item \<Rightarrow> universe_feed \<times> 'h bus \<Rightarrow> universe_feed \<times> 'h bus" where
  "uf_handle_item now None (f, b) = (f, b)"
| "uf_handle_item now (Some (symb, price, rate)) (f, b) =
     (let f1 = uf_push_funding symb now rate (uf_push_price symb now price f)
      in (f1\<lparr>uf_latest := (uf_latest f1)(symb \<mapsto> price)\<rparr>, eb_publish (TickE (uf_tick now symb price)) b))"

text \<open>A message whose payload is not a list (\<open>None\<close>) is ignored and not counted.\<close>

definition uf_handle_message ::
  "datetime \<Rightarrow> mark_item list option \<Rightarrow> universe_feed \<times> 'h bus \<Rightarrow> universe_feed \<times> 'h bus" where
  "uf_handle_message now payload fb =
     (case payload of
        None \<Rightarrow> fb
      | Some items \<Rightarrow>
          (case fold (uf_handle_item now) items fb of
             (f, b) \<Rightarrow> (f\<lparr>uf_messages := Suc (uf_messages f)\<rparr>, b)))"

section \<open>The stream\<close>

text \<open>
  \<^verbatim>\<open>start\<close>, \<^verbatim>\<open>stop\<close>, and \<^verbatim>\<open>_stream\<close> as a machine over what the socket does: the state is whether a
  socket is open and the current backoff, the output the sleep made.
\<close>

definition uf_start :: "universe_feed \<Rightarrow> universe_feed" where
  "uf_start f = f\<lparr>uf_connected := True\<rparr>"

definition uf_stop :: "universe_feed \<Rightarrow> universe_feed" where
  "uf_stop f = f\<lparr>uf_connected := False\<rparr>"

datatype feed_event = FeedOpened | FeedFailed | FeedMsg datetime "mark_item list option"

definition uf_stream_step ::
  "real \<times> real \<Rightarrow> feed_event \<Rightarrow> (bool \<times> real) \<times> (universe_feed \<times> 'h bus)
   \<Rightarrow> real option \<times> ((bool \<times> real) \<times> (universe_feed \<times> 'h bus))" where
  "uf_stream_step limits ev st = (case st of ((opn, backoff), f, b) \<Rightarrow>
     (if \<not> uf_connected f then (None, st)
      else case ev of
          FeedOpened \<Rightarrow> if opn then (None, st) else (None, ((True, fst limits), f, b))
        | FeedFailed \<Rightarrow> (Some backoff, ((False, min (backoff * 2) (snd limits)), f, b))
        | FeedMsg now payload \<Rightarrow>
            if opn then (None, ((True, backoff), uf_handle_message now payload (f, b))) else (None, st)))"

section \<open>Backfill\<close>

definition uf_kline_limit :: "int \<Rightarrow> int" where
  "uf_kline_limit window = max 2 (\<lceil>of_int window / 60000000 :: real\<rceil> + 1)"

text \<open>A kline as its open time in milliseconds and its close.\<close>

definition uf_backfill_symbol ::
  "string \<Rightarrow> ((int \<times> real) list \<times> (int \<times> real) list) result \<Rightarrow> universe_feed \<Rightarrow> universe_feed" where
  "uf_backfill_symbol symb reply f =
     (case reply of
        Inl _ \<Rightarrow> f
      | Inr (prices, fundings) \<Rightarrow>
          (let f1 = fold (\<lambda>(t, c). uf_push_price symb (t * 1000) c) prices f;
               f2 = (if prices = [] then f1 else f1\<lparr>uf_latest := (uf_latest f1)(symb \<mapsto> snd (last prices))\<rparr>)
           in fold (\<lambda>(t, c). uf_push_funding symb (t * 1000) c) fundings f2))"

text \<open>
  The symbols are taken in batches with a pause between two batches; within a batch the requests
  are concurrent, but each symbol's rows are appended in one piece.  Returns the pauses made.
\<close>

function uf_batches :: "nat \<Rightarrow> 'a list \<Rightarrow> 'a list list" where
  "uf_batches n xs = (if xs = [] \<or> n = 0 then [] else take n xs # uf_batches n (drop n xs))"
  by auto

termination
  by (relation "measure (\<lambda>(n, xs). length xs)") auto

declare uf_batches.simps [simp del]

definition uf_backfill ::
  "(string \<Rightarrow> ((int \<times> real) list \<times> (int \<times> real) list) result) \<Rightarrow> nat \<Rightarrow> string list \<Rightarrow> universe_feed
   \<Rightarrow> nat result \<times> universe_feed" where
  "uf_backfill reply batch_size symbs f =
     (if batch_size = 0 then (Inl (ValueError [Lit ''range() arg 3 must not be zero'']), f)
      else (Inr (length (uf_batches batch_size symbs) - 1),
            fold (fold (\<lambda>s. uf_backfill_symbol s (reply s))) (uf_batches batch_size symbs) f))"

section \<open>Bars\<close>

record open_bar =
  ob_start :: datetime
  ob_symbol :: string
  ob_open :: real
  ob_high :: real
  ob_low :: real
  ob_close :: real
  ob_volume :: real
  ob_dollar :: real

definition ob_update :: "real \<Rightarrow> real \<Rightarrow> open_bar \<Rightarrow> open_bar" where
  "ob_update price sz b =
     b\<lparr>ob_high := max (ob_high b) price, ob_low := min (ob_low b) price, ob_close := price,
       ob_volume := ob_volume b + sz, ob_dollar := ob_dollar b + price * sz\<rparr>"

definition ob_vwap :: "open_bar \<Rightarrow> real" where
  "ob_vwap b = (if 0 < ob_volume b then ob_dollar b / ob_volume b else ob_close b)"

record aggregator =
  ba_timeframe :: int
  ba_open_bars :: "string \<rightharpoonup> open_bar"

text \<open>Buckets are whole multiples of the timeframe since the epoch.\<close>

definition ba_bucket_start :: "int \<Rightarrow> datetime \<Rightarrow> datetime result" where
  "ba_bucket_start tf ts =
     (if tf = 0 then Inl ZeroDivisionError else Inr (ts div (tf * 1000000) * (tf * 1000000)))"

definition ba_price :: "tick_event \<Rightarrow> real" where
  "ba_price t = (if 0 < tk_last t then tk_last t else tick_mid t)"

definition ba_size :: "tick_event \<Rightarrow> int" where
  "ba_size t = (if 0 < tk_last_size t then tk_last_size t else 0)"

definition ba_new_bar :: "datetime \<Rightarrow> string \<Rightarrow> real \<Rightarrow> open_bar" where
  "ba_new_bar start symb price =
     \<lparr>ob_start = start, ob_symbol = symb, ob_open = price, ob_high = price, ob_low = price,
      ob_close = price, ob_volume = 0, ob_dollar = 0\<rparr>"

definition ba_finalize :: "int \<Rightarrow> open_bar \<Rightarrow> bar_event" where
  "ba_finalize tf b =
     \<lparr>br_ts = ob_start b, br_symbol = ob_symbol b, br_timeframe = tf, br_open = ob_open b, br_high = ob_high b,
      br_low = ob_low b, br_close = ob_close b, br_volume = ob_volume b, br_vwap = ob_vwap b\<rparr>"

definition ba_on_tick :: "tick_event \<Rightarrow> aggregator \<Rightarrow> bar_event option result \<times> aggregator" where
  "ba_on_tick t a =
     (case ba_bucket_start (ba_timeframe a) (tk_ts t) of
        Inl e \<Rightarrow> (Inl e, a)
      | Inr start \<Rightarrow>
          (let fresh = ba_new_bar start (tk_symbol t) (ba_price t);
               (completed, b) = (case ba_open_bars a (tk_symbol t) of
                   None \<Rightarrow> (None, fresh)
                 | Some b \<Rightarrow> if ob_start b \<noteq> start then (Some (ba_finalize (ba_timeframe a) b), fresh) else (None, b))
           in (Inr completed, a\<lparr>ba_open_bars := (ba_open_bars a)
                 (tk_symbol t \<mapsto> ob_update (ba_price t) (of_int (ba_size t)) b)\<rparr>)))"

definition ba_flush :: "string \<Rightarrow> aggregator \<Rightarrow> bar_event option \<times> aggregator" where
  "ba_flush symb a =
     (case ba_open_bars a symb of
        None \<Rightarrow> (None, a)
      | Some b \<Rightarrow> (Some (ba_finalize (ba_timeframe a) b), a\<lparr>ba_open_bars := (ba_open_bars a)(symb := None)\<rparr>))"

section \<open>What a window holds\<close>

definition uf_recent :: "int \<Rightarrow> history \<Rightarrow> history" where
  "uf_recent window obs = filter (\<lambda>p. fst (last obs) - window \<le> fst p) obs"

lemma dropWhile_old:
  assumes "sorted (map fst (h :: history))"
  shows "dropWhile (\<lambda>p. fst p < c) h = filter (\<lambda>p. c \<le> fst p) h"
  using assms
proof (induction h)
  case Nil
  then show ?case by simp
next
  case (Cons p h)
  show ?case
  proof (cases "fst p < c")
    case True
    with Cons show ?thesis by simp
  next
    case False
    then have "\<forall>q \<in> set (p # h). c \<le> fst q" using Cons.prems by auto
    with False show ?thesis by (simp add: filter_True)
  qed
qed

text \<open>Trimming as the points arrive keeps exactly the points within a window of the newest.\<close>

lemma uf_append_exact:
  assumes "sorted (map fst (obs @ [(ts, x)]))" "0 \<le> w"
  shows "uf_append_trimmed ts x w (uf_recent w obs) = uf_recent w (obs @ [(ts, x)])"
proof -
  have sub: "sorted (map fst (uf_recent w obs @ [(ts, x)]))"
    using assms(1) by (auto simp: uf_recent_def sorted_append sorted_filter)
  have "fst (last obs) \<le> ts" if "obs \<noteq> []"
    using assms(1) that by (simp add: sorted_append)
  then have "filter (\<lambda>p. ts - w \<le> fst p) (uf_recent w obs) = filter (\<lambda>p. ts - w \<le> fst p) obs"
    by (cases "obs = []") (auto simp: uf_recent_def intro!: filter_cong)
  with sub assms(2) show ?thesis
    by (simp add: uf_append_trimmed_def dropWhile_old) (simp add: uf_recent_def)
qed

definition uf_run :: "(datetime \<times> mark_item list option) list \<Rightarrow> universe_feed \<times> 'h bus \<Rightarrow> universe_feed \<times> 'h bus" where
  "uf_run msgs fb = fold (\<lambda>(now, payload). uf_handle_message now payload) msgs fb"

text \<open>The observations of one symbol in a run of messages.\<close>

definition uf_item_obs :: "string \<Rightarrow> datetime \<Rightarrow> mark_item \<Rightarrow> history" where
  "uf_item_obs symb now it =
     (case it of Some (s, price, rate) \<Rightarrow> if s = symb then [(now, price)] else [] | None \<Rightarrow> [])"

definition uf_msg_obs :: "string \<Rightarrow> datetime \<times> mark_item list option \<Rightarrow> history" where
  "uf_msg_obs symb msg =
     (case snd msg of None \<Rightarrow> [] | Some items \<Rightarrow> concat (map (uf_item_obs symb (fst msg)) items))"

definition uf_observed :: "string \<Rightarrow> (datetime \<times> mark_item list option) list \<Rightarrow> history" where
  "uf_observed symb msgs = concat (map (uf_msg_obs symb) msgs)"

definition uf_tracks :: "string \<Rightarrow> universe_feed \<Rightarrow> history \<Rightarrow> bool" where
  "uf_tracks symb f obs \<longleftrightarrow> uf_price_history f symb = uf_recent (uf_price_window f) obs
     \<and> uf_latest f symb = (if obs = [] then None else Some (snd (last obs)))"

lemma uf_item_windows [simp]:
  "uf_price_window (fst (uf_handle_item now it fb)) = uf_price_window (fst fb)"
  by (cases fb; cases it) (auto simp: uf_push_price_def uf_push_funding_def Let_def)

lemma uf_item_tracks:
  assumes "uf_tracks symb f obs" "sorted (map fst (obs @ uf_item_obs symb now it))" "0 \<le> uf_price_window f"
  shows "uf_tracks symb (fst (uf_handle_item now it (f, b))) (obs @ uf_item_obs symb now it)"
proof (cases it)
  case None
  with assms show ?thesis by (simp add: uf_item_obs_def)
next
  case (Some p)
  obtain s price rate where p: "it = Some (s, price, rate)" using Some by (cases p) auto
  show ?thesis
  proof (cases "s = symb")
    case True
    with assms p uf_append_exact [of obs now price "uf_price_window f"] show ?thesis
      by (simp add: uf_tracks_def uf_item_obs_def uf_push_price_def uf_push_funding_def Let_def)
  next
    case False
    with assms p show ?thesis
      by (simp add: uf_tracks_def uf_item_obs_def uf_push_price_def uf_push_funding_def Let_def)
  qed
qed

lemma uf_items_tracks:
  assumes "uf_tracks symb (fst fb) obs" "sorted (map fst (obs @ concat (map (uf_item_obs symb now) items)))"
    and "0 \<le> uf_price_window (fst fb)"
  shows "uf_tracks symb (fst (fold (uf_handle_item now) items fb)) (obs @ concat (map (uf_item_obs symb now) items))
    \<and> uf_price_window (fst (fold (uf_handle_item now) items fb)) = uf_price_window (fst fb)"
  using assms
proof (induction items arbitrary: fb obs)
  case Nil
  then show ?case by simp
next
  case (Cons it items)
  obtain f b where fb: "fb = (f, b)" by (cases fb)
  have "sorted (map fst (obs @ uf_item_obs symb now it))"
    using Cons.prems(2) by (simp add: sorted_append)
  then have "uf_tracks symb (fst (uf_handle_item now it fb)) (obs @ uf_item_obs symb now it)"
    using uf_item_tracks [of symb f obs now it b] Cons.prems(1,3) by (simp add: fb)
  from Cons.IH [OF this] Cons.prems(2,3) show ?case by simp
qed

lemma uf_message_tracks:
  assumes "uf_tracks symb (fst fb) obs" "sorted (map fst (obs @ uf_msg_obs symb (now, payload)))"
    and "0 \<le> uf_price_window (fst fb)"
  shows "uf_tracks symb (fst (uf_handle_message now payload fb)) (obs @ uf_msg_obs symb (now, payload))
    \<and> uf_price_window (fst (uf_handle_message now payload fb)) = uf_price_window (fst fb)"
proof (cases payload)
  case None
  with assms show ?thesis by (simp add: uf_handle_message_def uf_msg_obs_def)
next
  case (Some items)
  with assms uf_items_tracks [of symb fb obs now items] show ?thesis
    by (auto simp: uf_handle_message_def uf_msg_obs_def uf_tracks_def split: prod.split)
qed

lemma uf_msg_obs_time: "p \<in> set (uf_msg_obs symb msg) \<Longrightarrow> fst p = fst msg"
  by (auto simp: uf_msg_obs_def uf_item_obs_def split: option.splits if_splits)

lemma uf_observed_sorted:
  assumes "sorted (map fst msgs)"
  shows "sorted (map fst (uf_observed symb msgs))"
  using assms
proof (induction msgs)
  case Nil
  then show ?case by (simp add: uf_observed_def)
next
  case (Cons msg msgs)
  have "map fst (uf_msg_obs symb msg) = replicate (length (uf_msg_obs symb msg)) (fst msg)"
    using uf_msg_obs_time by (intro replicate_eqI) auto
  moreover have "\<forall>q \<in> set (uf_observed symb msgs). fst msg \<le> fst q"
    using Cons.prems uf_msg_obs_time by (fastforce simp: uf_observed_def)
  ultimately show ?case
    using Cons by (auto simp: uf_observed_def sorted_append uf_msg_obs_time)
qed

lemma uf_run_tracks:
  assumes "uf_tracks symb (fst fb) obs" "sorted (map fst (obs @ uf_observed symb msgs))" "0 \<le> uf_price_window (fst fb)"
  shows "uf_tracks symb (fst (uf_run msgs fb)) (obs @ uf_observed symb msgs)
    \<and> uf_price_window (fst (uf_run msgs fb)) = uf_price_window (fst fb)"
  using assms
proof (induction msgs arbitrary: fb obs)
  case Nil
  then show ?case by (simp add: uf_run_def uf_observed_def)
next
  case (Cons msg msgs)
  obtain now payload where m: "msg = (now, payload)" by (cases msg)
  have "sorted (map fst (obs @ uf_msg_obs symb (now, payload)))"
    using Cons.prems(2) by (simp add: uf_observed_def m sorted_append)
  note step = uf_message_tracks [OF Cons.prems(1) this Cons.prems(3)]
  have "uf_tracks symb (fst (uf_run msgs (uf_handle_message now payload fb)))
      ((obs @ uf_msg_obs symb (now, payload)) @ uf_observed symb msgs)
    \<and> uf_price_window (fst (uf_run msgs (uf_handle_message now payload fb))) = uf_price_window (fst (uf_handle_message now payload fb))"
    using step Cons.prems(2,3) by (intro Cons.IH) (simp_all add: uf_observed_def m)
  with step show ?case by (simp add: uf_run_def uf_observed_def m)
qed

text \<open>
  Property C24. After any messages with a clock that does not run backwards, the window of a symbol
  holds exactly its observations within one window of the newest, and a reported price change is the
  change to the newest price from one between nine tenths of a window and a whole window older.
\<close>

theorem uf_price_change_over_window:
  fixes b :: "'h bus" and fw :: int and symb :: string
  assumes "sorted (map fst msgs)" "0 \<le> w"
  defines "f \<equiv> fst (uf_run msgs (uf_init w fw, b))" and "obs \<equiv> uf_observed symb msgs"
  shows "uf_price_history f symb = uf_recent w obs
    \<and> uf_latest_price f symb = (if obs = [] then None else Some (snd (last obs)))
    \<and> (\<forall>pct. uf_price_change_pct f symb = Some pct \<longrightarrow>
        (\<exists>t p. (t, p) \<in> set obs \<and> p \<noteq> 0 \<and> uf_most_of w \<le> fst (last obs) - t \<and> fst (last obs) - t \<le> w
          \<and> pct = (snd (last obs) - p) / p * 100))"
proof -
  have "uf_tracks symb (uf_init w fw) []" by (simp add: uf_tracks_def uf_init_def uf_recent_def)
  then have "uf_tracks symb f obs \<and> uf_price_window f = w"
    using uf_run_tracks [of symb "(uf_init w fw, b)" "[]" msgs] uf_observed_sorted [OF assms(1), of symb] assms(2)
    by (simp add: f_def obs_def) (simp add: uf_init_def)
  then have h: "uf_price_history f symb = uf_recent w obs" "uf_price_window f = w"
    "uf_latest f symb = (if obs = [] then None else Some (snd (last obs)))"
    by (simp_all add: uf_tracks_def)
  have "\<exists>t p. (t, p) \<in> set obs \<and> p \<noteq> 0 \<and> uf_most_of w \<le> fst (last obs) - t \<and> fst (last obs) - t \<le> w
      \<and> pct = (snd (last obs) - p) / p * 100" if "uf_price_change_pct f symb = Some pct" for pct
  proof -
    let ?r = "uf_recent w obs"
    have len: "2 \<le> length ?r" and pct: "fst (last ?r) - fst (?r ! 0) \<ge> uf_most_of w" "snd (?r ! 0) \<noteq> 0"
        "pct = (snd (last ?r) - snd (?r ! 0)) / snd (?r ! 0) * 100"
      using that by (auto simp: uf_price_change_pct_def uf_change_pct_def h split: if_splits prod.splits)
    then have ne: "obs \<noteq> []" by (intro notI) (simp add: uf_recent_def)
    have last: "last ?r = last obs"
      using ne assms(2) by (induction obs rule: rev_induct) (simp_all add: uf_recent_def)
    have "?r ! 0 \<in> set ?r" using len by (intro nth_mem) linarith
    then have "?r ! 0 \<in> set obs" "fst (last obs) - fst (?r ! 0) \<le> w" by (auto simp: uf_recent_def)
    with pct last show ?thesis by (intro exI [of _ "fst (?r ! 0)"] exI [of _ "snd (?r ! 0)"]) simp
  qed
  with h show ?thesis by (simp add: uf_latest_price_def)
qed

theorem uf_price_change_over_window_witness:
  "uf_price_history (fst (uf_run [(0, Some [Some (''X'', 10, 1)]), (5, Some [None, Some (''Y'', 1, 1)]), (10, Some [Some (''X'', 12, 1)])]
      (uf_init 10 10, eb_init 3 :: nat bus))) ''X'' = [(0, 10), (10, 12)]"
proof -
  let ?m = "[(0, Some [Some (''X'', 10, 1)]), (5, Some [None, Some (''Y'', 1, 1)]), (10, Some [Some (''X'', 12, 1)])]
    :: (datetime \<times> mark_item list option) list"
  have "sorted (map fst ?m)" by simp
  from uf_price_change_over_window [OF this, of 10 10 "eb_init 3 :: nat bus" "''X''"]
  show ?thesis by (simp add: uf_observed_def uf_msg_obs_def uf_item_obs_def uf_recent_def)
qed

section \<open>What a bar says\<close>

text \<open>The reference: the bar of the ticks of one bucket, in order.\<close>

definition ba_summary :: "int \<Rightarrow> datetime \<Rightarrow> string \<Rightarrow> tick_event list \<Rightarrow> bar_event" where
  "ba_summary tf start symb ts =
     \<lparr>br_ts = start, br_symbol = symb, br_timeframe = tf, br_open = ba_price (hd ts),
      br_high = Max (ba_price ` set ts), br_low = Min (ba_price ` set ts), br_close = ba_price (last ts),
      br_volume = sum_list (map (\<lambda>t. of_int (ba_size t)) ts),
      br_vwap = (let v = sum_list (map (\<lambda>t. of_int (ba_size t)) ts) in
        if 0 < v then sum_list (map (\<lambda>t. ba_price t * of_int (ba_size t)) ts) / v else ba_price (last ts))\<rparr>"

definition ba_holds :: "open_bar \<Rightarrow> datetime \<Rightarrow> string \<Rightarrow> tick_event list \<Rightarrow> bool" where
  "ba_holds b start symb ts \<longleftrightarrow> ts \<noteq> [] \<and> ob_start b = start \<and> ob_symbol b = symb \<and> ob_open b = ba_price (hd ts)
     \<and> ob_high b = Max (ba_price ` set ts) \<and> ob_low b = Min (ba_price ` set ts) \<and> ob_close b = ba_price (last ts)
     \<and> ob_volume b = sum_list (map (\<lambda>t. of_int (ba_size t)) ts)
     \<and> ob_dollar b = sum_list (map (\<lambda>t. ba_price t * of_int (ba_size t)) ts)"

lemma ba_holds_finalize: "ba_holds b start symb ts \<Longrightarrow> ba_finalize tf b = ba_summary tf start symb ts"
  by (simp add: ba_holds_def ba_finalize_def ba_summary_def ob_vwap_def Let_def)

lemma ba_holds_new:
  "ba_holds (ob_update (ba_price t) (of_int (ba_size t)) (ba_new_bar start symb (ba_price t))) start symb [t]"
  by (simp add: ba_holds_def ob_update_def ba_new_bar_def)

lemma ba_holds_update:
  "ba_holds b start symb ts \<Longrightarrow> ba_holds (ob_update (ba_price t) (of_int (ba_size t)) b) start symb (ts @ [t])"
  by (simp add: ba_holds_def ob_update_def Max_insert2 max.commute min.commute)

text \<open>
  The ticks of a symbol split at the changes of bucket: a bar for every bucket left, and the ticks of
  the bucket still open.
\<close>

definition ba_bucket :: "int \<Rightarrow> tick_event \<Rightarrow> datetime" where
  "ba_bucket tf t = tk_ts t div (tf * 1000000) * (tf * 1000000)"

fun ba_split :: "int \<Rightarrow> string \<Rightarrow> tick_event list \<Rightarrow> tick_event list \<Rightarrow> bar_event list \<times> tick_event list" where
  "ba_split tf symb cur [] = ([], cur)"
| "ba_split tf symb cur (t # ts) =
     (if cur \<noteq> [] \<and> ba_bucket tf (hd cur) \<noteq> ba_bucket tf t
      then (case ba_split tf symb [t] ts of (bars, open_ticks) \<Rightarrow>
              (ba_summary tf (ba_bucket tf (hd cur)) symb cur # bars, open_ticks))
      else ba_split tf symb (cur @ [t]) ts)"

definition ba_bars_of :: "string \<Rightarrow> bar_event option result list \<Rightarrow> bar_event list" where
  "ba_bars_of symb rs =
     concat (map (\<lambda>r. case r of Inr (Some b) \<Rightarrow> if br_symbol b = symb then [b] else [] | _ \<Rightarrow> []) rs)"

definition ba_at :: "aggregator \<Rightarrow> string \<Rightarrow> tick_event list \<Rightarrow> bool" where
  "ba_at a symb cur \<longleftrightarrow> (case ba_open_bars a symb of
     None \<Rightarrow> cur = [] | Some b \<Rightarrow> ba_holds b (ba_bucket (ba_timeframe a) (hd cur)) symb cur)"

definition ba_named :: "aggregator \<Rightarrow> bool" where
  "ba_named a \<longleftrightarrow> (\<forall>s b. ba_open_bars a s = Some b \<longrightarrow> ob_symbol b = s)"

lemma ba_step_cases:
  fixes t :: tick_event
  assumes "0 < ba_timeframe a"
  defines "start \<equiv> ba_bucket (ba_timeframe a) t"
  defines "fresh \<equiv> ba_new_bar start (tk_symbol t) (ba_price t)"
  defines "out \<equiv> (\<lambda>b. a\<lparr>ba_open_bars := (ba_open_bars a)(tk_symbol t \<mapsto> ob_update (ba_price t) (of_int (ba_size t)) b)\<rparr>)"
  shows "ba_on_tick t a = (case ba_open_bars a (tk_symbol t) of
      None \<Rightarrow> (Inr None, out fresh)
    | Some b \<Rightarrow> if ob_start b \<noteq> start then (Inr (Some (ba_finalize (ba_timeframe a) b)), out fresh)
                else (Inr None, out b))"
  using assms(1) by (auto simp: ba_on_tick_def ba_bucket_start_def ba_bucket_def start_def fresh_def out_def Let_def
      split: option.split)

lemma ba_step:
  fixes t :: tick_event
  assumes "0 < ba_timeframe a" "ba_at a symb cur" "ba_named a"
  defines "a' \<equiv> snd (ba_on_tick t a)" and "out \<equiv> ba_bars_of symb [fst (ba_on_tick t a)]"
  defines "crossed \<equiv> cur \<noteq> [] \<and> ba_bucket (ba_timeframe a) (hd cur) \<noteq> ba_bucket (ba_timeframe a) t"
  shows "ba_timeframe a' = ba_timeframe a \<and> ba_named a'"
    and "tk_symbol t \<noteq> symb \<Longrightarrow> ba_at a' symb cur \<and> out = []"
    and "tk_symbol t = symb \<Longrightarrow> crossed \<Longrightarrow> ba_at a' symb [t]
      \<and> out = [ba_summary (ba_timeframe a) (ba_bucket (ba_timeframe a) (hd cur)) symb cur]"
    and "tk_symbol t = symb \<Longrightarrow> \<not> crossed \<Longrightarrow> ba_at a' symb (cur @ [t]) \<and> out = []"
proof -
  note st = ba_step_cases [OF assms(1), of t]
  have named: "ob_symbol (ob_update p z b) = ob_symbol b" "ob_start (ob_update p z b) = ob_start b" for p z b
    by (simp_all add: ob_update_def)
  show "ba_timeframe a' = ba_timeframe a \<and> ba_named a'"
    using assms(3) by (auto simp: a'_def st ba_named_def named ba_new_bar_def split: option.split)
  show "ba_at a' symb cur \<and> out = []" if "tk_symbol t \<noteq> symb"
    using assms(2,3) that
    by (auto simp: a'_def out_def st ba_at_def ba_bars_of_def ba_finalize_def ba_named_def split: option.splits)
  show "ba_at a' symb [t] \<and> out = [ba_summary (ba_timeframe a) (ba_bucket (ba_timeframe a) (hd cur)) symb cur]"
    if own: "tk_symbol t = symb" and cross: "crossed"
  proof -
    obtain b where b: "ba_open_bars a symb = Some b" "ba_holds b (ba_bucket (ba_timeframe a) (hd cur)) symb cur"
      using assms(2) cross by (auto simp: ba_at_def crossed_def split: option.splits)
    then have "ob_start b \<noteq> ba_bucket (ba_timeframe a) t" using cross by (simp add: ba_holds_def crossed_def)
    with b own show ?thesis
      by (simp add: a'_def out_def st ba_at_def ba_bars_of_def ba_holds_finalize ba_holds_new ba_summary_def)
  qed
  show "ba_at a' symb (cur @ [t]) \<and> out = []" if own: "tk_symbol t = symb" and cross: "\<not> crossed"
  proof (cases "ba_open_bars a symb")
    case None
    with assms(2) own show ?thesis
      by (simp add: a'_def out_def st ba_at_def ba_bars_of_def ba_holds_new)
  next
    case (Some b)
    then have h: "ba_holds b (ba_bucket (ba_timeframe a) (hd cur)) symb cur" using assms(2) by (simp add: ba_at_def)
    then have "cur \<noteq> []" "ob_start b = ba_bucket (ba_timeframe a) t"
      using cross by (simp_all add: ba_holds_def crossed_def)
    with Some h own show ?thesis
      by (simp add: a'_def out_def st ba_at_def ba_bars_of_def ba_holds_update)
  qed
qed

lemma ba_bars_of_Cons: "ba_bars_of symb (r # rs) = ba_bars_of symb [r] @ ba_bars_of symb rs"
  by (simp add: ba_bars_of_def)

lemma ba_run:
  assumes "0 < ba_timeframe a" "ba_at a symb cur" "ba_named a"
  shows "ba_bars_of symb (fst (drive ba_on_tick ts a)) =
      fst (ba_split (ba_timeframe a) symb cur (filter (\<lambda>t. tk_symbol t = symb) ts))
    \<and> ba_at (snd (drive ba_on_tick ts a)) symb
        (snd (ba_split (ba_timeframe a) symb cur (filter (\<lambda>t. tk_symbol t = symb) ts)))
    \<and> ba_timeframe (snd (drive ba_on_tick ts a)) = ba_timeframe a"
  using assms
proof (induction ts arbitrary: a cur)
  case Nil
  then show ?case by (simp add: ba_bars_of_def)
next
  case (Cons t ts)
  let ?a = "snd (ba_on_tick t a)" and ?tf = "ba_timeframe a"
  note step = ba_step [OF Cons.prems, of t]
  have kept: "ba_timeframe ?a = ?tf" "ba_named ?a" "0 < ba_timeframe ?a"
    using step(1) Cons.prems(1) by simp_all
  note IH = Cons.IH [OF kept(3) _ kept(2)]
  have bars: "ba_bars_of symb (fst (ba_on_tick t a) # fst (drive ba_on_tick ts ?a)) =
      ba_bars_of symb [fst (ba_on_tick t a)] @ ba_bars_of symb (fst (drive ba_on_tick ts ?a))"
    by (rule ba_bars_of_Cons)
  show ?case
  proof (cases "tk_symbol t = symb")
    case False
    with step(2) IH [of cur] kept(1) show ?thesis by (simp add: bars)
  next
    case own: True
    show ?thesis
    proof (cases "cur \<noteq> [] \<and> ba_bucket ?tf (hd cur) \<noteq> ba_bucket ?tf t")
      case True
      with step(3) [OF own True] IH [of "[t]"] kept(1) own show ?thesis
        by (cases "ba_split ?tf symb [t] (filter (\<lambda>t. tk_symbol t = symb) ts)") (simp add: bars)
    next
      case False
      with step(4) [OF own False] IH [of "cur @ [t]"] kept(1) own show ?thesis
        by (simp add: bars del: de_Morgan_conj)
    qed
  qed
qed

text \<open>
  Property C22. Whatever ticks of other symbols arrive in between, the bars the aggregator completes for
  a symbol are the summaries (first, highest, lowest and last price, total size, size-weighted price)
  of its ticks cut at each change of time bucket, and flushing gives the summary of the ticks left.
\<close>

theorem ba_bars_summarise_ticks:
  assumes "0 < tf"
  defines "a \<equiv> \<lparr>ba_timeframe = tf, ba_open_bars = Map.empty\<rparr>"
  shows "ba_bars_of symb (fst (drive ba_on_tick ts a)) = fst (ba_split tf symb [] (filter (\<lambda>t. tk_symbol t = symb) ts))
    \<and> fst (ba_flush symb (snd (drive ba_on_tick ts a))) =
       (case snd (ba_split tf symb [] (filter (\<lambda>t. tk_symbol t = symb) ts)) of
          [] \<Rightarrow> None | t # rest \<Rightarrow> Some (ba_summary tf (ba_bucket tf t) symb (t # rest)))"
proof -
  let ?rest = "snd (ba_split tf symb [] (filter (\<lambda>t. tk_symbol t = symb) ts))"
  have run: "ba_bars_of symb (fst (drive ba_on_tick ts a)) = fst (ba_split tf symb [] (filter (\<lambda>t. tk_symbol t = symb) ts))"
      "ba_at (snd (drive ba_on_tick ts a)) symb ?rest" "ba_timeframe (snd (drive ba_on_tick ts a)) = tf"
    using ba_run [of a symb "[]" ts] assms(1) by (simp_all add: a_def ba_at_def ba_named_def)
  show ?thesis
  proof (cases "ba_open_bars (snd (drive ba_on_tick ts a)) symb")
    case None
    with run show ?thesis by (simp add: ba_at_def ba_flush_def)
  next
    case (Some b)
    with run have h: "ba_holds b (ba_bucket tf (hd ?rest)) symb ?rest" by (simp add: ba_at_def)
    then obtain t rest where "?rest = t # rest" by (cases ?rest) (simp_all add: ba_holds_def)
    with Some h run(1,3) show ?thesis by (simp add: ba_flush_def ba_holds_finalize)
  qed
qed

theorem ba_bars_summarise_ticks_witness:
  "length (ba_bars_of ''X'' (fst (drive ba_on_tick
      [uf_tick 0 ''X'' 10, uf_tick 1 ''Y'' 3, uf_tick 59999999 ''X'' 8, uf_tick 60000000 ''X'' 9]
      \<lparr>ba_timeframe = 60, ba_open_bars = Map.empty\<rparr>))) = 1"
  using ba_bars_summarise_ticks [of 60 "''X''"
      "[uf_tick 0 ''X'' 10, uf_tick 1 ''Y'' 3, uf_tick 59999999 ''X'' 8, uf_tick 60000000 ''X'' 9]"]
  by (simp add: uf_tick_def ba_bucket_def)

end
