(* ===== verification/Scanner.thy ===== *)
theory Scanner
  imports Position_Monitor Market_Feed
begin

text \<open>
  Strategies (\<^verbatim>\<open>strategies/base_strategy.py\<close>) and the funding-momentum scanner
  (\<^verbatim>\<open>strategies/funding_momentum_scanner.py\<close>).  The step-size lookup and the equity request are the
  callables of the constructor; the monotonic clock, the wall clock and a fresh correlation id are
  arguments.
\<close>

section \<open>The base strategy\<close>

record strategy =
  st_id :: string
  st_symbols :: "string list"
  st_active :: bool

definition st_attach :: "'h \<Rightarrow> 'h \<Rightarrow> 'h \<Rightarrow> 'h \<Rightarrow> 'h bus \<Rightarrow> 'h bus" where
  "st_attach h_tick h_bar h_book h_exec b =
     eb_subscribe EXECUTION h_exec (eb_subscribe ORDER_BOOK h_book (eb_subscribe BAR h_bar (eb_subscribe TICK h_tick b)))"

definition st_pause :: "'a strategy_scheme \<Rightarrow> 'a strategy_scheme" where
  "st_pause s = s\<lparr>st_active := False\<rparr>"

definition st_resume :: "'a strategy_scheme \<Rightarrow> 'a strategy_scheme" where
  "st_resume s = s\<lparr>st_active := True\<rparr>"

definition st_is_paused :: "'a strategy_scheme \<Rightarrow> bool" where
  "st_is_paused s \<longleftrightarrow> \<not> st_active s"

text \<open>Market events reach an active strategy that follows the symbol; executions reach a paused one too.\<close>

fun st_wants :: "'a strategy_scheme \<Rightarrow> event \<Rightarrow> bool" where
  "st_wants s (TickE t) \<longleftrightarrow> st_active s \<and> tk_symbol t \<in> set (st_symbols s)"
| "st_wants s (BarE b) \<longleftrightarrow> st_active s \<and> br_symbol b \<in> set (st_symbols s)"
| "st_wants s (BookE b) \<longleftrightarrow> st_active s \<and> bk_symbol b \<in> set (st_symbols s)"
| "st_wants s (ExecE x) \<longleftrightarrow> ex_symbol x \<in> set (st_symbols s)"
| "st_wants s _ \<longleftrightarrow> False"

definition st_emit_signal :: "signal_event \<Rightarrow> 'h bus \<Rightarrow> 'h bus" where
  "st_emit_signal sg b = eb_publish (SignalE sg) b"

section \<open>Decisions of the scanner\<close>

record scanner_params =
  sp_max_open :: int
  sp_margin_equity_pct :: real
  sp_leverage :: real
  sp_price_jump_pct :: real

definition compute_lots :: "real \<Rightarrow> real \<Rightarrow> real \<Rightarrow> int" where
  "compute_lots notional price step_size =
     (if price \<le> 0 \<or> step_size \<le> 0 then 0 else \<lfloor>notional / (price * step_size)\<rfloor>)"

definition evaluate_entry :: "real option \<Rightarrow> real option \<Rightarrow> real option \<Rightarrow> real \<Rightarrow> order_side option" where
  "evaluate_entry change now start jump =
     (case (change, now, start) of
        (Some c, Some n, Some s) \<Rightarrow>
          if jump \<le> c then (if n < s then Some BUY else None)
          else if c \<le> - jump then (if s < 0 \<and> s < n then Some SELL else None)
          else None
      | _ \<Rightarrow> None)"

record scanner = strategy +
  sc_params :: scanner_params
  sc_pending :: "(string, real) dict"

definition sc_ttl :: real where "sc_ttl = 10"

definition sc_prune :: "string set \<Rightarrow> real \<Rightarrow> scanner \<Rightarrow> scanner" where
  "sc_prune opens clk sc =
     sc\<lparr>sc_pending := filter (\<lambda>(s, ts). \<not> (s \<in> opens \<or> sc_ttl < clk - ts)) (sc_pending sc)\<rparr>"

definition sc_engaged :: "string set \<Rightarrow> scanner \<Rightarrow> string set" where
  "sc_engaged opens sc = opens \<union> set (dkeys (sc_pending sc))"

record scan_input =
  sn_mono :: real
  sn_now :: datetime
  sn_corr :: string
  sn_step_size :: "string \<Rightarrow> real result"
  sn_equity :: "real result"

definition sc_signal :: "scan_input \<Rightarrow> string \<Rightarrow> string \<Rightarrow> order_side \<Rightarrow> int \<Rightarrow> real \<Rightarrow> real \<Rightarrow> real \<Rightarrow> signal_event" where
  "sc_signal i sid symb sd lots change fnow fstart =
     \<lparr>sg_ts = sn_now i, sg_symbol = symb, sg_strategy = sid, sg_side = sd, sg_strength = 1, sg_qty = lots,
      sg_type = MARKET, sg_limit = None, sg_tif = DAY, sg_corr = sn_corr i, sg_oca = None,
      sg_meta = [(''price_change_pct'', MFloat (py_round change 3)), (''funding_now'', MFloat (py_round fnow 6)),
        (''funding_window_start'', MFloat (py_round fstart 6))]\<rparr>"

text \<open>The size of an entry: the lookups in the code's order, then whole lots of the leveraged margin.\<close>

definition sc_price :: "universe_feed \<Rightarrow> bar_event \<Rightarrow> real" where
  "sc_price feed bar =
     (case uf_latest_price feed (br_symbol bar) of
        None \<Rightarrow> br_close bar | Some p \<Rightarrow> if p = 0 then br_close bar else p)"

definition sc_notional :: "scanner_params \<Rightarrow> real \<Rightarrow> real" where
  "sc_notional ps equity = equity * sp_margin_equity_pct ps / 100 * sp_leverage ps"

definition sc_lots :: "scan_input \<Rightarrow> universe_feed \<Rightarrow> bar_event \<Rightarrow> scanner_params \<Rightarrow> int result" where
  "sc_lots i feed bar ps =
     and_then (sn_step_size i (br_symbol bar)) (\<lambda>step.
       and_then (sn_equity i) (\<lambda>equity.
         Inr (compute_lots (sc_notional ps equity) (sc_price feed bar) step)))"

text \<open>\<^verbatim>\<open>on_bar\<close>: returns the signal emitted, if any, or the exception raised.\<close>

definition sc_on_bar ::
  "scan_input \<Rightarrow> monitor \<Rightarrow> universe_feed \<Rightarrow> bar_event \<Rightarrow> scanner \<times> 'h bus
   \<Rightarrow> signal_event option result \<times> (scanner \<times> 'h bus)" where
  "sc_on_bar i mon feed bar scb = (case scb of (sc0, b) \<Rightarrow>
     (let symb = br_symbol bar; opens = pm_open_symbols mon; sc = sc_prune opens (sn_mono i) sc0 in
      if symb \<in> sc_engaged opens sc then (Inr None, (sc, b))
      else if sp_max_open (sc_params sc) \<le> int (card (sc_engaged opens sc)) then (Inr None, (sc, b))
      else
        let change = uf_price_change_pct feed symb;
            funding = uf_funding_trend feed symb;
            fnow = map_option fst funding;
            fstart = map_option snd funding
        in case evaluate_entry change fnow fstart (sp_price_jump_pct (sc_params sc)) of
             None \<Rightarrow> (Inr None, (sc, b))
           | Some sd \<Rightarrow>
               (case sc_lots i feed bar (sc_params sc) of
                  Inl e \<Rightarrow> (Inl e, (sc, b))
                | Inr lots \<Rightarrow>
                    if lots \<le> 0 then (Inr None, (sc, b))
                    else
                      let sg = sc_signal i (st_id sc) symb sd lots (the change) (the fnow) (the fstart)
                      in (Inr (Some sg),
                          (sc\<lparr>sc_pending := dset symb (sn_mono i) (sc_pending sc)\<rparr>, st_emit_signal sg b)))))"

text \<open>The bus handler: a paused scanner and foreign symbols are skipped.\<close>

definition sc_dispatch_bar ::
  "scan_input \<Rightarrow> monitor \<Rightarrow> universe_feed \<Rightarrow> bar_event \<Rightarrow> scanner \<times> 'h bus
   \<Rightarrow> signal_event option result \<times> (scanner \<times> 'h bus)" where
  "sc_dispatch_bar i mon feed bar scb =
     (if st_wants (fst scb) (BarE bar) then sc_on_bar i mon feed bar scb else (Inr None, scb))"

section \<open>Sizing\<close>

lemma compute_lots_bounds:
  assumes "0 < price" "0 < step_size"
  shows "of_int (compute_lots notional price step_size) * (price * step_size) \<le> notional"
    and "notional < (of_int (compute_lots notional price step_size) + 1) * (price * step_size)"
  using assms floor_divide_mult_le [of "price * step_size" notional] floor_divide_mult_gt [of "price * step_size" notional]
  by (simp_all add: compute_lots_def)

lemma compute_lots_pos: "0 < compute_lots notional price step_size \<Longrightarrow> 0 < price \<and> 0 < step_size"
  by (auto simp: compute_lots_def split: if_splits)

text \<open>How a bar turns into a signal.\<close>

definition sc_setup :: "universe_feed \<Rightarrow> scanner_params \<Rightarrow> string \<Rightarrow> order_side option" where
  "sc_setup feed ps symb =
     evaluate_entry (uf_price_change_pct feed symb) (map_option fst (uf_funding_trend feed symb))
       (map_option snd (uf_funding_trend feed symb)) (sp_price_jump_pct ps)"

lemma sc_prune_params [simp]:
  "sc_params (sc_prune opens clk sc) = sc_params sc" "st_id (sc_prune opens clk sc) = st_id sc"
  by (simp_all add: sc_prune_def)

lemma sc_on_bar_cases:
  defines "sc \<equiv> \<lambda>i mon sc0. sc_prune (pm_open_symbols mon) (sn_mono i) sc0"
  obtains
    (quiet) "snd (sc_on_bar i mon feed bar (sc0, b)) = (sc i mon sc0, b)"
      "\<forall>sg. fst (sc_on_bar i mon feed bar (sc0, b)) \<noteq> Inr (Some sg)"
  | (entry) sd lots sg where "br_symbol bar \<notin> sc_engaged (pm_open_symbols mon) (sc i mon sc0)"
      "int (card (sc_engaged (pm_open_symbols mon) (sc i mon sc0))) < sp_max_open (sc_params sc0)"
      "sc_setup feed (sc_params sc0) (br_symbol bar) = Some sd" "sc_lots i feed bar (sc_params sc0) = Inr lots" "0 < lots"
      "sg_side sg = sd" "sg_qty sg = lots" "sg_symbol sg = br_symbol bar" "sg_type sg = MARKET"
      "sg_tif sg = DAY" "sg_limit sg = None" "sg_oca sg = None"
      "sc_on_bar i mon feed bar (sc0, b) = (Inr (Some sg),
         ((sc i mon sc0)\<lparr>sc_pending := dset (br_symbol bar) (sn_mono i) (sc_pending (sc i mon sc0))\<rparr>, st_emit_signal sg b))"
proof (cases "br_symbol bar \<in> sc_engaged (pm_open_symbols mon) (sc i mon sc0)
    \<or> sp_max_open (sc_params sc0) \<le> int (card (sc_engaged (pm_open_symbols mon) (sc i mon sc0)))")
  case True
  then show ?thesis by (intro quiet) (auto simp: sc_on_bar_def sc_def Let_def)
next
  case free: False
  have f: "br_symbol bar \<notin> sc_engaged (pm_open_symbols mon) (sc i mon sc0)"
    "\<not> sp_max_open (sc_params sc0) \<le> int (card (sc_engaged (pm_open_symbols mon) (sc i mon sc0)))"
    using free by simp_all
  show ?thesis
  proof (cases "sc_setup feed (sc_params sc0) (br_symbol bar)")
    case None
    with f show ?thesis by (intro quiet) (simp_all add: sc_on_bar_def sc_def Let_def sc_setup_def)
  next
    case sd: (Some sd)
    show ?thesis
    proof (cases "sc_lots i feed bar (sc_params sc0)")
      case (Inl e)
      with f sd show ?thesis by (intro quiet) (simp_all add: sc_on_bar_def sc_def Let_def sc_setup_def)
    next
      case lots: (Inr lots)
      show ?thesis
      proof (cases "lots \<le> 0")
        case True
        with f sd lots show ?thesis by (intro quiet) (simp_all add: sc_on_bar_def sc_def Let_def sc_setup_def)
      next
        case False
        let ?sg = "sc_signal i (st_id sc0) (br_symbol bar) sd lots (the (uf_price_change_pct feed (br_symbol bar)))
          (the (map_option fst (uf_funding_trend feed (br_symbol bar)))) (the (map_option snd (uf_funding_trend feed (br_symbol bar))))"
        have "sc_on_bar i mon feed bar (sc0, b) = (Inr (Some ?sg),
         ((sc i mon sc0)\<lparr>sc_pending := dset (br_symbol bar) (sn_mono i) (sc_pending (sc i mon sc0))\<rparr>, st_emit_signal ?sg b))"
          using f sd lots False by (simp add: sc_on_bar_def sc_def Let_def sc_setup_def)
        with f sd lots False show ?thesis
          by (intro entry [of sd lots ?sg]) (simp_all add: sc_signal_def)
      qed
    qed
  qed
qed

text \<open>The tests of \<^verbatim>\<open>on_bar\<close>, one by one, in terms of what the code reads.\<close>

lemma sc_engaged_after_prune:
  "sc_engaged opens (sc_prune opens clk sc) = opens \<union> {s. \<exists>ts. (s, ts) \<in> set (sc_pending sc) \<and> clk - ts \<le> 10}"
  by (force simp: sc_engaged_def sc_prune_def sc_ttl_def dkeys_def)

lemma evaluate_entry_iff:
  "evaluate_entry change now start jump = Some sd \<longleftrightarrow>
     (\<exists>c n s. change = Some c \<and> now = Some n \<and> start = Some s
        \<and> (sd = BUY \<and> jump \<le> c \<and> n < s \<or> sd = SELL \<and> c < jump \<and> c \<le> - jump \<and> s < 0 \<and> s < n))"
  by (auto simp: evaluate_entry_def split: option.splits if_splits)

lemma compute_lots_iff:
  assumes "0 < q"
  shows "compute_lots notional price step_size = q \<longleftrightarrow> 0 < price \<and> 0 < step_size
    \<and> of_int q * (price * step_size) \<le> notional \<and> notional < of_int (q + 1) * (price * step_size)"
proof (cases "0 < price \<and> 0 < step_size")
  case True
  then have "0 < price * step_size" by simp
  with True show ?thesis
    by (auto simp: compute_lots_def floor_eq_iff pos_le_divide_eq pos_divide_less_eq)
next
  case False
  with assms show ?thesis by (auto simp: compute_lots_def)
qed

lemma sc_price_iff:
  "sc_price feed bar = price \<longleftrightarrow>
     (if uf_latest_price feed (br_symbol bar) \<in> {None, Some 0} then price = br_close bar
      else uf_latest_price feed (br_symbol bar) = Some price)"
  by (auto simp: sc_price_def split: option.split)

lemma sc_on_bar_signal_iff:
  "fst (sc_on_bar i mon feed bar (sc0, b)) = Inr (Some sg) \<longleftrightarrow>
     (let symb = br_symbol bar; engaged = sc_engaged (pm_open_symbols mon) (sc_prune (pm_open_symbols mon) (sn_mono i) sc0) in
      symb \<notin> engaged \<and> int (card engaged) < sp_max_open (sc_params sc0)
      \<and> (\<exists>sd lots. sc_setup feed (sc_params sc0) symb = Some sd \<and> sc_lots i feed bar (sc_params sc0) = Inr lots \<and> 0 < lots
          \<and> sg = sc_signal i (st_id sc0) symb sd lots (the (uf_price_change_pct feed symb))
              (the (map_option fst (uf_funding_trend feed symb))) (the (map_option snd (uf_funding_trend feed symb)))))"
  by (auto simp: sc_on_bar_def sc_setup_def Let_def split: option.splits sum.splits if_splits)

text \<open>
  Property C23. The scanner signals a bar exactly when the symbol is not held and has no pending entry of the
  last ten seconds, the held and the freshly pending symbols together are fewer than the maximum, and
  there is a setup: a rise by the configured jump with funding below where it was (buy), or a fall by it
  with funding that was negative and has risen (sell).  The signal is at market for the whole lots that
  the leveraged share of equity buys at the feed's latest price (the bar's close where that is missing
  or zero): at least one, within that notional, and less than one lot below it.
\<close>

theorem sc_signal_within_budget:
  fixes i :: scan_input and mon :: monitor and feed :: universe_feed and bar :: bar_event and sc0 :: scanner
  defines "symb \<equiv> br_symbol bar" and "opens \<equiv> pm_open_symbols mon" and "ps \<equiv> sc_params sc0"
  defines "fresh \<equiv> {s. \<exists>ts. (s, ts) \<in> set (sc_pending sc0) \<and> sn_mono i - ts \<le> 10}"
  shows "fst (sc_on_bar i mon feed bar (sc0, b)) = Inr (Some sg) \<longleftrightarrow>
    symb \<notin> opens \<and> symb \<notin> fresh \<and> int (card (opens \<union> fresh)) < sp_max_open ps
    \<and> (\<exists>change fnow fstart step equity price.
        uf_price_change_pct feed symb = Some change \<and> uf_funding_trend feed symb = Some (fnow, fstart)
        \<and> (sg_side sg = BUY \<and> sp_price_jump_pct ps \<le> change \<and> fnow < fstart
          \<or> sg_side sg = SELL \<and> change < sp_price_jump_pct ps \<and> change \<le> - sp_price_jump_pct ps \<and> fstart < 0 \<and> fstart < fnow)
        \<and> sn_step_size i symb = Inr step \<and> sn_equity i = Inr equity \<and> 0 < step \<and> 0 < price
        \<and> (if uf_latest_price feed symb \<in> {None, Some 0} then price = br_close bar
           else uf_latest_price feed symb = Some price)
        \<and> 0 < sg_qty sg
        \<and> of_int (sg_qty sg) * (price * step) \<le> equity * sp_margin_equity_pct ps / 100 * sp_leverage ps
        \<and> equity * sp_margin_equity_pct ps / 100 * sp_leverage ps < of_int (sg_qty sg + 1) * (price * step)
        \<and> sg = sc_signal i (st_id sc0) symb (sg_side sg) (sg_qty sg) change fnow fstart)"
    (is "?signal \<longleftrightarrow> ?free \<and> ?new \<and> ?room \<and> ?order")
proof -
  let ?engaged = "sc_engaged opens (sc_prune opens (sn_mono i) sc0)"
  let ?made = "\<exists>sd lots. sc_setup feed ps symb = Some sd \<and> sc_lots i feed bar ps = Inr lots \<and> 0 < lots
    \<and> sg = sc_signal i (st_id sc0) symb sd lots (the (uf_price_change_pct feed symb))
              (the (map_option fst (uf_funding_trend feed symb))) (the (map_option snd (uf_funding_trend feed symb)))"
  have engaged: "?engaged = opens \<union> fresh" unfolding fresh_def by (rule sc_engaged_after_prune)
  have made: "?made \<longleftrightarrow> ?order"
  proof
    assume ?made
    then obtain sd lots where made: "sc_setup feed ps symb = Some sd" "sc_lots i feed bar ps = Inr lots" "0 < lots"
      "sg = sc_signal i (st_id sc0) symb sd lots (the (uf_price_change_pct feed symb))
              (the (map_option fst (uf_funding_trend feed symb))) (the (map_option snd (uf_funding_trend feed symb)))"
      by blast
    obtain step equity where se: "sn_step_size i symb = Inr step" "sn_equity i = Inr equity"
        "compute_lots (sc_notional ps equity) (sc_price feed bar) step = lots"
      using made(2) by (auto simp: sc_lots_def and_then_Inr_iff symb_def)
    have sg: "sg_side sg = sd" "sg_qty sg = lots" using made(4) by (simp_all add: sc_signal_def)
    from made(1) obtain c n s where found: "uf_price_change_pct feed symb = Some c" "uf_funding_trend feed symb = Some (n, s)"
        "sd = BUY \<and> sp_price_jump_pct ps \<le> c \<and> n < s
          \<or> sd = SELL \<and> c < sp_price_jump_pct ps \<and> c \<le> - sp_price_jump_pct ps \<and> s < 0 \<and> s < n"
      unfolding sc_setup_def evaluate_entry_iff by auto
    have sent: "sg = sc_signal i (st_id sc0) symb (sg_side sg) (sg_qty sg) c n s"
      unfolding sg using made(4) by (simp only: found option.map option.sel fst_conv snd_conv)
    note bounds = se(3) [unfolded compute_lots_iff [OF made(3)] sc_notional_def]
    note price = sc_price_iff [THEN iffD1, OF refl, of feed bar, folded symb_def]
    show ?order
      by (rule exI [of _ c], rule exI [of _ n], rule exI [of _ s], rule exI [of _ step], rule exI [of _ equity],
          rule exI [of _ "sc_price feed bar"], intro conjI)
        (use found se(1,2) bounds price made(3) sg sent in \<open>(simp only: sg | assumption | blast)+\<close>)
  next
    assume ?order
    then obtain c n s step equity price where o: "uf_price_change_pct feed symb = Some c" "uf_funding_trend feed symb = Some (n, s)"
        "sg_side sg = BUY \<and> sp_price_jump_pct ps \<le> c \<and> n < s
          \<or> sg_side sg = SELL \<and> c < sp_price_jump_pct ps \<and> c \<le> - sp_price_jump_pct ps \<and> s < 0 \<and> s < n"
        "sn_step_size i symb = Inr step" "sn_equity i = Inr equity" "0 < step" "0 < price"
        "if uf_latest_price feed symb \<in> {None, Some 0} then price = br_close bar else uf_latest_price feed symb = Some price"
        "0 < sg_qty sg" "of_int (sg_qty sg) * (price * step) \<le> sc_notional ps equity"
        "sc_notional ps equity < of_int (sg_qty sg + 1) * (price * step)"
        "sg = sc_signal i (st_id sc0) symb (sg_side sg) (sg_qty sg) c n s"
      unfolding sc_notional_def by blast
    have "sc_price feed bar = price" using o(8) unfolding sc_price_iff symb_def .
    moreover have "compute_lots (sc_notional ps equity) price step = sg_qty sg"
      unfolding compute_lots_iff [OF o(9)] using o(6,7,10,11) by simp
    ultimately have "sc_lots i feed bar ps = Inr (sg_qty sg)"
      using o(4,5) by (simp add: sc_lots_def and_then_Inr_iff symb_def)
    moreover have "sc_setup feed ps symb = Some (sg_side sg)"
      using o(1-3) by (simp add: sc_setup_def evaluate_entry_iff)
    ultimately show ?made using o(1,2,9,12) by auto
  qed
  have "?signal \<longleftrightarrow> symb \<notin> ?engaged \<and> int (card ?engaged) < sp_max_open ps \<and> ?made"
    unfolding sc_on_bar_signal_iff Let_def symb_def opens_def ps_def ..
  then show ?thesis unfolding made engaged by auto
qed

section \<open>No overshoot between two polls\<close>

type_synonym scan_step = "scan_input \<times> universe_feed \<times> bar_event"

definition sc_step :: "monitor \<Rightarrow> scan_step \<Rightarrow> scanner \<times> 'h bus \<Rightarrow> signal_event option result \<times> (scanner \<times> 'h bus)" where
  "sc_step mon s scb = (case s of (i, feed, bar) \<Rightarrow> sc_on_bar i mon feed bar scb)"

definition sc_signalled :: "signal_event option result list \<Rightarrow> string list" where
  "sc_signalled rs = List.map_filter (\<lambda>r. case r of Inr (Some sg) \<Rightarrow> Some (sg_symbol sg) | _ \<Rightarrow> None) rs"

lemma sc_prune_engaged:
  assumes "\<forall>(s, ts) \<in> set (sc_pending sc). clk - ts \<le> sc_ttl"
  shows "sc_engaged opens (sc_prune opens clk sc) = sc_engaged opens sc"
  using assms by (fastforce simp: sc_engaged_def sc_prune_def dkeys_def)

lemma dset_values: "(k', v') \<in> set (dset k v d) \<Longrightarrow> (k', v') \<in> set d \<or> v' = v"
  by (induction d) (auto split: if_splits)

lemma sc_engaged_insert:
  "sc_engaged opens (sc\<lparr>sc_pending := dset k v (sc_pending sc)\<rparr>) = insert k (sc_engaged opens sc)"
  by (auto simp: sc_engaged_def set_dkeys)

lemma sc_run_count:
  assumes "\<forall>(i, feed, bar) \<in> set steps. t \<le> sn_mono i \<and> sn_mono i \<le> t + sc_ttl"
    and "\<forall>(s, ts) \<in> set (sc_pending sc). t \<le> ts" "finite (pm_open_symbols mon)"
    and "int (card (sc_engaged (pm_open_symbols mon) sc)) \<le> sp_max_open (sc_params sc)"
  shows "int (card (sc_engaged (pm_open_symbols mon) sc) + length (sc_signalled (fst (drive (sc_step mon) steps (sc, b)))))
      \<le> sp_max_open (sc_params sc)
    \<and> distinct (sc_signalled (fst (drive (sc_step mon) steps (sc, b))))
    \<and> set (sc_signalled (fst (drive (sc_step mon) steps (sc, b)))) \<inter> sc_engaged (pm_open_symbols mon) sc = {}"
  using assms
proof (induction steps arbitrary: sc b)
  case Nil
  then show ?case by (simp add: sc_signalled_def map_filter_simps)
next
  case (Cons s steps)
  obtain i feed bar where s: "s = (i, feed, bar)" by (cases s)
  let ?opens = "pm_open_symbols mon" and ?r = "sc_on_bar i mon feed bar (sc, b)"
  let ?sc = "sc_prune ?opens (sn_mono i) sc"
  have times: "t \<le> sn_mono i" "sn_mono i \<le> t + sc_ttl" using Cons.prems(1) by (auto simp: s)
  have "\<forall>(k, ts) \<in> set (sc_pending sc). sn_mono i - ts \<le> sc_ttl"
    using Cons.prems(2) times(2) by fastforce
  then have eng: "sc_engaged ?opens ?sc = sc_engaged ?opens sc" by (rule sc_prune_engaged)
  have pend: "\<forall>(k, ts) \<in> set (sc_pending ?sc). t \<le> ts"
    using Cons.prems(2) by (auto simp: sc_prune_def)
  show ?case
  proof (rule sc_on_bar_cases [of i mon feed bar sc b])
    assume q: "snd ?r = (?sc, b)" "\<forall>sg. fst ?r \<noteq> Inr (Some sg)"
    have none: "(case fst ?r of Inr (Some sg) \<Rightarrow> Some (sg_symbol sg) | _ \<Rightarrow> None) = None"
      using q(2) by (auto split: sum.split option.split)
    have "sc_signalled (fst (drive (sc_step mon) (s # steps) (sc, b))) =
        sc_signalled (fst (drive (sc_step mon) steps (?sc, b)))"
      using q none by (simp add: s sc_step_def sc_signalled_def map_filter_simps)
    with Cons.IH [of ?sc b] Cons.prems eng pend show ?thesis by auto
  next
    fix sd lots sg
    assume new: "br_symbol bar \<notin> sc_engaged ?opens ?sc"
      and room: "int (card (sc_engaged ?opens ?sc)) < sp_max_open (sc_params sc)"
      and sym: "sg_symbol sg = br_symbol bar"
      and r: "?r = (Inr (Some sg), (?sc\<lparr>sc_pending := dset (br_symbol bar) (sn_mono i) (sc_pending ?sc)\<rparr>, st_emit_signal sg b))"
    let ?sc' = "?sc\<lparr>sc_pending := dset (br_symbol bar) (sn_mono i) (sc_pending ?sc)\<rparr>"
    have eng': "sc_engaged ?opens ?sc' = insert (br_symbol bar) (sc_engaged ?opens sc)"
      using eng sc_engaged_insert [where opens = ?opens and sc = ?sc] by simp
    have fin: "finite (sc_engaged ?opens sc)" using Cons.prems(3) by (simp add: sc_engaged_def)
    then have card: "card (sc_engaged ?opens ?sc') = Suc (card (sc_engaged ?opens sc))"
      using new eng eng' by simp
    have pend': "\<forall>(k, ts) \<in> set (sc_pending ?sc'). t \<le> ts"
      using pend times(1) dset_values [of _ _ "br_symbol bar" "sn_mono i" "sc_pending ?sc"] by fastforce
    have sig: "sc_signalled (fst (drive (sc_step mon) (s # steps) (sc, b))) =
        br_symbol bar # sc_signalled (fst (drive (sc_step mon) steps (?sc', st_emit_signal sg b)))"
      using r sym by (simp add: s sc_step_def sc_signalled_def map_filter_simps)
    have "int (card (sc_engaged ?opens ?sc')) \<le> sp_max_open (sc_params ?sc')"
      using room card eng by simp
    with Cons.IH [of ?sc' "st_emit_signal sg b"] Cons.prems(1,3) pend'
    have IH: "int (card (sc_engaged ?opens ?sc') + length (sc_signalled (fst (drive (sc_step mon) steps (?sc', st_emit_signal sg b)))))
        \<le> sp_max_open (sc_params ?sc')
      \<and> distinct (sc_signalled (fst (drive (sc_step mon) steps (?sc', st_emit_signal sg b))))
      \<and> set (sc_signalled (fst (drive (sc_step mon) steps (?sc', st_emit_signal sg b)))) \<inter> sc_engaged ?opens ?sc' = {}"
      by auto
    then show ?thesis using new eng eng' card unfolding sig by (auto simp del: drive_Cons)
  qed
qed

text \<open>
  Between two polls of the position monitor, within the life of a pending entry, however
  many bars close, the scanner signals each symbol at most once, none that is held, and the positions
  held plus the entries signalled never exceed the maximum number of open positions.
\<close>

theorem sc_never_overshoots:
  assumes "\<forall>(i, feed, bar) \<in> set steps. t \<le> sn_mono i \<and> sn_mono i \<le> t + sc_ttl" "sc_pending sc = []"
    and "int (card (pm_open_symbols mon)) \<le> sp_max_open (sc_params sc)"
  shows "int (card (pm_open_symbols mon) + length (sc_signalled (fst (drive (sc_step mon) steps (sc, b)))))
      \<le> sp_max_open (sc_params sc)
    \<and> distinct (sc_signalled (fst (drive (sc_step mon) steps (sc, b))))
    \<and> set (sc_signalled (fst (drive (sc_step mon) steps (sc, b)))) \<inter> pm_open_symbols mon = {}"
  using sc_run_count [OF assms(1), of sc mon b] assms(2,3)
  by (simp add: sc_engaged_def dkeys_def pm_open_symbols_def)

definition sample_feed :: universe_feed where
  "sample_feed = (uf_init 10 10)\<lparr>uf_price_history := (\<lambda>_. [(0, 100), (10, 110)]),
     uf_funding_history := (\<lambda>_. [(0, 1), (10, -1)]), uf_latest := (\<lambda>_. Some 110)\<rparr>"

definition sample_scan :: "real \<Rightarrow> string \<Rightarrow> scan_step" where
  "sample_scan t symb =
     (\<lparr>sn_mono = t, sn_now = 0, sn_corr = ''c'', sn_step_size = (\<lambda>_. Inr 1), sn_equity = Inr 1000\<rparr>, sample_feed,
      \<lparr>br_ts = 0, br_symbol = symb, br_timeframe = 60, br_open = 1, br_high = 1, br_low = 1, br_close = 1,
       br_volume = 0, br_vwap = 1\<rparr>)"

definition sample_scanner :: scanner where
  "sample_scanner = \<lparr>st_id = ''scan'', st_symbols = [''X'', ''Y'', ''Z''], st_active = True,
     sc_params = \<lparr>sp_max_open = 2, sp_margin_equity_pct = 20, sp_leverage = 5, sp_price_jump_pct = 5\<rparr>, sc_pending = []\<rparr>"

theorem sc_never_overshoots_witness:
  "length (sc_signalled (fst (drive (sc_step pm_init)
      [sample_scan 1 ''X'', sample_scan 1 ''X'', sample_scan 2 ''Y'', sample_scan 3 ''Z''] (sample_scanner, eb_init 9 :: nat bus)))) \<le> 2"
proof -
  have "\<forall>(i, feed, bar) \<in> set [sample_scan 1 ''X'', sample_scan 1 ''X'', sample_scan 2 ''Y'', sample_scan 3 ''Z''].
      0 \<le> sn_mono i \<and> sn_mono i \<le> 0 + sc_ttl"
    by (simp add: sample_scan_def sc_ttl_def)
  from sc_never_overshoots [OF this, of sample_scanner pm_init "eb_init 9 :: nat bus"]
  show ?thesis by (simp add: sample_scanner_def pm_open_symbols_def pm_init_def dkeys_def del: drive_Cons)
qed

theorem sc_signal_within_budget_witness:
  "fst (case sample_scan 1 ''X'' of (i, feed, bar) \<Rightarrow>
      sc_on_bar i pm_init feed bar (sample_scanner, eb_init 9 :: nat bus))
    = Inr (Some (sc_signal (fst (sample_scan 1 ''X'')) ''scan'' ''X'' BUY 9 10 (-1) 1))"
proof -
  have most: "uf_most_of 10 = 9" by (simp add: uf_most_of_def round_half_even_def Let_def)
  obtain i feed bar where s: "sample_scan 1 ''X'' = (i, feed, bar)" by (cases "sample_scan 1 ''X''")
  have "fst (sc_on_bar i pm_init feed bar (sample_scanner, eb_init 9 :: nat bus)) =
      Inr (Some (sc_signal i ''scan'' ''X'' BUY 9 10 (-1) 1))"
    using s by (intro sc_signal_within_budget [THEN iffD2])
      (auto simp: sample_scan_def sample_scanner_def pm_open_symbols_def pm_init_def dkeys_def sample_feed_def uf_init_def
        uf_price_change_pct_def uf_change_pct_def uf_funding_trend_def uf_trend_def uf_latest_price_def most sc_signal_def)
  with s show ?thesis by simp
qed

end
