(* ===== verification/Market_Simulator.thy ===== *)
theory Market_Simulator
  imports Order_Manager
begin

text \<open>
  The simulated broker of the backtester (\<^verbatim>\<open>backtest/market_simulator.py\<close>): pending orders, fills
  against a bar, positions and equity.  Square roots and logarithms are those of the reals; a
  default dictionary is a function.
\<close>

section \<open>State\<close>

record impact_params =
  ip_coefficient :: real
  ip_spread_fraction :: real
  ip_max_participation :: real

definition ip_default :: impact_params where
  "ip_default = \<lparr>ip_coefficient = 1 / 10, ip_spread_fraction = 1 / 2, ip_max_participation = 1 / 10\<rparr>"

record trade_record =
  tr_symbol :: string
  tr_side :: order_side
  tr_entry_ts :: datetime
  tr_exit_ts :: datetime
  tr_qty :: int
  tr_pnl :: real

record sim_trade =
  sx_entry_ts :: datetime
  sx_side :: order_side
  sx_peak :: int
  sx_pnl :: real

record pending_order =
  po_request :: broker_request
  po_expected :: real
  po_remaining :: int
  po_bars_alive :: nat

record simulator =
  ms_equity :: real
  ms_multipliers :: "string \<rightharpoonup> real"
  ms_impact :: impact_params
  ms_commission :: real
  ms_positions :: "(string, int) dict"
  ms_avg_entry :: "string \<Rightarrow> real"
  ms_pending :: "string \<Rightarrow> pending_order list"
  ms_last_bar :: "string \<rightharpoonup> bar_event"
  ms_volumes :: "string \<Rightarrow> real list"
  ms_returns :: "string \<Rightarrow> real list"
  ms_events :: "broker_event list"
  ms_connected :: bool
  ms_fills :: "exec_event list"
  ms_open_trades :: "string \<rightharpoonup> sim_trade"
  ms_trades :: "trade_record list"

definition ms_init :: "real \<Rightarrow> (string \<rightharpoonup> real) \<Rightarrow> impact_params \<Rightarrow> real \<Rightarrow> simulator" where
  "ms_init equity mults ip commission =
     \<lparr>ms_equity = equity, ms_multipliers = mults, ms_impact = ip, ms_commission = commission, ms_positions = [],
      ms_avg_entry = (\<lambda>_. 0), ms_pending = (\<lambda>_. []), ms_last_bar = Map.empty, ms_volumes = (\<lambda>_. []),
      ms_returns = (\<lambda>_. []), ms_events = [], ms_connected = False, ms_fills = [], ms_open_trades = Map.empty,
      ms_trades = []\<rparr>"

section \<open>The broker interface\<close>

definition ms_place_order :: "datetime \<Rightarrow> broker_request \<Rightarrow> simulator \<Rightarrow> unit result \<times> simulator" where
  "ms_place_order now rq ms =
     (let expected = (case ms_last_bar ms (rq_symbol rq) of None \<Rightarrow> 0 | Some bar \<Rightarrow> br_close bar);
          pending = \<lparr>po_request = rq, po_expected = expected, po_remaining = rq_qty rq, po_bars_alive = 0\<rparr>
      in (Inr (), ms\<lparr>ms_pending := (ms_pending ms)(rq_symbol rq := ms_pending ms (rq_symbol rq) @ [pending]),
           ms_events := ms_events ms @ [AckB \<lparr>ak_ts = now, ak_order_id = rq_id rq, ak_corr = rq_corr rq,
             ak_symbol = rq_symbol rq, ak_status = ACKNOWLEDGED, ak_broker_id = None\<rparr>]\<rparr>))"

definition ms_cancel_order :: "string \<Rightarrow> simulator \<Rightarrow> unit result \<times> simulator" where
  "ms_cancel_order oid ms =
     (Inr (), ms\<lparr>ms_pending := (\<lambda>s. filter (\<lambda>p. rq_id (po_request p) \<noteq> oid) (ms_pending ms s))\<rparr>)"

definition ms_cancel_all :: "simulator \<Rightarrow> unit result \<times> simulator" where
  "ms_cancel_all ms = (Inr (), ms\<lparr>ms_pending := (\<lambda>_. [])\<rparr>)"

definition ms_venue :: "datetime \<Rightarrow> simulator venue" where
  "ms_venue now = \<lparr>vn_place = ms_place_order now, vn_cancel = ms_cancel_order, vn_cancel_all = ms_cancel_all\<rparr>"

definition ms_get_account_equity :: "simulator \<Rightarrow> real" where
  "ms_get_account_equity ms = ms_equity ms"

definition ms_get_positions :: "simulator \<Rightarrow> (string, int) dict" where
  "ms_get_positions ms = ms_positions ms"

definition ms_get_margin_usage :: "simulator \<Rightarrow> real \<times> real" where
  "ms_get_margin_usage ms = (0, 0)"

definition ms_is_connected :: "simulator \<Rightarrow> bool" where "ms_is_connected ms = ms_connected ms"

definition ms_reconcile_state :: "simulator \<Rightarrow> (string, int) dict" where
  "ms_reconcile_state ms = ms_positions ms"

definition ms_connect :: "simulator \<Rightarrow> simulator" where "ms_connect ms = ms\<lparr>ms_connected := True\<rparr>"

definition ms_disconnect :: "simulator \<Rightarrow> simulator" where "ms_disconnect ms = ms\<lparr>ms_connected := False\<rparr>"

section \<open>Prices and quantities of a fill\<close>

definition sqrt_market_impact_bps :: "real \<Rightarrow> real \<Rightarrow> real \<Rightarrow> real \<Rightarrow> real" where
  "sqrt_market_impact_bps quantity bar_volume vol_pct coefficient =
     (if bar_volume \<le> 0 then 0
      else coefficient * (vol_pct / 100) * sqrt (max (quantity / bar_volume) 0))"

definition ms_realized_vol_pct :: "string \<Rightarrow> simulator \<Rightarrow> real" where
  "ms_realized_vol_pct symb ms =
     (let rs = ms_returns ms symb in
      if length rs < 2 then 1
      else
        let m = sum_list rs / real (length rs);
            variance = sum_list (map (\<lambda>r. (r - m)\<^sup>2) rs) / (real (length rs) - 1)
        in sqrt variance * sqrt 252 * 100)"

definition ms_avg_volume :: "string \<Rightarrow> simulator \<Rightarrow> real" where
  "ms_avg_volume symb ms =
     (let vs = ms_volumes ms symb in if vs = [] then 0 else sum_list vs / real (length vs))"

definition ms_determine_fill_quantity :: "pending_order \<Rightarrow> bar_event \<Rightarrow> simulator \<Rightarrow> int" where
  "ms_determine_fill_quantity po bar ms =
     (let rq = po_request po; part = py_int (br_volume bar * ip_max_participation (ms_impact ms)) in
      case rq_type rq of
        MARKET \<Rightarrow> min (po_remaining po) (max part (po_remaining po))
      | LIMIT \<Rightarrow>
          (let limit = (case rq_limit rq of None \<Rightarrow> 0 | Some x \<Rightarrow> x) in
           if br_low bar \<le> limit \<and> limit \<le> br_high bar then min (po_remaining po) (max part 1) else 0)
      | STOP_LIMIT \<Rightarrow>
          (let limit = (case rq_limit rq of None \<Rightarrow> 0 | Some x \<Rightarrow> x) in
           if br_low bar \<le> limit \<and> limit \<le> br_high bar then min (po_remaining po) (max part 1) else 0)
      | _ \<Rightarrow> po_remaining po)"

definition ms_reference_price :: "broker_request \<Rightarrow> bar_event \<Rightarrow> real" where
  "ms_reference_price rq bar =
     (if rq_type rq = LIMIT
      then (case rq_limit rq of None \<Rightarrow> br_close bar | Some x \<Rightarrow> if x = 0 then br_close bar else x)
      else br_open bar)"

definition ms_compute_fill_price :: "pending_order \<Rightarrow> bar_event \<Rightarrow> int \<Rightarrow> simulator \<Rightarrow> real" where
  "ms_compute_fill_price po bar fq ms =
     (let rq = po_request po;
          sign = (if rq_side rq = BUY then 1 else -1);
          reference = ms_reference_price rq bar;
          spread_cost = max (br_high bar - br_low bar) (1 / 10 ^ 9) * ip_spread_fraction (ms_impact ms) * sign;
          impact = sqrt_market_impact_bps (of_int fq) (max (br_volume bar) 1)
                     (ms_realized_vol_pct (br_symbol bar) ms) (ip_coefficient (ms_impact ms))
      in reference + spread_cost + reference * impact * sign)"

section \<open>Applying a fill\<close>

definition ms_multiplier :: "string \<Rightarrow> simulator \<Rightarrow> real" where
  "ms_multiplier symb ms = (case ms_multipliers ms symb of None \<Rightarrow> 1 | Some m \<Rightarrow> m)"

definition ms_position :: "string \<Rightarrow> simulator \<Rightarrow> int" where
  "ms_position symb ms = dget_or 0 (ms_positions ms) symb"

definition ms_closing_pnl :: "int \<Rightarrow> int \<Rightarrow> real \<Rightarrow> real \<Rightarrow> real \<Rightarrow> real" where
  "ms_closing_pnl prev signed entry price mul =
     (if prev \<noteq> 0 \<and> (0 < prev) \<noteq> (0 < signed)
      then (if 0 < prev then 1 else -1) * (price - entry) * of_int (min \<bar>signed\<bar> \<bar>prev\<bar>) * mul
      else 0)"

definition ms_is_flip :: "int \<Rightarrow> int \<Rightarrow> bool" where
  "ms_is_flip prev new \<longleftrightarrow> prev \<noteq> 0 \<and> new \<noteq> 0 \<and> (0 < prev) \<noteq> (0 < new)"

definition ms_new_avg :: "int \<Rightarrow> int \<Rightarrow> real \<Rightarrow> real \<Rightarrow> real" where
  "ms_new_avg prev signed entry price =
     (let new = prev + signed; total = \<bar>prev\<bar> + \<bar>signed\<bar>;
          avg = (if new = 0 then 0
                 else if (0 \<le> prev \<and> 0 < signed) \<or> (prev \<le> 0 \<and> signed < 0)
                 then (if total \<noteq> 0 then (entry * of_int \<bar>prev\<bar> + price * of_int \<bar>signed\<bar>) / of_int total else price)
                 else entry)
      in if ms_is_flip prev new then price else avg)"

definition ms_start_trade :: "datetime \<Rightarrow> int \<Rightarrow> sim_trade" where
  "ms_start_trade ts new = \<lparr>sx_entry_ts = ts, sx_side = (if 0 < new then BUY else SELL), sx_peak = \<bar>new\<bar>, sx_pnl = 0\<rparr>"

definition ms_finalize_trade :: "string \<Rightarrow> datetime \<Rightarrow> simulator \<Rightarrow> simulator" where
  "ms_finalize_trade symb exit_ts ms =
     (case ms_open_trades ms symb of
        None \<Rightarrow> ms
      | Some t \<Rightarrow> ms\<lparr>ms_open_trades := (ms_open_trades ms)(symb := None),
           ms_trades := ms_trades ms @ [\<lparr>tr_symbol = symb, tr_side = sx_side t, tr_entry_ts = sx_entry_ts t,
             tr_exit_ts = exit_ts, tr_qty = sx_peak t, tr_pnl = sx_pnl t\<rparr>]\<rparr>)"

text \<open>The trade records: opened from flat, charged, and closed at flat or split at a flip.\<close>

definition ms_track_trade :: "bar_event \<Rightarrow> int \<Rightarrow> int \<Rightarrow> real \<Rightarrow> real \<Rightarrow> simulator \<Rightarrow> simulator" where
  "ms_track_trade bar prev new commission closing_pnl ms =
     (let symb = br_symbol bar;
          ms1 = (if prev = 0 \<and> new \<noteq> 0
                 then ms\<lparr>ms_open_trades := (ms_open_trades ms)(symb \<mapsto> ms_start_trade (br_ts bar) new)\<rparr> else ms);
          ms2 = (case ms_open_trades ms1 symb of
                   None \<Rightarrow> ms1
                 | Some t \<Rightarrow> ms1\<lparr>ms_open_trades := (ms_open_trades ms1)
                     (symb \<mapsto> t\<lparr>sx_peak := max (sx_peak t) \<bar>new\<bar>, sx_pnl := sx_pnl t - commission + closing_pnl\<rparr>)\<rparr>)
      in if new = 0 \<and> prev \<noteq> 0 then ms_finalize_trade symb (br_ts bar) ms2
         else if ms_is_flip prev new
         then (let ms3 = ms_finalize_trade symb (br_ts bar) ms2
               in ms3\<lparr>ms_open_trades := (ms_open_trades ms3)(symb \<mapsto> ms_start_trade (br_ts bar) new)\<rparr>)
         else ms2)"

definition ms_execution :: "pending_order \<Rightarrow> int \<Rightarrow> real \<Rightarrow> bar_event \<Rightarrow> real \<Rightarrow> exec_event" where
  "ms_execution po fq price bar commission =
     (let rq = po_request po in
      \<lparr>ex_ts = br_ts bar, ex_order_id = rq_id rq, ex_corr = rq_corr rq, ex_symbol = br_symbol bar,
       ex_side = rq_side rq, ex_fill_qty = fq, ex_fill_price = price,
       ex_cum_qty = rq_qty rq - po_remaining po + fq, ex_rem_qty = po_remaining po - fq,
       ex_commission = commission, ex_liquidity = (if rq_type rq = MARKET then ''TAKER'' else ''MAKER''),
       ex_expected = Some (po_expected po)\<rparr>)"

definition ms_apply_fill :: "pending_order \<Rightarrow> int \<Rightarrow> real \<Rightarrow> bar_event \<Rightarrow> simulator \<Rightarrow> simulator" where
  "ms_apply_fill po fq price bar ms =
     (let symb = br_symbol bar;
          signed = fq * (if rq_side (po_request po) = BUY then 1 else -1);
          mul = ms_multiplier symb ms;
          commission = ms_commission ms * of_int fq;
          prev = ms_position symb ms;
          new = prev + signed;
          entry = ms_avg_entry ms symb;
          closing = ms_closing_pnl prev signed entry price mul;
          x = ms_execution po fq price bar commission;
          ms1 = ms_track_trade bar prev new commission closing ms
      in ms1\<lparr>ms_avg_entry := (ms_avg_entry ms)(symb := ms_new_avg prev signed entry price),
             ms_positions := dset symb new (ms_positions ms),
             ms_equity := ms_equity ms + (closing - commission),
             ms_fills := ms_fills ms @ [x],
             ms_events := ms_events ms @ [ExecB x]\<rparr>)"

section \<open>Bars\<close>

definition ms_update_history :: "bar_event \<Rightarrow> simulator \<Rightarrow> unit result \<times> simulator" where
  "ms_update_history bar ms =
     (let symb = br_symbol bar;
          ms1 = ms\<lparr>ms_volumes := (ms_volumes ms)(symb := keep_last 20 (ms_volumes ms symb @ [br_volume bar]))\<rparr>
      in case ms_last_bar ms symb of
           None \<Rightarrow> (Inr (), ms1)
         | Some prev \<Rightarrow>
             if 0 < br_close prev
             then (if br_close bar \<le> 0 then (Inl (ValueError [Lit ''math domain error'']), ms1)
                   else (Inr (), ms1\<lparr>ms_returns := (ms_returns ms1)
                          (symb := keep_last 20 (ms_returns ms1 symb @ [ln (br_close bar / br_close prev)]))\<rparr>))
             else (Inr (), ms1))"

text \<open>One pending order against the bar: the order if it is carried forward, and the new state.\<close>

definition ms_resolve_one :: "bar_event \<Rightarrow> pending_order \<Rightarrow> simulator \<Rightarrow> pending_order option \<times> simulator" where
  "ms_resolve_one bar po0 ms =
     (let po = po0\<lparr>po_bars_alive := Suc (po_bars_alive po0)\<rparr>;
          q = ms_determine_fill_quantity po bar ms;
          ms1 = (if 0 < q then ms_apply_fill po q (ms_compute_fill_price po bar q ms) bar ms else ms);
          po1 = po\<lparr>po_remaining := po_remaining po - q\<rparr>
      in if po_remaining po1 \<le> 0 then (None, ms1)
         else if rq_tif (po_request po) \<in> {IOC, FOK} then (None, ms1)
         else (Some po1, ms1))"

fun ms_resolve_each :: "bar_event \<Rightarrow> pending_order list \<Rightarrow> simulator \<Rightarrow> pending_order list \<times> simulator" where
  "ms_resolve_each bar [] ms = ([], ms)"
| "ms_resolve_each bar (po # pos) ms =
     (case ms_resolve_one bar po ms of (kept, ms1) \<Rightarrow>
        (case ms_resolve_each bar pos ms1 of (rest, ms2) \<Rightarrow>
           (case kept of None \<Rightarrow> (rest, ms2) | Some p \<Rightarrow> (p # rest, ms2))))"

definition ms_resolve_pending_orders :: "bar_event \<Rightarrow> simulator \<Rightarrow> simulator" where
  "ms_resolve_pending_orders bar ms =
     (case ms_resolve_each bar (ms_pending ms (br_symbol bar)) ms of (rest, ms1) \<Rightarrow>
        ms1\<lparr>ms_pending := (ms_pending ms1)(br_symbol bar := rest)\<rparr>)"

definition ms_process_bar :: "bar_event \<Rightarrow> simulator \<Rightarrow> unit result \<times> simulator" where
  "ms_process_bar bar ms =
     on_ok (ms_update_history bar ms)
       (\<lambda>_ ms1. let ms2 = ms_resolve_pending_orders bar ms1
                in (Inr (), ms2\<lparr>ms_last_bar := (ms_last_bar ms2)(br_symbol bar \<mapsto> bar)\<rparr>))"

section \<open>The contract with the order manager\<close>

interpretation msv: order_venue "ms_venue now" ms_events
  by unfold_locales (simp_all add: ms_venue_def ms_place_order_def ms_cancel_order_def Let_def)

section \<open>Fill prices\<close>

lemma ms_realized_vol_nonneg: "0 \<le> ms_realized_vol_pct symb ms"
proof -
  have "0 \<le> sum_list (map (\<lambda>r. (r - m)\<^sup>2) rs)" for m and rs :: "real list"
    by (induction rs) simp_all
  then show ?thesis by (simp add: ms_realized_vol_pct_def Let_def)
qed

text \<open>
  A limit order always fills at a price worse than its limit: with a positive spread
  share, a buy strictly above it and a sell strictly below it.
\<close>

theorem ms_limit_fills_beyond_limit:
  assumes "rq_type (po_request po) = LIMIT" "rq_limit (po_request po) = Some limit" "0 < limit"
    and "0 < ip_spread_fraction (ms_impact ms)" "0 \<le> ip_coefficient (ms_impact ms)"
  shows "(rq_side (po_request po) = BUY \<longrightarrow> limit < ms_compute_fill_price po bar q ms)
    \<and> (rq_side (po_request po) = SELL \<longrightarrow> ms_compute_fill_price po bar q ms < limit)"
proof -
  define impact where "impact = sqrt_market_impact_bps (of_int q) (max (br_volume bar) 1)
      (ms_realized_vol_pct (br_symbol bar) ms) (ip_coefficient (ms_impact ms))"
  have "0 \<le> impact"
    using assms(5) ms_realized_vol_nonneg [of "br_symbol bar" ms]
    by (simp add: impact_def sqrt_market_impact_bps_def)
  then have cost: "0 \<le> limit * impact" using assms(3) by simp
  have "0 < max (br_high bar - br_low bar) (1 / 10 ^ 9) * ip_spread_fraction (ms_impact ms)"
    using assms(4) by (intro mult_pos_pos) (simp_all add: less_max_iff_disj)
  moreover have "ms_reference_price (po_request po) bar = limit"
    using assms(1-3) by (simp add: ms_reference_price_def)
  ultimately show ?thesis
    using cost by (auto simp: ms_compute_fill_price_def Let_def impact_def [symmetric])
qed

section \<open>Equity\<close>

definition ms_cost :: "simulator \<Rightarrow> string \<Rightarrow> real" where
  "ms_cost ms s = of_int (ms_position s ms) * ms_avg_entry ms s * ms_multiplier s ms"

definition fill_signed :: "exec_event \<Rightarrow> int" where
  "fill_signed x = ex_fill_qty x * side_sign (ex_side x)"

text \<open>Whatever the position before, realised profit is cash flow with the position at cost.\<close>

lemma ms_closing_books:
  assumes "signed \<noteq> 0"
  shows "ms_closing_pnl prev signed entry price mul
    = mul * (- of_int signed * price)
      + (of_int (prev + signed) * ms_new_avg prev signed entry price * mul - of_int prev * entry * mul)"
proof -
  consider "prev = 0" | "0 < prev" "0 < signed" | "prev < 0" "signed < 0"
    | "0 < prev" "signed < 0" | "prev < 0" "0 < signed"
    using assms by linarith
  then show ?thesis
  proof cases
    case 1
    then show ?thesis using assms
      by (auto simp: ms_closing_pnl_def ms_new_avg_def ms_is_flip_def Let_def)
  next
    case 2
    have nz: "real_of_int prev + real_of_int signed \<noteq> 0" using 2 by linarith
    have "(real_of_int prev + real_of_int signed) * ms_new_avg prev signed entry price
        = entry * of_int prev + price * of_int signed"
      using 2 nz by (simp add: ms_new_avg_def ms_is_flip_def Let_def)
    then have "(real_of_int prev + real_of_int signed) * ms_new_avg prev signed entry price * mul
        = (entry * of_int prev + price * of_int signed) * mul" by simp
    then show ?thesis using 2 by (simp add: ms_closing_pnl_def algebra_simps)
  next
    case 3
    have nz: "- real_of_int prev - real_of_int signed \<noteq> 0" using 3 by linarith
    have "(- real_of_int prev - real_of_int signed) * ms_new_avg prev signed entry price
        = - (entry * of_int prev + price * of_int signed)"
      using 3 nz by (simp add: ms_new_avg_def ms_is_flip_def Let_def)
    then have "(- real_of_int prev - real_of_int signed) * ms_new_avg prev signed entry price * mul
        = - (entry * of_int prev + price * of_int signed) * mul" by simp
    then show ?thesis using 3 by (simp add: ms_closing_pnl_def algebra_simps)
  next
    case 4
    then show ?thesis
      by (cases "prev + signed" "0 :: int" rule: linorder_cases)
        (simp_all add: ms_closing_pnl_def ms_new_avg_def ms_is_flip_def Let_def min_def algebra_simps add_eq_0_iff2)
  next
    case 5
    then show ?thesis
      by (cases "prev + signed" "0 :: int" rule: linorder_cases)
        (simp_all add: ms_closing_pnl_def ms_new_avg_def ms_is_flip_def Let_def min_def algebra_simps add_eq_0_iff2)
  qed
qed

lemma ms_finalize_fixed [simp]:
  "ms_equity (ms_finalize_trade symb ts ms) = ms_equity ms" "ms_fills (ms_finalize_trade symb ts ms) = ms_fills ms"
  "ms_positions (ms_finalize_trade symb ts ms) = ms_positions ms" "ms_pending (ms_finalize_trade symb ts ms) = ms_pending ms"
  "ms_multipliers (ms_finalize_trade symb ts ms) = ms_multipliers ms" "ms_impact (ms_finalize_trade symb ts ms) = ms_impact ms"
  "ms_commission (ms_finalize_trade symb ts ms) = ms_commission ms"
  by (simp_all add: ms_finalize_trade_def split: option.split)

lemma ms_track_fixed [simp]:
  "ms_equity (ms_track_trade bar prev new c p ms) = ms_equity ms" "ms_fills (ms_track_trade bar prev new c p ms) = ms_fills ms"
  "ms_positions (ms_track_trade bar prev new c p ms) = ms_positions ms" "ms_pending (ms_track_trade bar prev new c p ms) = ms_pending ms"
  "ms_multipliers (ms_track_trade bar prev new c p ms) = ms_multipliers ms" "ms_impact (ms_track_trade bar prev new c p ms) = ms_impact ms"
  "ms_commission (ms_track_trade bar prev new c p ms) = ms_commission ms"
  by (simp_all add: ms_track_trade_def Let_def split: option.split)

lemma ms_apply_fill_fixed [simp]:
  "ms_pending (ms_apply_fill po q p bar ms) = ms_pending ms"
  "ms_multipliers (ms_apply_fill po q p bar ms) = ms_multipliers ms"
  "ms_commission (ms_apply_fill po q p bar ms) = ms_commission ms"
  by (simp_all add: ms_apply_fill_def Let_def)

lemma ms_apply_fill_fills [simp]:
  "ms_fills (ms_apply_fill po q p bar ms) = ms_fills ms @ [ms_execution po q p bar (ms_commission ms * of_int q)]"
  "ms_events (ms_apply_fill po q p bar ms) = ms_events ms @ [ExecB (ms_execution po q p bar (ms_commission ms * of_int q))]"
  by (simp_all add: ms_apply_fill_def Let_def)

lemma ms_execution_simps [simp]:
  "ex_symbol (ms_execution po q p bar c) = br_symbol bar" "ex_order_id (ms_execution po q p bar c) = rq_id (po_request po)"
  "ex_fill_qty (ms_execution po q p bar c) = q" "ex_fill_price (ms_execution po q p bar c) = p"
  "ex_commission (ms_execution po q p bar c) = c" "ex_side (ms_execution po q p bar c) = rq_side (po_request po)"
  "ex_cum_qty (ms_execution po q p bar c) = rq_qty (po_request po) - po_remaining po + q"
  by (simp_all add: ms_execution_def Let_def)

text \<open>Cash moved by the fills, commissions included.\<close>

definition ms_flow :: "(string \<Rightarrow> real) \<Rightarrow> exec_event list \<Rightarrow> real" where
  "ms_flow mul xs =
     sum_list (map (\<lambda>x. mul (ex_symbol x) * (- of_int (fill_signed x) * ex_fill_price x) - ex_commission x) xs)"

definition ms_books :: "string set \<Rightarrow> real \<Rightarrow> simulator \<Rightarrow> bool" where
  "ms_books U eq0 ms \<longleftrightarrow> (ex_symbol ` set (ms_fills ms) \<subseteq> U \<longrightarrow>
     ms_equity ms = eq0 + ms_flow (\<lambda>s. ms_multiplier s ms) (ms_fills ms) + (\<Sum>s \<in> U. ms_cost ms s))"

lemma ms_fill_books:
  assumes "ms_books U eq0 ms" "finite U" "q \<noteq> 0"
  shows "ms_books U eq0 (ms_apply_fill po q price bar ms)"
  unfolding ms_books_def
proof
  let ?ms = "ms_apply_fill po q price bar ms" and ?s = "br_symbol bar"
  let ?signed = "q * (if rq_side (po_request po) = BUY then 1 else -1)"
  let ?prev = "ms_position ?s ms" and ?entry = "ms_avg_entry ms ?s" and ?m = "ms_multiplier ?s ms"
  assume sub: "ex_symbol ` set (ms_fills ?ms) \<subseteq> U"
  then have s: "?s \<in> U" and old: "ms_equity ms = eq0 + ms_flow (\<lambda>s. ms_multiplier s ms) (ms_fills ms) + (\<Sum>s \<in> U. ms_cost ms s)"
    using assms(1) by (auto simp: ms_books_def)
  have mul: "ms_multiplier s ?ms = ms_multiplier s ms" for s by (simp add: ms_multiplier_def)
  have other: "ms_cost ?ms s = ms_cost ms s" if "s \<noteq> ?s" for s
    using that by (simp add: ms_cost_def mul) (simp add: ms_apply_fill_def Let_def ms_position_def)
  have own: "ms_cost ?ms ?s = of_int (?prev + ?signed) * ms_new_avg ?prev ?signed ?entry price * ?m"
    by (simp add: ms_cost_def mul) (simp add: ms_apply_fill_def Let_def ms_position_def)
  have "(\<Sum>s \<in> U. ms_cost ?ms s) = ms_cost ?ms ?s + (\<Sum>s \<in> U - {?s}. ms_cost ms s)"
    using s assms(2) other by (simp add: sum.remove)
  moreover have "(\<Sum>s \<in> U. ms_cost ms s) = ms_cost ms ?s + (\<Sum>s \<in> U - {?s}. ms_cost ms s)"
    using s assms(2) by (simp add: sum.remove)
  ultimately have cost: "(\<Sum>s \<in> U. ms_cost ?ms s) = (\<Sum>s \<in> U. ms_cost ms s) + (ms_cost ?ms ?s - ms_cost ms ?s)"
    by simp
  have sgn: "fill_signed (ms_execution po q price bar c) = ?signed" for c
    by (cases "rq_side (po_request po)") (simp_all add: fill_signed_def)
  have "?signed \<noteq> 0" using assms(3) by simp
  note close = ms_closing_books [OF this, of ?prev ?entry price ?m]
  have "ms_equity ?ms = ms_equity ms + (ms_closing_pnl ?prev ?signed ?entry price ?m - ms_commission ms * of_int q)"
    by (simp add: ms_apply_fill_def Let_def)
  also have "\<dots> = eq0 + ms_flow (\<lambda>s. ms_multiplier s ?ms) (ms_fills ?ms) + (\<Sum>s \<in> U. ms_cost ?ms s)"
    unfolding cost own old close
    by (simp only: mul ms_apply_fill_fills ms_flow_def map_append sum_list_append sgn)
      (simp add: sgn ms_cost_def)
  finally show "ms_equity ?ms = eq0 + ms_flow (\<lambda>s. ms_multiplier s ?ms) (ms_fills ?ms) + (\<Sum>s \<in> U. ms_cost ?ms s)" .
qed

lemma ms_update_history_fixed [simp]:
  "ms_fills (snd (ms_update_history bar ms)) = ms_fills ms" "ms_equity (snd (ms_update_history bar ms)) = ms_equity ms"
  "ms_positions (snd (ms_update_history bar ms)) = ms_positions ms" "ms_avg_entry (snd (ms_update_history bar ms)) = ms_avg_entry ms"
  "ms_multipliers (snd (ms_update_history bar ms)) = ms_multipliers ms" "ms_pending (snd (ms_update_history bar ms)) = ms_pending ms"
  "ms_events (snd (ms_update_history bar ms)) = ms_events ms" "ms_open_trades (snd (ms_update_history bar ms)) = ms_open_trades ms"
  "ms_trades (snd (ms_update_history bar ms)) = ms_trades ms"
  by (simp_all add: ms_update_history_def Let_def split: option.split)

section \<open>Runs of the simulator\<close>

datatype sim_op = PlaceOp datetime broker_request | CancelOp string | CancelAllOp | BarOp bar_event

fun ms_op :: "sim_op \<Rightarrow> simulator \<Rightarrow> unit result \<times> simulator" where
  "ms_op (PlaceOp now rq) ms = ms_place_order now rq ms"
| "ms_op (CancelOp oid) ms = ms_cancel_order oid ms"
| "ms_op CancelAllOp ms = ms_cancel_all ms"
| "ms_op (BarOp bar) ms = ms_process_bar bar ms"

lemma ms_process_bar_cases:
  obtains
    (raised) e where "ms_process_bar bar ms = (Inl e, snd (ms_update_history bar ms))"
  | (resolved) rest ms1 where
      "ms_resolve_each bar (ms_pending ms (br_symbol bar)) (snd (ms_update_history bar ms)) = (rest, ms1)"
      "ms_process_bar bar ms = (Inr (), ms1\<lparr>ms_pending := (ms_pending ms1)(br_symbol bar := rest),
         ms_last_bar := (ms_last_bar ms1)(br_symbol bar \<mapsto> bar)\<rparr>)"
proof -
  obtain r ms0 where h: "ms_update_history bar ms = (r, ms0)" by (cases "ms_update_history bar ms")
  have p: "ms_pending ms0 = ms_pending ms" using ms_update_history_fixed(6) [of bar ms] by (simp add: h)
  obtain rest ms1 where e: "ms_resolve_each bar (ms_pending ms (br_symbol bar)) ms0 = (rest, ms1)"
    by (cases "ms_resolve_each bar (ms_pending ms (br_symbol bar)) ms0")
  show ?thesis
  proof (cases r)
    case (Inl x)
    then show ?thesis by (intro raised [of x]) (simp add: ms_process_bar_def h)
  next
    case (Inr u)
    with e p show ?thesis
      by (intro resolved [of rest ms1]) (simp_all add: ms_process_bar_def h ms_resolve_pending_orders_def)
  qed
qed

text \<open>
  A ledger is anything read off the money, the positions and the trade records of the simulator
  that fills keep; no operation touches those but by a fill.
\<close>

definition sim_alike :: "simulator \<Rightarrow> simulator \<Rightarrow> bool" where
  "sim_alike ms ms' \<longleftrightarrow> ms_fills ms' = ms_fills ms \<and> ms_equity ms' = ms_equity ms \<and> ms_positions ms' = ms_positions ms
     \<and> ms_avg_entry ms' = ms_avg_entry ms \<and> ms_multipliers ms' = ms_multipliers ms
     \<and> ms_open_trades ms' = ms_open_trades ms \<and> ms_trades ms' = ms_trades ms"

lemma sim_alike_history: "sim_alike ms (snd (ms_update_history bar ms))"
  by (simp add: sim_alike_def)

lemma sim_alike_place: "sim_alike ms (snd (ms_place_order now rq ms))"
  by (simp add: sim_alike_def ms_place_order_def Let_def)

lemma sim_alike_cancel: "sim_alike ms (snd (ms_cancel_order oid ms))" "sim_alike ms (snd (ms_cancel_all ms))"
  by (simp_all add: sim_alike_def ms_cancel_order_def ms_cancel_all_def)

locale sim_ledger =
  fixes good :: "simulator \<Rightarrow> bool"
  assumes fill: "good ms \<Longrightarrow> q \<noteq> 0 \<Longrightarrow> good (ms_apply_fill po q price bar ms)"
    and alike: "good ms \<Longrightarrow> sim_alike ms ms' \<Longrightarrow> good ms'"
begin

lemma resolve_one: "good ms \<Longrightarrow> good (snd (ms_resolve_one bar po ms))"
  by (auto simp: ms_resolve_one_def Let_def intro!: fill)

lemma resolve_each: "good ms \<Longrightarrow> good (snd (ms_resolve_each bar pos ms))"
proof (induction pos arbitrary: ms)
  case Nil
  then show ?case by simp
next
  case (Cons po pos)
  have "good (snd (ms_resolve_each bar pos (snd (ms_resolve_one bar po ms))))"
    by (rule Cons.IH [OF resolve_one [OF Cons.prems]])
  then show ?case by (auto split: prod.split option.split)
qed

lemma process: "good ms \<Longrightarrow> good (snd (ms_process_bar bar ms))"
proof (rule ms_process_bar_cases [of bar ms])
  fix e
  assume "good ms" "ms_process_bar bar ms = (Inl e, snd (ms_update_history bar ms))"
  then show ?thesis using alike sim_alike_history by simp
next
  fix rest ms1
  assume g: "good ms"
    and r: "ms_resolve_each bar (ms_pending ms (br_symbol bar)) (snd (ms_update_history bar ms)) = (rest, ms1)"
    and p: "ms_process_bar bar ms = (Inr (), ms1\<lparr>ms_pending := (ms_pending ms1)(br_symbol bar := rest),
       ms_last_bar := (ms_last_bar ms1)(br_symbol bar \<mapsto> bar)\<rparr>)"
  have "good ms1"
    using resolve_each [OF alike [OF g sim_alike_history], of bar "ms_pending ms (br_symbol bar)" bar] r by simp
  then show ?thesis unfolding p snd_conv by (rule alike) (simp add: sim_alike_def)
qed

lemma operation: "good ms \<Longrightarrow> good (snd (ms_op oper ms))"
  by (cases oper) (auto intro: process alike [OF _ sim_alike_place] alike [OF _ sim_alike_cancel(1)] alike [OF _ sim_alike_cancel(2)])

lemma run: "good ms \<Longrightarrow> good (snd (drive ms_op ops ms))"
  by (induction ops arbitrary: ms) (simp_all add: operation)

end

lemma ms_books_alike: "ms_books U eq0 ms \<Longrightarrow> sim_alike ms ms' \<Longrightarrow> ms_books U eq0 ms'"
  by (simp add: sim_alike_def ms_books_def ms_flow_def ms_cost_def ms_position_def ms_multiplier_def)

interpretation cash: sim_ledger "\<lambda>ms. finite U \<longrightarrow> ms_books U eq0 ms" for U eq0
  by unfold_locales (auto intro: ms_fill_books ms_books_alike)

text \<open>
  Property C5. Over any sequence of placements, cancellations and bars, through scaling, partial
  closes and flips, the equity is the starting equity plus the cash moved by the fills less their
  commissions plus the open positions at average cost; positions are not marked to market.
\<close>

theorem ms_equity_accounting:
  fixes ops :: "sim_op list" and mults :: "string \<rightharpoonup> real" and ip :: impact_params and eq0 c :: real
  defines "ms \<equiv> snd (drive ms_op ops (ms_init eq0 mults ip c))"
  defines "U \<equiv> ex_symbol ` set (ms_fills ms)"
  shows "ms_equity ms = eq0 + ms_flow (\<lambda>s. ms_multiplier s ms) (ms_fills ms) + (\<Sum>s \<in> U. ms_cost ms s)"
proof -
  have "ms_books U eq0 (ms_init eq0 mults ip c)"
    by (simp add: ms_books_def ms_init_def ms_flow_def ms_cost_def ms_position_def dget_or_def)
  then have "ms_books U eq0 ms" unfolding ms_def using cash.run [of U eq0] by (simp add: U_def)
  then show ?thesis by (simp add: ms_books_def U_def)
qed

section \<open>Orders and their fills\<close>

definition fills_for :: "string \<Rightarrow> exec_event list \<Rightarrow> exec_event list" where
  "fills_for i xs = filter (\<lambda>x. ex_order_id x = i) xs"

lemma fills_for_simps [simp]:
  "fills_for i [] = []"
  "fills_for i (xs @ [x]) = fills_for i xs @ (if ex_order_id x = i then [x] else [])"
  by (simp_all add: fills_for_def)

lemma fill_qty_snoc [simp]: "fill_qty [] = 0" "fill_qty (xs @ [x]) = fill_qty xs + ex_fill_qty x"
  by (simp_all add: fill_qty_def)

lemma fills_coherent_snoc:
  "fills_coherent d (xs @ [x]) \<longleftrightarrow>
     fills_coherent d xs \<and> 0 < ex_fill_qty x \<and> ex_cum_qty x = d + fill_qty xs + ex_fill_qty x"
proof (induction d xs rule: fills_coherent.induct)
  case (1 d)
  then show ?case by (auto simp: fill_qty_def)
next
  case (2 d y ys)
  then show ?case by (auto simp: fill_qty_def)
qed

lemma ms_fill_quantity_le: "0 < ms_determine_fill_quantity po bar ms \<Longrightarrow> ms_determine_fill_quantity po bar ms \<le> po_remaining po"
  by (auto simp: ms_determine_fill_quantity_def Let_def split: order_type.splits if_splits)

lemma ms_fill_quantity_neg: "ms_determine_fill_quantity po bar ms < 0 \<Longrightarrow> ms_determine_fill_quantity po bar ms = po_remaining po"
  by (auto simp: ms_determine_fill_quantity_def Let_def min_def max_def split: order_type.splits if_splits)

text \<open>What is left of a pending order is its quantity less its fills.\<close>

definition po_ok :: "simulator \<Rightarrow> pending_order \<Rightarrow> bool" where
  "po_ok ms po \<longleftrightarrow> fill_qty (fills_for (rq_id (po_request po)) (ms_fills ms)) = rq_qty (po_request po) - po_remaining po"

definition po_id :: "pending_order \<Rightarrow> string" where
  "po_id po = rq_id (po_request po)"

definition ms_filled_ok :: "broker_request list \<Rightarrow> simulator \<Rightarrow> bool" where
  "ms_filled_ok placed ms \<longleftrightarrow>
     (\<forall>i. fills_coherent 0 (fills_for i (ms_fills ms)))
   \<and> (\<forall>rq \<in> set placed. fill_qty (fills_for (rq_id rq) (ms_fills ms)) \<le> max 0 (rq_qty rq))
   \<and> ex_order_id ` set (ms_fills ms) \<subseteq> rq_id ` set placed
   \<and> List.map_filter om_exec (ms_events ms) = ms_fills ms"

lemma ms_resolve_one_ok:
  assumes "ms_filled_ok placed ms" "po_ok ms po" "po_request po \<in> set placed" "distinct (map rq_id placed)"
  shows "ms_filled_ok placed (snd (ms_resolve_one bar po ms))
    \<and> (\<forall>po1. fst (ms_resolve_one bar po ms) = Some po1 \<longrightarrow>
        po_request po1 = po_request po \<and> po_ok (snd (ms_resolve_one bar po ms)) po1)
    \<and> (\<forall>i. i \<noteq> po_id po \<longrightarrow> fills_for i (ms_fills (snd (ms_resolve_one bar po ms))) = fills_for i (ms_fills ms))
    \<and> ms_pending (snd (ms_resolve_one bar po ms)) = ms_pending ms"
proof -
  let ?po = "po\<lparr>po_bars_alive := Suc (po_bars_alive po)\<rparr>" and ?i = "rq_id (po_request po)"
  let ?q = "ms_determine_fill_quantity ?po bar ms"
  let ?price = "ms_compute_fill_price ?po bar ?q ms"
  let ?ms = "if 0 < ?q then ms_apply_fill ?po ?q ?price bar ms else ms"
  let ?x = "ms_execution ?po ?q ?price bar (ms_commission ms * of_int ?q)"
  have st: "snd (ms_resolve_one bar po ms) = ?ms"
    by (simp add: ms_resolve_one_def Let_def)
  have kept: "fst (ms_resolve_one bar po ms) = Some po1 \<Longrightarrow> po1 = ?po\<lparr>po_remaining := po_remaining po - ?q\<rparr>" for po1
    by (auto simp: ms_resolve_one_def Let_def split: if_splits)
  have fills: "fills_for i (ms_fills ?ms) = fills_for i (ms_fills ms) @ (if 0 < ?q \<and> i = ?i then [?x] else [])" for i
    by simp
  have le: "0 < ?q \<Longrightarrow> ?q \<le> po_remaining po" using ms_fill_quantity_le [of ?po bar ms] by simp
  have rem: "fill_qty (fills_for ?i (ms_fills ms)) = rq_qty (po_request po) - po_remaining po"
    using assms(2) by (simp add: po_ok_def)
  have unique: "rq = po_request po" if "rq \<in> set placed" "rq_id rq = ?i" for rq
    using that assms(3,4) by (auto simp: distinct_map inj_on_def)
  have old: "\<forall>i. fills_coherent 0 (fills_for i (ms_fills ms))"
      "\<forall>rq \<in> set placed. fill_qty (fills_for (rq_id rq) (ms_fills ms)) \<le> max 0 (rq_qty rq)"
      "ex_order_id ` set (ms_fills ms) \<subseteq> rq_id ` set placed" "List.map_filter om_exec (ms_events ms) = ms_fills ms"
    using assms(1) by (simp_all add: ms_filled_ok_def)
  have coh: "fills_coherent 0 (fills_for i (ms_fills ?ms))" for i
    unfolding fills using old(1) rem by (simp add: fills_coherent_snoc)
  have sum: "fill_qty (fills_for (rq_id rq) (ms_fills ?ms)) \<le> max 0 (rq_qty rq)" if "rq \<in> set placed" for rq
    unfolding fills using old(2) that rem le unique [OF that] by auto
  have ids: "ex_order_id ` set (ms_fills ?ms) \<subseteq> rq_id ` set placed"
    using old(3) assms(3) by auto
  have ev: "List.map_filter om_exec (ms_events ?ms) = ms_fills ?ms"
    using old(4) by (simp add: map_filter_def)
  have "po_ok ?ms (?po\<lparr>po_remaining := po_remaining po - ?q\<rparr>)" if "fst (ms_resolve_one bar po ms) = Some po1" for po1
  proof (cases "0 < ?q")
    case True
    then show ?thesis unfolding po_ok_def fills using rem by simp
  next
    case False
    have "?q = 0"
    proof (rule ccontr)
      assume "?q \<noteq> 0"
      with False have "?q < 0" by simp
      moreover have "0 < po_remaining po - ?q"
        using that by (auto simp: ms_resolve_one_def Let_def split: if_splits)
      ultimately show False using ms_fill_quantity_neg [of ?po bar ms] by simp
    qed
    then show ?thesis unfolding po_ok_def fills using rem by simp
  qed
  then show ?thesis unfolding st
    using coh sum ids ev kept fills by (auto simp: ms_filled_ok_def po_id_def)
qed

lemma ms_resolve_each_ok:
  assumes "ms_filled_ok placed ms" "\<forall>po \<in> set pos. po_ok ms po \<and> po_request po \<in> set placed"
    and "distinct (map po_id pos)" "distinct (map rq_id placed)"
  shows "ms_filled_ok placed (snd (ms_resolve_each bar pos ms))
    \<and> (\<forall>po1 \<in> set (fst (ms_resolve_each bar pos ms)). po_ok (snd (ms_resolve_each bar pos ms)) po1
         \<and> po_request po1 \<in> po_request ` set pos)
    \<and> distinct (map po_id (fst (ms_resolve_each bar pos ms)))
    \<and> (\<forall>i. i \<notin> po_id ` set pos \<longrightarrow> fills_for i (ms_fills (snd (ms_resolve_each bar pos ms))) = fills_for i (ms_fills ms))
    \<and> ms_pending (snd (ms_resolve_each bar pos ms)) = ms_pending ms"
  using assms
proof (induction pos arbitrary: ms)
  case Nil
  then show ?case by simp
next
  case (Cons po pos)
  obtain kept ms1 where one: "ms_resolve_one bar po ms = (kept, ms1)" by (cases "ms_resolve_one bar po ms")
  obtain rest ms2 where more: "ms_resolve_each bar pos ms1 = (rest, ms2)" by (cases "ms_resolve_each bar pos ms1")
  have po: "po_ok ms po" "po_request po \<in> set placed" using Cons.prems(2) by simp_all
  have s1: "ms_filled_ok placed ms1" "\<forall>po1. kept = Some po1 \<longrightarrow> po_request po1 = po_request po \<and> po_ok ms1 po1"
      "\<forall>i. i \<noteq> po_id po \<longrightarrow> fills_for i (ms_fills ms1) = fills_for i (ms_fills ms)" "ms_pending ms1 = ms_pending ms"
    using ms_resolve_one_ok [OF Cons.prems(1) po Cons.prems(4), of bar, unfolded one fst_conv snd_conv] by blast+
  have fresh: "po_id po \<notin> po_id ` set pos" "distinct (map po_id pos)" using Cons.prems(3) by simp_all
  have "\<forall>p \<in> set pos. po_ok ms1 p \<and> po_request p \<in> set placed"
  proof
    fix p assume "p \<in> set pos"
    with fresh(1) have "po_id p \<noteq> po_id po" by (metis image_eqI)
    then have "rq_id (po_request p) \<noteq> po_id po" by (simp add: po_id_def)
    with s1(3) Cons.prems(2) \<open>p \<in> set pos\<close> show "po_ok ms1 p \<and> po_request p \<in> set placed"
      by (simp add: po_ok_def)
  qed
  note IH = Cons.IH [OF s1(1) this fresh(2) Cons.prems(4), unfolded more fst_conv snd_conv]
  have kept_ok: "po_ok ms2 po1 \<and> po_id po1 \<notin> po_id ` set rest" if "kept = Some po1" for po1
  proof -
    have r: "po_request po1 = po_request po" "po_ok ms1 po1" using s1(2) that by simp_all
    then have "po_id po1 \<notin> po_id ` set pos" using fresh(1) by (simp add: po_id_def)
    moreover have "fills_for (po_id po1) (ms_fills ms2) = fills_for (po_id po1) (ms_fills ms1)"
      using IH calculation by blast
    moreover have "po_id ` set rest \<subseteq> po_id ` set pos" using IH by (fastforce simp: po_id_def)
    ultimately show ?thesis using r(2) by (auto simp: po_ok_def po_id_def)
  qed
  have each: "ms_resolve_each bar (po # pos) ms = (case kept of None \<Rightarrow> rest | Some p \<Rightarrow> p # rest, ms2)"
    by (simp add: one more split: option.split)
  have frame: "\<forall>i. i \<notin> po_id ` set (po # pos) \<longrightarrow> fills_for i (ms_fills ms2) = fills_for i (ms_fills ms)"
    using IH s1(3) by simp
  have pend: "ms_pending ms2 = ms_pending ms" using IH s1(4) by simp
  show ?case
  proof (cases kept)
    case None
    have "\<forall>po1 \<in> set rest. po_ok ms2 po1 \<and> po_request po1 \<in> po_request ` set (po # pos)"
      using IH by (simp add: image_iff)
    with IH None frame pend show ?thesis unfolding each fst_conv snd_conv None option.case by blast
  next
    case (Some p)
    have "po_request p = po_request po" using s1(2) Some by blast
    then have "\<forall>po1 \<in> set (p # rest). po_ok ms2 po1 \<and> po_request po1 \<in> po_request ` set (po # pos)"
      using IH kept_ok [OF Some] by (simp add: image_iff)
    moreover have "distinct (map po_id (p # rest))" using IH kept_ok [OF Some] by simp
    ultimately show ?thesis using IH frame pend unfolding each fst_conv snd_conv Some option.case by blast
  qed
qed

definition ms_placed :: "sim_op list \<Rightarrow> broker_request list" where
  "ms_placed ops = List.map_filter (\<lambda>oper. case oper of PlaceOp _ rq \<Rightarrow> Some rq | _ \<Rightarrow> None) ops"

definition ms_pending_ok :: "broker_request list \<Rightarrow> simulator \<Rightarrow> bool" where
  "ms_pending_ok placed ms \<longleftrightarrow>
     (\<forall>s. distinct (map po_id (ms_pending ms s))
        \<and> (\<forall>po \<in> set (ms_pending ms s). po_ok ms po \<and> po_request po \<in> set placed \<and> rq_symbol (po_request po) = s))"

lemma ms_resolved_ok:
  assumes ok: "ms_filled_ok placed ms" "ms_pending_ok placed ms" "distinct (map rq_id placed)"
    and e: "ms_resolve_each bar (ms_pending ms (br_symbol bar)) ms = (rest, ms1)"
  shows "ms_filled_ok placed (ms1\<lparr>ms_pending := (ms_pending ms1)(br_symbol bar := rest), ms_last_bar := lb\<rparr>)
    \<and> ms_pending_ok placed (ms1\<lparr>ms_pending := (ms_pending ms1)(br_symbol bar := rest), ms_last_bar := lb\<rparr>)"
proof -
  let ?s = "br_symbol bar"
  let ?pos = "ms_pending ms ?s"
  have pos: "\<forall>po \<in> set ?pos. po_ok ms po \<and> po_request po \<in> set placed" "distinct (map po_id ?pos)"
    using ok(2) by (auto simp: ms_pending_ok_def)
  note r = ms_resolve_each_ok [OF ok(1) pos ok(3), of bar, unfolded e fst_conv snd_conv]
  have others: "po_ok ms1 po" if "po \<in> set (ms_pending ms s)" "s \<noteq> ?s" for po s
  proof -
    have po: "po_ok ms po" "po_request po \<in> set placed" "rq_symbol (po_request po) = s"
      using ok(2) that(1) by (auto simp: ms_pending_ok_def)
    have "po_id po \<notin> po_id ` set ?pos"
    proof
      assume "po_id po \<in> po_id ` set ?pos"
      then obtain p where p: "p \<in> set ?pos" "po_id p = po_id po" by auto
      then have "po_request p \<in> set placed" "rq_symbol (po_request p) = ?s"
        using ok(2) by (auto simp: ms_pending_ok_def)
      with p(2) po ok(3) that(2) show False by (auto simp: po_id_def distinct_map inj_on_def)
    qed
    with r po(1) show ?thesis by (auto simp: po_ok_def po_id_def)
  qed
  have req: "po_request po \<in> set placed \<and> rq_symbol (po_request po) = ?s" if "po \<in> set rest" for po
    using r that ok(2) by (fastforce simp: ms_pending_ok_def)
  have "po_ok (ms1\<lparr>ms_pending := p, ms_last_bar := l\<rparr>) po = po_ok ms1 po" for p l po by (simp add: po_ok_def)
  moreover have "ms_pending ms1 = ms_pending ms" using r by blast
  ultimately show ?thesis
    using r ok(2) others req by (auto simp: ms_filled_ok_def ms_pending_ok_def)
qed

lemma ms_op_ok:
  assumes "ms_filled_ok placed ms" "ms_pending_ok placed ms" "distinct (map rq_id (placed @ ms_placed [oper]))"
  shows "ms_filled_ok (placed @ ms_placed [oper]) (snd (ms_op oper ms))
    \<and> ms_pending_ok (placed @ ms_placed [oper]) (snd (ms_op oper ms))"
proof (cases oper)
  case (PlaceOp now rq)
  have new: "rq_id rq \<notin> rq_id ` set placed" using assms(3) PlaceOp by (simp add: ms_placed_def map_filter_simps)
  moreover have "ex_order_id ` set (ms_fills ms) \<subseteq> rq_id ` set placed" using assms(1) by (simp add: ms_filled_ok_def)
  ultimately have "rq_id rq \<notin> ex_order_id ` set (ms_fills ms)" by blast
  then have "\<forall>x \<in> set (ms_fills ms). ex_order_id x \<noteq> rq_id rq" by (metis image_eqI)
  then have "fills_for (rq_id rq) (ms_fills ms) = []"
    by (simp add: fills_for_def filter_empty_conv)
  then have none: "fill_qty (fills_for (rq_id rq) (ms_fills ms)) = 0" by simp
  let ?ms = "snd (ms_place_order now rq ms)"
  have fields: "ms_fills ?ms = ms_fills ms" "List.map_filter om_exec (ms_events ?ms) = List.map_filter om_exec (ms_events ms)"
    by (simp_all add: ms_place_order_def Let_def map_filter_def)
  obtain po where po: "po_request po = rq" "po_remaining po = rq_qty rq"
      "ms_pending ?ms = (ms_pending ms)(rq_symbol rq := ms_pending ms (rq_symbol rq) @ [po])"
    by (intro that [of "\<lparr>po_request = rq, po_expected = (case ms_last_bar ms (rq_symbol rq) of
        None \<Rightarrow> 0 | Some bar \<Rightarrow> br_close bar), po_remaining = rq_qty rq, po_bars_alive = 0\<rparr>"])
      (simp_all add: ms_place_order_def Let_def)
  have "ms_filled_ok (placed @ [rq]) ?ms"
    using assms(1) none by (auto simp: ms_filled_ok_def fields)
  moreover have "ms_pending_ok (placed @ [rq]) ?ms"
    unfolding ms_pending_ok_def
  proof
    fix s
    have old: "distinct (map po_id (ms_pending ms s))"
      "\<forall>p \<in> set (ms_pending ms s). po_ok ms p \<and> po_request p \<in> set placed \<and> rq_symbol (po_request p) = s"
      using assms(2) by (simp_all add: ms_pending_ok_def)
    have "\<forall>p \<in> set (ms_pending ms s). po_id p \<noteq> rq_id rq"
      using old(2) new unfolding po_id_def by (metis image_eqI)
    then have d: "distinct (map po_id (ms_pending ?ms s))"
      using old(1) by (auto simp: po po_id_def)
    have "po_ok ?ms p \<and> po_request p \<in> set (placed @ [rq]) \<and> rq_symbol (po_request p) = s"
      if "p \<in> set (ms_pending ?ms s)" for p
    proof -
      have "p \<in> set (ms_pending ms s) \<or> p = po \<and> s = rq_symbol rq" using that by (auto simp: po(3) split: if_splits)
      then show ?thesis using old(2) none po(1,2) by (auto simp: po_ok_def fields)
    qed
    with d show "distinct (map po_id (ms_pending ?ms s)) \<and> (\<forall>p \<in> set (ms_pending ?ms s).
        po_ok ?ms p \<and> po_request p \<in> set (placed @ [rq]) \<and> rq_symbol (po_request p) = s)" by blast
  qed
  ultimately show ?thesis by (simp add: PlaceOp ms_placed_def map_filter_simps)
next
  case (CancelOp oid)
  with assms show ?thesis
    by (auto simp: ms_placed_def map_filter_simps ms_cancel_order_def ms_filled_ok_def ms_pending_ok_def po_ok_def
        intro: distinct_map_filter)
next
  case CancelAllOp
  with assms show ?thesis
    by (simp add: ms_placed_def map_filter_simps ms_cancel_all_def ms_filled_ok_def ms_pending_ok_def)
next
  case (BarOp bar)
  let ?ms0 = "snd (ms_update_history bar ms)"
  have none: "placed @ ms_placed [oper] = placed" by (simp add: BarOp ms_placed_def map_filter_simps)
  have d: "distinct (map rq_id placed)" using assms(3) by simp
  have ok: "ms_filled_ok placed ?ms0" "ms_pending_ok placed ?ms0"
    using assms(1,2) by (simp_all add: ms_filled_ok_def ms_pending_ok_def po_ok_def)
  show ?thesis
  proof (rule ms_process_bar_cases [of bar ms])
    fix e
    assume "ms_process_bar bar ms = (Inl e, ?ms0)"
    with ok show ?thesis unfolding none by (simp add: BarOp)
  next
    fix rest ms1
    assume r: "ms_resolve_each bar (ms_pending ms (br_symbol bar)) ?ms0 = (rest, ms1)"
      and p: "ms_process_bar bar ms = (Inr (), ms1\<lparr>ms_pending := (ms_pending ms1)(br_symbol bar := rest),
         ms_last_bar := (ms_last_bar ms1)(br_symbol bar \<mapsto> bar)\<rparr>)"
    have "ms_resolve_each bar (ms_pending ?ms0 (br_symbol bar)) ?ms0 = (rest, ms1)" using r by simp
    from ms_resolved_ok [OF ok d this] show ?thesis unfolding none by (simp add: BarOp p)
  qed
qed

lemma ms_run_ok:
  "distinct (map rq_id (ms_placed ops)) \<Longrightarrow>
   ms_filled_ok (ms_placed ops) (snd (drive ms_op ops (ms_init eq0 mults ip c)))
   \<and> ms_pending_ok (ms_placed ops) (snd (drive ms_op ops (ms_init eq0 mults ip c)))"
proof (induction ops rule: rev_induct)
  case Nil
  then show ?case
    by (simp add: ms_placed_def map_filter_simps ms_filled_ok_def ms_pending_ok_def ms_init_def fills_for_def)
next
  case (snoc oper ops)
  have placed: "ms_placed (ops @ [oper]) = ms_placed ops @ ms_placed [oper]"
    by (simp add: ms_placed_def map_filter_def)
  then have "distinct (map rq_id (ms_placed ops))" using snoc.prems by simp
  with snoc.IH snoc.prems placed show ?case by (simp add: drive_append ms_op_ok)
qed

text \<open>
  Property C16. Orders placed under distinct ids are never filled beyond their quantity, through any
  cancellations and bars, and the simulator streams for each of them exactly its fills, with positive
  quantities and their running total: what the order manager's accounting relies on.
\<close>

theorem ms_fills_are_coherent:
  fixes mults :: "string \<rightharpoonup> real" and ip :: impact_params and eq0 c :: real
  assumes "distinct (map rq_id (ms_placed ops))"
  defines "ms \<equiv> snd (drive ms_op ops (ms_init eq0 mults ip c))"
  shows "fills_coherent 0 (fills_for i (ms_fills ms))
    \<and> (\<forall>rq \<in> set (ms_placed ops). fill_qty (fills_for (rq_id rq) (ms_fills ms)) \<le> max 0 (rq_qty rq))
    \<and> List.map_filter om_exec (ms_events ms) = ms_fills ms
    \<and> ex_order_id ` set (ms_fills ms) \<subseteq> rq_id ` set (ms_placed ops)"
  using ms_run_ok [OF assms(1), of eq0 mults ip c] by (simp add: ms_def ms_filled_ok_def)

definition sample_bar :: "real \<Rightarrow> bar_event" where
  "sample_bar px = \<lparr>br_ts = 0, br_symbol = ''X'', br_timeframe = 60, br_open = px, br_high = px + 1, br_low = px - 1,
     br_close = px, br_volume = 20, br_vwap = px\<rparr>"

definition sample_sim_request :: "string \<Rightarrow> order_type \<Rightarrow> int \<Rightarrow> real option \<Rightarrow> broker_request" where
  "sample_sim_request oid ty q limit =
     \<lparr>rq_id = oid, rq_corr = ''c'', rq_symbol = ''X'', rq_side = BUY, rq_qty = q, rq_type = ty, rq_limit = limit,
      rq_tif = DAY, rq_oca = None, rq_oca_type = 1\<rparr>"

theorem ms_limit_fills_beyond_limit_witness:
  "10 < ms_compute_fill_price \<lparr>po_request = sample_sim_request ''a'' LIMIT 3 (Some 10), po_expected = 10, po_remaining = 3,
     po_bars_alive = 0\<rparr> (sample_bar 10) 2 (ms_init 1000 Map.empty ip_default 1)"
  using ms_limit_fills_beyond_limit [of "\<lparr>po_request = sample_sim_request ''a'' LIMIT 3 (Some 10), po_expected = 10,
     po_remaining = 3, po_bars_alive = 0\<rparr>" 10 "ms_init 1000 Map.empty ip_default 1" "sample_bar 10" 2]
  by (simp add: sample_sim_request_def ms_init_def ip_default_def)

theorem ms_fills_are_coherent_witness:
  "fill_qty (fills_for ''a'' (ms_fills (snd (drive ms_op
      [PlaceOp 0 (sample_sim_request ''a'' LIMIT 3 (Some 10)), BarOp (sample_bar 10), BarOp (sample_bar 10), BarOp (sample_bar 10)]
      (ms_init 1000 Map.empty ip_default 1))))) \<le> 3"
proof -
  let ?ops = "[PlaceOp 0 (sample_sim_request ''a'' LIMIT 3 (Some 10)), BarOp (sample_bar 10), BarOp (sample_bar 10), BarOp (sample_bar 10)]"
  have placed: "ms_placed ?ops = [sample_sim_request ''a'' LIMIT 3 (Some 10)]"
    by (simp add: ms_placed_def map_filter_simps)
  then have "distinct (map rq_id (ms_placed ?ops))" by simp
  from ms_fills_are_coherent [OF this, of "''a''" 1000 Map.empty ip_default 1] show ?thesis
    unfolding placed by (simp add: sample_sim_request_def del: drive_Cons)
qed

section \<open>Two claims of the documentation\<close>

text \<open>
  The participation cap never binds a market order: whatever the volume of the bar, the
  whole remaining quantity is filled at once.  And the simulator knows no one-cancels-other groups: an
  order of a group stays pending when another order of the group fills.
\<close>

theorem ms_market_orders_fill_whole:
  "(if rq_type (po_request po) = MARKET then ms_determine_fill_quantity po bar ms = po_remaining po else True)
   \<and> ms_pending (ms_apply_fill po q price bar ms) = ms_pending ms"
  by (simp add: ms_determine_fill_quantity_def Let_def)

end
