(* ===== verification/Backtest_Engine.thy ===== *)
theory Backtest_Engine
  imports Market_Simulator Risk_Engine "HOL-Library.Char_ord" "HOL-Library.List_Lexorder" "HOL-Library.Product_Lexorder"
begin

text \<open>
  The event-driven backtester, \<^verbatim>\<open>backtest/engine.py\<close>: the loop over the bars, the signal handler
  behind the bus, and the order manager's consumer.  Strategies are a parameter: handlers with a
  state of their own that publish events and may raise.  The single-threaded event loop runs its
  tasks in a fixed order, which the iteration spells out: at \<^verbatim>\<open>sleep(0)\<close> the dispatcher finishes
  what is queued and the consumer drains the simulator's stream; at \<^verbatim>\<open>join()\<close> the dispatcher
  empties the queue, and the consumer runs before the engine goes on.
\<close>

section \<open>State\<close>

text \<open>What the engine reads from outside: \<^verbatim>\<open>uuid4\<close> and the clocks, indexed by the reading.\<close>

record backtest_cfg =
  bc_mults :: "string \<rightharpoonup> real"
  bc_uuid :: "nat \<Rightarrow> string"
  bc_wall :: "nat \<Rightarrow> datetime"
  bc_mono :: "nat \<Rightarrow> real"

text \<open>
  The simulator's queue of events is its stream from the position \<open>bt_taken\<close> on.  The last five
  fields are local variables of \<^verbatim>\<open>run\<close>.
\<close>

record backtest =
  bt_risk :: risk_engine
  bt_broker :: simulator
  bt_om :: order_manager
  bt_last_price :: "string \<rightharpoonup> real"
  bt_taken :: nat
  bt_signals :: nat     \<comment> \<open>signals handled so far\<close>
  bt_orders :: nat      \<comment> \<open>order ids drawn so far\<close>
  bt_curve :: "real list"
  bt_times :: "datetime list"
  bt_halted :: bool
  bt_halt_reason :: fstr
  bt_date :: date

datatype 'h bt_handler = RiskGate | Strategy 'h

definition bt_init :: "risk_engine \<Rightarrow> simulator \<Rightarrow> backtest" where
  "bt_init re ms = \<lparr>bt_risk = re, bt_broker = ms, bt_om = om_init, bt_last_price = Map.empty, bt_taken = 0,
     bt_signals = 0, bt_orders = 0, bt_curve = [], bt_times = [], bt_halted = False, bt_halt_reason = [], bt_date = 0\<rparr>"

section \<open>Signals\<close>

definition bt_multiplier :: "backtest_cfg \<Rightarrow> string \<Rightarrow> real" where
  "bt_multiplier cfg symb = (case bc_mults cfg symb of None \<Rightarrow> 1 | Some m \<Rightarrow> m)"

definition bt_gross_exposure :: "backtest_cfg \<Rightarrow> backtest \<Rightarrow> real" where
  "bt_gross_exposure cfg bt =
     sum_list (map (\<lambda>(symb, q). of_int \<bar>q\<bar> * (case bt_last_price bt symb of None \<Rightarrow> 0 | Some p \<Rightarrow> p) * bt_multiplier cfg symb)
       (ms_get_positions (bt_broker bt)))"

definition bt_view :: "backtest_cfg \<Rightarrow> backtest \<Rightarrow> account_view" where
  "bt_view cfg bt =
     \<lparr>av_equity = ms_get_account_equity (bt_broker bt), av_gross = bt_gross_exposure cfg bt,
      av_initial_used = fst (ms_get_margin_usage (bt_broker bt)),
      av_maintenance_used = snd (ms_get_margin_usage (bt_broker bt))\<rparr>"

definition bt_on_signal :: "backtest_cfg \<Rightarrow> signal_event \<Rightarrow> backtest \<Rightarrow> unit result \<times> backtest" where
  "bt_on_signal cfg sg bt =
     (case re_check_order sg (bt_view cfg bt) (bc_mono cfg (bt_signals bt)) (bt_risk bt) of (result, re) \<Rightarrow>
        (let bt1 = bt\<lparr>bt_risk := re, bt_signals := Suc (bt_signals bt)\<rparr> in
         if \<not> rr_passed result then (Inr (), bt1)
         else let now = bc_wall cfg (bt_signals bt) in
           case om_submit (ms_venue now) (bc_uuid cfg (bt_orders bt)) now sg (bt_last_price bt (sg_symbol sg))
                  (bt_om bt, bt_broker bt) of
             (r, om, ms) \<Rightarrow>
               (and_then r (\<lambda>_. Inr ()), bt1\<lparr>bt_om := om, bt_broker := ms, bt_orders := Suc (bt_orders bt)\<rparr>)))"

fun bt_handle ::
  "backtest_cfg \<Rightarrow> ('h, 's) handler_sem \<Rightarrow> ('h bt_handler, backtest \<times> 's) handler_sem" where
  "bt_handle cfg strat RiskGate (SignalE sg) (bt, s) =
     (case bt_on_signal cfg sg bt of (r, bt1) \<Rightarrow> (([], \<not> ok r), (bt1, s)))"
| "bt_handle cfg strat RiskGate e (bt, s) = (([], True), (bt, s))"
| "bt_handle cfg strat (Strategy h) e (bt, s) = (case strat h e s of (res, s1) \<Rightarrow> (res, (bt, s1)))"

section \<open>One bar\<close>

text \<open>What the engine does with a bar before anyone sees it.\<close>

definition bt_roll_session :: "bar_event \<Rightarrow> backtest \<Rightarrow> backtest" where
  "bt_roll_session bar bt =
     (if date_of (br_ts bar) \<noteq> bt_date bt
      then bt\<lparr>bt_date := date_of (br_ts bar),
              bt_risk := (bt_risk bt)\<lparr>re_breaker := cb_reset_session (ms_get_account_equity (bt_broker bt))
                (date_of (br_ts bar)) (re_breaker (bt_risk bt))\<rparr>\<rparr>
      else bt)"

definition bt_observe :: "backtest_cfg \<Rightarrow> bar_event \<Rightarrow> backtest \<Rightarrow> unit result \<times> backtest" where
  "bt_observe cfg bar bt =
     (let bt1 = bt_roll_session bar bt; symb = br_symbol bar;
          re = re_set_contract_multiplier symb (bt_multiplier cfg symb)
                 (re_update_market_state symb (br_close bar) (bt_risk bt1));
          bt2 = bt1\<lparr>bt_last_price := (bt_last_price bt1)(symb \<mapsto> br_close bar), bt_risk := re\<rparr>
      in case ms_process_bar bar (bt_broker bt2) of (r, ms) \<Rightarrow> (r, bt2\<lparr>bt_broker := ms\<rparr>))"

text \<open>The order manager's consumer empties the simulator's queue.\<close>

definition bt_settle :: "backtest_cfg \<Rightarrow> 'h bus \<Rightarrow> backtest \<Rightarrow> 'h bus \<times> backtest" where
  "bt_settle cfg b bt =
     (let evs = map (\<lambda>ev. (bc_wall cfg (bt_signals bt), ev)) (drop (bt_taken bt) (ms_events (bt_broker bt))) in
      case om_consume evs (bt_om bt, b) of (om, b1) \<Rightarrow>
        (b1, bt\<lparr>bt_om := om, bt_taken := length (ms_events (bt_broker bt))\<rparr>))"

text \<open>What it does after the bar has settled; a trip publishes the halt and joins the bus.\<close>

definition bt_record :: "bar_event \<Rightarrow> backtest \<Rightarrow> bool result \<times> backtest" where
  "bt_record bar bt =
     (let re = fold (\<lambda>(symb, q). re_update_position symb q) (ms_get_positions (bt_broker bt)) (bt_risk bt);
          equity = ms_get_account_equity (bt_broker bt)
      in case cb_update equity (br_ts bar) (re_breaker re) of (r, cb) \<Rightarrow>
           (r, bt\<lparr>bt_risk := re\<lparr>re_breaker := cb\<rparr>, bt_curve := bt_curve bt @ [equity],
                  bt_times := bt_times bt @ [br_ts bar],
                  bt_halted := (r = Inr True \<or> bt_halted bt),
                  bt_halt_reason := (if r = Inr True then cb_reason cb else bt_halt_reason bt)\<rparr>))"

definition bt_halt_event :: "bar_event \<Rightarrow> fstr \<Rightarrow> event" where
  "bt_halt_event bar reason =
     HaltE \<lparr>rh_ts = br_ts bar, rh_reason = reason, rh_by = ''drawdown_circuit_breaker''\<rparr>"

text \<open>
  One pass of the loop: the verdict (whether to stop, or the exception) and the new state;
  \<open>None\<close> if the bus did not come to rest within the fuel.
\<close>

type_synonym ('h, 's) bt_world = "'h bt_handler bus \<times> backtest \<times> 's"

definition bt_iteration ::
  "backtest_cfg \<Rightarrow> ('h, 's) handler_sem \<Rightarrow> nat \<Rightarrow> bar_event \<Rightarrow> ('h, 's) bt_world
   \<Rightarrow> (bool result \<times> ('h, 's) bt_world) option" where
  "bt_iteration cfg strat fuel bar w = (case w of (b, bt, s) \<Rightarrow>
     (case bt_observe cfg bar bt of
        (Inl e, bt1) \<Rightarrow> Some (Inl e, b, bt1, s)
      | (Inr _, bt1) \<Rightarrow>
          (case eb_drain (bt_handle cfg strat) fuel (b, bt1, s) of
             None \<Rightarrow> None
           | Some (b1, bt2, s1) \<Rightarrow>
               (case bt_settle cfg b1 bt2 of (b2, bt3) \<Rightarrow>
                  (case eb_drain (bt_handle cfg strat) fuel (eb_publish (BarE bar) b2, bt3, s1) of
                     None \<Rightarrow> None
                   | Some (b3, bt4, s2) \<Rightarrow>
                       (case bt_settle cfg b3 bt4 of (b4, bt5) \<Rightarrow>
                          (case bt_record bar bt5 of
                             (Inr True, bt6) \<Rightarrow>
                               (case eb_drain (bt_handle cfg strat) fuel
                                       (eb_publish (bt_halt_event bar (bt_halt_reason bt6)) b4, bt6, s2) of
                                  None \<Rightarrow> None
                                | Some (b5, bt7, s3) \<Rightarrow> Some (Inr True, b5, bt7, s3))
                           | (r, bt6) \<Rightarrow> Some (r, b4, bt6, s2))))))))"

fun bt_loop ::
  "backtest_cfg \<Rightarrow> ('h, 's) handler_sem \<Rightarrow> nat \<Rightarrow> bar_event list \<Rightarrow> ('h, 's) bt_world
   \<Rightarrow> (unit result \<times> ('h, 's) bt_world) option" where
  "bt_loop cfg strat fuel [] w = Some (Inr (), w)"
| "bt_loop cfg strat fuel (bar # bars) w =
     (case bt_iteration cfg strat fuel bar w of
        None \<Rightarrow> None
      | Some (Inl e, w1) \<Rightarrow> Some (Inl e, w1)
      | Some (Inr True, w1) \<Rightarrow> Some (Inr (), w1)
      | Some (Inr False, w1) \<Rightarrow> bt_loop cfg strat fuel bars w1)"

text \<open>
  \<^verbatim>\<open>run\<close> up to the performance report: bars in time order (symbols break ties), one session per
  calendar day of the data.
\<close>

definition bt_sort :: "bar_event list \<Rightarrow> bar_event list" where
  "bt_sort bars = sort_key (\<lambda>b. (br_ts b, br_symbol b)) bars"

definition bt_start :: "bar_event \<Rightarrow> ('h, 's) bt_world \<Rightarrow> ('h, 's) bt_world" where
  "bt_start bar w = (case w of (b, bt, s) \<Rightarrow>
     (let equity = ms_get_account_equity (bt_broker bt); today = date_of (br_ts bar) in
      (eb_start b,
       bt\<lparr>bt_broker := ms_connect (bt_broker bt), bt_curve := [equity], bt_times := [br_ts bar],
          bt_halted := False, bt_halt_reason := [], bt_date := today,
          bt_risk := (bt_risk bt)\<lparr>re_breaker := cb_reset_session equity today (re_breaker (bt_risk bt))\<rparr>\<rparr>,
       s)))"

definition bt_run ::
  "backtest_cfg \<Rightarrow> ('h, 's) handler_sem \<Rightarrow> nat \<Rightarrow> bar_event list \<Rightarrow> ('h, 's) bt_world
   \<Rightarrow> (unit result \<times> ('h, 's) bt_world) option" where
  "bt_run cfg strat fuel bars w =
     (case bt_sort bars of
        [] \<Rightarrow> Some (Inl (ValueError [Lit ''bars must be non-empty'']), w)
      | bar # rest \<Rightarrow>
          (case bt_loop cfg strat fuel (bar # rest) (bt_start bar w) of
             None \<Rightarrow> None
           | Some (r, b, bt, s) \<Rightarrow>
               (case eb_drain (bt_handle cfg strat) fuel (b, bt, s) of
                  None \<Rightarrow> None
                | Some (b1, bt1, s1) \<Rightarrow>
                    Some (r, eb_stop_request b1, bt1\<lparr>bt_broker := ms_disconnect (bt_broker bt1)\<rparr>, s1))))"

section \<open>What draining the bus can change\<close>

lemma eb_run_handlers_world:
  assumes "\<And>h e w. P w \<Longrightarrow> P (snd (run h e w))"
  shows "P w \<Longrightarrow> P (fst (snd (eb_run_handlers run hs e b w)))"
proof (induction hs arbitrary: b w)
  case Nil
  then show ?case by simp
next
  case (Cons h hs)
  obtain pubs raised w1 where r: "run h e w = ((pubs, raised), w1)" by (metis prod.exhaust)
  with assms Cons.prems have "P w1" by (metis snd_conv)
  with Cons.IH r show ?case by (simp add: Let_def)
qed

lemma eb_loop_step_world:
  assumes "\<And>h e w. P w \<Longrightarrow> P (snd (run h e w))" "P w" "eb_loop_step run (b, w) = Some (b', w')"
  shows "P w'"
proof -
  have "P (fst (snd (eb_dispatch run e b1 w)))" for e b1
    unfolding eb_dispatch_def using assms(1,2) by (rule eb_run_handlers_world)
  then show ?thesis
    using assms(2,3) unfolding eb_loop_step_def
    by (auto split: loop_pc.splits option.splits prod.splits sum.splits) (metis fst_conv snd_conv)+
qed

lemma eb_drain_world:
  assumes "\<And>h e w. P w \<Longrightarrow> P (snd (run h e w))"
  shows "eb_drain run n (b, w) = Some (b', w') \<Longrightarrow> P w \<Longrightarrow> P w'"
proof (induction n arbitrary: b w)
  case 0
  then show ?case by (simp split: if_splits)
next
  case (Suc n)
  show ?case
  proof (cases "eb_joined b")
    case True
    with Suc.prems show ?thesis by simp
  next
    case False
    with Suc.prems obtain b1 w1 where st: "eb_loop_step run (b, w) = Some (b1, w1)"
      and rest: "eb_drain run n (b1, w1) = Some (b', w')"
      by (auto split: option.splits)
    from eb_loop_step_world [OF assms Suc.prems(2) st] rest show ?thesis by (rule Suc.IH [rotated])
  qed
qed

text \<open>The simulator's books after a drain: only orders and their acknowledgements are new.\<close>

definition same_books :: "simulator \<Rightarrow> simulator \<Rightarrow> bool" where
  "same_books ms ms' \<longleftrightarrow> ms_fills ms' = ms_fills ms \<and> ms_equity ms' = ms_equity ms
     \<and> ms_positions ms' = ms_positions ms \<and> ms_last_bar ms' = ms_last_bar ms
     \<and> (\<exists>acks. ms_events ms' = ms_events ms @ acks \<and> List.map_filter om_exec acks = [])"

lemma same_books_refl [simp]: "same_books ms ms"
  by (simp add: same_books_def map_filter_simps)

lemma same_books_trans: "same_books a b \<Longrightarrow> same_books b c \<Longrightarrow> same_books a c"
  by (auto simp: same_books_def map_filter_def)

lemma same_books_place: "same_books ms (snd (ms_place_order now rq ms))"
  by (simp add: same_books_def ms_place_order_def Let_def map_filter_simps)

text \<open>The two outcomes of a signal.\<close>

lemma bt_on_signal_cases:
  obtains
    (refused) "bt_on_signal cfg sg bt = (Inr (), bt\<lparr>bt_risk := snd (re_check_order sg (bt_view cfg bt)
        (bc_mono cfg (bt_signals bt)) (bt_risk bt)), bt_signals := Suc (bt_signals bt)\<rparr>)"
  | (placed) re where "rr_passed (fst (re_check_order sg (bt_view cfg bt) (bc_mono cfg (bt_signals bt)) (bt_risk bt)))"
      "bt_on_signal cfg sg bt = (Inr (), bt\<lparr>bt_risk := re, bt_signals := Suc (bt_signals bt),
        bt_om := (bt_om bt)\<lparr>om_orders := dset (bc_uuid cfg (bt_orders bt))
          ((om_new_order (bc_uuid cfg (bt_orders bt)) (bc_wall cfg (bt_signals bt)) sg (bt_last_price bt (sg_symbol sg)))
             \<lparr>mo_status := SUBMITTED\<rparr>) (om_orders (bt_om bt))\<rparr>,
        bt_broker := snd (ms_place_order (bc_wall cfg (bt_signals bt)) (om_request (bc_uuid cfg (bt_orders bt)) sg) (bt_broker bt)),
        bt_orders := Suc (bt_orders bt)\<rparr>)"
proof -
  obtain result re where c: "re_check_order sg (bt_view cfg bt) (bc_mono cfg (bt_signals bt)) (bt_risk bt) = (result, re)"
    by (metis prod.exhaust)
  show ?thesis
  proof (cases "rr_passed result")
    case False
    with c show ?thesis by (intro refused) (simp add: bt_on_signal_def)
  next
    case True
    with c show ?thesis
      by (intro placed [of re]) (simp_all add: bt_on_signal_def om_submit_def ms_venue_def ms_place_order_def Let_def)
  qed
qed

lemma bt_handle_world:
  "snd (bt_handle cfg strat h e (bt, s)) =
     (case (h, e) of
        (RiskGate, SignalE sg) \<Rightarrow> (snd (bt_on_signal cfg sg bt), s)
      | (RiskGate, _) \<Rightarrow> (bt, s)
      | (Strategy k, _) \<Rightarrow> (bt, snd (strat k e s)))"
  by (cases h; cases e) (auto split: prod.split)

text \<open>An invariant of the engine kept by signals is kept by draining the bus.\<close>

lemma bt_drain_invariant:
  assumes "\<And>sg bt. P bt \<Longrightarrow> P (snd (bt_on_signal cfg sg bt))"
    and "eb_drain (bt_handle cfg strat) n (b, bt, s) = Some (b', bt', s')" "P bt"
  shows "P bt'"
proof -
  have step: "P (fst (snd (bt_handle cfg strat h e w)))" if "P (fst w)" for h e w
    using that assms(1) by (cases w) (auto simp: bt_handle_world split: bt_handler.split event.split)
  show ?thesis
    using eb_drain_world [where P = "\<lambda>w. P (fst w)" and run = "bt_handle cfg strat", OF step assms(2)] assms(3)
    by simp
qed

lemma bt_drain_books:
  assumes "eb_drain (bt_handle cfg strat) n (b, bt, s) = Some (b', bt', s')"
  shows "same_books (bt_broker bt) (bt_broker bt')" "bt_curve bt' = bt_curve bt" "bt_date bt' = bt_date bt"
proof -
  have "same_books (bt_broker bt) (bt_broker bt') \<and> bt_curve bt' = bt_curve bt \<and> bt_date bt' = bt_date bt"
  proof (rule bt_drain_invariant [where P = "\<lambda>x :: backtest. same_books (bt_broker bt) (bt_broker x) \<and> bt_curve x = bt_curve bt
      \<and> bt_date x = bt_date bt", OF _ assms])
    fix sg and x :: backtest
    assume x: "same_books (bt_broker bt) (bt_broker x) \<and> bt_curve x = bt_curve bt \<and> bt_date x = bt_date bt"
    then show "same_books (bt_broker bt) (bt_broker (snd (bt_on_signal cfg sg x)))
        \<and> bt_curve (snd (bt_on_signal cfg sg x)) = bt_curve bt \<and> bt_date (snd (bt_on_signal cfg sg x)) = bt_date bt"
      by (rule_tac bt_on_signal_cases [of cfg sg x]) (auto intro: same_books_trans same_books_place)
  qed simp
  then show "same_books (bt_broker bt) (bt_broker bt')" "bt_curve bt' = bt_curve bt" "bt_date bt' = bt_date bt"
    by simp_all
qed

lemma bt_settle_fixed [simp]:
  "bt_broker (snd (bt_settle cfg b bt)) = bt_broker bt" "bt_curve (snd (bt_settle cfg b bt)) = bt_curve bt"
  "bt_date (snd (bt_settle cfg b bt)) = bt_date bt" "bt_orders (snd (bt_settle cfg b bt)) = bt_orders bt"
  "bt_risk (snd (bt_settle cfg b bt)) = bt_risk bt"
  by (simp_all add: bt_settle_def Let_def split: prod.split)

lemma bt_record_fixed [simp]:
  "bt_broker (snd (bt_record bar bt)) = bt_broker bt" "bt_om (snd (bt_record bar bt)) = bt_om bt"
  "bt_taken (snd (bt_record bar bt)) = bt_taken bt" "bt_orders (snd (bt_record bar bt)) = bt_orders bt"
  "bt_curve (snd (bt_record bar bt)) = bt_curve bt @ [ms_equity (bt_broker bt)]" "bt_date (snd (bt_record bar bt)) = bt_date bt"
  by (simp_all add: bt_record_def ms_get_account_equity_def Let_def split: prod.split)

lemma bt_observe_fixed:
  "fst (bt_observe cfg bar bt) = fst (ms_process_bar bar (bt_broker bt))"
  "bt_broker (snd (bt_observe cfg bar bt)) = snd (ms_process_bar bar (bt_broker bt))"
  "bt_om (snd (bt_observe cfg bar bt)) = bt_om bt" "bt_taken (snd (bt_observe cfg bar bt)) = bt_taken bt"
  "bt_orders (snd (bt_observe cfg bar bt)) = bt_orders bt" "bt_curve (snd (bt_observe cfg bar bt)) = bt_curve bt"
  by (simp_all add: bt_observe_def bt_roll_session_def Let_def split: prod.split)

section \<open>Fills of a bar\<close>

text \<open>Resolving a bar appends fills of pending orders, stamped with the bar, to the stream.\<close>

definition bar_fills :: "bar_event \<Rightarrow> pending_order list \<Rightarrow> simulator \<Rightarrow> simulator \<Rightarrow> bool" where
  "bar_fills bar pos ms ms' \<longleftrightarrow> (\<exists>new. ms_fills ms' = ms_fills ms @ new \<and> ms_events ms' = ms_events ms @ map ExecB new
     \<and> (\<forall>x \<in> set new. ex_ts x = br_ts bar \<and> ex_order_id x \<in> po_id ` set pos))"

lemma ms_resolve_one_fills: "bar_fills bar [po] ms (snd (ms_resolve_one bar po ms))"
proof -
  let ?po = "po\<lparr>po_bars_alive := Suc (po_bars_alive po)\<rparr>"
  let ?q = "ms_determine_fill_quantity ?po bar ms"
  let ?x = "ms_execution ?po ?q (ms_compute_fill_price ?po bar ?q ms) bar (ms_commission ms * of_int ?q)"
  have "ex_ts ?x = br_ts bar \<and> ex_order_id ?x = po_id po" by (simp add: ms_execution_def po_id_def Let_def)
  moreover have "snd (ms_resolve_one bar po ms) =
      (if 0 < ?q then ms_apply_fill ?po ?q (ms_compute_fill_price ?po bar ?q ms) bar ms else ms)"
    by (simp add: ms_resolve_one_def Let_def)
  ultimately show ?thesis
    by (auto simp: bar_fills_def intro: exI [of _ "[]"] exI [of _ "[?x]"])
qed

lemma bar_fills_trans:
  "bar_fills bar ps a b \<Longrightarrow> bar_fills bar qs b c \<Longrightarrow> bar_fills bar (ps @ qs) a c"
  by (fastforce simp: bar_fills_def image_Un)

lemma ms_resolve_each_fills: "bar_fills bar pos ms (snd (ms_resolve_each bar pos ms))"
proof (induction pos arbitrary: ms)
  case Nil
  then show ?case by (simp add: bar_fills_def)
next
  case (Cons po pos)
  have "bar_fills bar ([po] @ pos) ms (snd (ms_resolve_each bar pos (snd (ms_resolve_one bar po ms))))"
    using ms_resolve_one_fills Cons.IH by (rule bar_fills_trans)
  moreover have "snd (ms_resolve_each bar (po # pos) ms) = snd (ms_resolve_each bar pos (snd (ms_resolve_one bar po ms)))"
    by (auto split: prod.split option.split)
  ultimately show ?case by simp
qed

lemma ms_process_bar_fills: "bar_fills bar (ms_pending ms (br_symbol bar)) ms (snd (ms_process_bar bar ms))"
proof (rule ms_process_bar_cases [of bar ms])
  fix e
  assume "ms_process_bar bar ms = (Inl e, snd (ms_update_history bar ms))"
  then show ?thesis by (simp add: bar_fills_def)
next
  fix rest ms1
  assume r: "ms_resolve_each bar (ms_pending ms (br_symbol bar)) (snd (ms_update_history bar ms)) = (rest, ms1)"
    and p: "ms_process_bar bar ms = (Inr (), ms1\<lparr>ms_pending := (ms_pending ms1)(br_symbol bar := rest),
       ms_last_bar := (ms_last_bar ms1)(br_symbol bar \<mapsto> bar)\<rparr>)"
  show ?thesis
    using ms_resolve_each_fills [of bar "ms_pending ms (br_symbol bar)" "snd (ms_update_history bar ms)"]
    unfolding p snd_conv r by (simp add: bar_fills_def)
qed

text \<open>The parts of a pass that came to an end, in order.\<close>

lemma bt_iteration_cases:
  assumes "bt_iteration cfg strat fuel bar (b, bt, s) = Some (r, b', bt', s')"
  obtains
    (raised) e where "bt_observe cfg bar bt = (Inl e, bt')" "r = Inl e" "b' = b" "s' = s"
  | (settled) b1 bt2 s1 b3 bt4 where
      "fst (bt_observe cfg bar bt) = Inr ()"
      "eb_drain (bt_handle cfg strat) fuel (b, snd (bt_observe cfg bar bt), s) = Some (b1, bt2, s1)"
      "eb_drain (bt_handle cfg strat) fuel
         (eb_publish (BarE bar) (fst (bt_settle cfg b1 bt2)), snd (bt_settle cfg b1 bt2), s1) = Some (b3, bt4, s')"
      "fst (bt_record bar (snd (bt_settle cfg b3 bt4))) = r" "r \<noteq> Inr True"
      "bt' = snd (bt_record bar (snd (bt_settle cfg b3 bt4)))" "b' = fst (bt_settle cfg b3 bt4)"
  | (halted) b1 bt2 s1 b3 bt4 s2 bt6 where
      "fst (bt_observe cfg bar bt) = Inr ()" "r = Inr True"
      "eb_drain (bt_handle cfg strat) fuel (b, snd (bt_observe cfg bar bt), s) = Some (b1, bt2, s1)"
      "eb_drain (bt_handle cfg strat) fuel
         (eb_publish (BarE bar) (fst (bt_settle cfg b1 bt2)), snd (bt_settle cfg b1 bt2), s1) = Some (b3, bt4, s2)"
      "fst (bt_record bar (snd (bt_settle cfg b3 bt4))) = Inr True"
      "bt6 = snd (bt_record bar (snd (bt_settle cfg b3 bt4)))"
      "eb_drain (bt_handle cfg strat) fuel
         (eb_publish (bt_halt_event bar (bt_halt_reason bt6)) (fst (bt_settle cfg b3 bt4)), bt6, s2) = Some (b', bt', s')"
proof -
  obtain r1 bt1 where o: "bt_observe cfg bar bt = (r1, bt1)" by (cases "bt_observe cfg bar bt")
  show ?thesis
  proof (cases r1)
    case (Inl e)
    with assms o show ?thesis by (intro raised [of e]) (auto simp: bt_iteration_def)
  next
    case (Inr u)
    obtain b1 bt2 s1 where d1: "eb_drain (bt_handle cfg strat) fuel (b, bt1, s) = Some (b1, bt2, s1)"
      using assms o Inr by (auto simp: bt_iteration_def split: option.splits)
    obtain b2 bt3 where st1: "bt_settle cfg b1 bt2 = (b2, bt3)" by (cases "bt_settle cfg b1 bt2")
    obtain b3 bt4 s2 where d2: "eb_drain (bt_handle cfg strat) fuel (eb_publish (BarE bar) b2, bt3, s1) = Some (b3, bt4, s2)"
      using assms o Inr d1 st1 by (auto simp: bt_iteration_def split: option.splits)
    obtain b4 bt5 where st2: "bt_settle cfg b3 bt4 = (b4, bt5)" by (cases "bt_settle cfg b3 bt4")
    obtain r6 bt6 where rec: "bt_record bar bt5 = (r6, bt6)" by (cases "bt_record bar bt5")
    show ?thesis
    proof (cases "r6 = Inr True")
      case True
      with assms o Inr d1 st1 d2 st2 rec show ?thesis
        by (intro halted [of b1 bt2 s1 b3 bt4 s2 bt6]) (auto simp: bt_iteration_def split: option.splits)
    next
      case False
      then have "(case r6 of Inr True \<Rightarrow> x | _ \<Rightarrow> y) = y" for x y :: "(bool result \<times> ('a, 'b) bt_world) option"
        by (auto split: sum.split bool.split)
      with assms o Inr d1 st1 d2 st2 rec False have "r = r6" "b' = b4" "bt' = bt6" "s' = s2"
        by (auto simp: bt_iteration_def split: sum.splits bool.splits)
      with o Inr d1 st1 d2 st2 rec False show ?thesis
        by (intro settled [of b1 bt2 s1 b3 bt4]) simp_all
    qed
  qed
qed

lemma bt_iteration_books:
  assumes "bt_iteration cfg strat fuel bar (b, bt, s) = Some (r, b', bt', s')"
  shows "same_books (snd (ms_process_bar bar (bt_broker bt))) (bt_broker bt')"
  using assms
proof (cases rule: bt_iteration_cases)
  case (raised e)
  then show ?thesis using bt_observe_fixed(2) [of cfg bar bt] by simp
next
  case (settled b1 bt2 s1 b3 bt4)
  then show ?thesis
    using bt_drain_books(1) [OF settled(2)] bt_drain_books(1) [OF settled(3)]
    by (auto simp: bt_observe_fixed intro: same_books_trans)
next
  case (halted b1 bt2 s1 b3 bt4 s2 bt6)
  then show ?thesis
    using bt_drain_books(1) [OF halted(3)] bt_drain_books(1) [OF halted(4)] bt_drain_books(1) [OF halted(7)]
    by (auto simp: bt_observe_fixed intro: same_books_trans)
qed

text \<open>
  Property C3. No lookahead: the fills, the equity and the positions of a pass over a bar are those
  of the simulator resolving the bar before any strategy sees it, whatever the strategies, the risk
  gate and the bus do in the pass; and each new fill is of an order that was pending before the pass.
\<close>

theorem bt_no_lookahead:
  assumes "bt_iteration cfg strat fuel bar (b, bt, s) = Some (r, b', bt', s')"
  defines "ms0 \<equiv> snd (ms_process_bar bar (bt_broker bt))"
  shows "ms_fills (bt_broker bt') = ms_fills ms0 \<and> ms_equity (bt_broker bt') = ms_equity ms0
    \<and> ms_positions (bt_broker bt') = ms_positions ms0
    \<and> (\<forall>x \<in> set (drop (length (ms_fills (bt_broker bt))) (ms_fills (bt_broker bt'))).
         ex_ts x = br_ts bar \<and> ex_order_id x \<in> po_id ` set (ms_pending (bt_broker bt) (br_symbol bar)))"
  using bt_iteration_books [OF assms(1)] ms_process_bar_fills [of bar "bt_broker bt"]
  by (auto simp: same_books_def bar_fills_def ms0_def)

section \<open>The order table agrees with the simulator\<close>

lemma fills_coherent_append:
  "fills_coherent d (xs @ ys) \<longleftrightarrow> fills_coherent d xs \<and> fills_coherent (d + fill_qty xs) ys"
proof (induction d xs rule: fills_coherent.induct)
  case (1 d)
  then show ?case by simp
next
  case (2 d x xs)
  then show ?case by (auto simp: fill_qty_def add.assoc)
qed

lemma fill_sums_append:
  "fill_qty (xs @ ys) = fill_qty xs + fill_qty ys" "fill_notional (xs @ ys) = fill_notional xs + fill_notional ys"
  by (simp_all add: fill_qty_def fill_notional_def)

lemma om_execs_stream:
  "om_execs oid (map (Pair now) evs) = fills_for oid (List.map_filter om_exec evs)"
proof (induction evs)
  case Nil
  then show ?case by (simp add: om_execs_def om_own_def fills_for_def map_filter_simps)
next
  case (Cons ev evs)
  then show ?case
    by (cases ev) (simp_all add: om_execs_def fills_for_def map_filter_simps)
qed

text \<open>The executions of the stream the order manager has taken.\<close>

definition bt_seen :: "backtest \<Rightarrow> exec_event list" where
  "bt_seen bt = List.map_filter om_exec (take (bt_taken bt) (ms_events (bt_broker bt)))"

definition order_accounts :: "exec_event list \<Rightarrow> managed_order \<Rightarrow> bool" where
  "order_accounts xs mo \<longleftrightarrow> mo_filled mo = fill_qty xs \<and> mo_avg mo * of_int (mo_filled mo) = fill_notional xs"

definition bt_table_ok :: "broker_request list \<Rightarrow> backtest \<Rightarrow> bool" where
  "bt_table_ok placed bt \<longleftrightarrow>
     dom (dget (om_orders (bt_om bt))) = rq_id ` set placed
   \<and> (\<forall>rq \<in> set placed. \<exists>mo. dget (om_orders (bt_om bt)) (rq_id rq) = Some mo \<and> mo_qty mo = rq_qty rq
        \<and> 0 \<le> rq_qty rq \<and> order_accounts (fills_for (rq_id rq) (bt_seen bt)) mo)"

definition bt_inv :: "backtest_cfg \<Rightarrow> backtest \<Rightarrow> bool" where
  "bt_inv cfg bt \<longleftrightarrow> (\<exists>placed.
     map rq_id placed = map (bc_uuid cfg) [0..<bt_orders bt] \<and> bt_taken bt \<le> length (ms_events (bt_broker bt))
   \<and> ms_filled_ok placed (bt_broker bt) \<and> ms_pending_ok placed (bt_broker bt) \<and> bt_table_ok placed bt)"

lemma bt_invI:
  assumes "map rq_id placed = map (bc_uuid cfg) [0..<bt_orders bt]" "bt_taken bt \<le> length (ms_events (bt_broker bt))"
    and "ms_filled_ok placed (bt_broker bt)" "ms_pending_ok placed (bt_broker bt)" "bt_table_ok placed bt"
  shows "bt_inv cfg bt"
  using assms unfolding bt_inv_def by blast

lemma bt_seen_extend:
  "bt_taken bt \<le> length (ms_events (bt_broker bt)) \<Longrightarrow> ms_events (bt_broker bt') = ms_events (bt_broker bt) @ evs \<Longrightarrow>
   bt_taken bt' = bt_taken bt \<Longrightarrow> bt_seen bt' = bt_seen bt"
  by (simp add: bt_seen_def)

lemma bt_seen_prefix:
  assumes "ms_filled_ok placed (bt_broker bt)"
  shows "ms_fills (bt_broker bt) = bt_seen bt @ List.map_filter om_exec (drop (bt_taken bt) (ms_events (bt_broker bt)))"
proof -
  have "ms_fills (bt_broker bt) = List.map_filter om_exec (ms_events (bt_broker bt))"
    using assms by (simp add: ms_filled_ok_def)
  also have "\<dots> = List.map_filter om_exec (take (bt_taken bt) (ms_events (bt_broker bt))
      @ drop (bt_taken bt) (ms_events (bt_broker bt)))" by simp
  also have "\<dots> = bt_seen bt @ List.map_filter om_exec (drop (bt_taken bt) (ms_events (bt_broker bt)))"
    unfolding bt_seen_def map_filter_def by (simp only: filter_append map_append)
  finally show ?thesis .
qed

lemma bt_inv_signal:
  assumes "inj (bc_uuid cfg)" "bt_inv cfg bt"
  shows "bt_inv cfg (snd (bt_on_signal cfg sg bt))"
proof -
  obtain placed where p: "map rq_id placed = map (bc_uuid cfg) [0..<bt_orders bt]"
    "bt_taken bt \<le> length (ms_events (bt_broker bt))" "ms_filled_ok placed (bt_broker bt)"
    "ms_pending_ok placed (bt_broker bt)" "bt_table_ok placed bt"
    using assms(2) unfolding bt_inv_def by blast
  let ?id = "bc_uuid cfg (bt_orders bt)" and ?now = "bc_wall cfg (bt_signals bt)"
  let ?rq = "om_request ?id sg"
  show ?thesis
  proof (rule bt_on_signal_cases [of cfg sg bt])
    assume "bt_on_signal cfg sg bt = (Inr (), bt\<lparr>bt_risk := snd (re_check_order sg (bt_view cfg bt)
        (bc_mono cfg (bt_signals bt)) (bt_risk bt)), bt_signals := Suc (bt_signals bt)\<rparr>)"
    with p show ?thesis by (intro bt_invI [of placed]) (simp_all add: bt_table_ok_def bt_seen_def)
  next
    fix re
    let ?bt = "bt\<lparr>bt_risk := re, bt_signals := Suc (bt_signals bt),
        bt_om := (bt_om bt)\<lparr>om_orders := dset ?id
          ((om_new_order ?id ?now sg (bt_last_price bt (sg_symbol sg)))\<lparr>mo_status := SUBMITTED\<rparr>) (om_orders (bt_om bt))\<rparr>,
        bt_broker := snd (ms_place_order ?now ?rq (bt_broker bt)), bt_orders := Suc (bt_orders bt)\<rparr>"
    assume r: "bt_on_signal cfg sg bt = (Inr (), ?bt)"
    have ids: "map rq_id (placed @ [?rq]) = map (bc_uuid cfg) [0..<bt_orders ?bt]"
      using p(1) by (simp add: om_request_def)
    have old: "rq_id ` set placed = bc_uuid cfg ` {0..<bt_orders bt}"
      using p(1) by (metis image_set set_upt)
    have new: "?id \<notin> rq_id ` set placed" using assms(1) unfolding old by (auto dest: injD)
    have "distinct (map rq_id (placed @ [?rq]))"
      unfolding ids distinct_map by (intro conjI distinct_upt inj_on_subset [OF assms(1)] subset_UNIV)
    then have ok: "ms_filled_ok (placed @ [?rq]) (bt_broker ?bt)" "ms_pending_ok (placed @ [?rq]) (bt_broker ?bt)"
      using ms_op_ok [OF p(3,4), of "PlaceOp ?now ?rq"] by (simp_all add: ms_placed_def map_filter_simps)
    have ev: "\<exists>evs. ms_events (bt_broker ?bt) = ms_events (bt_broker bt) @ evs"
      by (simp add: ms_place_order_def Let_def)
    then have seen: "bt_seen ?bt = bt_seen bt" using p(2) by (auto intro: bt_seen_extend)
    have "ex_order_id x \<noteq> ?id" if "x \<in> set (bt_seen bt)" for x
    proof -
      have "x \<in> set (ms_fills (bt_broker bt))" using that by (simp add: bt_seen_prefix [OF p(3)])
      then have "ex_order_id x \<in> rq_id ` set placed" using p(3) by (auto simp: ms_filled_ok_def)
      then show ?thesis using new by metis
    qed
    then have none: "fills_for ?id (bt_seen bt) = []" by (simp add: fills_for_def filter_empty_conv)
    have diff: "rq_id rq \<noteq> ?id" if "rq \<in> set placed" for rq using new that by (metis image_eqI)
    have "bt_table_ok (placed @ [?rq]) ?bt"
      using p(5) diff none unfolding bt_table_ok_def seen
      by (auto simp: om_request_def om_new_order_def order_accounts_def fill_qty_def fill_notional_def)
    with ids ok ev p(2) have "bt_inv cfg ?bt" by (intro bt_invI [of "placed @ [?rq]"]) auto
    then show ?thesis by (simp only: r snd_conv)
  qed
qed

lemma bt_ids_distinct:
  "inj (bc_uuid cfg) \<Longrightarrow> map rq_id placed = map (bc_uuid cfg) [0..<n] \<Longrightarrow> distinct (map rq_id placed)"
  by (metis distinct_map distinct_upt inj_on_subset subset_UNIV)

lemma bt_inv_observe:
  assumes "inj (bc_uuid cfg)" "bt_inv cfg bt"
  shows "bt_inv cfg (snd (bt_observe cfg bar bt))"
proof -
  obtain placed where p: "map rq_id placed = map (bc_uuid cfg) [0..<bt_orders bt]"
    "bt_taken bt \<le> length (ms_events (bt_broker bt))" "ms_filled_ok placed (bt_broker bt)"
    "ms_pending_ok placed (bt_broker bt)" "bt_table_ok placed bt"
    using assms(2) unfolding bt_inv_def by blast
  let ?bt = "snd (bt_observe cfg bar bt)"
  note f = bt_observe_fixed(2-6) [of cfg bar bt]
  have ok: "ms_filled_ok placed (bt_broker ?bt)" "ms_pending_ok placed (bt_broker ?bt)"
    using ms_op_ok [OF p(3,4), of "BarOp bar"] bt_ids_distinct [OF assms(1) p(1)]
    by (simp_all add: ms_placed_def map_filter_simps f)
  obtain evs where ev: "ms_events (bt_broker ?bt) = ms_events (bt_broker bt) @ evs"
    using ms_process_bar_fills [of bar "bt_broker bt"] by (auto simp: bar_fills_def f)
  then have seen: "bt_seen ?bt = bt_seen bt" using p(2) f by (auto intro: bt_seen_extend)
  have "bt_table_ok placed ?bt" using p(5) by (simp add: bt_table_ok_def seen f)
  with p(1,2) ok ev show ?thesis by (intro bt_invI [of placed]) (simp_all add: f)
qed

text \<open>Draining the stream brings every order's record up to date.\<close>

lemma order_accounts_fold:
  assumes "order_accounts xs mo" "0 \<le> fill_qty xs" "fills_coherent (fill_qty xs) (om_execs oid evs)"
  shows "order_accounts (xs @ om_execs oid evs) (fold om_touch (om_own oid evs) mo)"
  using assms fold_om_touch_fills [of mo "om_own oid evs"]
  by (auto simp: order_accounts_def fill_sums_append om_execs_def)

lemma fills_coherent_nonneg: "fills_coherent d xs \<Longrightarrow> 0 \<le> fill_qty xs"
proof (induction d xs rule: fills_coherent.induct)
  case (1 d)
  then show ?case by (simp add: fill_qty_def)
next
  case (2 d x xs)
  then show ?case by (auto simp: fill_qty_def)
qed

definition bt_settled :: "backtest \<Rightarrow> bool" where
  "bt_settled bt \<longleftrightarrow> List.map_filter om_exec (drop (bt_taken bt) (ms_events (bt_broker bt))) = []"

lemma bt_settle_om:
  "bt_om (snd (bt_settle cfg b bt)) =
     fst (om_consume (map (Pair (bc_wall cfg (bt_signals bt))) (drop (bt_taken bt) (ms_events (bt_broker bt)))) (bt_om bt, b))"
  "bt_taken (snd (bt_settle cfg b bt)) = length (ms_events (bt_broker bt))"
  by (simp_all add: bt_settle_def Let_def split: prod.split)

lemma bt_settled_settle [simp]: "bt_settled (snd (bt_settle cfg b bt))"
  by (simp add: bt_settled_def bt_settle_om map_filter_simps)

lemma bt_inv_settle:
  assumes "bt_inv cfg bt"
  shows "bt_inv cfg (snd (bt_settle cfg b bt))"
proof -
  obtain placed where p: "map rq_id placed = map (bc_uuid cfg) [0..<bt_orders bt]"
    "bt_taken bt \<le> length (ms_events (bt_broker bt))" "ms_filled_ok placed (bt_broker bt)"
    "ms_pending_ok placed (bt_broker bt)" "bt_table_ok placed bt"
    using assms unfolding bt_inv_def by blast
  let ?bt = "snd (bt_settle cfg b bt)" and ?new = "drop (bt_taken bt) (ms_events (bt_broker bt))"
  let ?evs = "map (Pair (bc_wall cfg (bt_signals bt))) ?new"
  have fills: "ms_fills (bt_broker bt) = bt_seen bt @ List.map_filter om_exec ?new"
    using p(3) by (rule bt_seen_prefix)
  have seen: "bt_seen ?bt = ms_fills (bt_broker bt)"
    using p(3) by (simp add: bt_seen_def bt_settle_om ms_filled_ok_def)
  have get: "dget (om_orders (bt_om ?bt)) oid =
      map_option (fold om_touch (om_own oid ?evs)) (dget (om_orders (bt_om bt)) oid)" for oid
    unfolding bt_settle_om by (rule om_consume_order)
  have acc: "order_accounts (fills_for oid (bt_seen ?bt)) (fold om_touch (om_own oid ?evs) mo)"
    if "order_accounts (fills_for oid (bt_seen bt)) mo" for oid mo
  proof -
    have split: "fills_for oid (ms_fills (bt_broker bt)) = fills_for oid (bt_seen bt) @ om_execs oid ?evs"
      unfolding fills om_execs_stream by (simp add: fills_for_def)
    have "fills_coherent 0 (fills_for oid (bt_seen bt) @ om_execs oid ?evs)"
      using p(3) unfolding split [symmetric] by (simp add: ms_filled_ok_def)
    then have "fills_coherent 0 (fills_for oid (bt_seen bt))"
      "fills_coherent (fill_qty (fills_for oid (bt_seen bt))) (om_execs oid ?evs)"
      by (simp_all add: fills_coherent_append)
    then show ?thesis unfolding seen split
      using order_accounts_fold [OF that] fills_coherent_nonneg by blast
  qed
  have "dom (dget (om_orders (bt_om ?bt))) = dom (dget (om_orders (bt_om bt)))"
    by (auto simp: dom_def get)
  then have "bt_table_ok placed ?bt"
    using p(5) acc fold_om_touch_fixed unfolding bt_table_ok_def get by fastforce
  with p show ?thesis by (intro bt_invI [of placed]) (simp_all add: bt_settle_om)
qed

lemma bt_inv_record: "bt_inv cfg bt \<Longrightarrow> bt_inv cfg (snd (bt_record bar bt))"
  by (simp add: bt_inv_def bt_table_ok_def bt_seen_def)

lemma bt_settled_record: "bt_settled bt \<Longrightarrow> bt_settled (snd (bt_record bar bt))"
  by (simp add: bt_settled_def)

lemma bt_drain_taken:
  assumes "eb_drain (bt_handle cfg strat) n (b, bt, s) = Some (b', bt', s')"
  shows "bt_taken bt' = bt_taken bt"
  by (rule bt_drain_invariant [where P = "\<lambda>x :: backtest. bt_taken x = bt_taken bt", OF _ assms])
    (rule_tac sg = sg and bt = bta and cfg = cfg in bt_on_signal_cases, simp_all)

lemma bt_settled_drain:
  assumes "eb_drain (bt_handle cfg strat) n (b, bt, s) = Some (b', bt', s')" "bt_settled bt"
  shows "bt_settled bt'"
proof -
  obtain acks where "ms_events (bt_broker bt') = ms_events (bt_broker bt) @ acks" "List.map_filter om_exec acks = []"
    using bt_drain_books(1) [OF assms(1)] by (auto simp: same_books_def)
  with assms(2) bt_drain_taken [OF assms(1)] show ?thesis
    unfolding bt_settled_def map_filter_def
    by (auto simp: filter_empty_conv dest: in_set_dropD)
qed

lemma bt_inv_drain:
  "inj (bc_uuid cfg) \<Longrightarrow> eb_drain (bt_handle cfg strat) n (b, bt, s) = Some (b', bt', s') \<Longrightarrow> bt_inv cfg bt \<Longrightarrow> bt_inv cfg bt'"
  by (rule bt_drain_invariant [where P = "bt_inv cfg" and cfg = cfg]) (rule bt_inv_signal)

lemma bt_iteration_inv:
  assumes "inj (bc_uuid cfg)" "bt_iteration cfg strat fuel bar (b, bt, s) = Some (r, b', bt', s')" "bt_inv cfg bt"
  shows "bt_inv cfg bt' \<and> (ok r \<longrightarrow> bt_settled bt')"
  using assms(2)
proof (cases rule: bt_iteration_cases)
  case (raised e)
  then show ?thesis using bt_inv_observe [OF assms(1,3), of bar] by simp
next
  case (settled b1 bt2 s1 b3 bt4)
  then have "bt_inv cfg bt4"
    by (meson assms(1,3) bt_inv_drain bt_inv_observe bt_inv_settle)
  then show ?thesis using settled(6) by (simp add: bt_inv_settle bt_inv_record bt_settled_record)
next
  case (halted b1 bt2 s1 b3 bt4 s2 bt6)
  then have "bt_inv cfg bt4"
    by (meson assms(1,3) bt_inv_drain bt_inv_observe bt_inv_settle)
  then have "bt_inv cfg bt6" "bt_settled bt6" using halted(6) by (simp_all add: bt_inv_settle bt_inv_record bt_settled_record)
  then show ?thesis using bt_inv_drain [OF assms(1) halted(7)] bt_settled_drain [OF halted(7)] by blast
qed

text \<open>
  What passes keep, and what holds after each pass that raises nothing, holds at the end of a run
  that raises nothing.
\<close>

lemma bt_loop_invariant:
  assumes pass: "\<And>bar b bt s r b' bt' s'. bt_iteration cfg strat fuel bar (b, bt, s) = Some (r, b', bt', s') \<Longrightarrow>
      P bt \<Longrightarrow> P bt' \<and> (ok r \<longrightarrow> Q bt')"
  shows "bt_loop cfg strat fuel bars (b, bt, s) = Some (r, b', bt', s') \<Longrightarrow> P bt \<Longrightarrow> Q bt \<Longrightarrow>
    P bt' \<and> (ok r \<longrightarrow> Q bt')"
proof (induction bars arbitrary: b bt s)
  case Nil
  then show ?case by simp
next
  case (Cons bar bars)
  obtain v b1 bt1 s1 where it: "bt_iteration cfg strat fuel bar (b, bt, s) = Some (v, b1, bt1, s1)"
    using Cons.prems(1) by (auto split: option.splits prod.splits)
  note kept = pass [OF it Cons.prems(2)]
  show ?case
  proof (cases "v = Inr False")
    case True
    with it Cons.prems(1) have "bt_loop cfg strat fuel bars (b1, bt1, s1) = Some (r, b', bt', s')" by simp
    with True kept show ?thesis using Cons.IH [of b1 bt1 s1] by simp
  next
    case False
    with it Cons.prems(1) have "bt' = bt1" "ok r \<Longrightarrow> ok v"
      by (auto split: sum.splits bool.splits)
    with kept show ?thesis by simp
  qed
qed

lemma bt_run_invariant:
  assumes run: "bt_run cfg strat fuel bars (b, bt, s) = Some (Inr (), b', bt', s')"
    and start: "\<And>bar. P (fst (snd (bt_start bar (b, bt, s)))) \<and> Q (fst (snd (bt_start bar (b, bt, s))))"
    and pass: "\<And>bar b bt s r b' bt' s'. bt_iteration cfg strat fuel bar (b, bt, s) = Some (r, b', bt', s') \<Longrightarrow>
      P bt \<Longrightarrow> P bt' \<and> (ok r \<longrightarrow> Q bt')"
    and drain: "\<And>b bt s b' bt' s'. eb_drain (bt_handle cfg strat) fuel (b, bt, s) = Some (b', bt', s') \<Longrightarrow>
      P bt \<Longrightarrow> Q bt \<Longrightarrow> P bt' \<and> Q bt'"
  obtains bt2 where "P bt2" "Q bt2" "bt' = bt2\<lparr>bt_broker := ms_disconnect (bt_broker bt2)\<rparr>"
proof -
  obtain bar rest where so: "bt_sort bars = bar # rest"
    using run by (cases "bt_sort bars") (simp_all add: bt_run_def)
  obtain b0 bt0 s0 where st: "bt_start bar (b, bt, s) = (b0, bt0, s0)" by (metis prod.exhaust)
  obtain b1 bt1 s1 where l: "bt_loop cfg strat fuel (bar # rest) (b0, bt0, s0) = Some (Inr (), b1, bt1, s1)"
    using run so st unfolding bt_run_def by (auto simp del: bt_loop.simps split: option.splits prod.splits)
  obtain b2 bt2 s2 where d: "eb_drain (bt_handle cfg strat) fuel (b1, bt1, s1) = Some (b2, bt2, s2)"
    and fin: "bt' = bt2\<lparr>bt_broker := ms_disconnect (bt_broker bt2)\<rparr>"
    using run so st l unfolding bt_run_def by (auto simp del: bt_loop.simps split: option.splits)
  have "P bt0" "Q bt0" using start [of bar] st by simp_all
  with bt_loop_invariant [where P = P and Q = Q, OF pass l] have "P bt1" "Q bt1" by auto
  with drain [OF d] fin show ?thesis by (intro that [of bt2]) auto
qed

lemma bt_start_inv:
  "bt_inv cfg (fst (snd (bt_start bar (b, bt_init re (ms_init equity mults ip c), s))))
   \<and> bt_settled (fst (snd (bt_start bar (b, bt_init re (ms_init equity mults ip c), s))))"
  by (simp add: bt_start_def bt_init_def Let_def bt_inv_def bt_settled_def ms_connect_def ms_init_def map_filter_simps
      ms_filled_ok_def ms_pending_ok_def bt_table_ok_def om_init_def fills_for_def)

text \<open>
  Property C10. End to end: after a backtest that runs to its end or to a halt, over any bars and with
  any strategies, every order in the order manager's table records exactly what the simulator filled
  of it, quantity and value, never more than was ordered, and every fill is of an order in the table.
\<close>

theorem bt_orders_match_fills:
  assumes "inj (bc_uuid cfg)"
    and "bt_run cfg strat fuel bars (b, bt_init re (ms_init equity mults ip c), s) = Some (Inr (), b', bt', s')"
  defines "fills \<equiv> ms_fills (bt_broker bt')"
  shows "(\<forall>oid mo. dget (om_orders (bt_om bt')) oid = Some mo \<longrightarrow>
        mo_filled mo = fill_qty (fills_for oid fills) \<and> mo_filled mo \<le> mo_qty mo
      \<and> mo_avg mo * of_int (mo_filled mo) = fill_notional (fills_for oid fills))
    \<and> (\<forall>x \<in> set fills. om_get_order (bt_om bt') (ex_order_id x) \<noteq> None)"
proof -
  obtain bt2 where inv: "bt_inv cfg bt2" "bt_settled bt2"
    and fin: "bt' = bt2\<lparr>bt_broker := ms_disconnect (bt_broker bt2)\<rparr>"
  proof (rule bt_run_invariant [where P = "bt_inv cfg" and Q = bt_settled, OF assms(2) bt_start_inv bt_iteration_inv [OF assms(1)]])
    fix b bt s b' bt' s'
    assume d: "eb_drain (bt_handle cfg strat) fuel (b, bt, s) = Some (b', bt', s')" "bt_inv cfg bt" "bt_settled bt"
    show "bt_inv cfg bt' \<and> bt_settled bt'"
      using bt_inv_drain [OF assms(1) d(1,2)] bt_settled_drain [OF d(1,3)] by simp
  qed
  from inv(1) obtain placed where p: "ms_filled_ok placed (bt_broker bt2)" "bt_table_ok placed bt2"
    unfolding bt_inv_def by blast
  have fills: "fills = bt_seen bt2"
    using bt_seen_prefix [OF p(1)] inv(2) by (simp add: fills_def fin ms_disconnect_def bt_settled_def)
  have le: "fill_qty (fills_for (rq_id rq) fills) \<le> max 0 (rq_qty rq)" if "rq \<in> set placed" for rq
    using p(1) that by (simp add: ms_filled_ok_def fills_def fin ms_disconnect_def)
  have dm: "dom (dget (om_orders (bt_om bt'))) = rq_id ` set placed"
    using p(2) by (simp add: bt_table_ok_def fin)
  have "mo_filled mo = fill_qty (fills_for oid fills) \<and> mo_filled mo \<le> mo_qty mo
      \<and> mo_avg mo * of_int (mo_filled mo) = fill_notional (fills_for oid fills)"
    if get: "dget (om_orders (bt_om bt')) oid = Some mo" for oid mo
  proof -
    obtain rq where rq: "rq \<in> set placed" "rq_id rq = oid" using dm get by (metis domI imageE)
    then show ?thesis
      using p(2) get le [OF rq(1)] unfolding bt_table_ok_def fills order_accounts_def by (auto simp: fin)
  qed
  moreover have "ex_order_id x \<in> rq_id ` set placed" if "x \<in> set fills" for x
    using p(1) that by (auto simp: ms_filled_ok_def fills_def fin ms_disconnect_def)
  then have "\<forall>x \<in> set fills. om_get_order (bt_om bt') (ex_order_id x) \<noteq> None"
    unfolding om_get_order_def using dm by (metis domIff)
  ultimately show ?thesis by blast
qed

section \<open>The bus comes to rest\<close>

definition bus_ready :: "'h bus \<Rightarrow> bool" where
  "bus_ready b \<longleftrightarrow> eb_inv b \<and> eb_running b \<and> eb_pc b = LoopTest"

lemma bus_ready_publish: "bus_ready b \<Longrightarrow> bus_ready (eb_publish e b)"
  by (simp add: bus_ready_def eb_inv_publish) (simp add: eb_publish_unfold)

lemma bus_ready_consume: "bus_ready b \<Longrightarrow> bus_ready (snd (om_consume evs (om, b)))"
proof (induction evs arbitrary: om b)
  case Nil
  then show ?case by simp
next
  case (Cons p evs)
  obtain om1 b1 where h: "om_handle_broker_event (fst p) (snd p) (om, b) = (om1, b1)" by (metis prod.exhaust)
  then have "bus_ready b1"
    using Cons.prems by (auto simp: om_handle_broker_event_def Let_def bus_ready_publish split: option.splits)
  then show ?case by (simp add: h Cons.IH)
qed

lemma bus_ready_settle: "bus_ready b \<Longrightarrow> bus_ready (fst (bt_settle cfg b bt))"
  using bus_ready_consume [of b _ "bt_om bt"] by (simp add: bt_settle_def Let_def split: prod.split) (metis snd_conv)

lemma eb_drain_more: "eb_drain run n (b, w) = Some r \<Longrightarrow> eb_drain run (n + k) (b, w) = Some r"
proof (induction n arbitrary: b w)
  case 0
  then have "eb_joined b" "r = (b, w)" by (simp_all split: if_splits)
  then show ?case by (cases k) simp_all
next
  case (Suc n)
  show ?case
  proof (cases "eb_joined b")
    case True
    with Suc.prems show ?thesis by auto
  next
    case False
    with Suc show ?thesis by (auto split: option.splits)
  qed
qed

text \<open>A drain that returns leaves the loop at its test, ready for the next.\<close>

lemma eb_drain_rest:
  assumes "eb_drain run n (b, w) = Some (b', w')" "eb_inv b" "eb_running b"
    and "eb_pc b = LoopTest \<or> eb_pc b = LoopGet \<and> \<not> eb_joined b"
  shows "bus_ready b'"
  using assms
proof (induction n arbitrary: b w)
  case 0
  then show ?case by (auto simp: bus_ready_def split: if_splits)
next
  case (Suc n)
  show ?case
  proof (cases "eb_joined b")
    case True
    with Suc.prems show ?thesis by (auto simp: bus_ready_def)
  next
    case False
    with Suc.prems obtain b1 w1 where st: "eb_loop_step run (b, w) = Some (b1, w1)"
      and rest: "eb_drain run n (b1, w1) = Some (b', w')" by (auto split: option.splits)
    show ?thesis
    proof (cases "eb_pc b = LoopTest")
      case True
      with st Suc.prems(3) have "b1 = b\<lparr>eb_pc := LoopGet\<rparr>" by (simp add: eb_step_test)
      with False Suc.prems(2,3) rest show ?thesis
        by (intro Suc.IH [of b1 w1]) (simp_all add: eb_inv_def eb_joined_def)
    next
      case pc: False
      then have pc: "eb_pc b = LoopGet" using Suc.prems(4) by simp
      obtain e es where items: "aq_items (eb_queue b) = e # es"
        using False Suc.prems(2) by (cases "aq_items (eb_queue b)") (simp_all add: eb_joined_def eb_inv_def)
      have "eb_pc b1 = LoopTest \<and> eb_running b1 = eb_running b \<and> eb_inv b1"
        by (rule eb_step_get [OF Suc.prems(2) pc items, of run w]) (use st in auto)
      with Suc.prems(3) rest show ?thesis by (intro Suc.IH [of b1 w1]) simp_all
    qed
  qed
qed

lemma bt_handle_stratified:
  fixes strat :: "('h, 's) handler_sem"
  assumes "stratified rank strat"
  shows "stratified rank (bt_handle cfg strat)"
  unfolding stratified_def
proof (intro allI ballI)
  fix h :: "'h bt_handler" and e :: event and w :: "backtest \<times> 's" and p
  assume p: "p \<in> set (fst (fst (bt_handle cfg strat h e w)))"
  obtain bt s where w: "w = (bt, s)" by (cases w)
  show "rank p < rank e"
  proof (cases h)
    case RiskGate
    with p show ?thesis by (cases e) (auto simp: w split: prod.splits)
  next
    case (Strategy k)
    with p have "p \<in> set (fst (fst (strat k e s)))" by (auto simp: w split: prod.splits)
    with assms show ?thesis unfolding stratified_def by blast
  qed
qed

lemma bt_drain_total:
  assumes "stratified rank strat" "bus_ready b"
  shows "\<exists>N b' bt' s'. bus_ready b' \<and> (\<forall>fuel \<ge> N. eb_drain (bt_handle cfg strat) fuel (b, bt, s) = Some (b', bt', s'))"
proof -
  obtain n b' w' where d: "eb_drain (bt_handle cfg strat) n (b, bt, s) = Some (b', w')"
    using eb_drain_returns [OF bt_handle_stratified [OF assms(1)], of b cfg "(bt, s)"] assms(2)
    by (auto simp: bus_ready_def)
  have "eb_drain (bt_handle cfg strat) fuel (b, bt, s) = Some (b', w')" if "n \<le> fuel" for fuel
    using eb_drain_more [OF d, of "fuel - n"] that by simp
  moreover have "bus_ready b'" using eb_drain_rest [OF d] assms(2) by (simp add: bus_ready_def)
  ultimately show ?thesis by (metis prod.exhaust)
qed

lemma bt_iteration_total:
  assumes "stratified rank strat" "bus_ready b"
  shows "\<exists>N r b' bt' s'. bus_ready b' \<and> (\<forall>fuel \<ge> N. bt_iteration cfg strat fuel bar (b, bt, s) = Some (r, b', bt', s'))"
proof -
  obtain r1 bt1 where o: "bt_observe cfg bar bt = (r1, bt1)" by (metis prod.exhaust)
  show ?thesis
  proof (cases r1)
    case (Inl e)
    with o have "bt_iteration cfg strat fuel bar (b, bt, s) = Some (Inl e, b, bt1, s)" for fuel
      by (simp add: bt_iteration_def)
    with assms(2) show ?thesis by blast
  next
    case (Inr u)
    obtain N1 b1 bt2 s1 where d1: "bus_ready b1" "\<forall>fuel \<ge> N1. eb_drain (bt_handle cfg strat) fuel (b, bt1, s) = Some (b1, bt2, s1)"
      using bt_drain_total [OF assms, of cfg bt1 s] by blast
    obtain b2 bt3 where st1: "bt_settle cfg b1 bt2 = (b2, bt3)" by (metis prod.exhaust)
    have "bus_ready (eb_publish (BarE bar) b2)"
      using bus_ready_settle [OF d1(1), of cfg bt2] by (simp add: st1 bus_ready_publish)
    then obtain N2 b3 bt4 s2 where d2: "bus_ready b3"
      "\<forall>fuel \<ge> N2. eb_drain (bt_handle cfg strat) fuel (eb_publish (BarE bar) b2, bt3, s1) = Some (b3, bt4, s2)"
      using bt_drain_total [OF assms(1), of _ cfg bt3 s1] by blast
    obtain b4 bt5 where st2: "bt_settle cfg b3 bt4 = (b4, bt5)" by (metis prod.exhaust)
    have r4: "bus_ready b4" using bus_ready_settle [OF d2(1), of cfg bt4] by (simp add: st2)
    obtain r6 bt6 where rec: "bt_record bar bt5 = (r6, bt6)" by (metis prod.exhaust)
    obtain N3 b5 bt7 s3 where d3: "bus_ready b5" "\<forall>fuel \<ge> N3. eb_drain (bt_handle cfg strat) fuel
        (eb_publish (bt_halt_event bar (bt_halt_reason bt6)) b4, bt6, s2) = Some (b5, bt7, s3)"
      using bt_drain_total [OF assms(1) bus_ready_publish [OF r4], where bt = bt6 and s = s2 and cfg = cfg] by blast
    have "\<forall>fuel \<ge> N1 + N2 + N3. bt_iteration cfg strat fuel bar (b, bt, s) =
        Some (if r6 = Inr True then (r6, b5, bt7, s3) else (r6, b4, bt6, s2))"
      using o Inr d1(2) st1 d2(2) st2 rec d3(2) by (auto simp: bt_iteration_def split: sum.split bool.split)
    then show ?thesis using r4 d3(1) by (cases "r6 = Inr True") (auto intro!: exI [of _ "N1 + N2 + N3"])
  qed
qed

lemma bt_loop_total:
  assumes "stratified rank strat"
  shows "bus_ready b \<Longrightarrow>
    \<exists>N r b' bt' s'. bus_ready b' \<and> (\<forall>fuel \<ge> N. bt_loop cfg strat fuel bars (b, bt, s) = Some (r, b', bt', s'))"
proof (induction bars arbitrary: b bt s)
  case Nil
  then show ?case by auto
next
  case (Cons bar bars)
  obtain N1 v b1 bt1 s1 where it: "bus_ready b1"
    "\<forall>fuel \<ge> N1. bt_iteration cfg strat fuel bar (b, bt, s) = Some (v, b1, bt1, s1)"
    using bt_iteration_total [OF assms Cons.prems] by blast
  obtain N2 r b2 bt2 s2 where l: "bus_ready b2"
    "\<forall>fuel \<ge> N2. bt_loop cfg strat fuel bars (b1, bt1, s1) = Some (r, b2, bt2, s2)"
    using Cons.IH [OF it(1)] by blast
  show ?case
  proof (cases "v = Inr False")
    case True
    with it(2) l(2) have "\<forall>fuel \<ge> N1 + N2. bt_loop cfg strat fuel (bar # bars) (b, bt, s) = Some (r, b2, bt2, s2)"
      by simp
    with l(1) show ?thesis by blast
  next
    case False
    then have "\<exists>r. \<forall>fuel \<ge> N1. bt_loop cfg strat fuel (bar # bars) (b, bt, s) = Some (r, b1, bt1, s1)"
      using it(2) by (cases v) auto
    with it(1) show ?thesis by blast
  qed
qed

text \<open>
  Property C17. A backtest returns: when each event makes a strategy publish only events of a lower
  rank (bars cause signals, signals cause none), then from some fuel on, the same for all, the run
  comes to its end with one and the same outcome.
\<close>

theorem bt_run_returns:
  assumes "stratified rank strat" "eb_inv b"
  shows "\<exists>N res. \<forall>fuel \<ge> N. bt_run cfg strat fuel bars (b, bt, s) = Some res"
proof (cases "bt_sort bars")
  case Nil
  then show ?thesis by (auto simp: bt_run_def)
next
  case (Cons bar rest)
  obtain b0 bt0 s0 where st: "bt_start bar (b, bt, s) = (b0, bt0, s0)" by (metis prod.exhaust)
  have "bus_ready b0" using st assms(2) by (auto simp: bt_start_def Let_def bus_ready_def eb_start_def eb_inv_def)
  then obtain N1 r b1 bt1 s1 where l: "bus_ready b1"
    "\<forall>fuel \<ge> N1. bt_loop cfg strat fuel (bar # rest) (b0, bt0, s0) = Some (r, b1, bt1, s1)"
    using bt_loop_total [OF assms(1), of b0] by blast
  obtain N2 b2 bt2 s2 where d: "\<forall>fuel \<ge> N2. eb_drain (bt_handle cfg strat) fuel (b1, bt1, s1) = Some (b2, bt2, s2)"
    using bt_drain_total [OF assms(1) l(1), of cfg bt1 s1] by blast
  have "\<forall>fuel \<ge> N1 + N2. bt_run cfg strat fuel bars (b, bt, s) =
      Some (r, eb_stop_request b2, bt2\<lparr>bt_broker := ms_disconnect (bt_broker bt2)\<rparr>, s2)"
    using l(2) d by (simp add: bt_run_def Cons st del: bt_loop.simps)
  then show ?thesis by blast
qed

section \<open>A concrete backtest\<close>

text \<open>
  A strategy that buys two contracts at the first bar it sees, on one symbol and a bus of capacity
  nine: the run fills the order at the second bar.
\<close>

definition replay_bar :: "datetime \<Rightarrow> real \<Rightarrow> bar_event" where
  "replay_bar t px = \<lparr>br_ts = t, br_symbol = ''ES'', br_timeframe = 60, br_open = px, br_high = px + 1, br_low = px - 1,
     br_close = px, br_volume = 50, br_vwap = px\<rparr>"

definition replay_strategy :: "(unit, nat) handler_sem" where
  "replay_strategy h e s = (case e of
     BarE bar \<Rightarrow> ((if s = 0 then [SignalE (sample_signal BUY 2)] else [], False), Suc s) | _ \<Rightarrow> (([], False), s))"

definition replay_cfg :: backtest_cfg where
  "replay_cfg = \<lparr>bc_mults = Map.empty, bc_uuid = (\<lambda>n. replicate n (CHR ''o'')), bc_wall = int, bc_mono = real\<rparr>"

definition replay_bus :: "unit bt_handler bus" where
  "replay_bus = eb_subscribe BAR (Strategy ()) (eb_subscribe SIGNAL RiskGate (eb_init 9))"

lemmas replay_eval =
  bt_run_def bt_sort_def replay_bar_def bt_start_def bt_init_def Let_def bt_iteration_def
  bt_observe_def bt_roll_session_def ms_process_bar_def ms_update_history_def
  ms_resolve_pending_orders_def replay_bus_def eb_subscribe_def eb_init_def aq_new_def eb_start_def
  eb_joined_def eb_loop_step_def eb_publish_unfold aq_full_def aq_get_def eb_dispatch_def
  aq_task_done_def replay_strategy_def replay_cfg_def bt_settle_def om_init_def ms_init_def
  ms_connect_def keep_last_def bt_record_def cb_update_def cb_reset_session_def date_of_def
  usec_per_day_def ms_get_positions_def ms_get_account_equity_def cb_drawdown_def sample_engine_def
  re_init_def eb_stop_request_def ms_disconnect_def re_update_market_state_def
  re_set_contract_multiplier_def bt_multiplier_def



lemmas replay_eval2 =
  bt_on_signal_def sample_signal_def bt_view_def bt_gross_exposure_def ms_get_margin_usage_def
  re_check_order_def re_check_circuit_breaker_def re_check_fat_finger_def re_check_rate_limit_def
  rl_try_acquire_def rl_expire_def rl_init_def re_check_exposure_def re_check_position_limits_def
  re_check_notional_limit_def re_check_leverage_def re_check_margin_def mc_check_order_def
  re_position_def re_multiplier_def om_submit_def ms_venue_def om_new_order_def om_request_def
  ms_place_order_def rr_approve_def om_handle_broker_event_def ms_resolve_one_def
  ms_determine_fill_quantity_def ms_apply_fill_def ms_compute_fill_price_def ms_track_trade_def
  ms_execution_def ms_position_def ms_multiplier_def dget_or_def ms_closing_pnl_def ms_new_avg_def
  ms_is_flip_def ms_start_trade_def ms_reference_price_def sqrt_market_impact_bps_def
  ms_realized_vol_pct_def om_fill_def sl_record_def ex_slippage_def re_update_position_def
  py_int_def

definition replay_sim :: simulator where
  "replay_sim = ms_init 1000 Map.empty \<lparr>ip_coefficient = 0, ip_spread_fraction = 1 / 2, ip_max_participation = 1\<rparr> 1"

lemma replay_run:
  "\<exists>b bt s. bt_run replay_cfg replay_strategy 9 [replay_bar 0 100, replay_bar 5 100]
      (replay_bus, bt_init sample_engine replay_sim, 0) = Some (Inr (), b, bt, s)
    \<and> length (ms_fills (bt_broker bt)) = 1 \<and> length (bt_curve bt) = 3"
  by (simp add: replay_eval replay_eval2 replay_sim_def numeral_eq_Suc split del: if_split)

lemma replay_uuid: "inj (bc_uuid replay_cfg)"
  by (auto simp: inj_def replay_cfg_def)

theorem bt_orders_match_fills_witness:
  "\<exists>b bt s x. bt_run replay_cfg replay_strategy 9 [replay_bar 0 100, replay_bar 5 100]
      (replay_bus, bt_init sample_engine replay_sim, 0) = Some (Inr (), b, bt, s)
    \<and> ms_fills (bt_broker bt) = [x] \<and> om_get_order (bt_om bt) (ex_order_id x) \<noteq> None"
proof -
  obtain b bt s where run: "bt_run replay_cfg replay_strategy 9 [replay_bar 0 100, replay_bar 5 100]
      (replay_bus, bt_init sample_engine replay_sim, 0) = Some (Inr (), b, bt, s)"
    and one: "length (ms_fills (bt_broker bt)) = 1"
    using replay_run by blast
  from one obtain x where x: "ms_fills (bt_broker bt) = [x]" by (auto simp: length_Suc_conv)
  from bt_orders_match_fills [OF replay_uuid run [unfolded replay_sim_def]] have "om_get_order (bt_om bt) (ex_order_id x) \<noteq> None"
    by (simp add: x)
  with run x show ?thesis by blast
qed

lemma replay_pass:
  "\<exists>r b bt s. bt_iteration replay_cfg replay_strategy 9 (replay_bar 5 100) (eb_start replay_bus,
      (bt_init sample_engine replay_sim)\<lparr>bt_broker := snd (ms_place_order 0 (om_request ''a'' (sample_signal BUY 2)) replay_sim)\<rparr>, 1)
    = Some (r, b, bt, s) \<and> length (ms_fills (bt_broker bt)) = 1"
  by (simp add: replay_eval replay_eval2 replay_sim_def numeral_eq_Suc split del: if_split)

theorem bt_no_lookahead_witness:
  "\<exists>r b bt s x. bt_iteration replay_cfg replay_strategy 9 (replay_bar 5 100) (eb_start replay_bus,
      (bt_init sample_engine replay_sim)\<lparr>bt_broker := snd (ms_place_order 0 (om_request ''a'' (sample_signal BUY 2)) replay_sim)\<rparr>, 1)
    = Some (r, b, bt, s) \<and> ms_fills (bt_broker bt) = [x] \<and> ex_ts x = 5 \<and> ex_order_id x = ''a''"
proof -
  let ?bt0 = "(bt_init sample_engine replay_sim)
    \<lparr>bt_broker := snd (ms_place_order 0 (om_request ''a'' (sample_signal BUY 2)) replay_sim)\<rparr>"
  obtain r b bt s where it: "bt_iteration replay_cfg replay_strategy 9 (replay_bar 5 100) (eb_start replay_bus, ?bt0, 1)
      = Some (r, b, bt, s)" and one: "length (ms_fills (bt_broker bt)) = 1"
    using replay_pass by blast
  from one obtain x where x: "ms_fills (bt_broker bt) = [x]" by (auto simp: length_Suc_conv)
  have "ex_ts x = 5 \<and> ex_order_id x = ''a''"
    using bt_no_lookahead [OF it]
    by (simp add: x replay_sim_def ms_init_def ms_place_order_def om_request_def sample_signal_def replay_bar_def po_id_def Let_def)
  with it x show ?thesis by blast
qed

theorem bt_run_returns_witness:
  "\<exists>N res. \<forall>fuel \<ge> N. bt_run replay_cfg replay_strategy fuel [replay_bar 0 100, replay_bar 5 100]
     (replay_bus, bt_init sample_engine replay_sim, 0) = Some res"
proof -
  have "stratified (\<lambda>e. case e of BarE _ \<Rightarrow> 1 | _ \<Rightarrow> 0) replay_strategy"
    by (auto simp: stratified_def replay_strategy_def split: event.splits if_splits)
  then show ?thesis
    by (rule bt_run_returns) (simp add: replay_bus_def eb_subscribe_def eb_inv_def eb_init_def aq_new_def)
qed

end
