(* ===== verification/State_Recovery.thy ===== *)
theory State_Recovery
  imports Risk_Engine
begin

text \<open>
  State recovery on restart, \<^verbatim>\<open>utils/state_recovery.py\<close>: the circuit breaker's session is kept
  in a JSON file, the positions are asked from the broker.  The file is its parsed content;
  characters are not modelled, so parsing a text that is not one the program itself writes is
  left to the argument of type \<open>text_reader\<close>.  The readings of the clock within one call are
  one argument.
\<close>

section \<open>JSON values\<close>

datatype json =
    JNull
  | JBool bool
  | JNum real
  | JStr fstr
  | JArr "json list"
  | JObj "(string, json) dict"

record text_reader =
  tx_date :: "fstr \<Rightarrow> date option"    \<comment> \<open>\<^verbatim>\<open>date.fromisoformat\<close>, \<open>None\<close> for \<^verbatim>\<open>ValueError\<close>\<close>
  tx_float :: "fstr \<Rightarrow> real option"   \<comment> \<open>\<^verbatim>\<open>float\<close> of a text\<close>
  tx_repr :: "json \<Rightarrow> fstr"          \<comment> \<open>\<^verbatim>\<open>str\<close> of a value that is not a text\<close>

text \<open>\<^verbatim>\<open>value[key]\<close>: only objects have text keys.\<close>

fun js_get :: "string \<Rightarrow> json \<Rightarrow> json result" where
  "js_get k (JObj d) = (case dget d k of None \<Rightarrow> Inl (KeyError k) | Some v \<Rightarrow> Inr v)"
| "js_get k _ = Inl TypeError"

fun js_date :: "text_reader \<Rightarrow> json \<Rightarrow> date result" where
  "js_date tx (JStr t) =
     (case t of
        [DateP d] \<Rightarrow> Inr d
      | _ \<Rightarrow> (case tx_date tx t of None \<Rightarrow> Inl (ValueError [Lit ''Invalid isoformat string'']) | Some d \<Rightarrow> Inr d))"
| "js_date tx _ = Inl TypeError"

fun js_float :: "text_reader \<Rightarrow> json \<Rightarrow> real result" where
  "js_float tx (JNum x) = Inr x"
| "js_float tx (JBool b) = Inr (if b then 1 else 0)"
| "js_float tx (JStr t) =
     (case tx_float tx t of None \<Rightarrow> Inl (ValueError [Lit ''could not convert string to float'']) | Some x \<Rightarrow> Inr x)"
| "js_float tx _ = Inl TypeError"

fun js_bool :: "json \<Rightarrow> bool" where
  "js_bool JNull = False"
| "js_bool (JBool b) = b"
| "js_bool (JNum x) = (x \<noteq> 0)"
| "js_bool (JStr t) = (t \<noteq> [])"
| "js_bool (JArr xs) = (xs \<noteq> [])"
| "js_bool (JObj d) = (d \<noteq> [])"

fun js_str :: "text_reader \<Rightarrow> json \<Rightarrow> fstr" where
  "js_str tx (JStr t) = t"
| "js_str tx v = tx_repr tx v"

section \<open>The snapshot file\<close>

text \<open>What a read of the path meets.\<close>

datatype file_content =
    Missing
  | Unreadable           \<comment> \<open>\<^verbatim>\<open>OSError\<close> on reading\<close>
  | NotJson
  | Json json

text \<open>
  A write of the file succeeds, is refused before anything is changed, or fails (or the process
  dies) between truncating the file and completing it: \<^verbatim>\<open>write_text\<close> writes in place.
\<close>

datatype write_outcome = Written | Refused | Torn

record recovery =
  sr_env :: fstr
  sr_file :: file_content
  sr_write :: write_outcome

record stored_session =
  ss_snap :: cb_snap
  ss_env :: fstr

text \<open>The fields in the order in which \<^verbatim>\<open>_read_snapshot\<close> converts them.\<close>

definition sr_parse :: "text_reader \<Rightarrow> json \<Rightarrow> stored_session result" where
  "sr_parse tx raw =
     and_then (and_then (js_get ''session_date'' raw) (js_date tx)) (\<lambda>d.
     and_then (and_then (js_get ''starting_equity'' raw) (js_float tx)) (\<lambda>s.
     and_then (and_then (js_get ''peak_equity'' raw) (js_float tx)) (\<lambda>p.
     and_then (js_get ''halted'' raw) (\<lambda>h.
     and_then (js_get ''halt_reason'' raw) (\<lambda>r.
       Inr \<lparr>ss_snap = \<lparr>sn_date = d, sn_start = s, sn_peak = p, sn_halted = js_bool h, sn_reason = js_str tx r\<rparr>,
            ss_env = (case js_get ''environment_id'' raw of Inl _ \<Rightarrow> [] | Inr e \<Rightarrow> js_str tx e)\<rparr>)))))"

text \<open>
  \<^verbatim>\<open>_read_snapshot\<close>: a missing file, an unreadable one, a text that is no JSON, and the caught
  exceptions give \<^verbatim>\<open>None\<close>; a \<^verbatim>\<open>TypeError\<close> is not caught.
\<close>

definition sr_read_snapshot :: "text_reader \<Rightarrow> recovery \<Rightarrow> stored_session option result" where
  "sr_read_snapshot tx sr =
     (case sr_file sr of
        Missing \<Rightarrow> Inr None
      | Unreadable \<Rightarrow> Inr None
      | NotJson \<Rightarrow> Inr None
      | Json raw \<Rightarrow>
          (case sr_parse tx raw of
             Inr s \<Rightarrow> Inr (Some s)
           | Inl (KeyError _) \<Rightarrow> Inr None
           | Inl (ValueError _) \<Rightarrow> Inr None
           | Inl e \<Rightarrow> Inl e))"

definition sr_payload :: "recovery \<Rightarrow> breaker \<Rightarrow> json" where
  "sr_payload sr b =
     (let s = cb_snapshot b in
      JObj [(''session_date'', JStr [DateP (sn_date s)]), (''starting_equity'', JNum (sn_start s)),
            (''peak_equity'', JNum (sn_peak s)), (''halted'', JBool (sn_halted s)),
            (''halt_reason'', JStr (sn_reason s)), (''environment_id'', JStr (sr_env sr))])"

definition sr_persist :: "breaker \<Rightarrow> recovery \<Rightarrow> unit result \<times> recovery" where
  "sr_persist b sr =
     (case sr_write sr of
        Written \<Rightarrow> (Inr (), sr\<lparr>sr_file := Json (sr_payload sr b)\<rparr>)
      | Refused \<Rightarrow> (Inl OSError, sr)
      | Torn \<Rightarrow> (Inl OSError, sr\<lparr>sr_file := NotJson\<rparr>))"

section \<open>Recovery\<close>

definition sr_restore_circuit_breaker ::
  "text_reader \<Rightarrow> datetime \<Rightarrow> real \<Rightarrow> recovery \<Rightarrow> breaker \<Rightarrow> bool result \<times> breaker" where
  "sr_restore_circuit_breaker tx now equity sr b =
     (case sr_read_snapshot tx sr of
        Inl e \<Rightarrow> (Inl e, b)
      | Inr (Some s) \<Rightarrow>
          if sn_date (ss_snap s) = date_of now \<and> ss_env s = sr_env sr
          then (Inr True, cb_restore (ss_snap s) b)
          else (Inr False, cb_reset_session equity (date_of now) b)
      | Inr None \<Rightarrow> (Inr False, cb_reset_session equity (date_of now) b))"

text \<open>What recovery asks of the broker.\<close>

record 'v account_source =
  as_reconcile :: "'v \<Rightarrow> (string, int) dict result \<times> 'v"
  as_equity :: "'v \<Rightarrow> real result \<times> 'v"

record recovery_result =
  rv_positions :: "(string, int) dict"
  rv_equity :: real
  rv_restored :: bool
  rv_halted :: bool

definition sr_update_positions :: "(string, int) dict \<Rightarrow> risk_engine \<Rightarrow> risk_engine" where
  "sr_update_positions ps re = fold (\<lambda>(s, q). re_update_position s q) ps re"

definition sr_recover ::
  "'v account_source \<Rightarrow> text_reader \<Rightarrow> datetime \<Rightarrow> recovery \<times> risk_engine \<times> 'v
   \<Rightarrow> recovery_result result \<times> recovery \<times> risk_engine \<times> 'v" where
  "sr_recover src tx now st = (case st of (sr, re, v) \<Rightarrow>
     (case as_reconcile src v of
        (Inl e, v1) \<Rightarrow> (Inl e, sr, re, v1)
      | (Inr ps, v1) \<Rightarrow>
          (let re1 = sr_update_positions ps re in
           case as_equity src v1 of
             (Inl e, v2) \<Rightarrow> (Inl e, sr, re1, v2)
           | (Inr equity, v2) \<Rightarrow>
               (case sr_restore_circuit_breaker tx now equity sr (re_breaker re1) of
                  (Inl e, b) \<Rightarrow> (Inl e, sr, re1\<lparr>re_breaker := b\<rparr>, v2)
                | (Inr restored, b) \<Rightarrow>
                    (case sr_persist b sr of
                       (Inl e, sr1) \<Rightarrow> (Inl e, sr1, re1\<lparr>re_breaker := b\<rparr>, v2)
                     | (Inr _, sr1) \<Rightarrow>
                         (Inr \<lparr>rv_positions = ps, rv_equity = equity, rv_restored = restored,
                               rv_halted = cb_halted b\<rparr>, sr1, re1\<lparr>re_breaker := b\<rparr>, v2))))))"

section \<open>The file gives back what was written\<close>

lemma sr_parse_payload: "sr_parse tx (sr_payload sr b) = Inr \<lparr>ss_snap = cb_snapshot b, ss_env = sr_env sr\<rparr>"
  by (simp add: sr_parse_def sr_payload_def Let_def)

lemma sr_read_payload:
  "sr_file sr = Json (sr_payload sr0 b) \<Longrightarrow>
   sr_read_snapshot tx sr = Inr (Some \<lparr>ss_snap = cb_snapshot b, ss_env = sr_env sr0\<rparr>)"
  by (simp add: sr_read_snapshot_def sr_parse_payload)

lemma cb_restore_self: "cb_restore (cb_snapshot b) b = b"
  by (simp add: cb_restore_def cb_snapshot_def)

text \<open>Entering a book of positions overwrites the reported symbols; doing it twice is doing it once.\<close>

lemma sr_update_positions_as_map:
  "sr_update_positions ps re = re\<lparr>re_positions := re_positions re ++ map_of (rev ps)\<rparr>"
  unfolding sr_update_positions_def re_update_position_def
proof (induction ps arbitrary: re)
  case Nil
  then show ?case by simp
next
  case (Cons p ps)
  then show ?case
    by (cases p) (simp add: map_add_def fun_eq_iff split: option.split)
qed

lemma sr_update_positions_breaker [simp]: "re_breaker (sr_update_positions ps re) = re_breaker re"
  by (simp add: sr_update_positions_as_map)

lemma sr_update_positions_set_breaker:
  "sr_update_positions ps (re\<lparr>re_breaker := b\<rparr>) = (sr_update_positions ps re)\<lparr>re_breaker := b\<rparr>"
  by (simp add: sr_update_positions_as_map)

lemma sr_update_positions_twice:
  "sr_update_positions ps (sr_update_positions ps re) = sr_update_positions ps re"
  unfolding sr_update_positions_as_map
  by (simp add: map_add_def fun_eq_iff split: option.split)

text \<open>The verdict of the snapshot: the session to resume, if there is one.\<close>

definition sr_session_of :: "text_reader \<Rightarrow> datetime \<Rightarrow> recovery \<Rightarrow> cb_snap option" where
  "sr_session_of tx now sr =
     (case sr_read_snapshot tx sr of
        Inr (Some s) \<Rightarrow>
          if sn_date (ss_snap s) = date_of now \<and> ss_env s = sr_env sr then Some (ss_snap s) else None
      | _ \<Rightarrow> None)"

definition sr_resumed :: "text_reader \<Rightarrow> datetime \<Rightarrow> real \<Rightarrow> recovery \<Rightarrow> breaker \<Rightarrow> breaker" where
  "sr_resumed tx now equity sr b =
     (case sr_session_of tx now sr of
        Some s \<Rightarrow> cb_restore s b
      | None \<Rightarrow> cb_reset_session equity (date_of now) b)"

lemma sr_restore_ok:
  assumes "sr_read_snapshot tx sr = Inr s"
  shows "sr_restore_circuit_breaker tx now equity sr b =
    (Inr (sr_session_of tx now sr \<noteq> None), sr_resumed tx now equity sr b)"
  using assms
  by (auto simp: sr_restore_circuit_breaker_def sr_session_of_def sr_resumed_def split: option.split)

lemma sr_recover_ok:
  fixes now :: datetime and re :: risk_engine
  assumes "as_reconcile src v = (Inr ps, v1)" "as_equity src v1 = (Inr equity, v2)"
    and "sr_read_snapshot tx sr = Inr s" "sr_write sr = Written"
  defines "b \<equiv> sr_resumed tx now equity sr (re_breaker re)"
  shows "sr_recover src tx now (sr, re, v) =
    (Inr \<lparr>rv_positions = ps, rv_equity = equity, rv_restored = (sr_session_of tx now sr \<noteq> None), rv_halted = cb_halted b\<rparr>,
     sr\<lparr>sr_file := Json (sr_payload sr b)\<rparr>, (sr_update_positions ps re)\<lparr>re_breaker := b\<rparr>, v2)"
  using assms(1,2,4) sr_restore_ok [OF assms(3)]
  by (simp add: sr_recover_def sr_persist_def b_def)

section \<open>Properties\<close>

text \<open>
  Property C14. A restart on the same day and in the same environment resumes exactly the session
  that was last written, halt and reason included, whatever the equity is now; on another day or
  in another environment, with no file, or with one that cannot be parsed, the session starts
  afresh at the current equity, not halted.  The file then holds the session in force, and the
  engine's book agrees with the broker's on every position the broker reports.
\<close>

theorem sr_recover_session:
  fixes now :: datetime and re :: risk_engine and tx :: text_reader
  assumes "as_reconcile src v = (Inr ps, v1)" "as_equity src v1 = (Inr equity, v2)" "sr_write sr = Written"
    and "sr_file sr \<in> {Missing, Unreadable, NotJson} \<or> sr_file sr = Json (sr_payload sr0 b0)"
  defines "st \<equiv> snd (sr_recover src tx now (sr, re, v))"
    and "resume \<equiv> sr_file sr = Json (sr_payload sr0 b0) \<and> cb_date b0 = date_of now \<and> sr_env sr0 = sr_env sr"
  shows "cb_snapshot (re_breaker (fst (snd st))) =
      (if resume then cb_snapshot b0
       else \<lparr>sn_date = date_of now, sn_start = equity, sn_peak = equity, sn_halted = False, sn_reason = []\<rparr>)
    \<and> sr_file (fst st) = Json (sr_payload sr (re_breaker (fst (snd st))))
    \<and> re_positions (fst (snd st)) = re_positions re ++ map_of (rev ps)
    \<and> (\<exists>rv. fst (sr_recover src tx now (sr, re, v)) = Inr rv \<and> rv_restored rv = resume
         \<and> rv_halted rv = (resume \<and> cb_halted b0))"
proof -
  obtain s where s: "sr_read_snapshot tx sr = Inr s"
    and sess: "sr_session_of tx now sr = (if resume then Some (cb_snapshot b0) else None)"
    using assms(4)
    by (auto simp: sr_read_payload sr_session_of_def resume_def sr_read_snapshot_def sr_parse_payload cb_snapshot_def)
  show ?thesis
    using sr_recover_ok [OF assms(1,2) s assms(3), where re = re and now = now] sess
    by (simp add: st_def sr_resumed_def sr_update_positions_as_map cb_restore_def cb_snapshot_def
        cb_reset_session_def)
qed

text \<open>
  Recovery is idempotent: running it again on the same day, with the broker reporting
  the same positions but any other equity, succeeds, resumes from the file, and leaves the engine,
  the breaker and the file exactly as the first run left them.
\<close>

theorem sr_recover_idempotent:
  fixes now now' :: datetime
  assumes "sr_recover src tx now (sr, re, v) = (Inr rv, sr1, re1, v1)" "date_of now' = date_of now"
    and "as_reconcile src v1 = (Inr (rv_positions rv), v2)" "as_equity src v2 = (Inr equity', v3)"
  shows "sr_recover src tx now' (sr1, re1, v1) =
    (Inr (rv\<lparr>rv_equity := equity', rv_restored := True\<rparr>), sr1, re1, v3)"
proof -
  obtain ps v0 where ps: "as_reconcile src v = (Inr ps, v0)"
    using assms(1) by (cases "as_reconcile src v"; cases "fst (as_reconcile src v)") (auto simp: sr_recover_def)
  obtain equity v0' where eq: "as_equity src v0 = (Inr equity, v0')"
    using assms(1) ps
    by (cases "as_equity src v0"; cases "fst (as_equity src v0)") (auto simp: sr_recover_def Let_def)
  obtain s where s: "sr_read_snapshot tx sr = Inr s"
    using assms(1) ps eq
    by (cases "sr_read_snapshot tx sr") (auto simp: sr_recover_def Let_def sr_restore_circuit_breaker_def)
  have wr: "sr_write sr = Written"
    using assms(1) ps eq sr_restore_ok [OF s]
    by (cases "sr_write sr") (auto simp: sr_recover_def Let_def sr_persist_def)
  define b where "b = sr_resumed tx now equity sr (re_breaker re)"
  have first: "rv = \<lparr>rv_positions = ps, rv_equity = equity, rv_restored = (sr_session_of tx now sr \<noteq> None),
      rv_halted = cb_halted b\<rparr>"
    "sr1 = sr\<lparr>sr_file := Json (sr_payload sr b)\<rparr>" "re1 = (sr_update_positions ps re)\<lparr>re_breaker := b\<rparr>"
    using sr_recover_ok [OF ps eq s wr, where re = re and now = now] assms(1) by (auto simp: b_def)
  have date_b: "cb_date b = date_of now"
    by (auto simp: b_def sr_resumed_def sr_session_of_def cb_restore_def cb_reset_session_def
        split: option.split sum.splits if_splits)
  have read: "sr_read_snapshot tx sr1 = Inr (Some \<lparr>ss_snap = cb_snapshot b, ss_env = sr_env sr\<rparr>)"
    by (simp add: first sr_read_payload)
  then have sess: "sr_session_of tx now' sr1 = Some (cb_snapshot b)"
    using assms(2) date_b by (simp add: sr_session_of_def first) (simp add: cb_snapshot_def)
  then have resumed: "sr_resumed tx now' equity' sr1 (re_breaker re1) = b"
    by (simp add: sr_resumed_def first cb_restore_self)
  have rec: "as_reconcile src v1 = (Inr ps, v2)" using assms(3) first by simp
  show ?thesis
    using sr_recover_ok [OF rec assms(4) read, where re = re1 and now = now'] wr resumed sess
    by (simp add: first sr_update_positions_set_breaker sr_update_positions_twice) (simp add: sr_payload_def)
qed

text \<open>
  A state file that is valid JSON but not an object (\<^verbatim>\<open>null\<close>, a list, a number) makes
  recovery raise \<^verbatim>\<open>TypeError\<close>, which the reader does not catch; nothing rewrites the file, so every
  later start fails the same way.
\<close>

theorem sr_non_object_file_blocks_restarts:
  fixes re :: risk_engine
  assumes "sr_file sr = Json raw" "\<forall>d. raw \<noteq> JObj d"
    and "as_reconcile src v = (Inr ps, v1)" "as_equity src v1 = (Inr equity, v2)"
  shows "\<exists>re1. sr_recover src tx now (sr, re, v) = (Inl TypeError, sr, re1, v2) \<and> re_breaker re1 = re_breaker re"
proof -
  have "sr_read_snapshot tx sr = Inl TypeError"
    using assms(1,2) by (cases raw) (simp_all add: sr_read_snapshot_def sr_parse_def)
  then show ?thesis
    using assms(3,4) by (simp add: sr_recover_def sr_restore_circuit_breaker_def Let_def)
qed

text \<open>
  A write that tears loses the halt: the session of a halted day is persisted, the
  write fails half way, and the next restart, on the same day and in the same environment, finds no
  snapshot and comes up trading at the current equity.
\<close>

theorem sr_torn_write_loses_halt:
  fixes now :: datetime and re :: risk_engine
  assumes "sr_write sr = Torn" "cb_halted b0" "cb_date b0 = date_of now"
    and "as_reconcile src v = (Inr ps, v1)" "as_equity src v1 = (Inr equity, v2)"
  defines "sr1 \<equiv> (snd (sr_persist b0 sr))\<lparr>sr_write := Written\<rparr>"
  shows "fst (sr_persist b0 sr) = Inl OSError
    \<and> \<not> cb_halted (re_breaker (fst (snd (snd (sr_recover src tx now (sr1, re, v))))))
    \<and> cb_start (re_breaker (fst (snd (snd (sr_recover src tx now (sr1, re, v)))))) = equity"
proof -
  have read: "sr_read_snapshot tx sr1 = Inr None"
    using assms(1) by (simp add: sr1_def sr_persist_def sr_read_snapshot_def)
  have "sr_write sr1 = Written" by (simp add: sr1_def)
  from sr_recover_ok [OF assms(4,5) read this, where re = re and now = now] show ?thesis
    using assms(1) read
    by (simp add: sr_persist_def sr_resumed_def sr_session_of_def cb_reset_session_def)
qed

section \<open>Witnesses\<close>

definition sample_reader :: text_reader where
  "sample_reader = \<lparr>tx_date = (\<lambda>_. None), tx_float = (\<lambda>_. None), tx_repr = (\<lambda>_. [])\<rparr>"

definition sample_source :: "real account_source" where
  "sample_source = \<lparr>as_reconcile = (\<lambda>v. (Inr [(''BTCUSDT'', 3)], v)), as_equity = (\<lambda>v. (Inr v, v - 1))\<rparr>"

definition halted_breaker :: breaker where
  "halted_breaker = \<lparr>cb_max_dd = 2, cb_start = 1000, cb_date = 1, cb_peak = 1000, cb_halted = True,
     cb_reason = [Lit ''daily drawdown''], cb_auto_reset = False\<rparr>"

definition sample_recovery :: recovery where
  "sample_recovery = \<lparr>sr_env = [Lit ''live:abc''], sr_file = Missing, sr_write = Written\<rparr>"

definition idle_engine :: risk_engine where
  "idle_engine = \<lparr>re_max_order = 10, re_max_symbol = 10, re_max_notional = 1000, re_max_leverage = 3,
     re_breaker = halted_breaker\<lparr>cb_start := 1, cb_peak := 1, cb_halted := False, cb_reason := []\<rparr>,
     re_margin = \<lparr>mc_schedule = Map.empty, mc_initial_buffer = 0, mc_maintenance_buffer = 0\<rparr>,
     re_limiter = rl_init 5 60, re_positions = Map.empty, re_prices = Map.empty, re_mults = Map.empty\<rparr>"

theorem sr_recover_session_witness:
  "cb_halted (re_breaker (fst (snd (snd (sr_recover sample_source sample_reader usec_per_day
     (sample_recovery\<lparr>sr_file := Json (sr_payload sample_recovery halted_breaker)\<rparr>, idle_engine, 700))))))"
  using sr_recover_session [of sample_source 700 "[(''BTCUSDT'', 3)]" 700 700 699
      "sample_recovery\<lparr>sr_file := Json (sr_payload sample_recovery halted_breaker)\<rparr>"
      sample_recovery halted_breaker sample_reader usec_per_day idle_engine]
  by (simp add: sample_source_def sample_recovery_def halted_breaker_def date_of_def usec_per_day_def cb_snapshot_def)

theorem sr_recover_idempotent_witness:
  "fst (sr_recover sample_source sample_reader 5 (snd (sr_recover sample_source sample_reader 5
     (sample_recovery, idle_engine, 700))))
   = Inr \<lparr>rv_positions = [(''BTCUSDT'', 3)], rv_equity = 699, rv_restored = True, rv_halted = False\<rparr>"
proof -
  have first: "sr_recover sample_source sample_reader 5 (sample_recovery, idle_engine, 700) =
      (Inr \<lparr>rv_positions = [(''BTCUSDT'', 3)], rv_equity = 700, rv_restored = False, rv_halted = False\<rparr>,
       sample_recovery\<lparr>sr_file := Json (sr_payload sample_recovery
         (cb_reset_session 700 (date_of 5) (re_breaker idle_engine)))\<rparr>,
       (sr_update_positions [(''BTCUSDT'', 3)] idle_engine)
         \<lparr>re_breaker := cb_reset_session 700 (date_of 5) (re_breaker idle_engine)\<rparr>, 699)"
    by (simp add: sr_recover_def sample_source_def sample_recovery_def sr_restore_circuit_breaker_def
        sr_read_snapshot_def sr_persist_def sr_payload_def cb_reset_session_def cb_snapshot_def)
  have src: "as_reconcile sample_source x = (Inr [(''BTCUSDT'', 3)], x)" "as_equity sample_source x = (Inr x, x - 1)" for x
    by (simp_all add: sample_source_def)
  show ?thesis
    using sr_recover_idempotent [OF first refl, of 699 699 698] by (simp add: src first)
qed

theorem sr_non_object_file_blocks_restarts_witness:
  "fst (sr_recover sample_source sample_reader 5 (sample_recovery\<lparr>sr_file := Json JNull\<rparr>, idle_engine, 700))
   = Inl TypeError"
  using sr_non_object_file_blocks_restarts [of "sample_recovery\<lparr>sr_file := Json JNull\<rparr>" JNull
      sample_source 700 "[(''BTCUSDT'', 3)]" 700 700 699 sample_reader 5 idle_engine]
  by (auto simp: sample_source_def)

theorem sr_torn_write_loses_halt_witness:
  "\<not> cb_halted (re_breaker (fst (snd (snd (sr_recover sample_source sample_reader usec_per_day
     ((snd (sr_persist halted_breaker (sample_recovery\<lparr>sr_write := Torn\<rparr>)))\<lparr>sr_write := Written\<rparr>, idle_engine, 700))))))"
  using sr_torn_write_loses_halt [of "sample_recovery\<lparr>sr_write := Torn\<rparr>" halted_breaker usec_per_day
      sample_source 700 "[(''BTCUSDT'', 3)]" 700 700 699 sample_reader idle_engine]
  by (simp add: sample_source_def halted_breaker_def date_of_def usec_per_day_def)

end
