(* ===== verification/IBKR_Broker.thy ===== *)
theory IBKR_Broker
  imports Order_Manager
begin

text \<open>
  The Interactive Brokers adapter, \<^verbatim>\<open>execution/ibkr_broker.py\<close>.  The third-party client
  (\<^verbatim>\<open>ib_async.IB\<close>) is a record of the calls the adapter makes, over a state \<open>'c\<close> of its own;
  the callbacks it fires are steps of the adapter on the data they bring.
\<close>

section \<open>The client\<close>

record ib_contract =
  ict_id :: int
  ict_symbol :: string

record ib_order =
  iod_action :: string
  iod_type :: string
  iod_total :: real
  iod_tif :: string
  iod_limit :: "real option"
  iod_oca :: "(string \<times> int) option"

record ib_fill =
  ifl_shares :: real
  ifl_price :: real
  ifl_commission :: "real option"     \<comment> \<open>\<open>None\<close>: no commission report\<close>
  ifl_liquidity :: int

record ib_trade =
  itr_order_id :: int
  itr_perm_id :: int
  itr_order :: ib_order
  itr_symbol :: string
  itr_status :: string
  itr_fills :: "ib_fill list"

text \<open>A summary row: its tag, and \<^verbatim>\<open>float(row.value)\<close> or the exception it raises.\<close>

record 'c ib_api =
  ib_connect_call :: "'c \<Rightarrow> unit result \<times> 'c"
  ib_connected :: "'c \<Rightarrow> bool"
  ib_current_time :: "'c \<Rightarrow> unit result \<times> 'c"
  ib_disconnect_call :: "'c \<Rightarrow> 'c"
  ib_qualify :: "string \<Rightarrow> 'c \<Rightarrow> ib_contract list result \<times> 'c"
  ib_place :: "ib_contract \<Rightarrow> ib_order \<Rightarrow> 'c \<Rightarrow> ib_trade \<times> 'c"
  ib_cancel_call :: "int \<Rightarrow> 'c \<Rightarrow> 'c"
  ib_global_cancel :: "'c \<Rightarrow> 'c"
  ib_summary :: "'c \<Rightarrow> (string \<times> real result) list result \<times> 'c"
  ib_positions :: "'c \<Rightarrow> (string \<times> real) list result \<times> 'c"

section \<open>Tables\<close>

fun ib_order_type :: "order_type \<Rightarrow> string" where
  "ib_order_type MARKET = ''MKT''"
| "ib_order_type LIMIT = ''LMT''"
| "ib_order_type STOP = ''STP''"
| "ib_order_type STOP_LIMIT = ''STP LMT''"
| "ib_order_type MARKET_ON_CLOSE = ''MOC''"

fun ib_tif :: "time_in_force \<Rightarrow> string" where
  "ib_tif DAY = ''DAY''"
| "ib_tif GTC = ''GTC''"
| "ib_tif IOC = ''IOC''"
| "ib_tif FOK = ''FOK''"

definition ib_status_map :: "(string, order_status) dict" where
  "ib_status_map =
     [(''PendingSubmit'', PENDING_NEW), (''PreSubmitted'', SUBMITTED), (''Submitted'', ACKNOWLEDGED),
      (''PendingCancel'', CANCEL_PENDING), (''Cancelled'', CANCELLED), (''ApiCancelled'', CANCELLED),
      (''Filled'', FILLED), (''Inactive'', REJECTED)]"

section \<open>State\<close>

record 'c ibkr =
  ib_client :: "'c option"
  ib_backoff :: real
  ib_backoff_max :: real
  ib_heartbeat_timeout :: real
  ib_events :: "broker_event list"
  ib_trades :: "string \<rightharpoonup> ib_trade"
  ib_corr :: "string \<rightharpoonup> string"
  ib_contracts :: "string \<rightharpoonup> ib_contract"
  ib_last_ok :: real
  ib_reconnecting :: bool

definition ib_init :: "real \<Rightarrow> real \<Rightarrow> real \<Rightarrow> 'c ibkr" where
  "ib_init backoff backoff_max timeout =
     \<lparr>ib_client = None, ib_backoff = backoff, ib_backoff_max = backoff_max, ib_heartbeat_timeout = timeout,
      ib_events = [], ib_trades = Map.empty, ib_corr = Map.empty, ib_contracts = Map.empty, ib_last_ok = 0,
      ib_reconnecting = False\<rparr>"

text \<open>\<^verbatim>\<open>assert self._ib is not None\<close> before a call of the client.\<close>

definition ib_call :: "('c \<Rightarrow> 'a result \<times> 'c) \<Rightarrow> 'c ibkr \<Rightarrow> 'a result \<times> 'c ibkr" where
  "ib_call f ib =
     (case ib_client ib of
        None \<Rightarrow> (Inl AssertionError, ib)
      | Some c \<Rightarrow> (case f c of (r, c1) \<Rightarrow> (r, ib\<lparr>ib_client := Some c1\<rparr>)))"

definition ib_is_connected :: "'c ib_api \<Rightarrow> 'c ibkr \<Rightarrow> bool" where
  "ib_is_connected api ib = (case ib_client ib of None \<Rightarrow> False | Some c \<Rightarrow> ib_connected api c)"

definition ib_get_client :: "'c ibkr \<Rightarrow> 'c result" where
  "ib_get_client ib =
     (case ib_client ib of
        None \<Rightarrow> Inl (RuntimeError [Lit ''IBKRBroker.connect() has not been called yet''])
      | Some c \<Rightarrow> Inr c)"

section \<open>Connection\<close>

text \<open>
  \<^verbatim>\<open>_connect_with_retry\<close> for at most \<open>fuel\<close> attempts: the sleeps made, and the client once it is
  connected; each attempt moves the client on.
\<close>

fun ib_connect_loop :: "'c ib_api \<Rightarrow> nat \<Rightarrow> real \<Rightarrow> real \<Rightarrow> 'c \<Rightarrow> real list \<times> 'c option" where
  "ib_connect_loop api 0 backoff backoff_max c = ([], None)"
| "ib_connect_loop api (Suc fuel) backoff backoff_max c =
     (case ib_connect_call api c of
        (Inr _, c1) \<Rightarrow> ([], Some c1)
      | (Inl _, c1) \<Rightarrow>
          (case ib_connect_loop api fuel (min (backoff * 2) backoff_max) backoff_max c1 of
             (sleeps, r) \<Rightarrow> (backoff # sleeps, r)))"

definition ib_connect_with_retry :: "'c ib_api \<Rightarrow> nat \<Rightarrow> real \<Rightarrow> 'c ibkr \<Rightarrow> (unit result \<times> 'c ibkr) option" where
  "ib_connect_with_retry api fuel now ib =
     (case ib_client ib of
        None \<Rightarrow> Some (Inl AssertionError, ib)
      | Some c \<Rightarrow>
          (case ib_connect_loop api fuel (ib_backoff ib) (ib_backoff_max ib) c of
             (_, None) \<Rightarrow> None
           | (_, Some c1) \<Rightarrow> Some (Inr (), ib\<lparr>ib_client := Some c1, ib_last_ok := now\<rparr>)))"

text \<open>\<^verbatim>\<open>connect\<close> begins with a fresh client \<open>c0\<close>.\<close>

definition ib_connect :: "'c ib_api \<Rightarrow> nat \<Rightarrow> real \<Rightarrow> 'c \<Rightarrow> 'c ibkr \<Rightarrow> (unit result \<times> 'c ibkr) option" where
  "ib_connect api fuel now c0 ib = ib_connect_with_retry api fuel now (ib\<lparr>ib_client := Some c0\<rparr>)"

definition ib_disconnect :: "'c ib_api \<Rightarrow> 'c ibkr \<Rightarrow> 'c ibkr" where
  "ib_disconnect api ib = ib\<lparr>ib_client := map_option (ib_disconnect_call api) (ib_client ib)\<rparr>"

definition ib_get_positions :: "'c ib_api \<Rightarrow> 'c ibkr \<Rightarrow> (string, int) dict result \<times> 'c ibkr" where
  "ib_get_positions api ib =
     on_ok (ib_call (ib_positions api) ib)
       (\<lambda>rows ib1. (Inr (fold (\<lambda>(symb, pos) d. dset symb (py_int pos) d) rows []), ib1))"

definition ib_reconcile_state :: "'c ib_api \<Rightarrow> 'c ibkr \<Rightarrow> (string, int) dict result \<times> 'c ibkr" where
  "ib_reconcile_state api ib = ib_get_positions api ib"

text \<open>
  One round of \<^verbatim>\<open>_heartbeat_loop\<close> after its sleep.  An exception of the recovery leaves the loop
  (the task ends) but clears the flag; \<open>None\<close> while the reconnect has not succeeded in \<open>fuel\<close>
  attempts.  The clock reads \<open>now\<close> at the probe and \<open>later\<close> when the connection stands.
\<close>

definition ib_heartbeat_probe :: "'c ib_api \<Rightarrow> real \<Rightarrow> 'c ibkr \<Rightarrow> unit result \<times> 'c ibkr" where
  "ib_heartbeat_probe api now ib =
     (if ib_is_connected api ib
      then on_ok (ib_call (ib_current_time api) ib) (\<lambda>_ ib1. (Inr (), ib1\<lparr>ib_last_ok := now\<rparr>))
      else (Inl (ConnectionError [Lit ''ib.isConnected() is False'']), ib))"

definition ib_heartbeat_step :: "'c ib_api \<Rightarrow> nat \<Rightarrow> real \<Rightarrow> real \<Rightarrow> 'c ibkr \<Rightarrow> (unit result \<times> 'c ibkr) option" where
  "ib_heartbeat_step api fuel now later ib =
     (case ib_heartbeat_probe api now ib of
        (Inr _, ib1) \<Rightarrow> Some (Inr (), ib1)
      | (Inl _, ib1) \<Rightarrow>
          if ib_heartbeat_timeout ib1 \<le> now - ib_last_ok ib1 \<and> \<not> ib_reconnecting ib1
          then (case ib_connect_with_retry api fuel later (ib1\<lparr>ib_reconnecting := True\<rparr>) of
                  None \<Rightarrow> None
                | Some (Inl e, ib2) \<Rightarrow> Some (Inl e, ib2\<lparr>ib_reconnecting := False\<rparr>)
                | Some (Inr _, ib2) \<Rightarrow>
                    (case ib_reconcile_state api ib2 of
                       (r, ib3) \<Rightarrow> Some (and_then r (\<lambda>_. Inr ()), ib3\<lparr>ib_reconnecting := False\<rparr>)))
          else Some (Inr (), ib1))"

section \<open>Callbacks\<close>

text \<open>\<^verbatim>\<open>put_nowait\<close> on a queue of ten thousand.\<close>

definition ib_put :: "broker_event \<Rightarrow> 'c ibkr \<Rightarrow> unit result \<times> 'c ibkr" where
  "ib_put ev ib =
     (if 10000 \<le> length (ib_events ib) then (Inl QueueFull, ib)
      else (Inr (), ib\<lparr>ib_events := ib_events ib @ [ev]\<rparr>))"

definition ib_corr_of :: "string \<Rightarrow> 'c ibkr \<Rightarrow> string" where
  "ib_corr_of oid ib = (case ib_corr ib oid of None \<Rightarrow> [] | Some c \<Rightarrow> c)"

definition ib_on_error :: "datetime \<Rightarrow> int \<Rightarrow> int \<Rightarrow> string \<Rightarrow> 'c ibkr \<Rightarrow> unit result \<times> 'c ibkr" where
  "ib_on_error now req_id code text ib =
     (if code < 400 then (Inr (), ib)
      else ib_put (RejectB \<lparr>rj_ts = now, rj_order_id = int_text req_id, rj_corr = ib_corr_of (int_text req_id) ib,
             rj_symbol = [], rj_reason = [Lit ''IBKR error '', IntP code, Lit '': '', StrP text]\<rparr>) ib)"

definition ib_cumulative :: "ib_trade \<Rightarrow> real" where
  "ib_cumulative t = sum_list (map ifl_shares (itr_fills t))"

definition ib_execution :: "datetime \<Rightarrow> ib_trade \<Rightarrow> ib_fill \<Rightarrow> 'c ibkr \<Rightarrow> exec_event" where
  "ib_execution now t f ib =
     \<lparr>ex_ts = now, ex_order_id = int_text (itr_order_id t), ex_corr = ib_corr_of (int_text (itr_order_id t)) ib,
      ex_symbol = itr_symbol t, ex_side = (if iod_action (itr_order t) = ''BUY'' then BUY else SELL),
      ex_fill_qty = py_int (ifl_shares f), ex_fill_price = ifl_price f,
      ex_cum_qty = py_int (ib_cumulative t), ex_rem_qty = py_int (iod_total (itr_order t) - ib_cumulative t),
      ex_commission = (case ifl_commission f of None \<Rightarrow> 0 | Some c \<Rightarrow> c),
      ex_liquidity = (if ifl_liquidity f = 2 then ''MAKER'' else ''TAKER''), ex_expected = None\<rparr>"

definition ib_on_exec_details :: "datetime \<Rightarrow> ib_trade \<Rightarrow> ib_fill \<Rightarrow> 'c ibkr \<Rightarrow> unit result \<times> 'c ibkr" where
  "ib_on_exec_details now t f ib = ib_put (ExecB (ib_execution now t f ib)) ib"

definition ib_on_order_status :: "datetime \<Rightarrow> ib_trade \<Rightarrow> 'c ibkr \<Rightarrow> unit result \<times> 'c ibkr" where
  "ib_on_order_status now t ib =
     (let oid = int_text (itr_order_id t); corr = ib_corr_of oid ib; status = dget_or SUBMITTED ib_status_map (itr_status t) in
      if status = REJECTED
      then ib_put (RejectB \<lparr>rj_ts = now, rj_order_id = oid, rj_corr = corr, rj_symbol = itr_symbol t,
             rj_reason = [StrP (itr_status t)]\<rparr>) ib
      else ib_put (AckB \<lparr>ak_ts = now, ak_order_id = oid, ak_corr = corr, ak_symbol = itr_symbol t, ak_status = status,
             ak_broker_id = (if itr_perm_id t = 0 then None else Some (int_text (itr_perm_id t)))\<rparr>) ib)"

section \<open>Orders\<close>

definition ib_qualify_future :: "'c ib_api \<Rightarrow> string \<Rightarrow> 'c ibkr \<Rightarrow> ib_contract result \<times> 'c ibkr" where
  "ib_qualify_future api symb ib =
     (case ib_contracts ib symb of
        Some k \<Rightarrow> (Inr k, ib)
      | None \<Rightarrow>
          on_ok (ib_call (ib_qualify api symb) ib)
            (\<lambda>ks ib1. case ks of
               [] \<Rightarrow> (Inl (ValueError [Lit ''could not qualify futures contract for symbol='', StrP symb]), ib1)
             | k # _ \<Rightarrow> (Inr k, ib1\<lparr>ib_contracts := (ib_contracts ib1)(symb \<mapsto> k)\<rparr>)))"

definition ib_order_of :: "broker_request \<Rightarrow> ib_order" where
  "ib_order_of rq =
     \<lparr>iod_action = (if rq_side rq = BUY then ''BUY'' else ''SELL''), iod_type = ib_order_type (rq_type rq),
      iod_total = of_int (rq_qty rq), iod_tif = ib_tif (rq_tif rq), iod_limit = rq_limit rq,
      iod_oca = (case rq_oca rq of None \<Rightarrow> None | Some g \<Rightarrow> if g = [] then None else Some (g, rq_oca_type rq))\<rparr>"

definition ib_place_order :: "'c ib_api \<Rightarrow> broker_request \<Rightarrow> 'c ibkr \<Rightarrow> unit result \<times> 'c ibkr" where
  "ib_place_order api rq ib =
     (if ib_client ib = None then (Inl AssertionError, ib)
      else on_ok (ib_qualify_future api (rq_symbol rq) ib)
        (\<lambda>k ib1. on_ok (ib_call (\<lambda>c. case ib_place api k (ib_order_of rq) c of (t, c1) \<Rightarrow> (Inr t, c1)) ib1)
          (\<lambda>t ib2. (Inr (), ib2\<lparr>ib_corr := (ib_corr ib2)(int_text (itr_order_id t) \<mapsto> rq_corr rq),
                               ib_trades := (ib_trades ib2)(int_text (itr_order_id t) \<mapsto> t)\<rparr>))))"

definition ib_cancel_order :: "'c ib_api \<Rightarrow> string \<Rightarrow> 'c ibkr \<Rightarrow> unit result \<times> 'c ibkr" where
  "ib_cancel_order api oid ib =
     (if ib_client ib = None then (Inl AssertionError, ib)
      else case ib_trades ib oid of
        None \<Rightarrow> (Inr (), ib)
      | Some t \<Rightarrow> ib_call (\<lambda>c. (Inr (), ib_cancel_call api (itr_order_id t) c)) ib)"

definition ib_cancel_all :: "'c ib_api \<Rightarrow> 'c ibkr \<Rightarrow> unit result \<times> 'c ibkr" where
  "ib_cancel_all api ib = ib_call (\<lambda>c. (Inr (), ib_global_cancel api c)) ib"

definition ib_venue :: "'c ib_api \<Rightarrow> 'c ibkr venue" where
  "ib_venue api = \<lparr>vn_place = ib_place_order api, vn_cancel = ib_cancel_order api, vn_cancel_all = ib_cancel_all api\<rparr>"

text \<open>One step of \<^verbatim>\<open>stream_events\<close>; \<open>None\<close> while the queue is empty.\<close>

definition ib_next_event :: "'c ibkr \<Rightarrow> (broker_event \<times> 'c ibkr) option" where
  "ib_next_event ib = (case ib_events ib of [] \<Rightarrow> None | ev # evs \<Rightarrow> Some (ev, ib\<lparr>ib_events := evs\<rparr>))"

lemma ib_next_event_simps [simp]:
  "ib_events ib = [] \<Longrightarrow> ib_next_event ib = None"
  "ib_events ib = ev # evs \<Longrightarrow> ib_next_event ib = Some (ev, ib\<lparr>ib_events := evs\<rparr>)"
  by (simp_all add: ib_next_event_def)

section \<open>The account\<close>

definition ib_get_account_equity :: "'c ib_api \<Rightarrow> 'c ibkr \<Rightarrow> real result \<times> 'c ibkr" where
  "ib_get_account_equity api ib =
     on_ok (ib_call (ib_summary api) ib)
       (\<lambda>rows ib1. (case dget rows ''NetLiquidation'' of
            None \<Rightarrow> Inl (RuntimeError [Lit ''NetLiquidation not found in account summary''])
          | Some v \<Rightarrow> v, ib1))"

definition ib_margin_row :: "string \<times> real result \<Rightarrow> (real \<times> real) result \<Rightarrow> (real \<times> real) result" where
  "ib_margin_row row acc =
     and_then acc (\<lambda>(initial, maintenance).
       if fst row = ''InitMarginReq'' then and_then (snd row) (\<lambda>v. Inr (v, maintenance))
       else if fst row = ''MaintMarginReq'' then and_then (snd row) (\<lambda>v. Inr (initial, v))
       else acc)"

definition ib_get_margin_usage :: "'c ib_api \<Rightarrow> 'c ibkr \<Rightarrow> (real \<times> real) result \<times> 'c ibkr" where
  "ib_get_margin_usage api ib =
     on_ok (ib_call (ib_summary api) ib) (\<lambda>rows ib1. (fold ib_margin_row rows (Inr (0, 0)), ib1))"

section \<open>What reaches the order manager\<close>

text \<open>What the operations leave of the event queue and of the trades known by id.\<close>

definition ib_same_books :: "'c ibkr \<Rightarrow> 'c ibkr \<Rightarrow> bool" where
  "ib_same_books ib ib1 \<longleftrightarrow> ib_events ib1 = ib_events ib \<and> ib_trades ib1 = ib_trades ib"

lemma ib_same_books_refl [simp]: "ib_same_books ib ib"
  by (simp add: ib_same_books_def)

lemma ib_call_same: "ib_same_books ib (snd (ib_call f ib))"
  by (simp add: ib_call_def ib_same_books_def split: option.split prod.split)

lemma ib_connect_same:
  "ib_connect_with_retry api fuel now ib = Some (r, ib1) \<Longrightarrow> ib_same_books ib ib1"
  by (auto simp: ib_connect_with_retry_def ib_same_books_def split: option.splits prod.splits)

lemma ib_positions_same: "ib_same_books ib (snd (ib_get_positions api ib))"
  using ib_call_same [of ib "ib_positions api"]
  by (cases "ib_call (ib_positions api) ib"; cases "fst (ib_call (ib_positions api) ib)")
    (auto simp: ib_get_positions_def)

lemma ib_probe_same: "ib_same_books ib (snd (ib_heartbeat_probe api now ib))"
  using ib_call_same [of ib "ib_current_time api"]
  by (cases "ib_call (ib_current_time api) ib"; cases "fst (ib_call (ib_current_time api) ib)")
    (auto simp: ib_heartbeat_probe_def ib_same_books_def)

lemma ib_heartbeat_same:
  assumes "ib_heartbeat_step api fuel now later ib = Some (r, ib1)"
  shows "ib_same_books ib ib1"
proof -
  obtain p ib2 where probe: "ib_heartbeat_probe api now ib = (p, ib2)"
    by (cases "ib_heartbeat_probe api now ib")
  then have same: "ib_same_books ib ib2" using ib_probe_same [of ib api now] by simp
  have "ib_same_books ib2 ib1"
    using assms probe ib_positions_same [of _ api]
    by (auto simp: ib_heartbeat_step_def ib_reconcile_state_def ib_same_books_def
        dest!: ib_connect_same split: sum.splits if_splits option.splits prod.splits) (metis snd_conv)+
  with same show ?thesis by (simp add: ib_same_books_def)
qed

lemma ib_qualify_same: "ib_same_books ib (snd (ib_qualify_future api symb ib))"
  using ib_call_same [of ib "ib_qualify api symb"]
  by (cases "ib_call (ib_qualify api symb) ib"; cases "fst (ib_call (ib_qualify api symb) ib)")
    (auto simp: ib_qualify_future_def ib_same_books_def split: option.split list.split)

lemma ib_place_books:
  "ib_events (snd (ib_place_order api rq ib)) = ib_events ib
   \<and> (ib_trades (snd (ib_place_order api rq ib)) = ib_trades ib
      \<or> (\<exists>k c. let t = fst (ib_place api k (ib_order_of rq) c) in
            ib_trades (snd (ib_place_order api rq ib)) = (ib_trades ib)(int_text (itr_order_id t) \<mapsto> t)))"
proof (cases "ib_client ib = None")
  case True
  then show ?thesis by (simp add: ib_place_order_def)
next
  case False
  obtain r ib1 where q: "ib_qualify_future api (rq_symbol rq) ib = (r, ib1)"
    by (cases "ib_qualify_future api (rq_symbol rq) ib")
  then have same: "ib_events ib1 = ib_events ib" "ib_trades ib1 = ib_trades ib"
    using ib_qualify_same [of ib api "rq_symbol rq"] by (simp_all add: ib_same_books_def)
  show ?thesis
  proof (cases r)
    case (Inl e)
    with False q same show ?thesis by (simp add: ib_place_order_def)
  next
    case (Inr k)
    show ?thesis
    proof (cases "ib_client ib1")
      case None
      with False q same Inr show ?thesis by (simp add: ib_place_order_def ib_call_def)
    next
      case (Some c)
      obtain t c1 where "ib_place api k (ib_order_of rq) c = (t, c1)"
        by (cases "ib_place api k (ib_order_of rq) c")
      then have t: "fst (ib_place api k (ib_order_of rq) c) = t"
        and "ib_trades (snd (ib_place_order api rq ib)) = (ib_trades ib)(int_text (itr_order_id t) \<mapsto> t)"
        and "ib_events (snd (ib_place_order api rq ib)) = ib_events ib"
        using False q same Inr Some by (auto simp: ib_place_order_def ib_call_def)
      then show ?thesis by (auto simp: Let_def)
    qed
  qed
qed

lemma ib_cancel_same: "ib_same_books ib (snd (ib_cancel_order api oid ib))"
  by (simp add: ib_cancel_order_def ib_call_same split: option.split)

text \<open>The adapter keeps the contract of a venue: calls to it put nothing on the event stream.\<close>

interpretation ibv: order_venue "ib_venue api" ib_events
proof
  show "\<exists>es. ib_events (snd (vn_place (ib_venue api) rq v)) = ib_events v @ es
      \<and> (\<forall>e \<in> set es. be_order_id e = rq_id rq)" for rq and v :: "'a ibkr"
    using ib_place_books [of api rq v] by (auto simp: ib_venue_def)
  show "\<exists>es. ib_events (snd (vn_cancel (ib_venue api) oid v)) = ib_events v @ es
      \<and> (\<forall>e \<in> set es. be_order_id e = oid)" for oid and v :: "'a ibkr"
    using ib_cancel_same [of v api oid] by (auto simp: ib_venue_def ib_same_books_def)
qed

section \<open>Reconnection\<close>

definition ib_attempt :: "'c ib_api \<Rightarrow> 'c \<Rightarrow> 'c" where
  "ib_attempt api c = snd (ib_connect_call api c)"

definition ib_first_success :: "'c ib_api \<Rightarrow> nat \<Rightarrow> 'c \<Rightarrow> bool" where
  "ib_first_success api n c \<longleftrightarrow>
     (\<forall>i < n. \<not> ok (fst (ib_connect_call api ((ib_attempt api ^^ i) c))))
     \<and> ok (fst (ib_connect_call api ((ib_attempt api ^^ n) c)))"

lemma ib_first_success_Suc:
  "ib_first_success api (Suc n) c \<longleftrightarrow>
     \<not> ok (fst (ib_connect_call api c)) \<and> ib_first_success api n (ib_attempt api c)"
  by (auto simp: ib_first_success_def All_less_Suc2 funpow_swap1)

lemma ib_connect_loop_result:
  assumes "ib_first_success api n c" "n < fuel"
  shows "snd (ib_connect_loop api fuel backoff backoff_max c) = Some ((ib_attempt api ^^ Suc n) c)"
    and "length (fst (ib_connect_loop api fuel backoff backoff_max c)) = n"
proof -
  have "snd (ib_connect_loop api fuel backoff backoff_max c) = Some ((ib_attempt api ^^ Suc n) c)
    \<and> length (fst (ib_connect_loop api fuel backoff backoff_max c)) = n"
    using assms
  proof (induction n arbitrary: c fuel backoff)
    case 0
    then obtain m where "fuel = Suc m" using gr0_implies_Suc by blast
    with 0(1) show ?case
      by (cases "ib_connect_call api c"; cases "fst (ib_connect_call api c)")
        (auto simp: ib_first_success_def ib_attempt_def)
  next
    case (Suc n)
    then obtain m where m: "fuel = Suc m" "n < m" by (metis Suc_less_eq2)
    obtain e c1 where call: "ib_connect_call api c = (Inl e, c1)"
      using Suc.prems(1) by (cases "ib_connect_call api c"; cases "fst (ib_connect_call api c)")
        (auto simp: ib_first_success_Suc)
    then have "ib_first_success api n c1"
      using Suc.prems(1) by (simp add: ib_first_success_Suc ib_attempt_def)
    note rest = Suc.IH [OF this m(2), of "min (backoff * 2) backoff_max"]
    have "(ib_attempt api ^^ Suc (Suc n)) c = (ib_attempt api ^^ Suc n) (ib_attempt api c)"
      by (simp only: funpow_Suc_right o_apply)
    then have shift: "(ib_attempt api ^^ Suc (Suc n)) c = (ib_attempt api ^^ Suc n) c1"
      by (simp only: ib_attempt_def call snd_conv)
    show ?case
      using rest call m(1)
      by (cases "ib_connect_loop api m (min (backoff * 2) backoff_max) backoff_max c1")
        (simp add: shift del: funpow.simps)
  qed
  then show "snd (ib_connect_loop api fuel backoff backoff_max c) = Some ((ib_attempt api ^^ Suc n) c)"
    and "length (fst (ib_connect_loop api fuel backoff backoff_max c)) = n" by simp_all
qed

text \<open>
  Property C29. When the probe of a lost connection fails, the last good one is at least the timeout old and no
  reconnection is under way, the heartbeat reconnects at the first attempt that succeeds, restamps
  the connection and leaves the flag down, with the event stream and the order ids as they were;
  but an exception of the position request that follows ends the heartbeat task.
\<close>

theorem ib_heartbeat_recovers:
  assumes "ib_client ib = Some c" "\<not> ib_connected api c" "\<not> ib_reconnecting ib"
    and "ib_heartbeat_timeout ib \<le> now - ib_last_ok ib"
    and "ib_first_success api n c" "n < fuel"
  shows "\<exists>r ib1. ib_heartbeat_step api fuel now later ib = Some (r, ib1)
    \<and> ib_last_ok ib1 = later \<and> \<not> ib_reconnecting ib1 \<and> ib_same_books ib ib1
    \<and> ok r = ok (fst (ib_positions api ((ib_attempt api ^^ Suc n) c)))"
proof -
  let ?c = "(ib_attempt api ^^ Suc n) c"
  let ?ib = "ib\<lparr>ib_reconnecting := True, ib_client := Some ?c, ib_last_ok := later\<rparr>"
  have probe: "ib_heartbeat_probe api now ib = (Inl (ConnectionError [Lit ''ib.isConnected() is False'']), ib)"
    using assms(1,2) by (simp add: ib_heartbeat_probe_def ib_is_connected_def)
  have "ib_connect_with_retry api fuel later (ib\<lparr>ib_reconnecting := True\<rparr>) = Some (Inr (), ?ib)"
    using ib_connect_loop_result(1) [OF assms(5,6), of "ib_backoff ib" "ib_backoff_max ib"] assms(1)
    by (auto simp: ib_connect_with_retry_def split: prod.split option.split)
  then have step: "ib_heartbeat_step api fuel now later ib =
      (case ib_reconcile_state api ?ib of
         (r, ib3) \<Rightarrow> Some (and_then r (\<lambda>_. Inr ()), ib3\<lparr>ib_reconnecting := False\<rparr>))"
    using assms(3,4) by (simp add: ib_heartbeat_step_def probe)
  obtain q c1 where pos: "ib_positions api ?c = (q, c1)" by (cases "ib_positions api ?c")
  show ?thesis
    unfolding step using pos
    by (cases q) (simp_all add: ib_reconcile_state_def ib_get_positions_def ib_call_def ib_same_books_def
        del: funpow.simps)
qed

section \<open>A session\<close>

text \<open>
  Everything that may happen while the order manager runs on this adapter, in any order: its own
  submissions and cancellations, the connection tasks, the client's callbacks, and the delivery of
  the next event of the stream.  A connection task that has not succeeded after its fuel of
  attempts leaves the objects as they were.
\<close>

datatype 'c ib_op =
    IbConnect nat real 'c
  | IbHeartbeat nat real real
  | IbSubmit string datetime signal_event "real option"
  | IbCancel string
  | IbStatus datetime ib_trade
  | IbExec datetime ib_trade ib_fill
  | IbError datetime int int string
  | IbDeliver datetime

fun ib_adapter_step :: "'c ib_api \<Rightarrow> 'c ib_op \<Rightarrow> 'c ibkr \<Rightarrow> 'c ibkr" where
  "ib_adapter_step api (IbConnect fuel now c0) ib =
     (case ib_connect api fuel now c0 ib of None \<Rightarrow> ib | Some (_, ib1) \<Rightarrow> ib1)"
| "ib_adapter_step api (IbHeartbeat fuel now later) ib =
     (case ib_heartbeat_step api fuel now later ib of None \<Rightarrow> ib | Some (_, ib1) \<Rightarrow> ib1)"
| "ib_adapter_step api (IbStatus now t) ib = snd (ib_on_order_status now t ib)"
| "ib_adapter_step api (IbExec now t f) ib = snd (ib_on_exec_details now t f ib)"
| "ib_adapter_step api (IbError now req_id code txt) ib = snd (ib_on_error now req_id code txt ib)"
| "ib_adapter_step api _ ib = ib"

fun ib_session_step ::
  "'c ib_api \<Rightarrow> 'c ib_op \<Rightarrow> order_manager \<times> 'h bus \<times> 'c ibkr \<Rightarrow> order_manager \<times> 'h bus \<times> 'c ibkr" where
  "ib_session_step api (IbSubmit oid now sg expected) (om, b, ib) =
     (case om_submit (ib_venue api) oid now sg expected (om, ib) of (_, om1, ib1) \<Rightarrow> (om1, b, ib1))"
| "ib_session_step api (IbCancel oid) (om, b, ib) =
     (case om_cancel (ib_venue api) oid (om, ib) of (_, om1, ib1) \<Rightarrow> (om1, b, ib1))"
| "ib_session_step api (IbDeliver now) (om, b, ib) =
     (case ib_next_event ib of
        None \<Rightarrow> (om, b, ib)
      | Some (ev, ib1) \<Rightarrow> (case om_handle_broker_event now ev (om, b) of (om1, b1) \<Rightarrow> (om1, b1, ib1)))"
| "ib_session_step api oper (om, b, ib) = (om, b, ib_adapter_step api oper ib)"

text \<open>Ids the client assigns and the manager's 32-digit hexadecimal ids.\<close>

definition ib_small :: "int \<Rightarrow> bool" where
  "ib_small i \<longleftrightarrow> \<bar>i\<bar> < 2 ^ 63"

fun ib_op_ok :: "'c ib_op \<Rightarrow> bool" where
  "ib_op_ok (IbSubmit oid _ _ _) \<longleftrightarrow> length oid = 32"
| "ib_op_ok (IbStatus _ t) \<longleftrightarrow> ib_small (itr_order_id t)"
| "ib_op_ok (IbExec _ t _) \<longleftrightarrow> ib_small (itr_order_id t)"
| "ib_op_ok (IbError _ req_id _ _) \<longleftrightarrow> ib_small req_id"
| "ib_op_ok _ \<longleftrightarrow> True"

definition ib_own_ids :: "'c ibkr \<Rightarrow> bool" where
  "ib_own_ids ib \<longleftrightarrow> (\<forall>ev \<in> set (ib_events ib). length (be_order_id ev) \<le> 20)
     \<and> (\<forall>k \<in> dom (ib_trades ib). length k \<le> 20)"

definition om_never_heard :: "order_manager \<Rightarrow> bool" where
  "om_never_heard om \<longleftrightarrow> (\<forall>oid mo. dget (om_orders om) oid = Some mo \<longrightarrow>
     length oid = 32 \<and> mo_status mo \<in> {SUBMITTED, CANCEL_PENDING} \<and> mo_filled mo = 0)"

lemma ib_own_ids_same: "ib_same_books ib ib1 \<Longrightarrow> ib_own_ids ib1 = ib_own_ids ib"
  by (simp add: ib_same_books_def ib_own_ids_def)

lemma ib_put_own: "ib_own_ids ib \<Longrightarrow> length (be_order_id ev) \<le> 20 \<Longrightarrow> ib_own_ids (snd (ib_put ev ib))"
  by (auto simp: ib_put_def ib_own_ids_def)

lemma ib_small_text: "ib_small i \<Longrightarrow> length (int_text i) \<le> 20"
  by (simp add: ib_small_def length_int_text)

lemma ib_callbacks_own:
  assumes "ib_own_ids ib" "ib_small i"
  shows "itr_order_id t = i \<Longrightarrow> ib_own_ids (snd (ib_on_order_status now t ib))"
    and "itr_order_id t = i \<Longrightarrow> ib_own_ids (snd (ib_on_exec_details now t f ib))"
    and "ib_own_ids (snd (ib_on_error now i code txt ib))"
  using assms ib_small_text [OF assms(2)]
  by (auto simp: ib_on_order_status_def ib_on_exec_details_def ib_on_error_def ib_execution_def Let_def
      intro!: ib_put_own)

lemma ib_adapter_step_own:
  assumes "ib_own_ids ib" "ib_op_ok oper"
  shows "ib_own_ids (ib_adapter_step api oper ib)"
proof (cases oper)
  case (IbConnect fuel now c0)
  have "ib_own_ids (ib\<lparr>ib_client := Some c0\<rparr>)" using assms(1) by (simp add: ib_own_ids_def)
  with assms(1) IbConnect show ?thesis
    by (auto simp: ib_connect_def ib_own_ids_same dest: ib_connect_same split: option.split)
next
  case (IbHeartbeat fuel now later)
  with assms(1) show ?thesis
    by (auto simp: ib_own_ids_same dest: ib_heartbeat_same split: option.split)
qed (use assms in \<open>auto intro: ib_callbacks_own\<close>)

lemma ib_place_own:
  assumes "\<And>k r c. ib_small (itr_order_id (fst (ib_place api k r c)))" "ib_own_ids ib"
  shows "ib_own_ids (snd (ib_place_order api rq ib))"
  using ib_place_books [of api rq ib] assms(2) ib_small_text [OF assms(1)]
  by (auto simp: ib_own_ids_def Let_def split: if_splits)

lemma om_submit_never_heard:
  "om_never_heard om \<Longrightarrow> length oid = 32 \<Longrightarrow>
   om_never_heard (fst (snd (om_submit vn oid now sg expected (om, v))))"
  by (auto simp: om_never_heard_def om_submit_frame om_new_order_def)

lemma om_handle_never_heard:
  assumes "om_never_heard om" "length (be_order_id ev) \<le> 20"
  shows "om_handle_broker_event now ev (om, b) = (om, b)"
proof -
  have "dget (om_orders om) (be_order_id ev) = None"
  proof (rule ccontr)
    assume "dget (om_orders om) (be_order_id ev) \<noteq> None"
    then obtain mo where "dget (om_orders om) (be_order_id ev) = Some mo" by blast
    with assms(1) have "length (be_order_id ev) = 32" unfolding om_never_heard_def by blast
    with assms(2) show False by simp
  qed
  then show ?thesis by (simp add: om_handle_broker_event_def)
qed

lemma ib_cancel_own:
  assumes "ib_own_ids ib" "length oid = 32"
  shows "snd (ib_cancel_order api oid ib) = ib"
proof -
  have "ib_trades ib oid = None"
    using assms by (auto simp: ib_own_ids_def dom_def)
  then show ?thesis by (simp add: ib_cancel_order_def)
qed

definition ib_deaf :: "'h bus \<Rightarrow> order_manager \<times> 'h bus \<times> 'c ibkr \<Rightarrow> bool" where
  "ib_deaf b0 st \<longleftrightarrow> (case st of (om, b, ib) \<Rightarrow> b = b0 \<and> om_never_heard om \<and> ib_own_ids ib)"

lemma om_cancel_deaf:
  assumes "om_never_heard om" "ib_own_ids ib"
  shows "om_never_heard (fst (snd (om_cancel (ib_venue api) oid (om, ib))))
    \<and> ib_own_ids (snd (snd (om_cancel (ib_venue api) oid (om, ib))))"
proof (cases "dget (om_orders om) oid")
  case None
  with assms show ?thesis by (simp add: om_cancel_def)
next
  case (Some mo)
  then have mo: "length oid = 32" "mo_filled mo = 0"
    using assms(1) unfolding om_never_heard_def by blast+
  obtain r where c: "ib_cancel_order api oid ib = (r, ib)"
    using ib_cancel_own [OF assms(2) mo(1)] by (metis prod.collapse)
  have "om_never_heard (om\<lparr>om_orders := dset oid (mo\<lparr>mo_status := CANCEL_PENDING\<rparr>) (om_orders om)\<rparr>)"
    using assms(1) mo by (auto simp: om_never_heard_def)
  with Some assms(2) c show ?thesis by (simp add: om_cancel_def ib_venue_def Let_def)
qed

lemma ib_session_step_deaf:
  assumes "\<And>k r c. ib_small (itr_order_id (fst (ib_place api k r c)))"
    and "ib_deaf b0 st" "ib_op_ok oper"
  shows "ib_deaf b0 (ib_session_step api oper st)"
proof -
  obtain om b ib where st: "st = (om, b, ib)" by (cases st)
  with assms(2) have inv: "b = b0" "om_never_heard om" "ib_own_ids ib" by (simp_all add: ib_deaf_def)
  show ?thesis
  proof (cases oper)
    case (IbSubmit oid now sg expected)
    let ?r = "om_submit (ib_venue api) oid now sg expected (om, ib)"
    have "snd (snd ?r) = snd (ib_place_order api (om_request oid sg) ib)"
      by (simp add: om_submit_frame ib_venue_def)
    then have "ib_own_ids (snd (snd ?r))" using ib_place_own [OF assms(1) inv(3)] by simp
    moreover have "om_never_heard (fst (snd ?r))"
      using om_submit_never_heard [OF inv(2)] assms(3) IbSubmit by simp
    ultimately show ?thesis using inv(1) IbSubmit by (cases ?r) (simp add: st ib_deaf_def)
  next
    case (IbCancel oid)
    then show ?thesis
      using om_cancel_deaf [OF inv(2,3), of api oid] inv(1)
      by (cases "om_cancel (ib_venue api) oid (om, ib)") (simp add: st ib_deaf_def)
  next
    case (IbDeliver now)
    show ?thesis
    proof (cases "ib_events ib")
      case Nil
      with IbDeliver inv show ?thesis by (simp add: st ib_deaf_def)
    next
      case (Cons ev evs)
      with inv(3) have "length (be_order_id ev) \<le> 20" "ib_own_ids (ib\<lparr>ib_events := evs\<rparr>)"
        by (simp_all add: ib_own_ids_def)
      with IbDeliver Cons inv show ?thesis by (simp add: st ib_deaf_def om_handle_never_heard)
    qed
  qed (use inv assms(3) ib_adapter_step_own [OF inv(3), of oper api] in \<open>simp_all add: st ib_deaf_def\<close>)
qed

text \<open>
  Property C38. The adapter reports an order under the id the client assigns, a short decimal, and
  the order manager knows it under its own 32-digit id.  So through any session of submissions,
  callbacks, deliveries, cancellations and reconnections no acknowledgement, rejection or fill
  reaches the manager: the bus never sees an event, every order ever submitted stays open with
  nothing filled, and no cancellation of it reaches the client.
\<close>

theorem ib_orders_never_advance:
  assumes "\<And>k r c. ib_small (itr_order_id (fst (ib_place api k r c)))"
    and "\<forall>oper \<in> set ops. ib_op_ok oper"
    and "fold (ib_session_step api) ops (om_init, b0, ib_init backoff backoff_max tmo) = (om, b, ib)"
  shows "b = b0 \<and> (\<forall>oid mo. dget (om_orders om) oid = Some mo \<longrightarrow>
      mo_filled mo = 0 \<and> mo \<in> set (om_open_orders om) \<and> snd (ib_cancel_order api oid ib) = ib)"
proof -
  have "ib_deaf b0 (fold (ib_session_step api) ops st)" if "ib_deaf b0 st" for st
    using assms(2) that by (induction ops arbitrary: st) (simp_all add: ib_session_step_deaf [OF assms(1)])
  moreover have "ib_deaf b0 (om_init, b0, ib_init backoff backoff_max tmo)"
    by (simp add: ib_deaf_def om_never_heard_def om_init_def ib_own_ids_def ib_init_def)
  ultimately have "ib_deaf b0 (om, b, ib)" using assms(3) by metis
  then have inv: "b = b0" "om_never_heard om" "ib_own_ids ib" by (simp_all add: ib_deaf_def)
  have "mo_filled mo = 0 \<and> mo \<in> set (om_open_orders om) \<and> snd (ib_cancel_order api oid ib) = ib"
    if o: "dget (om_orders om) oid = Some mo" for oid mo
  proof -
    have mo: "length oid = 32" "mo_status mo \<in> {SUBMITTED, CANCEL_PENDING}" "mo_filled mo = 0"
      using inv(2) o unfolding om_never_heard_def by blast+
    have "mo \<in> snd ` set (om_orders om)" using map_of_SomeD [OF o] by force
    with mo show ?thesis using ib_cancel_own [OF inv(3) mo(1)] by (auto simp: om_open_orders_def)
  qed
  with inv(1) show ?thesis by blast
qed

text \<open>A client that is always connected and numbers its orders from one.\<close>

definition counting_client :: "nat ib_api" where
  "counting_client =
     \<lparr>ib_connect_call = \<lambda>c. (Inr (), c), ib_connected = \<lambda>_. True, ib_current_time = \<lambda>c. (Inr (), c),
      ib_disconnect_call = \<lambda>c. c, ib_qualify = \<lambda>symb c. (Inr [\<lparr>ict_id = 1, ict_symbol = symb\<rparr>], c),
      ib_place = \<lambda>k r c. (\<lparr>itr_order_id = int (c mod 100), itr_perm_id = 0, itr_order = r, itr_symbol = ict_symbol k,
         itr_status = ''PendingSubmit'', itr_fills = []\<rparr>, Suc c),
      ib_cancel_call = \<lambda>_ c. c, ib_global_cancel = \<lambda>c. c, ib_summary = \<lambda>c. (Inr [], c),
      ib_positions = \<lambda>c. (Inr [], c)\<rparr>"

definition filled_trade :: ib_trade where
  "filled_trade =
     \<lparr>itr_order_id = 1, itr_perm_id = 9, itr_order = ib_order_of (om_request [] (sample_order_signal ''X'' BUY 3)),
      itr_symbol = ''X'', itr_status = ''Filled'',
      itr_fills = [\<lparr>ifl_shares = 3, ifl_price = 10, ifl_commission = None, ifl_liquidity = 1\<rparr>]\<rparr>"

definition hex_id :: string where
  "hex_id = replicate 32 CHR ''a''"

definition deaf_ops :: "nat ib_op list" where
  "deaf_ops =
     [IbConnect 1 0 1, IbSubmit hex_id 0 (sample_order_signal ''X'' BUY 3) None,
      IbExec 1 filled_trade (hd (itr_fills filled_trade)), IbStatus 1 filled_trade, IbDeliver 2, IbDeliver 3,
      IbCancel hex_id]"

lemma hex_id: "length hex_id = 32" "hex_id \<noteq> ''1''" "''1'' \<noteq> hex_id"
  by (auto simp: hex_id_def dest: arg_cong [where f = length])

lemma one_text: "int_text 1 = ''1''"
  by (simp add: int_text_def nat_text.simps char_of_def bit_simps)

theorem ib_orders_never_advance_witness:
  "\<exists>om ib. fold (ib_session_step counting_client) deaf_ops (om_init, eb_init 5 :: nat bus, ib_init 2 60 15) = (om, eb_init 5, ib)
    \<and> (\<exists>mo. dget (om_orders om) hex_id = Some mo \<and> mo_filled mo = 0 \<and> mo \<in> set (om_open_orders om))"
proof -
  obtain om b ib where run: "fold (ib_session_step counting_client) deaf_ops
      (om_init, eb_init 5 :: nat bus, ib_init 2 60 15) = (om, b, ib)"
    using prod_cases3 by blast
  have "ib_small (itr_order_id (fst (ib_place counting_client k r c)))" for k r c
    by (simp add: counting_client_def ib_small_def)
  moreover have "\<forall>oper \<in> set deaf_ops. ib_op_ok oper"
    by (simp add: deaf_ops_def filled_trade_def ib_small_def hex_id_def)
  ultimately have res: "b = eb_init 5 \<and> (\<forall>oid mo. dget (om_orders om) oid = Some mo \<longrightarrow>
      mo_filled mo = 0 \<and> mo \<in> set (om_open_orders om) \<and> snd (ib_cancel_order counting_client oid ib) = ib)"
    using run by (rule ib_orders_never_advance)
  have keys: "map fst (om_orders (fst (fold (ib_session_step counting_client) deaf_ops
      (om_init, eb_init 5 :: nat bus, ib_init 2 60 15)))) = [hex_id]"
    unfolding deaf_ops_def
    by (simp add: hex_id one_text ib_connect_def ib_connect_with_retry_def counting_client_def om_submit_def
      ib_venue_def ib_place_order_def ib_qualify_future_def ib_call_def ib_init_def om_init_def Let_def
      ib_on_exec_details_def ib_on_order_status_def ib_put_def ib_execution_def filled_trade_def
      om_handle_broker_event_def om_cancel_def ib_cancel_order_def om_request_def
      ib_status_map_def dget_or_def sample_order_signal_def)
  then have "dget (om_orders om) hex_id \<noteq> None"
    unfolding run by (metis fst_conv list.set_intros(1) map_of_eq_None_iff set_map)
  with res run show ?thesis by blast
qed

text \<open>A client that refuses its next two connections.\<close>

definition flaky_client :: "nat ib_api" where
  "flaky_client = counting_client
     \<lparr>ib_connect_call := \<lambda>c. if c < 2 then (Inl (ApiError ''refused''), Suc c) else (Inr (), c),
      ib_connected := \<lambda>c. 2 \<le> c\<rparr>"

theorem ib_heartbeat_recovers_witness:
  "\<exists>r ib1. ib_heartbeat_step flaky_client 5 20 26 ((ib_init 2 60 15)\<lparr>ib_client := Some 0\<rparr>) = Some (r, ib1)
    \<and> ib_last_ok ib1 = 26 \<and> \<not> ib_reconnecting ib1 \<and> ok r"
proof -
  let ?ib = "(ib_init 2 60 15)\<lparr>ib_client := Some (0 :: nat)\<rparr>"
  have "ib_client ?ib = Some 0" "\<not> ib_connected flaky_client 0" "\<not> ib_reconnecting ?ib"
      "ib_heartbeat_timeout ?ib \<le> 20 - ib_last_ok ?ib" "2 < (5 :: nat)"
    by (simp_all add: ib_init_def flaky_client_def)
  moreover have "ib_first_success flaky_client 2 0"
    by (simp add: ib_first_success_def ib_attempt_def flaky_client_def numeral_eq_Suc All_less_Suc)
  ultimately have "\<exists>r ib1. ib_heartbeat_step flaky_client 5 20 26 ?ib = Some (r, ib1)
    \<and> ib_last_ok ib1 = 26 \<and> \<not> ib_reconnecting ib1 \<and> ib_same_books ?ib ib1
    \<and> ok r = ok (fst (ib_positions flaky_client ((ib_attempt flaky_client ^^ Suc 2) 0)))"
    by (intro ib_heartbeat_recovers)
  then show ?thesis by (auto simp: flaky_client_def counting_client_def)
qed

end
