(* ===== verification/IBKR_Feed.thy ===== *)
theory IBKR_Feed
  imports IBKR_Broker
begin

text \<open>
  The market data adapter of Interactive Brokers, \<^verbatim>\<open>data/ibkr_feed.py\<close>, and the interface it
  implements, \<^verbatim>\<open>data/market_data_feed.py\<close>, as a record and a locale.  The client is shared with
  the broker adapter and is a record of the calls the feed makes; a ticker object of the client is
  its number, and the handlers attached to it are part of the state.  The fields of a ticker hold
  \<^verbatim>\<open>NaN\<close> until data arrives, so a quote is a number, \<^verbatim>\<open>NaN\<close> or \<^verbatim>\<open>None\<close>.
\<close>

section \<open>Quotes\<close>

datatype quote = Absent | NotANumber | Num real

text \<open>\<^verbatim>\<open>x or 0.0\<close>: \<^verbatim>\<open>NaN\<close> counts as true.\<close>

fun or_zero :: "quote \<Rightarrow> quote" where
  "or_zero Absent = Num 0"
| "or_zero q = q"

text \<open>\<^verbatim>\<open>int(x)\<close> raises on \<^verbatim>\<open>NaN\<close>.\<close>

fun quote_int :: "quote \<Rightarrow> int result" where
  "quote_int (Num x) = Inr (py_int x)"
| "quote_int NotANumber = Inl (ValueError [Lit ''cannot convert float NaN to integer''])"
| "quote_int Absent = Inl TypeError"

record ticker_fields =
  tf_bid :: quote
  tf_ask :: quote
  tf_bid_size :: quote
  tf_ask_size :: quote
  tf_last :: quote
  tf_last_size :: quote

text \<open>The published event; its prices are numbers unless the ticker's were \<^verbatim>\<open>NaN\<close>.\<close>

record feed_tick =
  ft_ts :: datetime
  ft_symbol :: string
  ft_bid :: quote
  ft_ask :: quote
  ft_bid_size :: int
  ft_ask_size :: int
  ft_last :: quote
  ft_last_size :: int

definition ibf_on_update :: "datetime \<Rightarrow> string \<Rightarrow> ticker_fields \<Rightarrow> feed_tick result" where
  "ibf_on_update now symb t =
     and_then (quote_int (or_zero (tf_bid_size t))) (\<lambda>bid_size.
     and_then (quote_int (or_zero (tf_ask_size t))) (\<lambda>ask_size.
     and_then (quote_int (or_zero (tf_last_size t))) (\<lambda>last_size.
       Inr \<lparr>ft_ts = now, ft_symbol = symb, ft_bid = or_zero (tf_bid t), ft_ask = or_zero (tf_ask t),
            ft_bid_size = bid_size, ft_ask_size = ask_size, ft_last = or_zero (tf_last t), ft_last_size = last_size\<rparr>)))"

text \<open>The event as the rest of the bot reads it, when its prices are numbers.\<close>

fun ibf_tick_event :: "feed_tick \<Rightarrow> tick_event option" where
  "ibf_tick_event ft =
     (case (ft_bid ft, ft_ask ft, ft_last ft) of
        (Num bid, Num ask, Num lst) \<Rightarrow>
          Some \<lparr>tk_ts = ft_ts ft, tk_symbol = ft_symbol ft, tk_bid = bid, tk_ask = ask, tk_bid_size = ft_bid_size ft,
                tk_ask_size = ft_ask_size ft, tk_last = lst, tk_last_size = ft_last_size ft\<rparr>
      | _ \<Rightarrow> None)"

section \<open>Subscriptions\<close>

record 'c feed_api =
  fa_connected :: "'c \<Rightarrow> bool"
  fa_qualify :: "string \<Rightarrow> 'c \<Rightarrow> ib_contract list result \<times> 'c"
  fa_request :: "ib_contract \<Rightarrow> 'c \<Rightarrow> int \<times> 'c"
  fa_cancel :: "ib_contract \<Rightarrow> 'c \<Rightarrow> 'c"

record 'c ib_feed =
  fd_client :: 'c
  fd_contracts :: "string \<rightharpoonup> ib_contract"
  fd_tickers :: "(string, int) dict"
  fd_handlers :: "(int \<times> string) list"

definition ibf_init :: "'c \<Rightarrow> 'c ib_feed" where
  "ibf_init c = \<lparr>fd_client = c, fd_contracts = Map.empty, fd_tickers = [], fd_handlers = []\<rparr>"

definition ibf_is_connected :: "'c feed_api \<Rightarrow> 'c ib_feed \<Rightarrow> bool" where
  "ibf_is_connected api fd = fa_connected api (fd_client fd)"

definition ibf_connect :: "'c feed_api \<Rightarrow> 'c ib_feed \<Rightarrow> unit result" where
  "ibf_connect api fd =
     (if \<not> ibf_is_connected api fd
      then Inl (ConnectionError [Lit ''underlying IB client is not connected; connect IBKRBroker first'']) else Inr ())"

definition ibf_subscribe :: "'c feed_api \<Rightarrow> string \<Rightarrow> 'c ib_feed \<Rightarrow> unit result \<times> 'c ib_feed" where
  "ibf_subscribe api symb fd =
     (if symb \<in> set (dkeys (fd_tickers fd)) then (Inr (), fd)
      else case fa_qualify api symb (fd_client fd) of
        (Inl e, c) \<Rightarrow> (Inl e, fd\<lparr>fd_client := c\<rparr>)
      | (Inr [], c) \<Rightarrow>
          (Inl (ValueError [Lit ''could not qualify futures contract for symbol='', StrP symb]), fd\<lparr>fd_client := c\<rparr>)
      | (Inr (k # _), c) \<Rightarrow>
          (case fa_request api k c of
             (t, c1) \<Rightarrow>
               (Inr (), \<lparr>fd_client = c1, fd_contracts = (fd_contracts fd)(symb \<mapsto> k),
                         fd_tickers = dset symb t (fd_tickers fd), fd_handlers = fd_handlers fd @ [(t, symb)]\<rparr>)))"

definition ibf_unsubscribe :: "'c feed_api \<Rightarrow> string \<Rightarrow> 'c ib_feed \<Rightarrow> 'c ib_feed" where
  "ibf_unsubscribe api symb fd =
     (let fd1 = fd\<lparr>fd_contracts := (fd_contracts fd)(symb := None), fd_tickers := dpop symb (fd_tickers fd)\<rparr> in
      case fd_contracts fd symb of
        None \<Rightarrow> fd1
      | Some k \<Rightarrow> fd1\<lparr>fd_client := fa_cancel api k (fd_client fd1)\<rparr>)"

definition ibf_disconnect :: "'c feed_api \<Rightarrow> 'c ib_feed \<Rightarrow> 'c ib_feed" where
  "ibf_disconnect api fd = fold (ibf_unsubscribe api) (dkeys (fd_tickers fd)) fd"

text \<open>The client updates a ticker: every handler attached to it runs.\<close>

definition ibf_emit :: "datetime \<Rightarrow> int \<Rightarrow> ticker_fields \<Rightarrow> 'c ib_feed \<Rightarrow> feed_tick result list" where
  "ibf_emit now t flds fd =
     map (\<lambda>(_, symb). ibf_on_update now symb flds) (filter (\<lambda>(t1, _). t1 = t) (fd_handlers fd))"

section \<open>The interface of a market data feed\<close>

text \<open>\<^verbatim>\<open>data/market_data_feed.py\<close>: the operations a feed offers, and the adapter as one.\<close>

record 'f market_data_feed =
  mf_connect :: "'f \<Rightarrow> unit result"
  mf_disconnect :: "'f \<Rightarrow> 'f"
  mf_subscribe :: "string \<Rightarrow> 'f \<Rightarrow> unit result \<times> 'f"
  mf_unsubscribe :: "string \<Rightarrow> 'f \<Rightarrow> 'f"
  mf_is_connected :: "'f \<Rightarrow> bool"

definition ibf_feed :: "'c feed_api \<Rightarrow> 'c ib_feed market_data_feed" where
  "ibf_feed api = \<lparr>mf_connect = ibf_connect api, mf_disconnect = ibf_disconnect api, mf_subscribe = ibf_subscribe api,
     mf_unsubscribe = ibf_unsubscribe api, mf_is_connected = ibf_is_connected api\<rparr>"

datatype feed_op = Subscribe string | Unsubscribe string

fun feed_step :: "'f market_data_feed \<Rightarrow> feed_op \<Rightarrow> 'f \<Rightarrow> 'f" where
  "feed_step mf (Subscribe symb) f = snd (mf_subscribe mf symb f)"
| "feed_step mf (Unsubscribe symb) f = mf_unsubscribe mf symb f"

text \<open>
  What a user of a feed relies on: a subscription that returns adds its symbol and nothing else, one
  that raises adds nothing, an unsubscription removes its symbol, and a disconnect leaves none.
\<close>

locale data_feed =
  fixes mf :: "'f market_data_feed" and subs :: "'f \<Rightarrow> string set" and sound :: "'f \<Rightarrow> bool"
  assumes subscribe: "sound f \<Longrightarrow> sound (snd (mf_subscribe mf symb f))
      \<and> subs (snd (mf_subscribe mf symb f)) = (if ok (fst (mf_subscribe mf symb f)) then insert symb (subs f) else subs f)"
    and unsubscribe: "sound f \<Longrightarrow> sound (mf_unsubscribe mf symb f) \<and> subs (mf_unsubscribe mf symb f) = subs f - {symb}"
    and disconnect: "sound f \<Longrightarrow> sound (mf_disconnect mf f) \<and> subs (mf_disconnect mf f) = {}"
begin

lemma session: "sound f \<Longrightarrow> sound (fold (feed_step mf) ops f)"
proof (induction ops arbitrary: f)
  case (Cons oper ops)
  then show ?case by (cases oper) (simp_all add: subscribe unsubscribe)
qed simp

lemma session_subs: "sound f \<Longrightarrow> subs (fold (feed_step mf) ops f) \<subseteq> subs f \<union> {symb. Subscribe symb \<in> set ops}"
proof (induction ops arbitrary: f)
  case (Cons oper ops)
  have "sound (feed_step mf oper f)" using session [of f "[oper]"] Cons.prems by simp
  from Cons.IH [OF this] Cons.prems show ?case
    by (cases oper) (auto simp: subscribe unsubscribe split: if_splits)
qed simp

lemma session_closed: "sound f \<Longrightarrow> subs (mf_disconnect mf (fold (feed_step mf) ops f)) = {}"
  using disconnect session by blast

end

section \<open>The two tables\<close>

definition ibf_tables_agree :: "'c ib_feed \<Rightarrow> bool" where
  "ibf_tables_agree fd \<longleftrightarrow> wf_dict (fd_tickers fd) \<and> dom (fd_contracts fd) = set (dkeys (fd_tickers fd))"

lemma ibf_tables_init: "ibf_tables_agree (ibf_init c)"
  by (simp add: ibf_tables_agree_def ibf_init_def dkeys_def)

lemma dom_dset: "dom (dget (dset k v d)) = insert k (dom (dget d))"
  by (auto simp: dom_def)

lemma dom_dpop: "dom (dget (dpop k d)) = dom (dget d) - {k}"
  by (auto simp: dom_def split: if_splits)

lemma ibf_subscribe_tables: "ibf_tables_agree fd \<Longrightarrow> ibf_tables_agree (snd (ibf_subscribe api symb fd))"
  by (auto simp: ibf_tables_agree_def ibf_subscribe_def set_dkeys dom_dset split: prod.split sum.split list.split)

lemma ibf_unsubscribe_tables: "ibf_tables_agree fd \<Longrightarrow> ibf_tables_agree (ibf_unsubscribe api symb fd)"
  by (auto simp: ibf_tables_agree_def ibf_unsubscribe_def set_dkeys dom_dpop Let_def split: option.split)

lemma ibf_unsubscribe_keys:
  "set (dkeys (fd_tickers (ibf_unsubscribe api symb fd))) = set (dkeys (fd_tickers fd)) - {symb}"
  by (simp add: ibf_unsubscribe_def set_dkeys dom_dpop Let_def split: option.split)

lemma ibf_unsubscribe_each:
  "ibf_tables_agree fd \<Longrightarrow> ibf_tables_agree (fold (ibf_unsubscribe api) symbs fd)
   \<and> set (dkeys (fd_tickers (fold (ibf_unsubscribe api) symbs fd))) = set (dkeys (fd_tickers fd)) - set symbs"
  by (induction symbs arbitrary: fd) (auto simp: ibf_unsubscribe_tables ibf_unsubscribe_keys)

text \<open>The adapter keeps the contract; its subscriptions are the symbols of its tickers.\<close>

lemma ibf_subscribe_keys:
  "set (dkeys (fd_tickers (snd (ibf_subscribe api symb fd)))) =
     (if ok (fst (ibf_subscribe api symb fd)) then insert symb (set (dkeys (fd_tickers fd))) else set (dkeys (fd_tickers fd)))"
  by (auto simp: ibf_subscribe_def set_dkeys dom_dset split: prod.split sum.split list.split)

interpretation ibkr: data_feed "ibf_feed api" "\<lambda>fd. set (dkeys (fd_tickers fd))" ibf_tables_agree for api
proof
  fix fd :: "'a ib_feed" and symb
  assume agree: "ibf_tables_agree fd"
  show "ibf_tables_agree (snd (mf_subscribe (ibf_feed api) symb fd))
      \<and> set (dkeys (fd_tickers (snd (mf_subscribe (ibf_feed api) symb fd)))) =
        (if ok (fst (mf_subscribe (ibf_feed api) symb fd)) then insert symb (set (dkeys (fd_tickers fd))) else set (dkeys (fd_tickers fd)))"
    using agree by (simp add: ibf_feed_def ibf_subscribe_tables ibf_subscribe_keys)
  show "ibf_tables_agree (mf_unsubscribe (ibf_feed api) symb fd)
      \<and> set (dkeys (fd_tickers (mf_unsubscribe (ibf_feed api) symb fd))) = set (dkeys (fd_tickers fd)) - {symb}"
    using agree by (simp add: ibf_feed_def ibf_unsubscribe_tables ibf_unsubscribe_keys)
  show "ibf_tables_agree (mf_disconnect (ibf_feed api) fd) \<and> set (dkeys (fd_tickers (mf_disconnect (ibf_feed api) fd))) = {}"
    using ibf_unsubscribe_each [OF agree] by (simp add: ibf_feed_def ibf_disconnect_def)
qed

text \<open>
  After any subscriptions and unsubscriptions, failed ones included, the contracts and the
  tickers are those of the same symbols, and \<^verbatim>\<open>disconnect\<close> leaves neither.
\<close>

theorem ibf_disconnect_clears:
  fixes api :: "'c feed_api" and c :: 'c and ops :: "feed_op list"
  defines "fd \<equiv> fold (feed_step (ibf_feed api)) ops (ibf_init c)"
  shows "ibf_tables_agree fd \<and> set (dkeys (fd_tickers fd)) \<subseteq> {symb. Subscribe symb \<in> set ops}
    \<and> fd_tickers (ibf_disconnect api fd) = [] \<and> fd_contracts (ibf_disconnect api fd) = Map.empty"
proof -
  have agree: "ibf_tables_agree fd" unfolding fd_def by (intro ibkr.session ibf_tables_init)
  have "set (dkeys (fd_tickers fd)) \<subseteq> {symb. Subscribe symb \<in> set ops}"
    using ibkr.session_subs [OF ibf_tables_init, of api ops c] by (simp add: fd_def ibf_init_def dkeys_def)
  moreover have "set (dkeys (fd_tickers (ibf_disconnect api fd))) = {}" "ibf_tables_agree (ibf_disconnect api fd)"
    using ibkr.disconnect [OF agree, of api] by (simp_all add: ibf_feed_def)
  ultimately show ?thesis using agree by (auto simp: ibf_tables_agree_def dkeys_def)
qed

section \<open>Ticks that are lost or doubled\<close>

text \<open>
  An update publishes a tick exactly when no size is \<^verbatim>\<open>NaN\<close>: until the client has all three
  sizes, every update raises and none of its prices reaches the bot.
\<close>

theorem ibf_update_needs_all_sizes:
  "ok (ibf_on_update now symb t) \<longleftrightarrow>
     tf_bid_size t \<noteq> NotANumber \<and> tf_ask_size t \<noteq> NotANumber \<and> tf_last_size t \<noteq> NotANumber"
  by (cases "tf_bid_size t"; cases "tf_ask_size t"; cases "tf_last_size t")
    (simp_all add: ibf_on_update_def ok_def)

text \<open>
  Unsubscribing detaches no handler.  A client that keeps its ticker for a contract therefore calls
  the handler twice per update after a symbol was unsubscribed and subscribed again.
\<close>

theorem ibf_resubscription_doubles_ticks:
  fixes api :: "'c feed_api" and c :: 'c and t :: int and symb :: string
  assumes "\<And>c. \<exists>c1 ks. fa_qualify api symb c = (Inr (k # ks), c1)" "\<And>c. fst (fa_request api k c) = t"
  defines "fd \<equiv> fold (feed_step (ibf_feed api)) [Subscribe symb, Unsubscribe symb, Subscribe symb] (ibf_init c)"
  shows "length (ibf_emit now t flds fd) = 2"
proof -
  have sub: "fd_handlers (snd (ibf_subscribe api symb fd1)) = fd_handlers fd1 @ [(t, symb)]"
    if "symb \<notin> set (dkeys (fd_tickers fd1))" for fd1 :: "'c ib_feed"
    using that assms(1) [of "fd_client fd1"] assms(2)
    by (auto simp: ibf_subscribe_def split: prod.split) (metis fst_conv)
  have uns: "fd_handlers (ibf_unsubscribe api symb fd1) = fd_handlers fd1" for fd1 :: "'c ib_feed"
    by (simp add: ibf_unsubscribe_def Let_def split: option.split)
  have "fd_handlers fd = [(t, symb), (t, symb)]"
    by (simp add: fd_def ibf_feed_def sub uns ibf_unsubscribe_keys) (simp add: sub ibf_init_def dkeys_def)
  then show ?thesis by (simp add: ibf_emit_def)
qed

end
