(* ===== verification/Performance.thy ===== *)
theory Performance
  imports Market_Simulator
begin

text \<open>
  The report on a backtest, \<^verbatim>\<open>backtest/performance.py\<close>.  An array is the list of its elements and
  element-wise arithmetic is \<open>map\<close>; the statistics of \<^verbatim>\<open>numpy\<close> are the record \<open>np_ops\<close>, a
  parameter, and what the results rely on is the predicate \<open>np_extrema_ok\<close>: the documented meaning
  of \<^verbatim>\<open>maximum.accumulate\<close> and \<^verbatim>\<open>min\<close>.  Divisions of arrays do not raise; equity curves with a zero,
  which give infinities, are outside the results, as is a negative number of bars a year.
\<close>

record np_ops =
  np_cummax :: "real list \<Rightarrow> real list"
  np_min :: "real list \<Rightarrow> real"
  np_mean :: "real list \<Rightarrow> real"
  np_std1 :: "real list \<Rightarrow> real"      \<comment> \<open>\<^verbatim>\<open>std(ddof=1)\<close>\<close>
  np_median :: "real list \<Rightarrow> real"
  np_p90 :: "real list \<Rightarrow> real"       \<comment> \<open>\<^verbatim>\<open>percentile(_, 90)\<close>\<close>

definition tr_is_win :: "trade_record \<Rightarrow> bool" where
  "tr_is_win t \<longleftrightarrow> 0 < tr_pnl t"

definition tr_duration_seconds :: "trade_record \<Rightarrow> real" where
  "tr_duration_seconds t = timestamp_s (tr_exit_ts t - tr_entry_ts t)"

section \<open>Drawdown\<close>

text \<open>The loop over the bars: the current stretch below the running maximum, and the longest.\<close>

fun dd_longest :: "(real \<times> real) list \<Rightarrow> nat \<Rightarrow> nat \<Rightarrow> nat" where
  "dd_longest [] duration longest = longest"
| "dd_longest ((e, m) # rest) duration longest =
     (if e < m then dd_longest rest (Suc duration) (max longest (Suc duration))
      else dd_longest rest 0 longest)"

definition drawdown_series :: "np_ops \<Rightarrow> real list \<Rightarrow> real list \<times> real \<times> nat" where
  "drawdown_series np equity =
     (let running_max = np_cummax np equity;
          drawdown = map (\<lambda>(e, m). (e - m) / m) (zip equity running_max);
          max_dd = (if drawdown \<noteq> [] then np_min np drawdown else 0)
      in (drawdown, max_dd, dd_longest (zip equity running_max) 0 0))"

section \<open>The report\<close>

text \<open>\<^verbatim>\<open>float("inf")\<close> when there are profits and no losses.\<close>

datatype ratio = Finite real | Infinite

record performance_report =
  pf_total_return :: real
  pf_annual_return :: real
  pf_annual_vol :: real
  pf_sharpe :: real
  pf_sortino :: real
  pf_calmar :: real
  pf_max_dd :: real
  pf_dd_bars :: nat
  pf_win_rate :: real
  pf_expectancy :: real
  pf_profit_factor :: ratio
  pf_trades :: nat
  pf_avg_duration :: real
  pf_median_duration :: real
  pf_p90_duration :: real
  pf_gross_profit :: real
  pf_gross_loss :: real

definition pf_returns :: "real list \<Rightarrow> real list" where
  "pf_returns equity = map (\<lambda>(a, b). (b - a) / a) (zip equity (tl equity))"

text \<open>The figures on the trades: gross profit and loss, win rate, profit factor, expectancy.\<close>

definition pf_wins :: "trade_record list \<Rightarrow> trade_record list" where
  "pf_wins trades = filter tr_is_win trades"

definition pf_losses :: "trade_record list \<Rightarrow> trade_record list" where
  "pf_losses trades = filter (\<lambda>t. \<not> tr_is_win t) trades"

definition pf_profit_of :: "trade_record list \<Rightarrow> real" where
  "pf_profit_of trades = sum_list (map tr_pnl (pf_wins trades))"

definition pf_loss_of :: "trade_record list \<Rightarrow> real" where
  "pf_loss_of trades = \<bar>sum_list (map tr_pnl (pf_losses trades))\<bar>"

definition pf_factor_of :: "trade_record list \<Rightarrow> ratio" where
  "pf_factor_of trades =
     (if 0 < pf_loss_of trades then Finite (pf_profit_of trades / pf_loss_of trades)
      else if 0 < pf_profit_of trades then Infinite else Finite 0)"

definition pf_win_share :: "trade_record list \<Rightarrow> real" where
  "pf_win_share trades = (if trades \<noteq> [] then real (length (pf_wins trades)) / real (length trades) else 0)"

definition pf_expectancy_of :: "trade_record list \<Rightarrow> real" where
  "pf_expectancy_of trades =
     (let wins = pf_wins trades; losses = pf_losses trades;
          avg_win = (if wins \<noteq> [] then pf_profit_of trades / real (length wins) else 0);
          avg_loss = (if losses \<noteq> [] then pf_loss_of trades / real (length losses) else 0);
          p_win = pf_win_share trades;
          p_loss = 1 - p_win
      in p_win * avg_win - p_loss * avg_loss)"

definition compute_performance_report ::
  "np_ops \<Rightarrow> real list \<Rightarrow> trade_record list \<Rightarrow> real \<Rightarrow> real \<Rightarrow> performance_report result" where
  "compute_performance_report np equity trades bars_per_year risk_free_rate_pct =
     (if length equity < 2 then Inl (ValueError [Lit ''equity_curve needs at least 2 points to compute returns''])
      else
        let period_returns = pf_returns equity;
            total = (last equity / hd equity - 1) * 100;
            n_periods = length period_returns;
            years = (if 0 < bars_per_year then real n_periods / bars_per_year else 1);
            annual = (if 0 < years \<and> 0 < hd equity then ((last equity / hd equity) powr (1 / years) - 1) * 100 else 0);
            vol = (if 1 < n_periods then np_std1 np period_returns else 0)
        in and_then (fdiv (risk_free_rate_pct / 100) bars_per_year) (\<lambda>rf.
          let excess = map (\<lambda>r. r - rf) period_returns;
              sharpe = (if 1 < n_periods \<and> 0 < np_std1 np excess
                        then np_mean np excess / np_std1 np excess * bars_per_year powr (1 / 2) else 0);
              downside = filter (\<lambda>r. r < 0) excess;
              downside_std = (if 1 < length downside then np_std1 np downside else 0);
              sortino = (if 0 < downside_std then np_mean np excess / downside_std * bars_per_year powr (1 / 2) else 0);
              max_dd_pct = \<bar>fst (snd (drawdown_series np equity))\<bar> * 100;
              durations = map tr_duration_seconds trades
          in Inr \<lparr>pf_total_return = total, pf_annual_return = annual, pf_annual_vol = vol * bars_per_year powr (1 / 2) * 100,
                pf_sharpe = sharpe, pf_sortino = sortino,
                pf_calmar = (if 0 < max_dd_pct then annual / max_dd_pct else 0),
                pf_max_dd = max_dd_pct, pf_dd_bars = snd (snd (drawdown_series np equity)),
                pf_win_rate = pf_win_share trades * 100, pf_expectancy = pf_expectancy_of trades,
                pf_profit_factor = pf_factor_of trades, pf_trades = length trades,
                pf_avg_duration = (if durations \<noteq> [] then np_mean np durations else 0),
                pf_median_duration = (if durations \<noteq> [] then np_median np durations else 0),
                pf_p90_duration = (if durations \<noteq> [] then np_p90 np durations else 0),
                pf_gross_profit = pf_profit_of trades, pf_gross_loss = pf_loss_of trades\<rparr>))"

lemma report_fields:
  assumes "compute_performance_report np equity trades bars_per_year rf = Inr p"
  shows "2 \<le> length equity" "pf_total_return p = (last equity / hd equity - 1) * 100"
    and "pf_expectancy p = pf_expectancy_of trades" "pf_trades p = length trades"
proof -
  show two: "2 \<le> length equity" using assms by (simp add: compute_performance_report_def not_less split: if_splits)
  then have "\<not> length equity < 2" by simp
  with assms show "pf_total_return p = (last equity / hd equity - 1) * 100"
    "pf_expectancy p = pf_expectancy_of trades" "pf_trades p = length trades"
    unfolding compute_performance_report_def Let_def if_not_P [OF \<open>\<not> length equity < 2\<close>] and_then_Inr_iff by auto
qed

section \<open>Expectancy\<close>

lemma sum_list_partition:
  "sum_list (map f (filter P xs)) + sum_list (map f (filter (\<lambda>x. \<not> P x) xs)) = (sum_list (map f xs) :: real)"
  by (induction xs) auto

lemma pf_loss_of_neg: "pf_loss_of trades = - sum_list (map tr_pnl (pf_losses trades))"
proof -
  have "sum_list (map tr_pnl (pf_losses trades)) \<le> 0"
    by (intro sum_list_nonpos) (auto simp: pf_losses_def tr_is_win_def)
  then show ?thesis by (simp add: pf_loss_of_def)
qed

lemma length_wins_losses: "length (pf_wins trades) + length (pf_losses trades) = length trades"
  by (simp add: pf_wins_def pf_losses_def sum_length_filter_compl)

text \<open>
  The expectancy the report gives, built from the win rate and the average win and
  loss, is exactly the average profit of a trade; gross profit less gross loss is the total.
\<close>

theorem pf_expectancy_is_mean_pnl:
  assumes "trades \<noteq> []"
  shows "pf_expectancy_of trades = sum_list (map tr_pnl trades) / real (length trades)
    \<and> pf_profit_of trades - pf_loss_of trades = sum_list (map tr_pnl trades)"
proof -
  let ?n = "real (length trades)" and ?w = "real (length (pf_wins trades))" and ?l = "real (length (pf_losses trades))"
  have total: "pf_profit_of trades - pf_loss_of trades = sum_list (map tr_pnl trades)"
    using sum_list_partition [of tr_pnl tr_is_win trades]
    by (simp add: pf_profit_of_def pf_loss_of_neg pf_wins_def pf_losses_def)
  have n: "?n = ?w + ?l" "0 < ?n"
    using length_wins_losses [of trades] assms by (simp_all flip: of_nat_add)
  have win: "?w / ?n * (if pf_wins trades \<noteq> [] then pf_profit_of trades / ?w else 0) = pf_profit_of trades / ?n"
    by (simp add: pf_profit_of_def)
  have "1 - ?w / ?n = ?l / ?n" using n by (simp add: field_simps)
  then have loss: "(1 - ?w / ?n) * (if pf_losses trades \<noteq> [] then pf_loss_of trades / ?l else 0) = pf_loss_of trades / ?n"
    by (simp add: pf_loss_of_def)
  have "pf_expectancy_of trades = pf_profit_of trades / ?n - pf_loss_of trades / ?n"
    using assms win loss by (simp only: pf_expectancy_of_def pf_win_share_def Let_def if_True not_False_eq_True)
  then have "pf_expectancy_of trades = (pf_profit_of trades - pf_loss_of trades) / ?n"
    by (simp only: diff_divide_distrib)
  with total show ?thesis by simp
qed

definition sample_trade :: "real \<Rightarrow> trade_record" where
  "sample_trade pnl = \<lparr>tr_symbol = ''ES'', tr_side = BUY, tr_entry_ts = 0, tr_exit_ts = 1, tr_qty = 1, tr_pnl = pnl\<rparr>"

theorem pf_expectancy_is_mean_pnl_witness:
  "pf_expectancy_of [sample_trade 10, sample_trade (-4), sample_trade 0] = 2"
  using pf_expectancy_is_mean_pnl [of "[sample_trade 10, sample_trade (-4), sample_trade 0]"]
  by (simp add: sample_trade_def)

section \<open>The longest stretch under water\<close>

definition dd_run :: "(real \<times> real) list \<Rightarrow> nat \<Rightarrow> nat \<Rightarrow> bool" where
  "dd_run zs i n \<longleftrightarrow> i + n \<le> length zs \<and> (\<forall>k < n. fst (zs ! (i + k)) < snd (zs ! (i + k)))"

lemma dd_run_Cons_Suc: "dd_run (z # zs) (Suc i) n = dd_run zs i n"
  by (simp add: dd_run_def)

lemma dd_run_Cons_0: "dd_run (z # zs) 0 n \<longleftrightarrow> n = 0 \<or> fst z < snd z \<and> dd_run zs 0 (n - 1)"
  by (cases n) (auto simp: dd_run_def All_less_Suc2)

lemma dd_longest_bounds:
  assumes "d \<le> l"
  shows "l \<le> dd_longest zs d l \<and> (\<forall>i n. dd_run zs i n \<longrightarrow> n \<le> dd_longest zs d l)
    \<and> (\<forall>n. dd_run zs 0 n \<longrightarrow> d + n \<le> dd_longest zs d l)
    \<and> (dd_longest zs d l = l \<or> (\<exists>i. dd_run zs i (dd_longest zs d l)) \<or> (\<exists>n. dd_run zs 0 n \<and> dd_longest zs d l = d + n))"
  using assms
proof (induction zs arbitrary: d l)
  case Nil
  then show ?case by (auto simp: dd_run_def)
next
  case (Cons z zs)
  obtain e m where z: "z = (e, m)" by (cases z)
  show ?case
  proof (cases "e < m")
    case True
    let ?r = "dd_longest zs (Suc d) (max l (Suc d))"
    have r: "dd_longest (z # zs) d l = ?r" using True z by simp
    note IH = Cons.IH [of "Suc d" "max l (Suc d)"]
    have all: "n \<le> ?r" if "dd_run (z # zs) i n" for i n
    proof (cases i)
      case 0
      with that IH show ?thesis by (cases n) (auto simp: dd_run_Cons_0)
    next
      case (Suc j)
      with that IH show ?thesis by (auto simp: dd_run_Cons_Suc)
    qed
    have zero: "d + n \<le> ?r" if "dd_run (z # zs) 0 n" for n
      using that IH by (cases n) (auto simp: dd_run_Cons_0)
    have "?r = l \<or> (\<exists>i. dd_run (z # zs) i ?r) \<or> (\<exists>n. dd_run (z # zs) 0 n \<and> ?r = d + n)"
    proof -
      consider "?r = max l (Suc d)" | i where "dd_run zs i ?r" | n where "dd_run zs 0 n" "?r = Suc d + n"
        using IH by auto
      then show ?thesis
      proof cases
        case 1
        have "dd_run (z # zs) 0 1" using True z by (simp add: dd_run_Cons_0) (simp add: dd_run_def)
        with 1 show ?thesis by (cases "Suc d \<le> l") (auto simp: max_def)
      next
        case 2
        then show ?thesis using dd_run_Cons_Suc by blast
      next
        case (3 n)
        then have "dd_run (z # zs) 0 (Suc n)" using True z by (simp add: dd_run_Cons_0)
        with 3(2) show ?thesis by (metis add_Suc add_Suc_right)
      qed
    qed
    with all zero IH show ?thesis unfolding r by auto
  next
    case False
    note IH = Cons.IH [of 0 l]
    have r: "dd_longest (z # zs) d l = dd_longest zs 0 l" using False z by simp
    have run0: "dd_run (z # zs) 0 n \<Longrightarrow> n = 0" for n using False z by (simp add: dd_run_Cons_0)
    have "n \<le> dd_longest zs 0 l" if "dd_run (z # zs) i n" for i n
      using that IH run0 by (cases i) (auto simp: dd_run_Cons_Suc)
    moreover have "d + n \<le> dd_longest zs 0 l" if "dd_run (z # zs) 0 n" for n
      using that IH run0 Cons.prems by fastforce
    moreover have "dd_longest zs 0 l = l \<or> (\<exists>i. dd_run (z # zs) i (dd_longest zs 0 l))"
    proof -
      consider "dd_longest zs 0 l = l" | i where "dd_run zs i (dd_longest zs 0 l)"
        using IH by auto
      then show ?thesis
      proof cases
        case 1
        then show ?thesis by simp
      next
        case (2 i)
        then have "dd_run (z # zs) (Suc i) (dd_longest zs 0 l)" by (simp add: dd_run_Cons_Suc)
        then show ?thesis by blast
      qed
    qed
    moreover have "l \<le> dd_longest zs 0 l" using IH by simp
    ultimately show ?thesis unfolding r by blast
  qed
qed

text \<open>The documented meaning of the two reductions.\<close>

definition highs :: "real list \<Rightarrow> real list" where
  "highs xs = map (\<lambda>i. Max (set (take (Suc i) xs))) [0..<length xs]"

definition np_extrema_ok :: "np_ops \<Rightarrow> bool" where
  "np_extrema_ok np \<longleftrightarrow> (\<forall>xs. np_cummax np xs = highs xs) \<and> (\<forall>xs. xs \<noteq> [] \<longrightarrow> np_min np xs = Min (set xs))"

text \<open>A fall: from the level at one bar to the level at that bar or a later one, as a fraction.\<close>

definition is_fall :: "real list \<Rightarrow> real \<Rightarrow> bool" where
  "is_fall xs d \<longleftrightarrow> (\<exists>i j. i \<le> j \<and> j < length xs \<and> d = (xs ! j - xs ! i) / xs ! i)"

definition under_water :: "real list \<Rightarrow> nat \<Rightarrow> bool" where
  "under_water xs k \<longleftrightarrow> (\<exists>i \<le> k. xs ! k < xs ! i)"

lemma length_highs [simp]: "length (highs xs) = length xs"
  by (simp add: highs_def)

lemma nth_highs: "k < length xs \<Longrightarrow> highs xs ! k = Max (set (take (Suc k) xs))"
  by (simp add: highs_def)

lemma highs_ge:
  assumes "i \<le> k" "k < length xs"
  shows "xs ! i \<le> highs xs ! k"
proof -
  have "xs ! i \<in> set (take (Suc k) xs)" using assms by (simp add: in_set_conv_nth) (auto intro!: exI [of _ i])
  with assms show ?thesis by (simp add: nth_highs)
qed

lemma highs_attained:
  assumes "k < length xs"
  shows "\<exists>i \<le> k. highs xs ! k = xs ! i"
proof -
  have "set (take (Suc k) xs) \<noteq> {}" using assms by (cases xs) auto
  then have "highs xs ! k \<in> set (take (Suc k) xs)" using assms by (simp add: nth_highs)
  then obtain i where "i < length (take (Suc k) xs)" "take (Suc k) xs ! i = highs xs ! k"
    by (auto simp: in_set_conv_nth)
  then show ?thesis using assms by (auto intro!: exI [of _ i])
qed

lemma below_high_iff: "k < length xs \<Longrightarrow> xs ! k < highs xs ! k \<longleftrightarrow> under_water xs k"
  unfolding under_water_def using highs_attained [of k xs] highs_ge [of _ k xs] by force

lemma dd_run_zip:
  "dd_run (zip xs (highs xs)) i n \<longleftrightarrow> i + n \<le> length xs \<and> (\<forall>k < n. under_water xs (i + k))"
  unfolding dd_run_def by (auto simp: below_high_iff)

lemma dd_longest_exact:
  "dd_run zs i n \<Longrightarrow> n \<le> dd_longest zs 0 0" "\<exists>i. dd_run zs i (dd_longest zs 0 0)"
proof -
  show "dd_run zs i n \<Longrightarrow> n \<le> dd_longest zs 0 0" using dd_longest_bounds [of 0 0 zs] by blast
  have "dd_run zs 0 0" by (simp add: dd_run_def)
  then show "\<exists>i. dd_run zs i (dd_longest zs 0 0)" using dd_longest_bounds [of 0 0 zs] by auto
qed

lemma drawdowns_are_falls:
  assumes "d \<in> set (map (\<lambda>(e, m). (e - m) / m) (zip xs (highs xs)))"
  shows "is_fall xs d"
proof -
  obtain k where k: "k < length xs" "d = (xs ! k - highs xs ! k) / highs xs ! k"
    using assms by (auto simp: set_zip)
  obtain i where "i \<le> k" "highs xs ! k = xs ! i" using highs_attained k(1) by blast
  with k show ?thesis by (auto simp: is_fall_def)
qed

lemma fall_above_drawdown:
  assumes "is_fall xs d" "\<forall>x \<in> set xs. 0 < x"
  shows "\<exists>d' \<in> set (map (\<lambda>(e, m). (e - m) / m) (zip xs (highs xs))). d' \<le> d"
proof -
  obtain i j where ij: "i \<le> j" "j < length xs" "d = (xs ! j - xs ! i) / xs ! i"
    using assms(1) by (auto simp: is_fall_def)
  let ?m = "highs xs ! j"
  have pos: "0 < xs ! i" "0 < xs ! j" using assms(2) ij by (auto intro: nth_mem)
  have le: "xs ! i \<le> ?m" using highs_ge ij by blast
  have "xs ! j / ?m \<le> xs ! j / xs ! i" using pos le by (intro divide_left_mono) auto
  then have "(xs ! j - ?m) / ?m \<le> d" using ij(3) pos le by (simp add: diff_divide_distrib)
  moreover have "(xs ! j, ?m) \<in> set (zip xs (highs xs))" using ij(2) by (force simp: set_zip)
  ultimately show ?thesis by (intro bexI [of _ "(xs ! j - ?m) / ?m"]) (auto intro!: rev_image_eqI)
qed

text \<open>
  Property C33. On an equity curve that stays positive the report's maximum drawdown is the deepest
  fall from any earlier level, and its drawdown duration is the length of the longest run of
  consecutive bars that each lie below some earlier level: such a run exists and none is longer.
\<close>

theorem drawdown_is_deepest_and_longest:
  assumes "np_extrema_ok np" "equity \<noteq> []" "\<forall>x \<in> set equity. 0 < x"
    and "drawdown_series np equity = (series, deepest, longest)"
  shows "is_fall equity deepest \<and> (\<forall>d. is_fall equity d \<longrightarrow> deepest \<le> d)
    \<and> (\<exists>i. i + longest \<le> length equity \<and> (\<forall>k < longest. under_water equity (i + k)))
    \<and> (\<forall>i n. i + n \<le> length equity \<and> (\<forall>k < n. under_water equity (i + k)) \<longrightarrow> n \<le> longest)"
proof -
  let ?D = "map (\<lambda>(e, m). (e - m) / m) (zip equity (highs equity))"
  have ne: "?D \<noteq> []" using assms(2) by (cases equity) (auto simp: highs_def upt_rec)
  have np: "np_cummax np equity = highs equity" "np_min np ?D = Min (set ?D)"
    using assms(1) ne by (auto simp only: np_extrema_ok_def)
  have r: "deepest = Min (set ?D)" "longest = dd_longest (zip equity (highs equity)) 0 0"
  proof -
    have "drawdown_series np equity = (?D, Min (set ?D), dd_longest (zip equity (highs equity)) 0 0)"
      unfolding drawdown_series_def Let_def np using ne by (simp only: np not_False_eq_True if_True)
    note tuple = this [symmetric, unfolded assms(4)]
    show "deepest = Min (set ?D)"
      using arg_cong [OF tuple, of "\<lambda>t. fst (snd t)"] by (simp only: fst_conv snd_conv)
    show "longest = dd_longest (zip equity (highs equity)) 0 0"
      using arg_cong [OF tuple, of "\<lambda>t. snd (snd t)"] by (simp only: fst_conv snd_conv)
  qed
  have "deepest \<in> set ?D" unfolding r using ne by (intro Min_in) auto
  then have "is_fall equity deepest" by (rule drawdowns_are_falls)
  moreover have "deepest \<le> d" if fall: "is_fall equity d" for d
  proof -
    obtain d' where "d' \<in> set ?D" "d' \<le> d" using fall_above_drawdown [OF fall assms(3)] by blast
    then show ?thesis unfolding r by (meson List.finite_set Min_le order_trans)
  qed
  moreover note dd_longest_exact [of "zip equity (highs equity)", folded r(2), unfolded dd_run_zip]
  ultimately show ?thesis by blast
qed

definition np_reference :: np_ops where
  "np_reference = \<lparr>np_cummax = highs, np_min = (\<lambda>xs. Min (set xs)), np_mean = (\<lambda>_. 0), np_std1 = (\<lambda>_. 0),
     np_median = (\<lambda>_. 0), np_p90 = (\<lambda>_. 0)\<rparr>"

theorem drawdown_is_deepest_and_longest_witness:
  "drawdown_series np_reference [4, 3, 2, 4] = ([0, - 1 / 4, - 1 / 2, 0], - 1 / 2, 2)
   \<and> is_fall [4, 3, 2, 4] (- 1 / 2) \<and> \<not> is_fall [4, 3, 2, 4] (- 3 / 4)"
proof -
  have run: "drawdown_series np_reference [4, 3, 2, 4] = ([0, - 1 / 4, - 1 / 2, 0], - 1 / 2, 2)"
    by (simp add: drawdown_series_def np_reference_def highs_def upt_rec numeral_2_eq_2)
  have "np_extrema_ok np_reference" by (simp add: np_extrema_ok_def np_reference_def)
  with run show ?thesis
    using drawdown_is_deepest_and_longest [where np = np_reference and equity = "[4, 3, 2, 4]"
        and deepest = "- 1 / 2" and longest = 2 and series = "[0, - 1 / 4, - 1 / 2, 0]"]
    by (fastforce simp del: highs_def)
qed

end
