(* ===== verification/Daily_Log.thy ===== *)
theory Daily_Log
  imports Bot_Prelude
begin

text \<open>
  The append-only history files of \<^verbatim>\<open>utils/daily_log.py\<close>.  The files are a map from UTC days to
  contents.  A content is a sequence of pieces: the JSON text of a whole record, a proper
  beginning of one (left by a write that was cut short), and the line separator; \<^verbatim>\<open>json.dumps\<close>
  writes no line breaks, and no text of a record with pieces before or after it on its line
  parses.
\<close>

section \<open>Files\<close>

datatype 'r piece = Rec 'r | Frag | NL

type_synonym 'r log_files = "date \<rightharpoonup> 'r piece list"

text \<open>The lines a text file yields, in order; the last need not be terminated.\<close>

fun log_lines :: "'r piece list \<Rightarrow> 'r piece list \<Rightarrow> 'r piece list list" where
  "log_lines cur [] = (if cur = [] then [] else [cur])"
| "log_lines cur (NL # ps) = cur # log_lines [] ps"
| "log_lines cur (p # ps) = log_lines (cur @ [p]) ps"

text \<open>Blank lines and lines that do not parse are skipped.\<close>

fun line_records :: "'r piece list \<Rightarrow> 'r list" where
  "line_records [Rec r] = [r]"
| "line_records _ = []"

section \<open>append\<close>

text \<open>
  What becomes of one write of a record and its separator: done; refused with nothing written
  (the directory, the file or the disk); cut short inside the record; or cut short before the
  separator.  The \<^verbatim>\<open>OSError\<close> of the last three is logged and goes no further.
\<close>

datatype append_outcome = Appended | NotOpened | CutInside | CutBeforeNL

fun append_pieces :: "append_outcome \<Rightarrow> 'r \<Rightarrow> 'r piece list" where
  "append_pieces Appended r = [Rec r, NL]"
| "append_pieces NotOpened r = []"
| "append_pieces CutInside r = [Frag]"
| "append_pieces CutBeforeNL r = [Rec r]"

definition dl_append :: "append_outcome \<Rightarrow> datetime \<Rightarrow> 'r \<Rightarrow> 'r log_files \<Rightarrow> 'r log_files" where
  "dl_append w now r fs =
     (if w = NotOpened then fs
      else fs(date_of now \<mapsto> (case fs (date_of now) of None \<Rightarrow> [] | Some ps \<Rightarrow> ps) @ append_pieces w r))"

section \<open>\<^verbatim>\<open>read_recent\<close>\<close>

text \<open>
  One day's file: absent, or read up to the line at which an \<^verbatim>\<open>OSError\<close> ends the reading
  (\<open>None\<close> when there is none); the records read before it are kept.
\<close>

definition dl_read_day :: "(date \<Rightarrow> nat option) \<Rightarrow> 'r log_files \<Rightarrow> date \<Rightarrow> 'r list" where
  "dl_read_day fault fs d =
     (case fs d of
        None \<Rightarrow> []
      | Some ps \<Rightarrow>
          (let ls = log_lines [] ps
           in concat (map line_records (case fault d of None \<Rightarrow> ls | Some n \<Rightarrow> take n ls))))"

definition dl_days_back :: "int \<Rightarrow> int" where
  "dl_days_back hours = max 1 (hours div 24 + 2)"

definition dl_read_recent :: "(date \<Rightarrow> nat option) \<Rightarrow> datetime \<Rightarrow> int \<Rightarrow> 'r log_files \<Rightarrow> 'r list" where
  "dl_read_recent fault now hours fs =
     concat (map (\<lambda>i. dl_read_day fault fs (date_of now - i)) (rev [0..dl_days_back hours]))"

section \<open>What is read back\<close>

definition dl_run :: "(append_outcome \<times> datetime \<times> 'r) list \<Rightarrow> 'r log_files \<Rightarrow> 'r log_files" where
  "dl_run ws fs = fold (\<lambda>(w, now, r). dl_append w now r) ws fs"

lemma dl_run_simps [simp]:
  "dl_run [] fs = fs"
  "dl_run (x # ws) fs = dl_run ws (dl_append (fst x) (fst (snd x)) (snd (snd x)) fs)"
  by (simp_all add: dl_run_def split: prod.split)

definition day_pieces :: "'r log_files \<Rightarrow> date \<Rightarrow> 'r piece list" where
  "day_pieces fs d = (case fs d of None \<Rightarrow> [] | Some ps \<Rightarrow> ps)"

lemma day_pieces_empty: "day_pieces Map.empty d = []"
  by (simp add: day_pieces_def)

lemma dl_append_day:
  "day_pieces (dl_append w now r fs) d = day_pieces fs d @ (if d = date_of now then append_pieces w r else [])"
  by (auto simp: day_pieces_def dl_append_def)

lemma dl_run_day:
  "day_pieces (dl_run ws fs) d =
     day_pieces fs d @ concat (map (\<lambda>(w, now, r). append_pieces w r) (filter (\<lambda>(w, now, r). date_of now = d) ws))"
proof (induction ws arbitrary: fs)
  case Nil
  then show ?case by simp
next
  case (Cons x ws)
  then show ?case by (cases x) (simp add: dl_append_day)
qed

lemma dl_read_day_pieces:
  "dl_read_day (\<lambda>_. None) fs d = concat (map line_records (log_lines [] (day_pieces fs d)))"
  by (simp add: dl_read_day_def day_pieces_def split: option.split)

lemma log_lines_whole:
  "concat (map line_records (log_lines [] (concat (map (\<lambda>r. [Rec r, NL]) rs) @ ps))) =
     rs @ concat (map line_records (log_lines [] ps))"
  by (induction rs) simp_all

text \<open>Splitting a list ordered by a key into the blocks of consecutive keys gives the list back.\<close>

lemma concat_key_blocks:
  fixes key :: "'a \<Rightarrow> int"
  assumes "sorted (map key xs)" "\<forall>x \<in> set xs. key x < hi"
  shows "concat (map (\<lambda>i. filter (\<lambda>x. key x = hi - 1 - i) xs) (rev [0..int n])) =
    filter (\<lambda>x. hi - 1 - int n \<le> key x) xs"
  using assms
proof (induction n arbitrary: xs hi)
  case 0
  then show ?case by (auto intro!: filter_cong)
next
  case (Suc n)
  let ?k = "hi - 1 - int (Suc n)"
  have up: "rev [0..int (Suc n)] = int (Suc n) # rev [0..int n]"
    by (simp add: upto_rec2)
  have "filter (\<lambda>x. ?k \<le> key x) xs = filter (\<lambda>x. key x = ?k) xs @ filter (\<lambda>x. ?k + 1 \<le> key x) xs"
    using Suc.prems(1)
  proof (induction xs)
    case Nil
    then show ?case by simp
  next
    case (Cons x xs)
    then have IH: "filter (\<lambda>x. ?k \<le> key x) xs = filter (\<lambda>x. key x = ?k) xs @ filter (\<lambda>x. ?k + 1 \<le> key x) xs"
      by simp
    show ?case
    proof (cases "?k + 1 \<le> key x")
      case True
      with Cons.prems have "filter (\<lambda>x. key x = ?k) xs = []" by (auto simp: filter_empty_conv)
      with True IH show ?thesis by auto
    next
      case False
      with IH show ?thesis by auto
    qed
  qed
  moreover have "?k + 1 = hi - 1 - int n" by simp
  ultimately have "filter (\<lambda>x. ?k \<le> key x) xs =
      filter (\<lambda>x. key x = ?k) xs @ filter (\<lambda>x. hi - 1 - int n \<le> key x) xs" by metis
  then show ?case
    using Suc.IH [OF Suc.prems] unfolding up by (simp only: list.map concat.simps)
qed

text \<open>
  Property C32. What was appended in time order with no write failing is read back whole: every
  record of today and of the days covered by the window, in the order written, and nothing else.
\<close>

theorem dl_read_back:
  assumes "sorted (map fst ws)" "\<forall>x \<in> set ws. fst x \<le> now"
  shows "dl_read_recent (\<lambda>_. None) now hours (dl_run (map (Pair Appended) ws) Map.empty) =
    map snd (filter (\<lambda>x. date_of now - dl_days_back hours \<le> date_of (fst x)) ws)"
proof -
  let ?fs = "dl_run (map (Pair Appended) ws) Map.empty"
  let ?key = "\<lambda>x. date_of (fst x)"
  have day: "dl_read_day (\<lambda>_. None) ?fs d = map snd (filter (\<lambda>x. ?key x = d) ws)" for d
  proof -
    have "day_pieces ?fs d = concat (map (\<lambda>r. [Rec r, NL]) (map snd (filter (\<lambda>x. ?key x = d) ws)))"
      unfolding dl_run_day by (induction ws) (auto simp: day_pieces_empty)
    then show ?thesis
      using log_lines_whole [of "map snd (filter (\<lambda>x. ?key x = d) ws)" "[]"]
      by (simp add: dl_read_day_pieces)
  qed
  have "sorted (map ?key ws)"
    using assms(1) by (induction ws) (auto intro: date_of_mono)
  moreover have "\<forall>x \<in> set ws. ?key x < date_of now + 1"
    using assms(2) date_of_mono by fastforce
  moreover have "0 \<le> dl_days_back hours" by (simp add: dl_days_back_def)
  ultimately have "concat (map (\<lambda>i. filter (\<lambda>x. ?key x = date_of now - i) ws) (rev [0..dl_days_back hours])) =
      filter (\<lambda>x. date_of now - dl_days_back hours \<le> ?key x) ws"
    using concat_key_blocks [of ?key ws "date_of now + 1" "nat (dl_days_back hours)"] by simp
  moreover have "dl_read_recent (\<lambda>_. None) now hours ?fs =
      map snd (concat (map (\<lambda>i. filter (\<lambda>x. ?key x = date_of now - i) ws) (rev [0..dl_days_back hours])))"
    by (simp add: dl_read_recent_def day map_concat o_def)
  ultimately show ?thesis by (simp only:)
qed

theorem dl_read_back_witness:
  "dl_read_recent (\<lambda>_. None) (6 * usec_per_day) 24
     (dl_run (map (Pair Appended) [(0, ''old''), (5 * usec_per_day, ''a''), (6 * usec_per_day, ''b'')]) Map.empty)
   = [''a'', ''b'']"
proof -
  have "sorted (map fst [(0, ''old''), (5 * usec_per_day, ''a''), (6 * usec_per_day, ''b'')])"
      "\<forall>x \<in> set [(0, ''old''), (5 * usec_per_day, ''a''), (6 * usec_per_day, ''b'')]. fst x \<le> 6 * usec_per_day"
    by (simp_all add: usec_per_day_def)
  from dl_read_back [OF this, of 24] show ?thesis
    by (simp add: dl_days_back_def date_of_def usec_per_day_def)
qed

text \<open>
  A write that stops after the record or inside it, before the line separator, costs
  the next record of the day as well, though that one was written whole: both share a line that
  does not parse.  The records around them are still read.
\<close>

theorem dl_cut_append_loses_two:
  assumes "w = CutInside \<or> w = CutBeforeNL"
    and "\<forall>x \<in> set (earlier @ (t1, r1) # (t2, r2) # later). date_of (fst x) = d"
  shows "dl_read_day (\<lambda>_. None)
      (dl_run (map (Pair Appended) earlier @ (w, t1, r1) # map (Pair Appended) ((t2, r2) # later)) Map.empty) d
    = map snd earlier @ map snd later"
proof -
  have whole: "concat (map (\<lambda>(w, now, r). append_pieces w r)
      (filter (\<lambda>(w, now, r). date_of now = d) (map (Pair Appended) xs))) =
      concat (map (\<lambda>r. [Rec r, NL]) (map snd xs))" if "\<forall>x \<in> set xs. date_of (fst x) = d"
    for xs :: "(datetime \<times> 'a) list"
    using that by (induction xs) (clarsimp, force)+
  have "concat (map line_records (log_lines [] (append_pieces w r1 @ [Rec r2, NL] @ ps))) =
      concat (map line_records (log_lines [] ps))" for ps
    using assms(1) by auto
  moreover have "day_pieces (dl_run (map (Pair Appended) earlier @ (w, t1, r1)
        # map (Pair Appended) ((t2, r2) # later)) Map.empty) d =
      concat (map (\<lambda>r. [Rec r, NL]) (map snd earlier)) @ append_pieces w r1 @ [Rec r2, NL]
        @ concat (map (\<lambda>r. [Rec r, NL]) (map snd later))"
    using assms(2) whole [of earlier] whole [of later]
    unfolding dl_run_day by (simp add: day_pieces_empty)
  ultimately show ?thesis
    using log_lines_whole [of "map snd later" "[]"]
    by (simp add: dl_read_day_pieces log_lines_whole del: map_map)
qed

theorem dl_cut_append_loses_two_witness:
  "dl_read_day (\<lambda>_. None)
     (dl_run [(Appended, 1, ''a''), (CutInside, 2, ''b''), (Appended, 3, ''c''), (Appended, 4, ''d'')] Map.empty) 0
   = [''a'', ''d'']"
  using dl_cut_append_loses_two [of CutInside "[(1, ''a'')]" 2 "''b''" 3 "''c''" "[(4, ''d'')]" 0]
  by (simp add: date_of_def usec_per_day_def)

end
