(* ===== verification/Dashboard.thy ===== *)
theory Dashboard
  imports Daily_Log Binance_Broker Trade_Tracker State_Recovery
begin

text \<open>
  The dashboard bridge, \<^verbatim>\<open>server/dashboard_bridge.py\<close>, and the Telegram notifier it uses,
  \<^verbatim>\<open>notifications/telegram_notifier.py\<close>.  A WebSocket message is a value of \<open>dash_message\<close>
  (its JSON text is not modelled), a browser tab a number, and the network a parameter: what
  becomes of the \<open>i\<close>-th send of the process, and whether a tab joins or leaves while that send is
  awaited.  Other tasks that run during an await are not modelled, apart from that.
\<close>

section \<open>Telegram\<close>

datatype notice_label = StopLossHit | ProfitCapHit | TrailingHit | PositionClosed

text \<open>The content of a message; its Markdown rendering is not modelled.\<close>

datatype notice =
    OpenedN order_side string int real
  | ClosedN notice_label closed_trade int     \<comment> \<open>with the whole minutes it was open\<close>
  | TrippedN fstr
  | NewDayN

record notifier =
  tn_token :: string
  tn_chat :: string
  tn_posted :: "notice list"     \<comment> \<open>the requests made, whatever became of them\<close>

definition tn_enabled :: "notifier \<Rightarrow> bool" where
  "tn_enabled n \<longleftrightarrow> tn_token n \<noteq> [] \<and> tn_chat n \<noteq> []"

text \<open>\<^verbatim>\<open>send\<close> catches every exception of the request.\<close>

definition tn_send :: "notice \<Rightarrow> notifier \<Rightarrow> notifier" where
  "tn_send t n = (if \<not> tn_enabled n then n else n\<lparr>tn_posted := tn_posted n @ [t]\<rparr>)"

section \<open>Messages\<close>

definition ms_of :: "datetime \<Rightarrow> int" where
  "ms_of ts = py_int (timestamp_s ts * 1000)"

definition sec_of :: "datetime \<Rightarrow> int" where
  "sec_of ts = py_int (timestamp_s ts)"

record audit_line =
  al_ts :: int
  al_level :: string
  al_source :: string
  al_message :: fstr
  al_meta :: "(string, meta_val) dict"

record closed_payload =
  cp_symbol :: string
  cp_side :: string
  cp_qty :: int
  cp_entry :: real
  cp_exit :: real
  cp_pnl :: real
  cp_opened :: int
  cp_closed :: int
  cp_duration :: real

record order_payload =
  od_id :: string
  od_symbol :: string
  od_side :: string
  od_type :: string
  od_qty :: int
  od_filled :: int
  od_limit :: "real option"
  od_avg :: "real option"
  od_status :: string
  od_strategy :: string
  od_submitted :: int
  od_updated :: int
  od_reject :: "fstr option"

record marker_payload =
  mk_symbol :: string
  mk_time :: int
  mk_price :: real
  mk_side :: string
  mk_qty :: int

record trade_payload =
  tp_symbol :: string
  tp_side :: string
  tp_qty :: int
  tp_entry :: real
  tp_mark :: real
  tp_pnl :: real
  tp_opened :: "int option"

record kpi_payload =
  kp_value :: real
  kp_realized :: real
  kp_unrealized :: real
  kp_margin_used :: real
  kp_margin_limit :: real

record risk_payload =
  rp_max_loss :: real
  rp_loss_used :: real
  rp_max_positions :: int
  rp_positions_used :: int
  rp_paused :: bool
  rp_halted :: bool
  rp_reason :: "fstr option"

datatype dash_message =
    AuditM audit_line
  | AuditBackfillM "audit_line list"
  | ClosedTradeM closed_payload
  | ClosedBackfillM "closed_payload list"
  | CandleM string candle
  | CandlesBackfillM string "candle list"
  | OrderM order_payload
  | MarkerM marker_payload
  | OpenTradesM "trade_payload list"
  | StatusM bool
  | KpisM kpi_payload
  | EquityM int real real
  | HaltM fstr
  | RiskM risk_payload

fun dash_status :: "order_status \<Rightarrow> string" where
  "dash_status PENDING_NEW = ''WORKING''"
| "dash_status SUBMITTED = ''WORKING''"
| "dash_status ACKNOWLEDGED = ''WORKING''"
| "dash_status PARTIALLY_FILLED = ''PARTIAL''"
| "dash_status FILLED = ''FILLED''"
| "dash_status CANCEL_PENDING = ''WORKING''"
| "dash_status CANCELLED = ''CANCELED''"
| "dash_status REJECTED = ''REJECTED''"
| "dash_status EXPIRED = ''REJECTED''"

fun dash_type :: "order_type \<Rightarrow> string" where
  "dash_type MARKET = ''MKT''"
| "dash_type LIMIT = ''LMT''"
| "dash_type STOP = ''STP''"
| "dash_type STOP_LIMIT = ''STP''"
| "dash_type MARKET_ON_CLOSE = ''MKT''"

section \<open>State\<close>

record bridge_cfg =
  bc_max_loss :: real
  bc_max_positions :: int
  bc_chart :: string
  bc_strategy :: string
  bc_token :: string

record bridge =
  db_clients :: "nat list"
  db_out :: "(nat \<times> dash_message) list"    \<comment> \<open>what the tabs have received\<close>
  db_sends :: nat
  db_closed :: "closed_payload list"
  db_audit :: "audit_line list"
  db_candles :: "(string, candle list) dict"
  db_backfilled :: "string list"
  db_reasons :: "string \<rightharpoonup> fstr"
  db_tracker :: "tracker option"
  db_notifier :: "notifier option"
  db_closed_log :: "closed_payload log_files option"
  db_audit_log :: "audit_line log_files option"
  db_starting :: "real option"

definition db_init ::
  "tracker option \<Rightarrow> notifier option \<Rightarrow> closed_payload log_files option \<Rightarrow> audit_line log_files option \<Rightarrow> bridge" where
  "db_init tt tn closed_log audit_log =
     \<lparr>db_clients = [], db_out = [], db_sends = 0, db_closed = [], db_audit = [], db_candles = [],
      db_backfilled = [], db_reasons = Map.empty, db_tracker = tt, db_notifier = tn,
      db_closed_log = closed_log, db_audit_log = audit_log, db_starting = None\<rparr>"

datatype pause = Quiet | Joins nat | Leaves nat

text \<open>
  The surroundings of one call: the clock, the network by number of send, the provider of
  historical candles, what becomes of a write to the history files, and the multiplier lookup of
  the trade tracker.
\<close>

record dash_env =
  de_now :: datetime
  de_net :: "nat \<Rightarrow> bool \<times> pause"
  de_klines :: "(string \<Rightarrow> int \<Rightarrow> candle list result) option"
  de_write :: append_outcome
  de_multiplier :: "string \<Rightarrow> real result"

definition db_max_closed :: nat where "db_max_closed = 2000"
definition db_max_audit :: nat where "db_max_audit = 5000"
definition db_max_candles :: nat where "db_max_candles = 1600"

text \<open>\<^verbatim>\<open>start\<close> takes the recent history from the files, without a ceiling.\<close>

definition db_start :: "dash_env \<Rightarrow> (date \<Rightarrow> nat option) \<Rightarrow> bridge \<Rightarrow> bridge" where
  "db_start env fault b =
     b\<lparr>db_closed := (case db_closed_log b of None \<Rightarrow> db_closed b | Some fs \<Rightarrow> dl_read_recent fault (de_now env) 48 fs),
       db_audit := (case db_audit_log b of None \<Rightarrow> db_audit b | Some fs \<Rightarrow> dl_read_recent fault (de_now env) 48 fs)\<rparr>"

section \<open>Sending\<close>

fun clients_after :: "pause \<Rightarrow> nat list \<Rightarrow> nat list" where
  "clients_after Quiet cs = cs"
| "clients_after (Joins c) cs = List.insert c cs"
| "clients_after (Leaves c) cs = remove1 c cs"

text \<open>
  The loop of \<^verbatim>\<open>_broadcast\<close> over the set of tabs.  Python's set iterator raises at its next step
  when the set has another size than at the start.
\<close>

fun db_send_each ::
  "(nat \<Rightarrow> bool \<times> pause) \<Rightarrow> dash_message \<Rightarrow> nat list \<Rightarrow> nat list \<Rightarrow> bridge \<Rightarrow> nat list result \<times> bridge" where
  "db_send_each net m [] dead b = (Inr dead, b)"
| "db_send_each net m (c # cs) dead b =
     (case net (db_sends b) of (sent, p) \<Rightarrow>
        (let b1 = b\<lparr>db_sends := Suc (db_sends b), db_clients := clients_after p (db_clients b),
                    db_out := (if sent then db_out b @ [(c, m)] else db_out b)\<rparr>
         in if length (db_clients b1) \<noteq> length (db_clients b)
            then (Inl (RuntimeError [Lit ''Set changed size during iteration'']), b1)
            else db_send_each net m cs (if sent then dead else c # dead) b1))"

definition db_broadcast :: "dash_env \<Rightarrow> dash_message \<Rightarrow> bridge \<Rightarrow> unit result \<times> bridge" where
  "db_broadcast env m b =
     (if db_clients b = [] then (Inr (), b)
      else on_ok (db_send_each (de_net env) m (db_clients b) [] b)
        (\<lambda>dead b1. (Inr (), b1\<lparr>db_clients := filter (\<lambda>c. c \<notin> set dead) (db_clients b1)\<rparr>)))"

definition db_push_audit ::
  "dash_env \<Rightarrow> string \<Rightarrow> string \<Rightarrow> fstr \<Rightarrow> (string, meta_val) dict \<Rightarrow> bridge \<Rightarrow> unit result \<times> bridge" where
  "db_push_audit env level source message meta b =
     (let line = \<lparr>al_ts = ms_of (de_now env), al_level = level, al_source = source, al_message = message, al_meta = meta\<rparr>;
          b1 = b\<lparr>db_audit := keep_last db_max_audit (db_audit b @ [line]),
                 db_audit_log := map_option (dl_append (de_write env) (de_now env) line) (db_audit_log b)\<rparr>
      in db_broadcast env (AuditM line) b1)"

definition db_note_close_reason :: "string \<Rightarrow> fstr \<Rightarrow> bridge \<Rightarrow> bridge" where
  "db_note_close_reason symb reason b = b\<lparr>db_reasons := (db_reasons b)(symb \<mapsto> reason)\<rparr>"

definition db_notify :: "notice \<Rightarrow> bridge \<Rightarrow> bridge" where
  "db_notify t b = b\<lparr>db_notifier := map_option (tn_send t) (db_notifier b)\<rparr>"

section \<open>Tabs\<close>

text \<open>\<^verbatim>\<open>_send_backfill\<close>: the messages for a fresh tab, up to the first send that fails.\<close>

definition db_backfill_messages :: "bridge \<Rightarrow> dash_message list" where
  "db_backfill_messages b =
     (if db_closed b = [] then [] else [ClosedBackfillM (db_closed b)])
     @ (if db_audit b = [] then [] else [AuditBackfillM (db_audit b)])
     @ map (\<lambda>(symb, cs). CandlesBackfillM symb cs) (filter (\<lambda>(symb, cs). cs \<noteq> []) (db_candles b))"

fun db_send_to :: "(nat \<Rightarrow> bool \<times> pause) \<Rightarrow> nat \<Rightarrow> dash_message list \<Rightarrow> bridge \<Rightarrow> bridge" where
  "db_send_to net c [] b = b"
| "db_send_to net c (m # ms) b =
     (case net (db_sends b) of (sent, p) \<Rightarrow>
        (let b1 = b\<lparr>db_sends := Suc (db_sends b), db_clients := clients_after p (db_clients b)\<rparr>
         in if sent then db_send_to net c ms (b1\<lparr>db_out := db_out b1 @ [(c, m)]\<rparr>) else b1))"

definition db_connect :: "dash_env \<Rightarrow> nat \<Rightarrow> bridge \<Rightarrow> bridge" where
  "db_connect env c b =
     (let b1 = b\<lparr>db_clients := List.insert c (db_clients b)\<rparr> in db_send_to (de_net env) c (db_backfill_messages b1) b1)"

definition db_disconnect :: "nat \<Rightarrow> bridge \<Rightarrow> bridge" where
  "db_disconnect c b = b\<lparr>db_clients := remove1 c (db_clients b)\<rparr>"

section \<open>Commands\<close>

definition db_commands :: "string list" where
  "db_commands = [''pause'', ''resume'', ''flatten'', ''kill_switch'', ''reset_kill_switch'']"

text \<open>What arrives on a connection: a text that is no JSON, or a value.\<close>

datatype incoming = Malformed | Value json

text \<open>
  \<^verbatim>\<open>self._commands.get(command)\<close>: the name of a handler, if the value is one; an unhashable key
  raises.
\<close>

fun db_lookup_command :: "json option \<Rightarrow> string option result" where
  "db_lookup_command (Some (JStr [StrP c])) = Inr (if c \<in> set db_commands then Some c else None)"
| "db_lookup_command (Some (JArr _)) = Inl TypeError"
| "db_lookup_command (Some (JObj _)) = Inl TypeError"
| "db_lookup_command _ = Inr None"

text \<open>
  The handlers are the live script's functions, over the bridge and a world \<open>'w\<close> around it.
\<close>

definition db_handle_incoming ::
  "bridge_cfg \<Rightarrow> dash_env \<Rightarrow> (string \<Rightarrow> bridge \<times> 'w \<Rightarrow> unit result \<times> bridge \<times> 'w) \<Rightarrow> incoming
   \<Rightarrow> bridge \<times> 'w \<Rightarrow> unit result \<times> bridge \<times> 'w" where
  "db_handle_incoming cfg env handler raw bw = (case bw of (b, w) \<Rightarrow>
     (case raw of
        Malformed \<Rightarrow> (Inr (), b, w)
      | Value (JObj d) \<Rightarrow>
          if bc_token cfg = [] \<or> dget d ''token'' \<noteq> Some (JStr [StrP (bc_token cfg)])
          then (case db_push_audit env ''error'' ''dashboard_bridge''
                       [Lit ''Rejected a dashboard command: missing or invalid control token''] [] b of
                  (r, b1) \<Rightarrow> (r, b1, w))
          else (case db_lookup_command (dget d ''command'') of
              Inl e \<Rightarrow> (Inl e, b, w)
            | Inr None \<Rightarrow> (Inr (), b, w)
            | Inr (Some c) \<Rightarrow>
                (case handler c (b, w) of
                   (Inr _, bw1) \<Rightarrow> (Inr (), bw1)
                 | (Inl e, b1, w1) \<Rightarrow>
                     (case db_push_audit env ''error'' ''dashboard_bridge''
                             [Lit ''Command '', StrP c, Lit '' failed - see server logs''] [] b1 of
                        (r, b2) \<Rightarrow> (r, b2, w1))))
      | Value _ \<Rightarrow> (Inl AttributeError, b, w)))"

section \<open>Events\<close>

definition db_open_symbols :: "bridge \<Rightarrow> string list" where
  "db_open_symbols b = (case db_tracker b of None \<Rightarrow> [] | Some tt \<Rightarrow> dkeys (tt_open_trades tt))"

definition db_wants_chart_for :: "bridge_cfg \<Rightarrow> string \<Rightarrow> bridge \<Rightarrow> bool" where
  "db_wants_chart_for cfg symb b \<longleftrightarrow> symb = bc_chart cfg \<or> symb \<in> set (db_open_symbols b)"

definition db_backfill_candles_once :: "dash_env \<Rightarrow> string \<Rightarrow> bridge \<Rightarrow> unit result \<times> bridge" where
  "db_backfill_candles_once env symb b =
     (case de_klines env of
        None \<Rightarrow> (Inr (), b)
      | Some klines \<Rightarrow>
          if symb \<in> set (db_backfilled b) then (Inr (), b)
          else let b1 = b\<lparr>db_backfilled := symb # db_backfilled b\<rparr> in
            (case klines symb (int db_max_candles) of
               Inl e \<Rightarrow> (Inr (), b1)
             | Inr candles \<Rightarrow>
                 if candles = [] then (Inr (), b1)
                 else db_broadcast env (CandlesBackfillM symb candles)
                        (b1\<lparr>db_candles := dset symb (keep_last db_max_candles candles) (db_candles b1)\<rparr>)))"

definition db_candle_of :: "bar_event \<Rightarrow> candle" where
  "db_candle_of bar =
     \<lparr>cd_time = sec_of (br_ts bar), cd_open = br_open bar, cd_high = br_high bar, cd_low = br_low bar,
      cd_close = br_close bar, cd_volume = br_volume bar\<rparr>"

text \<open>A candle of the time of the last one replaces it; one too many drops the oldest.\<close>

definition db_cache_candle :: "candle \<Rightarrow> candle list \<Rightarrow> candle list" where
  "db_cache_candle c cache =
     (if cache \<noteq> [] \<and> cd_time (last cache) = cd_time c then butlast cache @ [c]
      else let cache1 = cache @ [c] in if db_max_candles < length cache1 then tl cache1 else cache1)"

definition db_on_bar :: "bridge_cfg \<Rightarrow> dash_env \<Rightarrow> bar_event \<Rightarrow> bridge \<Rightarrow> unit result \<times> bridge" where
  "db_on_bar cfg env bar b =
     (if \<not> db_wants_chart_for cfg (br_symbol bar) b then (Inr (), b)
      else on_ok (db_backfill_candles_once env (br_symbol bar) b)
        (\<lambda>_ b1.
           let c = db_candle_of bar;
               cache = db_cache_candle c (dget_or [] (db_candles b1) (br_symbol bar))
           in db_broadcast env (CandleM (br_symbol bar) c)
                (b1\<lparr>db_candles := dset (br_symbol bar) cache (db_candles b1)\<rparr>)))"

definition db_order_payload :: "bridge_cfg \<Rightarrow> managed_order \<Rightarrow> order_payload" where
  "db_order_payload cfg mo =
     \<lparr>od_id = mo_id mo, od_symbol = mo_symbol mo, od_side = side_value (mo_side mo), od_type = dash_type (mo_type mo),
      od_qty = mo_qty mo, od_filled = mo_filled mo, od_limit = mo_limit mo,
      od_avg = (if mo_avg mo = 0 then None else Some (mo_avg mo)), od_status = dash_status (mo_status mo),
      od_strategy = bc_strategy cfg, od_submitted = ms_of (mo_created mo), od_updated = ms_of (mo_updated mo),
      od_reject = (if mo_reject mo = [] then None else Some (mo_reject mo))\<rparr>"

definition db_closed_payload :: "closed_trade \<Rightarrow> closed_payload" where
  "db_closed_payload ct =
     \<lparr>cp_symbol = ct_symbol ct, cp_side = side_value (ct_side ct), cp_qty = ct_qty ct, cp_entry = ct_entry_price ct,
      cp_exit = ct_exit_price ct, cp_pnl = ct_pnl ct, cp_opened = ms_of (ct_entry_ts ct),
      cp_closed = ms_of (ct_exit_ts ct), cp_duration = ct_duration_seconds ct\<rparr>"

text \<open>The label of the notification, from the reason noted when the close was ordered.\<close>

fun starts_with :: "string \<Rightarrow> fstr \<Rightarrow> bool" where
  "starts_with p (Lit s # _) \<longleftrightarrow> take (length p) s = p"
| "starts_with p _ \<longleftrightarrow> False"

definition db_label :: "fstr \<Rightarrow> notice_label" where
  "db_label reason =
     (if starts_with ''STOP-LOSS'' reason then StopLossHit
      else if starts_with ''PROFIT-CAP'' reason then ProfitCapHit
      else if starts_with ''TRAILING-PROFIT'' reason then TrailingHit
      else PositionClosed)"

text \<open>The reason is taken out of the table only when there is a notifier to tell it to.\<close>

definition db_notify_closed :: "closed_trade \<Rightarrow> bridge \<Rightarrow> bridge" where
  "db_notify_closed ct b =
     (case db_notifier b of
        None \<Rightarrow> b
      | Some _ \<Rightarrow>
          (let reason = (case db_reasons b (ct_symbol ct) of None \<Rightarrow> [] | Some r \<Rightarrow> r)
           in db_notify (ClosedN (db_label reason) ct \<lfloor>ct_duration_seconds ct / 60\<rfloor>)
                (b\<lparr>db_reasons := (db_reasons b)(ct_symbol ct := None)\<rparr>)))"

definition db_record_closed :: "dash_env \<Rightarrow> closed_trade \<Rightarrow> bridge \<Rightarrow> unit result \<times> bridge" where
  "db_record_closed env ct b =
     (let p = db_closed_payload ct;
          b1 = b\<lparr>db_closed := keep_last db_max_closed (db_closed b @ [p]),
                 db_closed_log := map_option (dl_append (de_write env) (de_now env) p) (db_closed_log b)\<rparr>
      in on_ok (db_broadcast env (ClosedTradeM p) b1)
        (\<lambda>_ b2. on_ok (db_push_audit env (if 0 \<le> ct_pnl ct then ''fill'' else ''risk'') ''trade_tracker''
            [Lit ''CLOSED '', StrP (ct_symbol ct), Lit '' '', StrP (side_value (ct_side ct)), Lit '' - P&L '',
             SignFixP 2 (ct_pnl ct), Lit '' USDT''] [] b2)
          (\<lambda>_ b3. (Inr (), db_notify_closed ct b3))))"

definition db_track :: "dash_env \<Rightarrow> exec_event \<Rightarrow> bridge \<Rightarrow> unit result \<times> bridge" where
  "db_track env x b =
     (case db_tracker b of
        None \<Rightarrow> (Inr (), b)
      | Some tt \<Rightarrow>
          (let was_open = ex_symbol x \<in> set (dkeys (tt_open_trades tt)) in
           case tt_on_execution (de_multiplier env) x tt of
             (Inl e, tt1) \<Rightarrow> (Inl e, b\<lparr>db_tracker := Some tt1\<rparr>)
           | (Inr trade, tt1) \<Rightarrow>
               (let b1 = b\<lparr>db_tracker := Some tt1\<rparr>;
                    now_open = ex_symbol x \<in> set (dkeys (tt_open_trades tt1));
                    b2 = (if \<not> was_open \<and> now_open
                          then db_notify (OpenedN (ex_side x) (ex_symbol x) (ex_fill_qty x) (ex_fill_price x)) b1 else b1)
                in case trade of None \<Rightarrow> (Inr (), b2) | Some ct \<Rightarrow> db_record_closed env ct b2)))"

definition db_handle_execution :: "dash_env \<Rightarrow> exec_event \<Rightarrow> bridge \<Rightarrow> unit result \<times> bridge" where
  "db_handle_execution env x b =
     on_ok (db_broadcast env (MarkerM \<lparr>mk_symbol = ex_symbol x, mk_time = sec_of (ex_ts x), mk_price = ex_fill_price x,
              mk_side = side_value (ex_side x), mk_qty = ex_fill_qty x\<rparr>) b)
       (\<lambda>_ b1. on_ok (db_push_audit env ''fill'' ''order_manager''
           [Lit ''FILLED '', StrP (side_value (ex_side x)), Lit '' '', IntP (ex_fill_qty x), Lit '' '', StrP (ex_symbol x),
            Lit '' @ '', FloatP (ex_fill_price x)] [] b1)
         (\<lambda>_ b2. db_track env x b2))"

definition db_handle_order_event ::
  "bridge_cfg \<Rightarrow> dash_env \<Rightarrow> order_manager \<Rightarrow> broker_event \<Rightarrow> bridge \<Rightarrow> unit result \<times> bridge" where
  "db_handle_order_event cfg env om ev b =
     (case om_get_order om (be_order_id ev) of
        None \<Rightarrow> (Inr (), b)
      | Some mo \<Rightarrow>
          on_ok (db_broadcast env (OrderM (db_order_payload cfg mo)) b)
            (\<lambda>_ b1. case ev of ExecB x \<Rightarrow> db_handle_execution env x b1 | _ \<Rightarrow> (Inr (), b1)))"

fun db_on_event ::
  "bridge_cfg \<Rightarrow> dash_env \<Rightarrow> order_manager \<Rightarrow> event \<Rightarrow> bridge \<Rightarrow> unit result \<times> bridge" where
  "db_on_event cfg env om (BarE bar) b = db_on_bar cfg env bar b"
| "db_on_event cfg env om (SignalE sg) b =
     db_push_audit env ''signal'' (sg_strategy sg)
       [StrP (side_value (sg_side sg)), Lit '' '', IntP (sg_qty sg), Lit '' '', StrP (sg_symbol sg),
        Lit '' signal generated''] (sg_meta sg) b"
| "db_on_event cfg env om (AckE a) b = db_handle_order_event cfg env om (AckB a) b"
| "db_on_event cfg env om (RejectE r) b = db_handle_order_event cfg env om (RejectB r) b"
| "db_on_event cfg env om (ExecE x) b = db_handle_order_event cfg env om (ExecB x) b"
| "db_on_event cfg env om (HaltE h) b =
     on_ok (db_broadcast env (HaltM (rh_reason h)) b)
       (\<lambda>_ b1. on_ok (db_push_audit env ''error'' (rh_by h) (rh_reason h) [] b1)
         (\<lambda>_ b2. (Inr (), db_notify (TrippedN (rh_reason h)) b2)))"
| "db_on_event cfg env om _ b = (Inr (), b)"

section \<open>Status and KPIs\<close>

text \<open>What the KPI loop asks of the broker, of the strategy and of the breaker.\<close>

record 'v kpi_source =
  ks_equity :: "'v \<Rightarrow> real result \<times> 'v"
  ks_margin :: "'v \<Rightarrow> (real \<times> real) result \<times> 'v"
  ks_details :: "('v \<Rightarrow> position_detail list result \<times> 'v) option"
  ks_positions :: "'v \<Rightarrow> (string, int) dict result \<times> 'v"
  ks_connected :: "'v \<Rightarrow> bool"
  ks_paused :: bool
  ks_breaker :: breaker

text \<open>Unrealised profit and size of what is open: from the details where there is a provider.\<close>

definition db_exposure :: "'v kpi_source \<Rightarrow> 'v \<Rightarrow> (real \<times> int) result \<times> 'v" where
  "db_exposure src v =
     (case ks_details src of
        Some details \<Rightarrow>
          on_ok (details v) (\<lambda>ds v1. (Inr (sum_list (map pd_pnl ds), sum_list (map (\<lambda>d. \<bar>pd_qty d\<bar>) ds)), v1))
      | None \<Rightarrow>
          on_ok (ks_positions src v) (\<lambda>ps v1. (Inr (0, sum_list (map (\<lambda>p. \<bar>snd p\<bar>) ps)), v1)))"

definition db_realized :: "bridge \<Rightarrow> real" where
  "db_realized b = sum_list (map cp_pnl (db_closed b))"

definition db_drawdown_pct :: "real \<Rightarrow> real \<Rightarrow> real" where
  "db_drawdown_pct start equity =
     (let peak = max equity start in if peak \<noteq> 0 then (equity - peak) / peak * 100 else 0)"

definition db_risk_payload :: "bridge_cfg \<Rightarrow> 'v kpi_source \<Rightarrow> real \<Rightarrow> int \<Rightarrow> bridge \<Rightarrow> risk_payload" where
  "db_risk_payload cfg src unrealized used b =
     \<lparr>rp_max_loss = bc_max_loss cfg, rp_loss_used = max 0 (- (db_realized b + unrealized)),
      rp_max_positions = bc_max_positions cfg, rp_positions_used = used, rp_paused = ks_paused src,
      rp_halted = cb_halted (ks_breaker src),
      rp_reason = (if cb_reason (ks_breaker src) = [] then None else Some (cb_reason (ks_breaker src)))\<rparr>"

definition db_push_status_and_kpis ::
  "bridge_cfg \<Rightarrow> dash_env \<Rightarrow> 'v kpi_source \<Rightarrow> bridge \<times> 'v \<Rightarrow> unit result \<times> bridge \<times> 'v" where
  "db_push_status_and_kpis cfg env src bv = (case bv of (b, v) \<Rightarrow>
     (case ks_equity src v of
        (Inl e, v1) \<Rightarrow> (Inl e, b, v1)
      | (Inr equity, v1) \<Rightarrow>
         (let start = (case db_starting b of None \<Rightarrow> equity | Some s \<Rightarrow> s); b1 = b\<lparr>db_starting := Some start\<rparr> in
          case ks_margin src v1 of
            (Inl e, v2) \<Rightarrow> (Inl e, b1, v2)
          | (Inr (initial, _), v2) \<Rightarrow>
              (case db_exposure src v2 of
                 (Inl e, v3) \<Rightarrow> (Inl e, b1, v3)
               | (Inr (unrealized, used), v3) \<Rightarrow>
                   (let realized = db_realized b1;
                        risk = db_risk_payload cfg src unrealized used b1;
                        kpis = \<lparr>kp_value = equity, kp_realized = realized, kp_unrealized = unrealized,
                                kp_margin_used = initial, kp_margin_limit = equity\<rparr>;
                        r = on_ok (db_broadcast env (StatusM (ks_connected src v3)) b1)
                          (\<lambda>_ b2. on_ok (db_broadcast env (KpisM kpis) b2)
                            (\<lambda>_ b3. on_ok (db_broadcast env (EquityM (sec_of (de_now env)) equity (db_drawdown_pct start equity)) b3)
                              (\<lambda>_ b4. db_broadcast env (RiskM risk) b4)))
                    in (fst r, snd r, v3))))))"

definition db_open_payload :: "bridge \<Rightarrow> position_detail \<Rightarrow> trade_payload" where
  "db_open_payload b d =
     \<lparr>tp_symbol = pd_symbol d, tp_side = side_value (pd_side d), tp_qty = pd_qty d, tp_entry = pd_entry d,
      tp_mark = pd_mark d, tp_pnl = pd_pnl d,
      tp_opened = (case db_tracker b of
          None \<Rightarrow> None
        | Some tt \<Rightarrow> map_option (\<lambda>t. ms_of (ot_entry_ts t)) (dget (tt_open_trades tt) (pd_symbol d)))\<rparr>"

definition db_push_open_trades ::
  "dash_env \<Rightarrow> 'v kpi_source \<Rightarrow> bridge \<times> 'v \<Rightarrow> unit result \<times> bridge \<times> 'v" where
  "db_push_open_trades env src bv = (case bv of (b, v) \<Rightarrow>
     (case ks_details src of
        None \<Rightarrow> (Inr (), b, v)
      | Some details \<Rightarrow>
          (case details v of
             (Inl e, v1) \<Rightarrow> (Inl e, b, v1)
           | (Inr ds, v1) \<Rightarrow>
               (case db_broadcast env (OpenTradesM (map (db_open_payload b) ds)) b of (r, b1) \<Rightarrow> (r, b1, v1)))))"

text \<open>One round of \<^verbatim>\<open>_kpi_loop\<close>: every exception is logged and forgotten.\<close>

definition db_kpi_round :: "bridge_cfg \<Rightarrow> dash_env \<Rightarrow> 'v kpi_source \<Rightarrow> bridge \<times> 'v \<Rightarrow> bridge \<times> 'v" where
  "db_kpi_round cfg env src bv =
     snd (on_ok (db_push_status_and_kpis cfg env src bv) (\<lambda>_ bv1. db_push_open_trades env src bv1))"

section \<open>The control token\<close>

text \<open>\<^verbatim>\<open>str.strip\<close> on the first 256 code points.\<close>

definition py_space :: "char \<Rightarrow> bool" where
  "py_space c \<longleftrightarrow> (let n = of_char c :: nat in 9 \<le> n \<and> n \<le> 13 \<or> 28 \<le> n \<and> n \<le> 32 \<or> n = 133 \<or> n = 160)"

definition py_strip :: "string \<Rightarrow> string" where
  "py_strip s = rev (dropWhile py_space (rev (dropWhile py_space s)))"

text \<open>The file as it was, if it exists, a freshly drawn token, and the file as it is left.\<close>

definition load_or_create_control_token :: "string \<Rightarrow> string option \<Rightarrow> string \<times> string option" where
  "load_or_create_control_token fresh file =
     (case file of
        None \<Rightarrow> (fresh, Some fresh)
      | Some txt \<Rightarrow> if py_strip txt \<noteq> [] then (py_strip txt, file) else (fresh, Some fresh))"

section \<open>Broadcasting\<close>

text \<open>What no broadcast touches: everything but the tabs and the record of sends.\<close>

definition db_same_store :: "bridge \<Rightarrow> bridge \<Rightarrow> bool" where
  "db_same_store b b1 \<longleftrightarrow>
     db_closed b1 = db_closed b \<and> db_audit b1 = db_audit b \<and> db_candles b1 = db_candles b
     \<and> db_backfilled b1 = db_backfilled b \<and> db_reasons b1 = db_reasons b \<and> db_tracker b1 = db_tracker b
     \<and> db_notifier b1 = db_notifier b \<and> db_closed_log b1 = db_closed_log b \<and> db_audit_log b1 = db_audit_log b
     \<and> db_starting b1 = db_starting b"

lemma db_same_store_refl [simp]: "db_same_store b b"
  by (simp add: db_same_store_def)

lemma db_same_store_trans: "db_same_store a b \<Longrightarrow> db_same_store b c \<Longrightarrow> db_same_store a c"
  by (simp add: db_same_store_def)

lemma db_send_each_same: "db_same_store b (snd (db_send_each net m cs dead b))"
proof (induction cs arbitrary: dead b)
  case Nil
  then show ?case by simp
next
  case (Cons c cs)
  obtain sent p where n: "net (db_sends b) = (sent, p)" by (cases "net (db_sends b)")
  let ?b1 = "b\<lparr>db_sends := Suc (db_sends b), db_clients := clients_after p (db_clients b),
    db_out := (if sent then db_out b @ [(c, m)] else db_out b)\<rparr>"
  have "db_same_store b ?b1" by (simp add: db_same_store_def)
  with Cons.IH [of ?b1] have "db_same_store b (snd (db_send_each net m cs dead' ?b1))" for dead'
    using db_same_store_trans by blast
  with \<open>db_same_store b ?b1\<close> show ?case by (simp add: n Let_def)
qed

lemma db_broadcast_same: "db_same_store b (snd (db_broadcast env m b))"
proof -
  obtain r b1 where s: "db_send_each (de_net env) m (db_clients b) [] b = (r, b1)"
    by (cases "db_send_each (de_net env) m (db_clients b) [] b")
  then have "db_same_store b b1" using db_send_each_same [of b "de_net env" m "db_clients b" "[]"] by simp
  with s show ?thesis by (cases r) (simp_all add: db_broadcast_def db_same_store_def)
qed

lemma db_push_audit_store:
  "db_same_store
     (b\<lparr>db_audit := keep_last db_max_audit (db_audit b @ [\<lparr>al_ts = ms_of (de_now env), al_level = level,
        al_source = source, al_message = message, al_meta = meta\<rparr>]),
       db_audit_log := map_option (dl_append (de_write env) (de_now env) \<lparr>al_ts = ms_of (de_now env),
        al_level = level, al_source = source, al_message = message, al_meta = meta\<rparr>) (db_audit_log b)\<rparr>)
     (snd (db_push_audit env level source message meta b))"
  by (simp add: db_push_audit_def Let_def db_broadcast_same)

text \<open>What an audit line leaves alone.\<close>

definition db_same_trades :: "bridge \<Rightarrow> bridge \<Rightarrow> bool" where
  "db_same_trades b b1 \<longleftrightarrow>
     db_closed b1 = db_closed b \<and> db_candles b1 = db_candles b \<and> db_backfilled b1 = db_backfilled b
     \<and> db_reasons b1 = db_reasons b \<and> db_tracker b1 = db_tracker b \<and> db_notifier b1 = db_notifier b
     \<and> db_closed_log b1 = db_closed_log b \<and> db_starting b1 = db_starting b"

lemma db_push_audit_same: "db_same_trades b (snd (db_push_audit env level source message meta b))"
  using db_push_audit_store [where b = b and env = env and level = level and source = source
      and message = message and meta = meta]
  by (simp add: db_same_store_def db_same_trades_def)

lemma db_same_trades_store: "db_same_store b b1 \<Longrightarrow> db_same_trades b b1"
  by (simp add: db_same_store_def db_same_trades_def)

lemma db_same_trades_trans: "db_same_trades a b \<Longrightarrow> db_same_trades b c \<Longrightarrow> db_same_trades a c"
  by (simp add: db_same_trades_def)

lemma db_same_trades_refl [simp]: "db_same_trades b b"
  by (simp add: db_same_trades_def)

text \<open>While no tab joins or leaves during a send, broadcasts succeed, whichever sends fail.\<close>

definition quiet_net :: "dash_env \<Rightarrow> bool" where
  "quiet_net env \<longleftrightarrow> (\<forall>i. snd (de_net env i) = Quiet)"

lemma db_send_each_quiet:
  "\<forall>i. snd (net i) = Quiet \<Longrightarrow> ok (fst (db_send_each net m cs dead b))"
proof (induction cs arbitrary: dead b)
  case (Cons c cs)
  obtain sent p where n: "net (db_sends b) = (sent, p)" by (cases "net (db_sends b)")
  with Cons.prems have "p = Quiet" by (metis snd_conv)
  with Cons n show ?case by (simp add: Let_def)
qed simp

lemma db_broadcast_quiet:
  assumes "quiet_net env"
  shows "fst (db_broadcast env m b) = Inr ()"
proof -
  obtain r b1 where s: "db_send_each (de_net env) m (db_clients b) [] b = (r, b1)"
    by (cases "db_send_each (de_net env) m (db_clients b) [] b")
  then have "ok r" using db_send_each_quiet [of "de_net env" m "db_clients b" "[]" b] assms
    by (simp add: quiet_net_def)
  with s show ?thesis by (cases r) (simp_all add: db_broadcast_def)
qed

lemma db_push_audit_quiet: "quiet_net env \<Longrightarrow> fst (db_push_audit env l src msg meta b) = Inr ()"
  by (simp add: db_push_audit_def Let_def db_broadcast_quiet)

text \<open>Sequencing after a call that is known to succeed.\<close>

lemma on_ok_Inr: "fst r = Inr x \<Longrightarrow> on_ok r k = k x (snd r)"
  by (cases r) simp

lemma on_ok_snd:
  assumes "P (snd r)" "\<And>x. P (snd r) \<Longrightarrow> P (snd (k x (snd r)))"
  shows "P (snd (on_ok r k))"
proof -
  obtain a s where r: "r = (a, s)" by (cases r)
  with assms show ?thesis by (cases a) simp_all
qed

section \<open>Who may command\<close>

fun bears_token :: "bridge_cfg \<Rightarrow> incoming \<Rightarrow> bool" where
  "bears_token cfg (Value (JObj d)) \<longleftrightarrow>
     bc_token cfg \<noteq> [] \<and> dget d ''token'' = Some (JStr [StrP (bc_token cfg)])"
| "bears_token cfg _ \<longleftrightarrow> False"

definition db_serve ::
  "bridge_cfg \<Rightarrow> (string \<Rightarrow> bridge \<times> 'w \<Rightarrow> unit result \<times> bridge \<times> 'w) \<Rightarrow> (dash_env \<times> incoming) list
   \<Rightarrow> bridge \<times> 'w \<Rightarrow> bridge \<times> 'w" where
  "db_serve cfg handler ms bw = fold (\<lambda>(env, raw) bw. snd (db_handle_incoming cfg env handler raw bw)) ms bw"

lemma db_unauthenticated_step:
  assumes "\<not> bears_token cfg raw"
  shows "snd (snd (db_handle_incoming cfg env handler raw (b, w))) = w
    \<and> db_same_trades b (fst (snd (db_handle_incoming cfg env handler raw (b, w))))"
proof (cases raw)
  case Malformed
  then show ?thesis by (simp add: db_handle_incoming_def)
next
  case (Value v)
  show ?thesis
  proof (cases v)
    case (JObj d)
    obtain r b1 where p: "db_push_audit env ''error'' ''dashboard_bridge''
        [Lit ''Rejected a dashboard command: missing or invalid control token''] [] b = (r, b1)"
      by (cases "db_push_audit env ''error'' ''dashboard_bridge''
        [Lit ''Rejected a dashboard command: missing or invalid control token''] [] b")
    with db_push_audit_same have "db_same_trades b b1" by (metis snd_conv)
    with assms Value JObj p show ?thesis by (auto simp: db_handle_incoming_def)
  qed (simp_all add: db_handle_incoming_def Value)
qed

text \<open>
  Property C19. However many messages arrive that do not carry the control token (and none carries
  it when the token is empty), and whatever they ask for, no command handler has any effect: the
  bot around the bridge, the trades, the candles, the notifier and the history of closed trades
  stay as they were; only audit lines and network traffic result.
\<close>

theorem db_commands_need_token:
  assumes "\<forall>m \<in> set ms. \<not> bears_token cfg (snd m)"
  shows "snd (db_serve cfg handler ms (b, w)) = w \<and> db_same_trades b (fst (db_serve cfg handler ms (b, w)))"
  using assms
proof (induction ms arbitrary: b w)
  case Nil
  then show ?case by (simp add: db_serve_def)
next
  case (Cons m ms)
  obtain env raw where m: "m = (env, raw)" by (cases m)
  obtain b1 w1 where h: "snd (db_handle_incoming cfg env handler raw (b, w)) = (b1, w1)"
    by (cases "snd (db_handle_incoming cfg env handler raw (b, w))")
  have "w1 = w" "db_same_trades b b1"
    using db_unauthenticated_step [of cfg raw env handler b w] Cons.prems by (simp_all add: m h)
  moreover have "snd (db_serve cfg handler ms (b1, w1)) = w1
      \<and> db_same_trades b1 (fst (db_serve cfg handler ms (b1, w1)))"
    using Cons by simp
  ultimately show ?case
    using db_same_trades_trans by (auto simp: db_serve_def m h)
qed

definition sample_bridge_cfg :: bridge_cfg where
  "sample_bridge_cfg = \<lparr>bc_max_loss = 20, bc_max_positions = 4, bc_chart = ''BTCUSDT'', bc_strategy = ''s'', bc_token = ''secret''\<rparr>"

definition sample_dash_env :: dash_env where
  "sample_dash_env = \<lparr>de_now = 0, de_net = (\<lambda>_. (True, Quiet)), de_klines = None, de_write = Appended,
     de_multiplier = (\<lambda>_. Inr 1)\<rparr>"

definition sample_bridge :: bridge where
  "sample_bridge = (db_init (Some tt_init) None None None)\<lparr>db_clients := [1]\<rparr>"

theorem db_commands_need_token_witness:
  "snd (db_serve sample_bridge_cfg (\<lambda>c (b, w). (Inr (), b, c # w))
      [(sample_dash_env, Value (JObj [(''token'', JStr [StrP ''guess'']), (''command'', JStr [StrP ''flatten''])]))]
      (sample_bridge, [])) = []"
proof -
  have "\<forall>m \<in> set [(sample_dash_env, Value (JObj [(''token'', JStr [StrP ''guess'']), (''command'', JStr [StrP ''flatten''])]))].
      \<not> bears_token sample_bridge_cfg (snd m)"
    by (simp add: sample_bridge_cfg_def)
  from db_commands_need_token [OF this, THEN conjunct1] show ?thesis .
qed

section \<open>Bounded histories\<close>

text \<open>
  The loaded histories have no ceiling, so the bound is relative to the bridge \<open>b0\<close> they were loaded into:
  a history is still the loaded one, or within its ceiling.
\<close>

definition db_capped :: "bridge \<Rightarrow> bridge \<Rightarrow> bool" where
  "db_capped b0 b \<longleftrightarrow> (db_audit b = db_audit b0 \<or> length (db_audit b) \<le> db_max_audit)
     \<and> (db_closed b = db_closed b0 \<or> length (db_closed b) \<le> db_max_closed)
     \<and> (\<forall>p \<in> set (db_candles b). length (snd p) \<le> db_max_candles)"

lemma set_dset: "p \<in> set (dset k v d) \<Longrightarrow> p = (k, v) \<or> p \<in> set d"
  by (induction d) (auto split: if_splits)

lemma db_capped_same: "db_same_store b b1 \<Longrightarrow> db_capped b0 b1 = db_capped b0 b"
  by (simp add: db_capped_def db_same_store_def)

lemma db_capped_broadcast: "db_capped b0 b \<Longrightarrow> db_capped b0 (snd (db_broadcast env m b))"
  by (simp add: db_capped_same [OF db_broadcast_same])

lemma db_capped_audit: "db_capped b0 b \<Longrightarrow> db_capped b0 (snd (db_push_audit env l src msg meta b))"
  by (simp add: db_push_audit_def Let_def db_capped_same [OF db_broadcast_same])
    (simp add: db_capped_def length_keep_last)

lemma db_capped_notify [simp]: "db_capped b0 (db_notify t b) = db_capped b0 b"
  by (simp add: db_capped_def db_notify_def)

lemma db_capped_notify_closed [simp]: "db_capped b0 (db_notify_closed ct b) = db_capped b0 b"
  by (simp add: db_notify_closed_def Let_def split: option.split) (simp add: db_capped_def)

lemma db_capped_other [simp]:
  "db_capped b0 (b\<lparr>db_backfilled := x\<rparr>) = db_capped b0 b" "db_capped b0 (b\<lparr>db_tracker := tt\<rparr>) = db_capped b0 b"
  by (simp_all add: db_capped_def)

lemma db_capped_candles:
  "db_capped b0 b \<Longrightarrow> length cs \<le> db_max_candles \<Longrightarrow> db_capped b0 (b\<lparr>db_candles := dset symb cs (db_candles b)\<rparr>)"
  by (auto simp: db_capped_def dest!: set_dset)

lemma db_capped_backfill:
  assumes "db_capped b0 b"
  shows "db_capped b0 (snd (db_backfill_candles_once env symb b))"
proof -
  have "db_capped b0 (b\<lparr>db_backfilled := symb # db_backfilled b,
      db_candles := dset symb (keep_last db_max_candles cs) (db_candles b)\<rparr>)" for cs
    using db_capped_candles [of b0 "b\<lparr>db_backfilled := symb # db_backfilled b\<rparr>" "keep_last db_max_candles cs" symb] assms
    by (simp add: length_keep_last)
  with assms show ?thesis
    by (simp add: db_backfill_candles_once_def Let_def db_capped_broadcast split: option.split sum.split)
qed

lemma db_cache_candle_length: "length cs \<le> db_max_candles \<Longrightarrow> length (db_cache_candle c cs) \<le> db_max_candles"
  by (auto simp: db_cache_candle_def Let_def db_max_candles_def)

lemma db_capped_cached: "db_capped b0 b \<Longrightarrow> length (dget_or [] (db_candles b) symb) \<le> db_max_candles"
  using map_of_SomeD [of "db_candles b" symb] by (fastforce simp: dget_or_def db_capped_def split: option.split)

lemma db_capped_bar: "db_capped b0 b \<Longrightarrow> db_capped b0 (snd (db_on_bar cfg env bar b))"
  unfolding db_on_bar_def Let_def
  by (auto intro!: on_ok_snd [where P = "db_capped b0"] db_capped_backfill db_capped_broadcast db_capped_candles
      db_cache_candle_length db_capped_cached)

lemma db_capped_closed:
  "db_capped b0 b \<Longrightarrow> db_capped b0 (b\<lparr>db_closed := keep_last db_max_closed xs, db_closed_log := l\<rparr>)"
  by (simp add: db_capped_def length_keep_last)

lemma db_capped_record_closed: "db_capped b0 b \<Longrightarrow> db_capped b0 (snd (db_record_closed env ct b))"
  unfolding db_record_closed_def Let_def
  by (intro on_ok_snd [where P = "db_capped b0"] db_capped_broadcast db_capped_closed db_capped_audit) simp_all

lemma db_capped_track: "db_capped b0 b \<Longrightarrow> db_capped b0 (snd (db_track env x b))"
  by (auto simp: db_track_def Let_def split: option.split prod.split sum.split intro!: db_capped_record_closed)

lemma db_capped_execution: "db_capped b0 b \<Longrightarrow> db_capped b0 (snd (db_handle_execution env x b))"
  unfolding db_handle_execution_def
  by (intro on_ok_snd [where P = "db_capped b0"] db_capped_broadcast db_capped_audit db_capped_track)

lemma db_capped_order: "db_capped b0 b \<Longrightarrow> db_capped b0 (snd (db_handle_order_event cfg env om ev b))"
  unfolding db_handle_order_event_def
  by (auto split: option.split broker_event.split
      intro!: on_ok_snd [where P = "db_capped b0"] db_capped_broadcast db_capped_execution)

lemma db_capped_event: "db_capped b0 b \<Longrightarrow> db_capped b0 (snd (db_on_event cfg env om e b))"
  by (cases e) (auto intro!: db_capped_bar db_capped_audit db_capped_order db_capped_broadcast
      on_ok_snd [where P = "db_capped b0"])

text \<open>What reaches the bridge: an event of the bus, or an audit line of the script.\<close>

definition db_input ::
  "bridge_cfg \<Rightarrow> dash_env \<times> (order_manager \<times> event + string \<times> string \<times> fstr \<times> (string, meta_val) dict)
   \<Rightarrow> bridge \<Rightarrow> unit result \<times> bridge" where
  "db_input cfg inp b =
     (case inp of (env, Inl (om, e)) \<Rightarrow> db_on_event cfg env om e b
      | (env, Inr (level, source, message, meta)) \<Rightarrow> db_push_audit env level source message meta b)"

lemma db_capped_run: "db_capped b0 b \<Longrightarrow> db_capped b0 (snd (drive (db_input cfg) inputs b))"
proof (induction inputs arbitrary: b)
  case Nil
  then show ?case by simp
next
  case (Cons inp inputs)
  from Cons.prems have "db_capped b0 (snd (db_input cfg inp b))"
    by (auto simp: db_input_def intro!: db_capped_event db_capped_audit split: prod.split sum.split)
  then show ?case by (simp add: Cons.IH drive_Cons)
qed

lemma db_notify_closed_closed: "db_closed (db_notify_closed ct b) = db_closed b"
  by (simp add: db_notify_closed_def db_notify_def Let_def split: option.split)

lemma db_audit_after_push: "length (db_audit (snd (db_push_audit env l src msg meta b))) \<le> db_max_audit"
  using db_broadcast_same [of _ env] by (simp add: db_push_audit_def Let_def db_same_store_def length_keep_last)

lemma db_closed_after_record: "length (db_closed (snd (db_record_closed env ct b))) \<le> db_max_closed"
proof -
  let ?P = "\<lambda>b. length (db_closed b) \<le> db_max_closed"
  have cast: "?P b1 \<Longrightarrow> ?P (snd (db_broadcast env m b1))" for m b1
    using db_broadcast_same [of b1 env m] by (simp add: db_same_store_def)
  have push: "?P b1 \<Longrightarrow> ?P (snd (db_push_audit env l src msg meta b1))" for l src msg meta b1
    using db_push_audit_same [of b1 env l src msg meta] by (simp add: db_same_trades_def)
  show ?thesis
    unfolding db_record_closed_def Let_def
    by (intro on_ok_snd [where P = ?P] cast push) (simp_all add: length_keep_last db_notify_closed_closed)
qed

text \<open>
  Property C30. From the start of the bridge, whatever the history files hold, and over any events and audit
  lines, whether or not the network or the history files fail in between: a history kept for fresh tabs is
  within its ceiling (5000 audit lines, 2000 closed trades, 1600 candles a symbol), unless it is the very
  list loaded at the start, which has none; the first line or trade added cuts it to the ceiling.
\<close>

theorem db_histories_bounded:
  fixes cfg :: bridge_cfg and inputs :: "(dash_env \<times> (order_manager \<times> event + string \<times> string \<times> fstr \<times> (string, meta_val) dict)) list"
    and env0 :: dash_env and fault :: "date \<Rightarrow> nat option" and tt :: "tracker option" and tn :: "notifier option"
    and closed_log :: "closed_payload log_files option" and audit_log :: "audit_line log_files option"
  defines "b0 \<equiv> db_start env0 fault (db_init tt tn closed_log audit_log)"
  defines "b \<equiv> snd (drive (db_input cfg) inputs b0)"
  shows "(db_audit b = db_audit b0 \<or> length (db_audit b) \<le> 5000)
    \<and> (db_closed b = db_closed b0 \<or> length (db_closed b) \<le> 2000)
    \<and> (\<forall>p \<in> set (db_candles b). length (snd p) \<le> 1600)
    \<and> length (db_audit (snd (db_push_audit env l src msg meta b))) \<le> 5000
    \<and> length (db_closed (snd (db_record_closed env ct b))) \<le> 2000"
proof -
  have "db_capped b0 b0" by (simp add: b0_def db_start_def db_init_def db_capped_def)
  then have "db_capped b0 b" unfolding b_def by (rule db_capped_run)
  then show ?thesis
    using db_audit_after_push [of env l src msg meta b] db_closed_after_record [of env ct b]
    by (simp add: db_capped_def db_max_audit_def db_max_closed_def db_max_candles_def)
qed

definition sample_bar :: "datetime \<Rightarrow> bar_event" where
  "sample_bar t = \<lparr>br_ts = t, br_symbol = ''BTCUSDT'', br_timeframe = 60, br_open = 1, br_high = 2, br_low = 1,
     br_close = 2, br_volume = 5, br_vwap = 1\<rparr>"

theorem db_histories_bounded_witness:
  "length (db_audit (snd (db_push_audit sample_dash_env ''info'' ''script'' [] []
      (snd (drive (db_input sample_bridge_cfg) [(sample_dash_env, Inl (om_init, BarE (sample_bar 0)))]
        (db_start sample_dash_env (\<lambda>_. None) (db_init None None None None))))))) \<le> 5000"
  using db_histories_bounded [where env0 = sample_dash_env and fault = "\<lambda>_. None" and tt = None and tn = None
      and closed_log = None and audit_log = None and cfg = sample_bridge_cfg and env = sample_dash_env
      and inputs = "[(sample_dash_env, Inl (om_init, BarE (sample_bar 0)))]"
      and l = "''info''" and src = "''script''" and msg = "[]" and meta = "[]"]
  by blast

section \<open>The list of closed trades\<close>

lemma keep_last_append: "keep_last n (keep_last n xs @ ys) = keep_last n (xs @ ys)"
proof (cases "length xs \<le> n")
  case True
  then show ?thesis by (simp add: keep_last_short)
next
  case False
  then have "length (drop (length xs - n) xs) = n" by simp
  with False show ?thesis by (simp add: keep_last_def add.commute)
qed

lemma tt_on_execution_closed:
  "tt_closed (snd (tt_on_execution lookup x tt)) =
     tt_closed tt @ (case fst (tt_on_execution lookup x tt) of Inr (Some ct) \<Rightarrow> [ct] | _ \<Rightarrow> [])"
  by (auto simp: tt_on_execution_def Let_def split: sum.split option.split)

lemma db_notify_trades [simp]:
  "db_tracker (db_notify t b) = db_tracker b" "db_closed (db_notify t b) = db_closed b"
  by (simp_all add: db_notify_def)

lemma db_notify_closed_trades [simp]:
  "db_tracker (db_notify_closed ct b) = db_tracker b" "db_closed (db_notify_closed ct b) = db_closed b"
  by (simp_all add: db_notify_closed_def Let_def split: option.split)

lemma db_record_closed_quiet:
  assumes "quiet_net env"
  shows "db_tracker (snd (db_record_closed env ct b)) = db_tracker b"
    and "db_closed (snd (db_record_closed env ct b)) = keep_last db_max_closed (db_closed b @ [db_closed_payload ct])"
proof -
  let ?b1 = "b\<lparr>db_closed := keep_last db_max_closed (db_closed b @ [db_closed_payload ct]),
    db_closed_log := map_option (dl_append (de_write env) (de_now env) (db_closed_payload ct)) (db_closed_log b)\<rparr>"
  let ?b2 = "snd (db_broadcast env (ClosedTradeM (db_closed_payload ct)) ?b1)"
  let ?b3 = "snd (db_push_audit env (if 0 \<le> ct_pnl ct then ''fill'' else ''risk'') ''trade_tracker''
    [Lit ''CLOSED '', StrP (ct_symbol ct), Lit '' '', StrP (side_value (ct_side ct)), Lit '' - P&L '',
     SignFixP 2 (ct_pnl ct), Lit '' USDT''] [] ?b2)"
  have b3: "db_same_trades ?b1 ?b3"
    using db_same_trades_trans [OF db_same_trades_store [OF db_broadcast_same] db_push_audit_same] .
  have "snd (db_record_closed env ct b) = db_notify_closed ct ?b3"
    by (simp add: db_record_closed_def Let_def on_ok_Inr [OF db_broadcast_quiet [OF assms]]
        on_ok_Inr [OF db_push_audit_quiet [OF assms]])
  with b3 show "db_tracker (snd (db_record_closed env ct b)) = db_tracker b"
    and "db_closed (snd (db_record_closed env ct b)) = keep_last db_max_closed (db_closed b @ [db_closed_payload ct])"
    by (simp_all add: db_same_trades_def)
qed

lemma db_track_quiet:
  assumes "quiet_net env" "db_tracker b = Some tt"
  shows "db_tracker (snd (db_track env x b)) = Some (snd (tt_on_execution (de_multiplier env) x tt))"
    and "db_closed (snd (db_track env x b)) =
      (case fst (tt_on_execution (de_multiplier env) x tt) of
         Inr (Some ct) \<Rightarrow> keep_last db_max_closed (db_closed b @ [db_closed_payload ct]) | _ \<Rightarrow> db_closed b)"
  using assms(2) by (auto simp: db_track_def Let_def db_record_closed_quiet [OF assms(1)]
      split: prod.split sum.split option.split)

lemma db_order_event_quiet:
  assumes "quiet_net env" "om_get_order om (ex_order_id x) \<noteq> None"
  shows "\<exists>b1. db_same_trades b b1 \<and> snd (db_on_event cfg env om (ExecE x) b) = snd (db_track env x b1)"
proof -
  obtain mo where mo: "om_get_order om (ex_order_id x) = Some mo" using assms(2) by blast
  let ?b1 = "snd (db_broadcast env (OrderM (db_order_payload cfg mo)) b)"
  let ?b2 = "snd (db_broadcast env (MarkerM \<lparr>mk_symbol = ex_symbol x, mk_time = sec_of (ex_ts x),
    mk_price = ex_fill_price x, mk_side = side_value (ex_side x), mk_qty = ex_fill_qty x\<rparr>) ?b1)"
  let ?b3 = "snd (db_push_audit env ''fill'' ''order_manager''
    [Lit ''FILLED '', StrP (side_value (ex_side x)), Lit '' '', IntP (ex_fill_qty x), Lit '' '', StrP (ex_symbol x),
     Lit '' @ '', FloatP (ex_fill_price x)] [] ?b2)"
  have "db_same_trades b ?b2"
    using db_same_trades_trans [OF db_same_trades_store [OF db_broadcast_same]
        db_same_trades_store [OF db_broadcast_same]] .
  then have "db_same_trades b ?b3" using db_same_trades_trans db_push_audit_same by blast
  moreover have "snd (db_on_event cfg env om (ExecE x) b) = snd (db_track env x ?b3)"
    using mo by (simp add: db_handle_order_event_def db_handle_execution_def
        on_ok_Inr [OF db_broadcast_quiet [OF assms(1)]] on_ok_Inr [OF db_push_audit_quiet [OF assms(1)]])
  ultimately show ?thesis by blast
qed

definition db_tracked :: "closed_payload list \<Rightarrow> bridge \<Rightarrow> tracker \<Rightarrow> bool" where
  "db_tracked loaded b tt \<longleftrightarrow> db_tracker b = Some tt
     \<and> db_closed b = keep_last db_max_closed (loaded @ map db_closed_payload (tt_closed tt))"

lemma db_tracked_step:
  assumes "quiet_net env" "om_get_order om (ex_order_id x) \<noteq> None" "db_tracked loaded b tt"
  shows "db_tracked loaded (snd (db_on_event cfg env om (ExecE x) b)) (snd (tt_on_execution (de_multiplier env) x tt))"
proof -
  obtain b1 where b1: "db_same_trades b b1" "snd (db_on_event cfg env om (ExecE x) b) = snd (db_track env x b1)"
    using db_order_event_quiet [OF assms(1,2)] by blast
  with assms(3) have t: "db_tracker b1 = Some tt"
      "db_closed b1 = keep_last db_max_closed (loaded @ map db_closed_payload (tt_closed tt))"
    by (simp_all add: db_tracked_def db_same_trades_def)
  show ?thesis
    using t(2) tt_on_execution_closed [of "de_multiplier env" x tt]
    unfolding db_tracked_def b1(2)
    by (auto simp: db_track_quiet [OF assms(1) t(1)] keep_last_append
        split: sum.split option.split)
qed

text \<open>
  Property C20. While no tab joins or leaves during a send (sends may fail), the list of closed
  trades on the dashboard is, after any executions of known orders, the history loaded at the
  start followed by the trades the tracker has closed, in order, up to the ceiling of 2000, and
  the tracker has seen every execution.
\<close>

theorem db_closed_trades_mirror_tracker:
  fixes cfg :: bridge_cfg
  assumes "\<forall>(env, om, x) \<in> set es. quiet_net env \<and> om_get_order om (ex_order_id x) \<noteq> None"
    and "db_tracker b = Some tt"
    and "db_closed b = keep_last db_max_closed (loaded @ map db_closed_payload (tt_closed tt))"
  defines "b' \<equiv> snd (drive (\<lambda>(env, om, x). db_on_event cfg env om (ExecE x)) es b)"
    and "tt' \<equiv> fold (\<lambda>(env, om, x) t. snd (tt_on_execution (de_multiplier env) x t)) es tt"
  shows "db_tracker b' = Some tt'
    \<and> db_closed b' = keep_last db_max_closed (loaded @ map db_closed_payload (tt_closed tt'))"
proof -
  have "db_tracked loaded (snd (drive (\<lambda>(env, om, x). db_on_event cfg env om (ExecE x)) es b))
      (fold (\<lambda>(env, om, x) t. snd (tt_on_execution (de_multiplier env) x t)) es tt)"
    if "db_tracked loaded b tt" for b tt
    using assms(1) that
  proof (induction es arbitrary: b tt)
    case Nil
    then show ?case by simp
  next
    case (Cons p es)
    obtain env om x where p: "p = (env, om, x)" by (cases p)
    with Cons.prems have "db_tracked loaded (snd (db_on_event cfg env om (ExecE x) b))
        (snd (tt_on_execution (de_multiplier env) x tt))"
      using db_tracked_step by simp
    with Cons.IH Cons.prems(1) show ?case by (simp add: p)
  qed
  with assms(2,3) show ?thesis by (simp add: db_tracked_def b'_def tt'_def)
qed

definition sample_exec :: "order_side \<Rightarrow> int \<Rightarrow> real \<Rightarrow> exec_event" where
  "sample_exec sd q px =
     \<lparr>ex_ts = 0, ex_order_id = ''a'', ex_corr = ''c'', ex_symbol = ''X'', ex_side = sd, ex_fill_qty = q, ex_fill_price = px,
      ex_cum_qty = q, ex_rem_qty = 0, ex_commission = 0, ex_liquidity = ''TAKER'', ex_expected = None\<rparr>"

theorem db_closed_trades_mirror_tracker_witness:
  "map cp_pnl (db_closed (snd (drive (\<lambda>(env, om, x). db_on_event sample_bridge_cfg env om (ExecE x))
      [(sample_dash_env, sample_manager, sample_exec BUY 3 10), (sample_dash_env, sample_manager, sample_exec SELL 3 12)]
      sample_bridge))) = [6]"
proof -
  let ?es = "[(sample_dash_env, sample_manager, sample_exec BUY 3 10), (sample_dash_env, sample_manager, sample_exec SELL 3 12)]"
  have "\<forall>(env, om, x) \<in> set ?es. quiet_net env \<and> om_get_order om (ex_order_id x) \<noteq> None"
    by (simp add: sample_dash_env_def quiet_net_def sample_manager_def om_get_order_def sample_exec_def)
  moreover have "db_tracker sample_bridge = Some tt_init"
      "db_closed sample_bridge = keep_last db_max_closed ([] @ map db_closed_payload (tt_closed tt_init))"
    by (simp_all add: sample_bridge_def db_init_def tt_init_def keep_last_def)
  ultimately have "db_closed (snd (drive (\<lambda>(env, om, x). db_on_event sample_bridge_cfg env om (ExecE x)) ?es sample_bridge)) =
      keep_last db_max_closed ([] @ map db_closed_payload
        (tt_closed (fold (\<lambda>(env, om, x) t. snd (tt_on_execution (de_multiplier env) x t)) ?es tt_init)))"
    using db_closed_trades_mirror_tracker by blast
  also have "map cp_pnl \<dots> = [6]"
    by (simp add: tt_on_execution_def tt_init_def sample_exec_def sample_dash_env_def tt_signed_fill_def tt_new_trade_def
        tt_closing_def tt_close_def tt_record_def Let_def keep_last_def db_max_closed_def db_closed_payload_def)
  finally show ?thesis .
qed

section \<open>A tab that joins in the middle of a send\<close>

lemma db_send_each_join:
  assumes "snd (net (db_sends b)) = Joins c" "c \<notin> set (db_clients b)"
  shows "fst (db_send_each net m (d # cs) dead b) = Inl (RuntimeError [Lit ''Set changed size during iteration''])"
proof -
  obtain sent where "net (db_sends b) = (sent, Joins c)" using assms(1) by (cases "net (db_sends b)") simp
  with assms(2) show ?thesis by (simp add: Let_def)
qed

lemma db_broadcast_join:
  assumes "snd (de_net env (db_sends b)) = Joins c" "c \<notin> set (db_clients b)" "db_clients b \<noteq> []"
  shows "fst (db_broadcast env m b) = Inl (RuntimeError [Lit ''Set changed size during iteration''])"
proof -
  obtain d cs where cs: "db_clients b = d # cs" using assms(3) by (cases "db_clients b") auto
  obtain r b1 where s: "db_send_each (de_net env) m (d # cs) [] b = (r, b1)"
    by (cases "db_send_each (de_net env) m (d # cs) [] b")
  with db_send_each_join [of "de_net env" b c m d cs "[]"] assms(1,2) cs
  have "r = Inl (RuntimeError [Lit ''Set changed size during iteration''])" by simp
  with s show ?thesis by (simp add: db_broadcast_def cs)
qed

lemma on_ok_Inl: "fst r = Inl e \<Longrightarrow> on_ok r k = (Inl e, snd r)"
  by (cases r) simp

lemma db_push_audit_join:
  assumes "snd (de_net env (db_sends b)) = Joins c" "c \<notin> set (db_clients b)" "db_clients b \<noteq> []"
  shows "fst (db_push_audit env l src msg meta b) = Inl (RuntimeError [Lit ''Set changed size during iteration''])"
  using assms by (simp add: db_push_audit_def Let_def db_broadcast_join)

text \<open>
  If a tab joins while the message of a filled order is being sent to another tab,
  the execution is lost to the dashboard for good: the handler raises, and neither the trade
  tracker nor the audit trail, the closed trades or the notifier ever hear of the fill.
\<close>

theorem db_join_loses_execution:
  assumes "snd (de_net env (db_sends b)) = Joins c" "c \<notin> set (db_clients b)" "db_clients b \<noteq> []"
    and "om_get_order om (ex_order_id x) = Some mo"
  shows "fst (db_on_event cfg env om (ExecE x) b) = Inl (RuntimeError [Lit ''Set changed size during iteration''])
    \<and> db_same_store b (snd (db_on_event cfg env om (ExecE x) b))"
  using assms(4) db_broadcast_same [of b env "OrderM (db_order_payload cfg mo)"]
  by (simp add: db_handle_order_event_def on_ok_Inl [OF db_broadcast_join [OF assms(1-3)]])

theorem db_join_loses_execution_witness:
  "db_tracker (snd (db_on_event sample_bridge_cfg (sample_dash_env\<lparr>de_net := \<lambda>_. (True, Joins 2)\<rparr>) sample_manager
     (ExecE (sample_exec BUY 3 10)) sample_bridge)) = Some tt_init"
proof -
  have "snd (de_net (sample_dash_env\<lparr>de_net := \<lambda>_. (True, Joins 2)\<rparr>) (db_sends sample_bridge)) = Joins 2"
      "2 \<notin> set (db_clients sample_bridge)" "db_clients sample_bridge \<noteq> []"
      "om_get_order sample_manager (ex_order_id (sample_exec BUY 3 10)) =
        Some (om_new_order ''a'' 0 (sample_order_signal ''X'' BUY 3) (Some 10))"
    by (simp_all add: sample_bridge_def om_get_order_def sample_manager_def sample_exec_def)
  from db_join_loses_execution [OF this] have "db_tracker (snd (db_on_event sample_bridge_cfg
      (sample_dash_env\<lparr>de_net := \<lambda>_. (True, Joins 2)\<rparr>) sample_manager (ExecE (sample_exec BUY 3 10)) sample_bridge)) =
      db_tracker sample_bridge"
    unfolding db_same_store_def by blast
  then show ?thesis by (simp add: sample_bridge_def db_init_def)
qed

section \<open>Candles\<close>

lemma db_on_bar_wanted:
  assumes "quiet_net env" "db_wants_chart_for cfg (br_symbol bar) b"
  shows "dget (db_candles (snd (db_on_bar cfg env bar b))) (br_symbol bar) =
    Some (db_cache_candle (db_candle_of bar)
      (dget_or [] (db_candles (snd (db_backfill_candles_once env (br_symbol bar) b))) (br_symbol bar)))
    \<and> db_backfilled (snd (db_on_bar cfg env bar b)) = db_backfilled (snd (db_backfill_candles_once env (br_symbol bar) b))"
proof -
  let ?b1 = "snd (db_backfill_candles_once env (br_symbol bar) b)"
  have "fst (db_backfill_candles_once env (br_symbol bar) b) = Inr ()"
    by (auto simp: db_backfill_candles_once_def Let_def db_broadcast_quiet [OF assms(1)] split: option.split sum.split)
  then have "snd (db_on_bar cfg env bar b) = snd (db_broadcast env (CandleM (br_symbol bar) (db_candle_of bar))
      (?b1\<lparr>db_candles := dset (br_symbol bar) (db_cache_candle (db_candle_of bar)
        (dget_or [] (db_candles ?b1) (br_symbol bar))) (db_candles ?b1)\<rparr>))"
    using assms(2) by (simp add: db_on_bar_def on_ok_Inr Let_def)
  then show ?thesis
    using db_broadcast_same [of "?b1\<lparr>db_candles := dset (br_symbol bar) (db_cache_candle (db_candle_of bar)
        (dget_or [] (db_candles ?b1) (br_symbol bar))) (db_candles ?b1)\<rparr>" env "CandleM (br_symbol bar) (db_candle_of bar)"]
    by (simp add: db_same_store_def)
qed

lemma db_backfill_fresh:
  assumes "de_klines env = Some klines" "klines symb (int db_max_candles) = Inr cs" "cs \<noteq> []"
    and "symb \<notin> set (db_backfilled b)"
  shows "dget (db_candles (snd (db_backfill_candles_once env symb b))) symb = Some (keep_last db_max_candles cs)
    \<and> symb \<in> set (db_backfilled (snd (db_backfill_candles_once env symb b)))"
  using assms db_broadcast_same [of "b\<lparr>db_backfilled := symb # db_backfilled b,
      db_candles := dset symb (keep_last db_max_candles cs) (db_candles b)\<rparr>" env "CandlesBackfillM symb cs"]
  by (simp add: db_backfill_candles_once_def Let_def db_same_store_def)

lemma db_backfill_done: "symb \<in> set (db_backfilled b) \<Longrightarrow> snd (db_backfill_candles_once env symb b) = b"
  by (simp add: db_backfill_candles_once_def split: option.split)

text \<open>
  The history fetched for a symbol at its first bar ends with the minute in progress,
  which is later than the bar: the bar is then appended behind it, so the stored candles are not
  in order of time, and the bar of the minute in progress, when it completes, is stored a second
  time instead of replacing the unfinished one.
\<close>

theorem db_backfill_duplicates_candle:
  assumes "quiet_net env" "quiet_net env'" "de_klines env = Some klines"
    and "klines symb (int db_max_candles) = Inr cs" "cs \<noteq> []" "length cs + 2 \<le> db_max_candles"
    and "symb = bc_chart cfg" "symb \<notin> set (db_backfilled b)"
    and "br_symbol bar = symb" "br_symbol bar' = symb"
    and "sec_of (br_ts bar) < cd_time (last cs)" "sec_of (br_ts bar') = cd_time (last cs)"
  defines "b1 \<equiv> snd (db_on_bar cfg env bar b)"
  defines "b2 \<equiv> snd (db_on_bar cfg env' bar' b1)"
  shows "\<exists>cache1 cache2. dget (db_candles b1) symb = Some cache1 \<and> \<not> sorted (map cd_time cache1)
    \<and> dget (db_candles b2) symb = Some cache2
    \<and> 2 \<le> length (filter (\<lambda>c. cd_time c = cd_time (last cs)) cache2)"
proof -
  have wants: "db_wants_chart_for cfg symb b" "db_wants_chart_for cfg symb b1"
    using assms(7) by (simp_all add: db_wants_chart_for_def)
  have short: "keep_last db_max_candles cs = cs" using assms(6) by (simp add: keep_last_short)
  note fill = db_backfill_fresh [OF assms(3-5,8)]
  have c1: "dget (db_candles b1) symb = Some (cs @ [db_candle_of bar])"
    using db_on_bar_wanted [OF assms(1), of cfg bar b] wants(1) fill assms(5,6,9,11) short
    by (simp add: b1_def db_cache_candle_def dget_or_def db_candle_of_def)
  have "symb \<in> set (db_backfilled b1)"
    using db_on_bar_wanted [OF assms(1), of cfg bar b] wants(1) fill assms(9) by (simp add: b1_def)
  then have "snd (db_backfill_candles_once env' symb b1) = b1" by (rule db_backfill_done)
  then have c2: "dget (db_candles b2) symb = Some (cs @ [db_candle_of bar, db_candle_of bar'])"
    using db_on_bar_wanted [OF assms(2), of cfg bar' b1] wants(2) c1 assms(6,10,11,12)
    by (simp add: b2_def db_cache_candle_def dget_or_def db_candle_of_def Let_def)
  have split: "cs = butlast cs @ [last cs]" using assms(5) by simp
  have "\<not> sorted (map cd_time (cs @ [db_candle_of bar]))"
    using assms(11) by (subst split) (simp add: sorted_append db_candle_of_def)
  moreover have "2 \<le> length (filter (\<lambda>c. cd_time c = cd_time (last cs)) (cs @ [db_candle_of bar, db_candle_of bar']))"
    using assms(12) by (subst (2) split) (simp add: db_candle_of_def)
  ultimately show ?thesis using c1 c2 by blast
qed

definition flat_candle :: "int \<Rightarrow> candle" where
  "flat_candle t = \<lparr>cd_time = t, cd_open = 1, cd_high = 1, cd_low = 1, cd_close = 1, cd_volume = 0\<rparr>"

theorem db_backfill_duplicates_candle_witness:
  "\<exists>cache1. dget (db_candles (snd (db_on_bar sample_bridge_cfg
       (sample_dash_env\<lparr>de_klines := Some (\<lambda>_ _. Inr [flat_candle 0, flat_candle 60, flat_candle 120])\<rparr>)
       (sample_bar 60000000) sample_bridge))) ''BTCUSDT'' = Some cache1
     \<and> \<not> sorted (map cd_time cache1)"
proof -
  let ?cs = "[flat_candle 0, flat_candle 60, flat_candle 120]"
  let ?env = "sample_dash_env\<lparr>de_klines := Some (\<lambda>_ _. Inr ?cs)\<rparr>"
  have "quiet_net ?env" "quiet_net ?env" "de_klines ?env = Some (\<lambda>_ _. Inr ?cs)"
      "(\<lambda>(_ :: string) (_ :: int). Inr ?cs :: candle list result) ''BTCUSDT'' (int db_max_candles) = Inr ?cs" "?cs \<noteq> []"
      "length ?cs + 2 \<le> db_max_candles" "''BTCUSDT'' = bc_chart sample_bridge_cfg"
      "''BTCUSDT'' \<notin> set (db_backfilled sample_bridge)" "br_symbol (sample_bar 60000000) = ''BTCUSDT''"
      "br_symbol (sample_bar 120000000) = ''BTCUSDT''"
      "sec_of (br_ts (sample_bar 60000000)) < cd_time (last ?cs)"
      "sec_of (br_ts (sample_bar 120000000)) = cd_time (last ?cs)"
    by (simp_all add: quiet_net_def sample_dash_env_def db_max_candles_def sample_bridge_cfg_def sample_bridge_def
        db_init_def sample_bar_def sec_of_def timestamp_s_def flat_candle_def py_int_def)
  from db_backfill_duplicates_candle [OF this]
  show ?thesis by blast
qed

section \<open>The token survives restarts\<close>

text \<open>
  The control token is never empty, and every later start reads back the token of
  the first, whatever the file held before and whatever a later start would draw; a fresh token
  is assumed to be drawn without white space, as \<^verbatim>\<open>token_urlsafe\<close> does.
\<close>

theorem control_token_stable:
  assumes "fresh \<noteq> []" "py_strip fresh = fresh"
  shows "fst (load_or_create_control_token fresh file) \<noteq> []
    \<and> load_or_create_control_token fresh' (snd (load_or_create_control_token fresh file)) =
        load_or_create_control_token fresh file"
  using assms by (auto simp: load_or_create_control_token_def split: option.split)

theorem control_token_stable_witness:
  "fst (load_or_create_control_token ''zzz'' (snd (load_or_create_control_token ''abc'' (Some '' '')))) = ''abc''"
proof -
  have "''abc'' \<noteq> []" "py_strip ''abc'' = ''abc''"
    by (simp_all add: py_strip_def py_space_def)
  from control_token_stable [OF this, of "Some '' ''" "''zzz''"] show ?thesis
    by (simp add: load_or_create_control_token_def py_strip_def py_space_def)
qed

end
