(* ===== verification/Settings.thy ===== *)
theory Settings
  imports Bot_Prelude
begin

text \<open>
  The typed configuration, \<^verbatim>\<open>config/settings.py\<close>.  Each settings class is a record of its fields
  and a function that builds it from the environment.  What pydantic reads is a parameter: for a
  variable name and a type, nothing (the default applies) or the parsed value or the error of
  parsing it; secrets are their strings.  Of pydantic's behaviour the model keeps what the classes
  rely on: every field is validated, the errors of all fields are reported together, and a model
  validator runs only after every field and earlier validator has passed.  A whole nested class
  given as one JSON variable (such as \<^verbatim>\<open>RISK={...}\<close>) is not modelled.
\<close>

section \<open>Reading a field\<close>

record env_source =
  en_str :: "string \<Rightarrow> string result option"
  en_bool :: "string \<Rightarrow> bool result option"
  en_int :: "string \<Rightarrow> int result option"
  en_float :: "string \<Rightarrow> real result option"

text \<open>A \<^verbatim>\<open>ValidationError\<close> holds the errors of all failing fields.\<close>

type_synonym 'a validated = "py_exn list + 'a"

definition env_field :: "(string \<Rightarrow> 'a result option) \<Rightarrow> string \<Rightarrow> 'a \<Rightarrow> 'a result" where
  "env_field src name dflt = (case src name of None \<Rightarrow> Inr dflt | Some r \<Rightarrow> r)"

definition checked :: "('a \<Rightarrow> 'a result) \<Rightarrow> 'a result \<Rightarrow> 'a result" where
  "checked validator r = and_then r validator"

definition field_errors :: "'a result \<Rightarrow> py_exn list" where
  "field_errors r = (case r of Inl e \<Rightarrow> [e] | Inr _ \<Rightarrow> [])"

definition field_value :: "'a result \<Rightarrow> 'a" where
  "field_value r = projr r"

definition collect :: "py_exn list \<Rightarrow> 'a \<Rightarrow> 'a validated" where
  "collect errs x = (if errs = [] then Inr x else Inl errs)"

definition model_checked :: "('a \<Rightarrow> 'a result) \<Rightarrow> 'a validated \<Rightarrow> 'a validated" where
  "model_checked validator r =
     (case r of Inl es \<Rightarrow> Inl es | Inr x \<Rightarrow> (case validator x of Inl e \<Rightarrow> Inl [e] | Inr y \<Rightarrow> Inr y))"

lemma field_errors_Nil [simp]: "field_errors r = [] \<longleftrightarrow> (\<exists>v. r = Inr v)"
  by (cases r) (simp_all add: field_errors_def)

lemma field_value_Inr [simp]: "field_value (Inr v) = v"
  by (simp add: field_value_def)

lemma collect_Inr [simp]: "collect errs x = Inr y \<longleftrightarrow> errs = [] \<and> y = x"
  by (auto simp: collect_def)

lemma model_checked_Inr:
  "model_checked validator r = Inr y \<longleftrightarrow> (\<exists>x. r = Inr x \<and> validator x = Inr y)"
  by (auto simp: model_checked_def split: sum.splits)

lemma checked_value [simp]: "checked validator (Inr x) = validator x"
  by (simp add: checked_def)

lemma checked_Inr: "checked validator r = Inr y \<longleftrightarrow> (\<exists>x. r = Inr x \<and> validator x = Inr y)"
  by (simp add: checked_def and_then_Inr_iff)

section \<open>Brokers, data and notifications\<close>

record binance_settings =
  bns_api_key :: string
  bns_api_secret :: string
  bns_testnet :: bool
  bns_recv_window_ms :: int
  bns_reconnect_backoff_s :: real
  bns_reconnect_backoff_max_s :: real
  bns_user_stream_keepalive_s :: real

definition make_binance_settings :: "env_source \<Rightarrow> binance_settings validated" where
  "make_binance_settings env =
     (let api_key = env_field (en_str env) ''BINANCE_API_KEY'' [];
          api_secret = env_field (en_str env) ''BINANCE_API_SECRET'' [];
          testnet = env_field (en_bool env) ''BINANCE_TESTNET'' True;
          recv_window_ms = env_field (en_int env) ''BINANCE_RECV_WINDOW_MS'' 5000;
          reconnect_backoff_s = env_field (en_float env) ''BINANCE_RECONNECT_BACKOFF_S'' 2;
          reconnect_backoff_max_s = env_field (en_float env) ''BINANCE_RECONNECT_BACKOFF_MAX_S'' 60;
          user_stream_keepalive_s = env_field (en_float env) ''BINANCE_USER_STREAM_KEEPALIVE_S'' 1800
      in collect
       (field_errors api_key @ field_errors api_secret @ field_errors testnet @
        field_errors recv_window_ms @ field_errors reconnect_backoff_s @
        field_errors reconnect_backoff_max_s @ field_errors user_stream_keepalive_s)
       \<lparr>bns_api_key = field_value api_key, bns_api_secret = field_value api_secret,
        bns_testnet = field_value testnet, bns_recv_window_ms = field_value recv_window_ms,
        bns_reconnect_backoff_s = field_value reconnect_backoff_s,
        bns_reconnect_backoff_max_s = field_value reconnect_backoff_max_s,
        bns_user_stream_keepalive_s = field_value user_stream_keepalive_s\<rparr>)"

record ibkr_settings =
  ibs_host :: string
  ibs_port :: int
  ibs_client_id :: int
  ibs_account :: string
  ibs_read_only :: bool
  ibs_connect_timeout_s :: real
  ibs_reconnect_backoff_s :: real
  ibs_reconnect_backoff_max_s :: real
  ibs_heartbeat_interval_s :: real
  ibs_heartbeat_timeout_s :: real

definition make_ibkr_settings :: "env_source \<Rightarrow> ibkr_settings validated" where
  "make_ibkr_settings env =
     (let host = env_field (en_str env) ''IBKR_HOST'' ''127.0.0.1'';
          port = env_field (en_int env) ''IBKR_PORT'' 7497;
          client_id = env_field (en_int env) ''IBKR_CLIENT_ID'' 1;
          account = env_field (en_str env) ''IBKR_ACCOUNT'' [];
          read_only = env_field (en_bool env) ''IBKR_READ_ONLY'' True;
          connect_timeout_s = env_field (en_float env) ''IBKR_CONNECT_TIMEOUT_S'' 10;
          reconnect_backoff_s = env_field (en_float env) ''IBKR_RECONNECT_BACKOFF_S'' 2;
          reconnect_backoff_max_s = env_field (en_float env) ''IBKR_RECONNECT_BACKOFF_MAX_S'' 60;
          heartbeat_interval_s = env_field (en_float env) ''IBKR_HEARTBEAT_INTERVAL_S'' 5;
          heartbeat_timeout_s = env_field (en_float env) ''IBKR_HEARTBEAT_TIMEOUT_S'' 15
      in collect
       (field_errors host @ field_errors port @ field_errors client_id @ field_errors account @
        field_errors read_only @ field_errors connect_timeout_s @
        field_errors reconnect_backoff_s @ field_errors reconnect_backoff_max_s @
        field_errors heartbeat_interval_s @ field_errors heartbeat_timeout_s)
       \<lparr>ibs_host = field_value host, ibs_port = field_value port,
        ibs_client_id = field_value client_id, ibs_account = field_value account,
        ibs_read_only = field_value read_only,
        ibs_connect_timeout_s = field_value connect_timeout_s,
        ibs_reconnect_backoff_s = field_value reconnect_backoff_s,
        ibs_reconnect_backoff_max_s = field_value reconnect_backoff_max_s,
        ibs_heartbeat_interval_s = field_value heartbeat_interval_s,
        ibs_heartbeat_timeout_s = field_value heartbeat_timeout_s\<rparr>)"

record data_settings =
  dts_duckdb_path :: string
  dts_redis_url :: string
  dts_tick_channel_prefix :: string
  dts_bar_channel_prefix :: string
  dts_execution_channel :: string

definition make_data_settings :: "env_source \<Rightarrow> data_settings validated" where
  "make_data_settings env =
     (let duckdb_path = env_field (en_str env) ''DATA_DUCKDB_PATH'' ''./data_store/market_data.duckdb'';
          redis_url = env_field (en_str env) ''DATA_REDIS_URL'' ''redis://localhost:6379/0'';
          tick_channel_prefix = env_field (en_str env) ''DATA_TICK_CHANNEL_PREFIX'' ''ticks'';
          bar_channel_prefix = env_field (en_str env) ''DATA_BAR_CHANNEL_PREFIX'' ''bars'';
          execution_channel = env_field (en_str env) ''DATA_EXECUTION_CHANNEL'' ''executions''
      in collect
       (field_errors duckdb_path @ field_errors redis_url @ field_errors tick_channel_prefix @
        field_errors bar_channel_prefix @ field_errors execution_channel)
       \<lparr>dts_duckdb_path = field_value duckdb_path, dts_redis_url = field_value redis_url,
        dts_tick_channel_prefix = field_value tick_channel_prefix,
        dts_bar_channel_prefix = field_value bar_channel_prefix,
        dts_execution_channel = field_value execution_channel\<rparr>)"

record telegram_settings =
  tgs_bot_token :: string
  tgs_chat_id :: string

definition make_telegram_settings :: "env_source \<Rightarrow> telegram_settings validated" where
  "make_telegram_settings env =
     (let bot_token = env_field (en_str env) ''TELEGRAM_BOT_TOKEN'' [];
          chat_id = env_field (en_str env) ''TELEGRAM_CHAT_ID'' []
      in collect
       (field_errors bot_token @ field_errors chat_id)
       \<lparr>tgs_bot_token = field_value bot_token, tgs_chat_id = field_value chat_id\<rparr>)"

section \<open>Risk limits\<close>

record risk_settings =
  rks_max_daily_drawdown_pct :: real
  rks_max_position_notional_usd :: real
  rks_max_contracts_per_order :: int
  rks_max_contracts_per_symbol :: int
  rks_max_orders_per_second :: real
  rks_max_orders_per_minute :: int
  rks_target_annual_volatility_pct :: real
  rks_kelly_fraction_cap :: real
  rks_initial_margin_buffer_pct :: real
  rks_maintenance_margin_buffer_pct :: real
  rks_max_gross_leverage :: real

definition valid_drawdown :: "real \<Rightarrow> real result" where
  "valid_drawdown v =
     (if \<not> (0 < v \<and> v \<le> 100) then Inl (ValueError [Lit ''max_daily_drawdown_pct must be in (0, 100]''])
      else Inr v)"

definition make_risk_settings :: "env_source \<Rightarrow> risk_settings validated" where
  "make_risk_settings env =
     (let max_daily_drawdown_pct = checked valid_drawdown (env_field (en_float env) ''RISK_MAX_DAILY_DRAWDOWN_PCT'' 2);
          max_position_notional_usd = env_field (en_float env) ''RISK_MAX_POSITION_NOTIONAL_USD'' 250000;
          max_contracts_per_order = env_field (en_int env) ''RISK_MAX_CONTRACTS_PER_ORDER'' 20;
          max_contracts_per_symbol = env_field (en_int env) ''RISK_MAX_CONTRACTS_PER_SYMBOL'' 50;
          max_orders_per_second = env_field (en_float env) ''RISK_MAX_ORDERS_PER_SECOND'' 5;
          max_orders_per_minute = env_field (en_int env) ''RISK_MAX_ORDERS_PER_MINUTE'' 60;
          target_annual_volatility_pct = env_field (en_float env) ''RISK_TARGET_ANNUAL_VOLATILITY_PCT'' 12;
          kelly_fraction_cap = env_field (en_float env) ''RISK_KELLY_FRACTION_CAP'' (1 / 2);
          initial_margin_buffer_pct = env_field (en_float env) ''RISK_INITIAL_MARGIN_BUFFER_PCT'' 25;
          maintenance_margin_buffer_pct = env_field (en_float env) ''RISK_MAINTENANCE_MARGIN_BUFFER_PCT'' 10;
          max_gross_leverage = env_field (en_float env) ''RISK_MAX_GROSS_LEVERAGE'' 4
      in collect
       (field_errors max_daily_drawdown_pct @ field_errors max_position_notional_usd @
        field_errors max_contracts_per_order @ field_errors max_contracts_per_symbol @
        field_errors max_orders_per_second @ field_errors max_orders_per_minute @
        field_errors target_annual_volatility_pct @ field_errors kelly_fraction_cap @
        field_errors initial_margin_buffer_pct @ field_errors maintenance_margin_buffer_pct @
        field_errors max_gross_leverage)
       \<lparr>rks_max_daily_drawdown_pct = field_value max_daily_drawdown_pct,
        rks_max_position_notional_usd = field_value max_position_notional_usd,
        rks_max_contracts_per_order = field_value max_contracts_per_order,
        rks_max_contracts_per_symbol = field_value max_contracts_per_symbol,
        rks_max_orders_per_second = field_value max_orders_per_second,
        rks_max_orders_per_minute = field_value max_orders_per_minute,
        rks_target_annual_volatility_pct = field_value target_annual_volatility_pct,
        rks_kelly_fraction_cap = field_value kelly_fraction_cap,
        rks_initial_margin_buffer_pct = field_value initial_margin_buffer_pct,
        rks_maintenance_margin_buffer_pct = field_value maintenance_margin_buffer_pct,
        rks_max_gross_leverage = field_value max_gross_leverage\<rparr>)"

section \<open>The scanner strategy\<close>

record scanner_settings =
  scs_max_open_positions :: int
  scs_leverage :: int
  scs_margin_equity_pct :: real
  scs_stop_loss_equity_pct :: real
  scs_margin_type :: string
  scs_trailing_profit_arm_roi_pct :: real
  scs_trailing_profit_base_roi_pct :: real
  scs_trailing_profit_step_roi_pct :: real
  scs_trailing_profit_step_increment_roi_pct :: real
  scs_trailing_profit_hard_cap_roi_pct :: real
  scs_price_jump_pct :: real
  scs_price_jump_window_min :: int
  scs_funding_trend_window_min :: int
  scs_position_monitor_interval_s :: real
  scs_universe_refresh_interval_s :: real

definition valid_leverage :: "int \<Rightarrow> int result" where
  "valid_leverage v =
     (if \<not> (1 \<le> v \<and> v \<le> 125) then Inl (ValueError [Lit ''leverage must be in [1, 125]'']) else Inr v)"

definition valid_max_positions :: "int \<Rightarrow> int result" where
  "valid_max_positions v =
     (if v < 1 then Inl (ValueError [Lit ''max_open_positions must be at least 1'']) else Inr v)"

definition valid_equity_pct :: "real \<Rightarrow> real result" where
  "valid_equity_pct v =
     (if \<not> (0 < v \<and> v \<le> 100)
      then Inl (ValueError [Lit ''margin_equity_pct and stop_loss_equity_pct must be in (0, 100]''])
      else Inr v)"

definition valid_step_increment :: "real \<Rightarrow> real result" where
  "valid_step_increment v =
     (if v \<le> 0 then Inl (ValueError [Lit ''trailing_profit_step_increment_roi_pct must be positive''])
      else Inr v)"

definition valid_base_below_arm :: "scanner_settings \<Rightarrow> scanner_settings result" where
  "valid_base_below_arm s =
     (if scs_trailing_profit_arm_roi_pct s < scs_trailing_profit_base_roi_pct s
      then Inl (ValueError [Lit ''trailing_profit_base_roi_pct must not exceed trailing_profit_arm_roi_pct''])
      else Inr s)"

definition valid_cap_above_arm :: "scanner_settings \<Rightarrow> scanner_settings result" where
  "valid_cap_above_arm s =
     (if scs_trailing_profit_hard_cap_roi_pct s \<le> scs_trailing_profit_arm_roi_pct s
      then Inl (ValueError [Lit ''trailing_profit_hard_cap_roi_pct must exceed trailing_profit_arm_roi_pct''])
      else Inr s)"

definition make_scanner_settings :: "env_source \<Rightarrow> scanner_settings validated" where
  "make_scanner_settings env =
     (let max_open_positions = checked valid_max_positions (env_field (en_int env) ''SCANNER_MAX_OPEN_POSITIONS'' 4);
          leverage = checked valid_leverage (env_field (en_int env) ''SCANNER_LEVERAGE'' 15);
          margin_equity_pct = checked valid_equity_pct (env_field (en_float env) ''SCANNER_MARGIN_EQUITY_PCT'' 5);
          stop_loss_equity_pct = checked valid_equity_pct (env_field (en_float env) ''SCANNER_STOP_LOSS_EQUITY_PCT'' 25);
          margin_type = env_field (en_str env) ''SCANNER_MARGIN_TYPE'' ''CROSSED'';
          trailing_profit_arm_roi_pct = env_field (en_float env) ''SCANNER_TRAILING_PROFIT_ARM_ROI_PCT'' 30;
          trailing_profit_base_roi_pct = env_field (en_float env) ''SCANNER_TRAILING_PROFIT_BASE_ROI_PCT'' 20;
          trailing_profit_step_roi_pct = env_field (en_float env) ''SCANNER_TRAILING_PROFIT_STEP_ROI_PCT'' 2;
          trailing_profit_step_increment_roi_pct = checked valid_step_increment (env_field (en_float env) ''SCANNER_TRAILING_PROFIT_STEP_INCREMENT_ROI_PCT'' 5);
          trailing_profit_hard_cap_roi_pct = env_field (en_float env) ''SCANNER_TRAILING_PROFIT_HARD_CAP_ROI_PCT'' 80;
          price_jump_pct = env_field (en_float env) ''SCANNER_PRICE_JUMP_PCT'' 10;
          price_jump_window_min = env_field (en_int env) ''SCANNER_PRICE_JUMP_WINDOW_MIN'' 20;
          funding_trend_window_min = env_field (en_int env) ''SCANNER_FUNDING_TREND_WINDOW_MIN'' 20;
          position_monitor_interval_s = env_field (en_float env) ''SCANNER_POSITION_MONITOR_INTERVAL_S'' 2;
          universe_refresh_interval_s = env_field (en_float env) ''SCANNER_UNIVERSE_REFRESH_INTERVAL_S'' 3600
      in model_checked valid_cap_above_arm (model_checked valid_base_below_arm (collect
       (field_errors max_open_positions @ field_errors leverage @
        field_errors margin_equity_pct @ field_errors stop_loss_equity_pct @
        field_errors margin_type @ field_errors trailing_profit_arm_roi_pct @
        field_errors trailing_profit_base_roi_pct @ field_errors trailing_profit_step_roi_pct @
        field_errors trailing_profit_step_increment_roi_pct @
        field_errors trailing_profit_hard_cap_roi_pct @ field_errors price_jump_pct @
        field_errors price_jump_window_min @ field_errors funding_trend_window_min @
        field_errors position_monitor_interval_s @ field_errors universe_refresh_interval_s)
       \<lparr>scs_max_open_positions = field_value max_open_positions,
        scs_leverage = field_value leverage,
        scs_margin_equity_pct = field_value margin_equity_pct,
        scs_stop_loss_equity_pct = field_value stop_loss_equity_pct,
        scs_margin_type = field_value margin_type,
        scs_trailing_profit_arm_roi_pct = field_value trailing_profit_arm_roi_pct,
        scs_trailing_profit_base_roi_pct = field_value trailing_profit_base_roi_pct,
        scs_trailing_profit_step_roi_pct = field_value trailing_profit_step_roi_pct,
        scs_trailing_profit_step_increment_roi_pct = field_value trailing_profit_step_increment_roi_pct,
        scs_trailing_profit_hard_cap_roi_pct = field_value trailing_profit_hard_cap_roi_pct,
        scs_price_jump_pct = field_value price_jump_pct,
        scs_price_jump_window_min = field_value price_jump_window_min,
        scs_funding_trend_window_min = field_value funding_trend_window_min,
        scs_position_monitor_interval_s = field_value position_monitor_interval_s,
        scs_universe_refresh_interval_s = field_value universe_refresh_interval_s\<rparr>)))"

section \<open>All settings\<close>

record settings =
  stg_env :: string
  stg_log_level :: string
  stg_log_json :: bool
  stg_ibkr :: ibkr_settings
  stg_binance :: binance_settings
  stg_risk :: risk_settings
  stg_data :: data_settings
  stg_scanner :: scanner_settings
  stg_telegram :: telegram_settings

text \<open>The message prints the set of allowed values, whose order Python leaves open.\<close>

definition valid_env :: "string \<Rightarrow> string result" where
  "valid_env v =
     (if v \<notin> {''paper'', ''live'', ''backtest''}
      then Inl (ValueError [Lit ''env must be one of the allowed values'']) else Inr v)"

text \<open>An exception of a nested class's default factory is not collected: it leaves the constructor.\<close>

fun v_then :: "'a validated \<Rightarrow> ('a \<Rightarrow> 'b validated) \<Rightarrow> 'b validated" where
  "v_then (Inl es) f = Inl es"
| "v_then (Inr x) f = f x"

lemma v_then_Inr: "v_then r f = Inr y \<longleftrightarrow> (\<exists>x. r = Inr x \<and> f x = Inr y)"
  by (cases r) simp_all

definition make_settings :: "env_source \<Rightarrow> settings validated" where
  "make_settings env =
     (let mode = checked valid_env (env_field (en_str env) ''ENV'' ''paper'');
          level = env_field (en_str env) ''LOG_LEVEL'' ''INFO'';
          json = env_field (en_bool env) ''LOG_JSON'' True
      in v_then (make_ibkr_settings env) (\<lambda>ibkr.
         v_then (make_binance_settings env) (\<lambda>binance.
         v_then (make_risk_settings env) (\<lambda>risk.
         v_then (make_data_settings env) (\<lambda>data.
         v_then (make_scanner_settings env) (\<lambda>scanner.
         v_then (make_telegram_settings env) (\<lambda>telegram.
           collect (field_errors mode @ field_errors level @ field_errors json)
             \<lparr>stg_env = field_value mode, stg_log_level = field_value level, stg_log_json = field_value json,
              stg_ibkr = ibkr, stg_binance = binance, stg_risk = risk, stg_data = data,
              stg_scanner = scanner, stg_telegram = telegram\<rparr>)))))))"

text \<open>\<^verbatim>\<open>get_settings\<close> builds them once; a failed construction is not cached.\<close>

definition get_settings :: "env_source \<Rightarrow> settings option \<Rightarrow> settings validated \<times> settings option" where
  "get_settings env cache =
     (case cache of
        Some s \<Rightarrow> (Inr s, cache)
      | None \<Rightarrow> (case make_settings env of Inl es \<Rightarrow> (Inl es, None) | Inr s \<Rightarrow> (Inr s, Some s)))"

section \<open>What validation guarantees\<close>

definition risk_settings_ok :: "risk_settings \<Rightarrow> bool" where
  "risk_settings_ok s \<longleftrightarrow> 0 < rks_max_daily_drawdown_pct s \<and> rks_max_daily_drawdown_pct s \<le> 100"

definition scanner_settings_ok :: "scanner_settings \<Rightarrow> bool" where
  "scanner_settings_ok s \<longleftrightarrow>
     1 \<le> scs_leverage s \<and> scs_leverage s \<le> 125 \<and> 1 \<le> scs_max_open_positions s
     \<and> 0 < scs_margin_equity_pct s \<and> scs_margin_equity_pct s \<le> 100
     \<and> 0 < scs_stop_loss_equity_pct s \<and> scs_stop_loss_equity_pct s \<le> 100
     \<and> 0 < scs_trailing_profit_step_increment_roi_pct s
     \<and> scs_trailing_profit_base_roi_pct s \<le> scs_trailing_profit_arm_roi_pct s
     \<and> scs_trailing_profit_arm_roi_pct s < scs_trailing_profit_hard_cap_roi_pct s"

definition settings_ok :: "settings \<Rightarrow> bool" where
  "settings_ok s \<longleftrightarrow> stg_env s \<in> {''paper'', ''live'', ''backtest''}
     \<and> risk_settings_ok (stg_risk s) \<and> scanner_settings_ok (stg_scanner s)"

lemmas validator_defs = valid_leverage_def valid_max_positions_def valid_equity_pct_def
  valid_step_increment_def valid_base_below_arm_def valid_cap_above_arm_def

lemma make_risk_settings_ok: "make_risk_settings env = Inr s \<Longrightarrow> risk_settings_ok s"
  by (auto simp: make_risk_settings_def risk_settings_ok_def Let_def checked_Inr valid_drawdown_def
      split: if_splits)

lemma make_scanner_settings_ok:
  assumes "make_scanner_settings env = Inr s"
  shows "scanner_settings_ok s"
  using assms
  by (auto simp: make_scanner_settings_def scanner_settings_ok_def Let_def checked_Inr model_checked_Inr
      validator_defs split: if_splits)

lemma make_settings_ok: "make_settings env = Inr s \<Longrightarrow> settings_ok s"
  by (auto simp: make_settings_def settings_ok_def Let_def v_then_Inr checked_Inr valid_env_def
      make_risk_settings_ok make_scanner_settings_ok split: if_splits)

text \<open>An environment that sets nothing.\<close>

definition empty_env :: env_source where
  "empty_env = \<lparr>en_str = \<lambda>_. None, en_bool = \<lambda>_. None, en_int = \<lambda>_. None, en_float = \<lambda>_. None\<rparr>"

lemmas make_defs = make_settings_def make_ibkr_settings_def make_binance_settings_def make_risk_settings_def
  make_data_settings_def make_scanner_settings_def make_telegram_settings_def

end
