(* ===== verification/Live_Scanner.thy ===== *)
theory Live_Scanner
  imports Scanner Dashboard Settings
begin

text \<open>
  The live bot, \<^verbatim>\<open>scripts/run_live_binance_scanner.py\<close>: how \<^verbatim>\<open>main\<close> builds the components from
  the settings, the closures it wires between them, and one round of its monitor loop.  A closure
  is modelled as running without other tasks in between, except for the tabs that join or leave
  while the dashboard sends (the network of \<open>dash_env\<close>).  The start-up calls are the
  subject of \<^verbatim>\<open>Live_Startup\<close>, the interleaving of the tasks and the shutdown that of \<^verbatim>\<open>Live_Bot\<close>.
\<close>

section \<open>Construction\<close>

definition live_monitor_cfg :: "scanner_settings \<Rightarrow> monitor_cfg" where
  "live_monitor_cfg s =
     \<lparr>mon_stop_loss_pct = scs_stop_loss_equity_pct s, mon_leverage = of_int (scs_leverage s),
      mon_arm = scs_trailing_profit_arm_roi_pct s, mon_base = scs_trailing_profit_base_roi_pct s,
      mon_step = scs_trailing_profit_step_roi_pct s, mon_increment = scs_trailing_profit_step_increment_roi_pct s,
      mon_cap = scs_trailing_profit_hard_cap_roi_pct s\<rparr>"

definition live_scanner_params :: "scanner_settings \<Rightarrow> scanner_params" where
  "live_scanner_params s =
     \<lparr>sp_max_open = scs_max_open_positions s, sp_margin_equity_pct = scs_margin_equity_pct s,
      sp_leverage = of_int (scs_leverage s), sp_price_jump_pct = scs_price_jump_pct s\<rparr>"

definition live_scanner :: "settings \<Rightarrow> string list \<Rightarrow> scanner" where
  "live_scanner s universe =
     \<lparr>st_id = ''funding-momentum-scanner'', st_symbols = universe, st_active = True,
      sc_params = live_scanner_params (stg_scanner s), sc_pending = []\<rparr>"

text \<open>The broker is built with an empty list of symbols.\<close>

definition live_broker :: "settings \<Rightarrow> 'c binance result" where
  "live_broker s =
     (let bset = stg_binance s; sset = stg_scanner s in
      if bns_api_key bset = [] \<or> bns_api_secret bset = []
      then Inl (RuntimeError [Lit ''BINANCE_API_KEY / BINANCE_API_SECRET are not set. Put them in your .env file '',
             Lit ''(never in code, never committed to git) before running this script.''])
      else Inr (bn_init (bns_testnet bset) [] (scs_leverage sset) (scs_margin_type sset) (bns_recv_window_ms bset)
             (bns_reconnect_backoff_s bset) (bns_reconnect_backoff_max_s bset)))"

text \<open>The multipliers of the universe are the exchange's step sizes.\<close>

fun live_set_multipliers :: "(string \<Rightarrow> real result) \<Rightarrow> string list \<Rightarrow> risk_engine \<Rightarrow> risk_engine result" where
  "live_set_multipliers step_size [] re = Inr re"
| "live_set_multipliers step_size (symb # symbs) re =
     and_then (step_size symb) (\<lambda>m. live_set_multipliers step_size symbs (re_set_contract_multiplier symb m re))"

definition live_risk_engine :: "settings \<Rightarrow> date \<Rightarrow> (string \<Rightarrow> real result) \<Rightarrow> string list \<Rightarrow> risk_engine result" where
  "live_risk_engine s today step_size universe =
     (let r = stg_risk s in
      and_then (cb_init (rks_max_daily_drawdown_pct r) 1 today) (\<lambda>cb.
        live_set_multipliers step_size universe
          (re_init (rks_max_contracts_per_order r) (rks_max_contracts_per_symbol r) (rks_max_position_notional_usd r)
             (rks_max_orders_per_second r) (rks_max_orders_per_minute r) (rks_max_gross_leverage r) cb
             \<lparr>mc_schedule = Map.empty, mc_initial_buffer = rks_initial_margin_buffer_pct r,
              mc_maintenance_buffer = rks_maintenance_margin_buffer_pct r\<rparr>)))"

text \<open>The dashboard's daily-loss figure is fixed from the equity at start.\<close>

definition live_bridge_cfg :: "settings \<Rightarrow> real \<Rightarrow> string \<Rightarrow> bridge_cfg" where
  "live_bridge_cfg s equity token =
     \<lparr>bc_max_loss = rks_max_daily_drawdown_pct (stg_risk s) / 100 * equity,
      bc_max_positions = scs_max_open_positions (stg_scanner s), bc_chart = ''BTCUSDT'',
      bc_strategy = ''funding-momentum-scanner'', bc_token = token\<rparr>"

text \<open>Which account a stored session belongs to; the fingerprint is the hash of the API key.\<close>

definition live_environment_id :: "settings \<Rightarrow> string \<Rightarrow> fstr" where
  "live_environment_id s fingerprint =
     [StrP (if bns_testnet (stg_binance s) then ''testnet'' else ''live''), Lit '':'', StrP fingerprint]"

section \<open>State\<close>

record ('c, 'h) live =
  lv_bn :: "'c binance"
  lv_om :: order_manager
  lv_re :: risk_engine
  lv_sc :: scanner
  lv_mon :: monitor
  lv_db :: bridge
  lv_feed :: universe_feed
  lv_agg :: aggregator
  lv_last :: "string \<rightharpoonup> real"
  lv_recovery :: recovery
  lv_stored :: "bar_event list"
  lv_bus :: "'h bus"

record live_cfg =
  lc_universe :: "string list"
  lc_leverage :: int
  lc_margin_type :: string

text \<open>
  The surroundings of a call: the wall clock and the monotonic one, what the dashboard meets, fresh
  ids for orders and signals, and what becomes of a write to the bar store.
\<close>

record live_env =
  le_now :: datetime
  le_mono :: real
  le_dash :: dash_env
  le_ids :: "(string \<times> string) list"
  le_store :: "unit result"

definition lv_broker :: "('c binance \<Rightarrow> 'a result \<times> 'c binance) \<Rightarrow> ('c, 'h) live \<Rightarrow> 'a result \<times> ('c, 'h) live" where
  "lv_broker f lv = (case f (lv_bn lv) of (r, bn) \<Rightarrow> (r, lv\<lparr>lv_bn := bn\<rparr>))"

definition lv_bridge :: "(bridge \<Rightarrow> 'a result \<times> bridge) \<Rightarrow> ('c, 'h) live \<Rightarrow> 'a result \<times> ('c, 'h) live" where
  "lv_bridge f lv = (case f (lv_db lv) of (r, b) \<Rightarrow> (r, lv\<lparr>lv_db := b\<rparr>))"

definition lv_orders ::
  "(order_manager \<times> 'c binance \<Rightarrow> 'a result \<times> order_manager \<times> 'c binance) \<Rightarrow> ('c, 'h) live \<Rightarrow> 'a result \<times> ('c, 'h) live" where
  "lv_orders f lv = (case f (lv_om lv, lv_bn lv) of (r, om, bn) \<Rightarrow> (r, lv\<lparr>lv_om := om, lv_bn := bn\<rparr>))"

definition lv_breaker :: "(breaker \<Rightarrow> breaker) \<Rightarrow> ('c, 'h) live \<Rightarrow> ('c, 'h) live" where
  "lv_breaker f lv = lv\<lparr>lv_re := (lv_re lv)\<lparr>re_breaker := f (re_breaker (lv_re lv))\<rparr>\<rparr>"

definition live_persist :: "('c, 'h) live \<Rightarrow> unit result \<times> ('c, 'h) live" where
  "live_persist lv =
     (case sr_persist (re_breaker (lv_re lv)) (lv_recovery lv) of (r, sr) \<Rightarrow> (r, lv\<lparr>lv_recovery := sr\<rparr>))"

section \<open>Ticks\<close>

definition live_margin_requirement :: "live_cfg \<Rightarrow> string \<Rightarrow> real \<Rightarrow> real \<Rightarrow> margin_req" where
  "live_margin_requirement cfg symb price step_size =
     (let per_lot_margin = price * step_size / of_int (max (lc_leverage cfg) 1)
      in \<lparr>mr_symbol = symb, mr_initial = per_lot_margin, mr_maintenance = per_lot_margin * (8 / 10)\<rparr>)"

definition live_refresh_margin_schedule :: "live_cfg \<Rightarrow> string \<Rightarrow> real \<Rightarrow> ('c, 'h) live \<Rightarrow> unit result \<times> ('c, 'h) live" where
  "live_refresh_margin_schedule cfg symb price lv =
     (case bn_get_step_size symb (lv_bn lv) of
        Inl e \<Rightarrow> (Inl e, lv)
      | Inr step_size \<Rightarrow>
          (Inr (), lv\<lparr>lv_re := (lv_re lv)\<lparr>re_margin :=
             mc_set_requirement (live_margin_requirement cfg symb price step_size) (re_margin (lv_re lv))\<rparr>\<rparr>))"

text \<open>A completed bar is stored, then published.\<close>

definition live_completed_bar :: "live_env \<Rightarrow> bar_event \<Rightarrow> ('c, 'h) live \<Rightarrow> unit result \<times> ('c, 'h) live" where
  "live_completed_bar env bar lv =
     (case le_store env of
        Inl e \<Rightarrow> (Inl e, lv)
      | Inr _ \<Rightarrow> (Inr (), lv\<lparr>lv_stored := lv_stored lv @ [bar], lv_bus := eb_publish (BarE bar) (lv_bus lv)\<rparr>))"

definition live_on_tick :: "live_cfg \<Rightarrow> live_env \<Rightarrow> tick_event \<Rightarrow> ('c, 'h) live \<Rightarrow> unit result \<times> ('c, 'h) live" where
  "live_on_tick cfg env t lv =
     (if tk_symbol t \<notin> set (lc_universe cfg) then (Inr (), lv)
      else
        let lv1 = lv\<lparr>lv_last := (lv_last lv)(tk_symbol t \<mapsto> tick_mid t),
                     lv_re := re_update_market_state (tk_symbol t) (tick_mid t) (lv_re lv)\<rparr>
        in on_ok (live_refresh_margin_schedule cfg (tk_symbol t) (tick_mid t) lv1)
          (\<lambda>_ lv2.
             case ba_on_tick t (lv_agg lv2) of
               (Inl e, agg) \<Rightarrow> (Inl e, lv2\<lparr>lv_agg := agg\<rparr>)
             | (Inr None, agg) \<Rightarrow> (Inr (), lv2\<lparr>lv_agg := agg\<rparr>)
             | (Inr (Some bar), agg) \<Rightarrow> live_completed_bar env bar (lv2\<lparr>lv_agg := agg\<rparr>)))"

section \<open>Signals\<close>

text \<open>Gross exposure: lots at the last price seen (zero when none was), times the step size.\<close>

fun live_gross :: "(string \<rightharpoonup> real) \<Rightarrow> (string \<Rightarrow> real result) \<Rightarrow> (string, int) dict \<Rightarrow> real result" where
  "live_gross prices step_size [] = Inr 0"
| "live_gross prices step_size ((symb, qty) # ps) =
     and_then (step_size symb) (\<lambda>step. and_then (live_gross prices step_size ps) (\<lambda>rest.
       Inr (of_int \<bar>qty\<bar> * (case prices symb of None \<Rightarrow> 0 | Some p \<Rightarrow> p) * step + rest)))"

text \<open>The account as the risk engine is shown it: four requests, in this order.\<close>

definition live_account_view :: "'c api \<Rightarrow> ('c, 'h) live \<Rightarrow> account_view result \<times> ('c, 'h) live" where
  "live_account_view api lv =
     on_ok (lv_broker (bn_get_account_equity api) lv)
       (\<lambda>equity lv1. on_ok (lv_broker (bn_get_positions api) lv1)
         (\<lambda>ps lv2.
            case live_gross (lv_last lv2) (\<lambda>symb. bn_get_step_size symb (lv_bn lv2)) ps of
              Inl e \<Rightarrow> (Inl e, lv2)
            | Inr gross \<Rightarrow> on_ok (lv_broker (bn_get_margin_usage api) lv2)
                (\<lambda>m lv3. (Inr \<lparr>av_equity = equity, av_gross = gross, av_initial_used = fst m,
                              av_maintenance_used = snd m\<rparr>, lv3))))"

definition live_audit :: "live_env \<Rightarrow> string \<Rightarrow> string \<Rightarrow> fstr \<Rightarrow> ('c, 'h) live \<Rightarrow> unit result \<times> ('c, 'h) live" where
  "live_audit env level source message lv = lv_bridge (db_push_audit (le_dash env) level source message []) lv"

definition live_submit ::
  "'c api \<Rightarrow> live_env \<Rightarrow> string \<Rightarrow> signal_event \<Rightarrow> real option \<Rightarrow> ('c, 'h) live \<Rightarrow> unit result \<times> ('c, 'h) live" where
  "live_submit api env oid sg expected lv =
     (case lv_orders (om_submit (bn_venue api (le_now env)) oid (le_now env) sg expected) lv of
        (r, lv1) \<Rightarrow> (and_then r (\<lambda>_. Inr ()), lv1))"

definition live_on_signal ::
  "'c api \<Rightarrow> live_cfg \<Rightarrow> live_env \<Rightarrow> string \<Rightarrow> signal_event \<Rightarrow> ('c, 'h) live \<Rightarrow> unit result \<times> ('c, 'h) live" where
  "live_on_signal api cfg env oid sg lv =
     on_ok (live_account_view api lv)
       (\<lambda>av lv1.
          case re_check_order sg av (le_mono env) (lv_re lv1) of
            (result, re) \<Rightarrow>
              (let lv2 = lv1\<lparr>lv_re := re\<rparr> in
               if \<not> rr_passed result
               then live_audit env ''risk'' ''risk_engine''
                      ([Lit ''REJECTED ['', StrP (rr_code result), Lit ''] ''] @ rr_message result) lv2
               else on_ok (live_audit env ''risk'' ''risk_engine'' [Lit ''pre-trade checks passed''] lv2)
                 (\<lambda>_ lv3. on_ok (lv_broker (bn_ensure_symbol_ready api (sg_symbol sg) (lc_leverage cfg) (lc_margin_type cfg)) lv3)
                   (\<lambda>_ lv4. live_submit api env oid sg (lv_last lv4 (sg_symbol sg)) lv4))))"

section \<open>Operator commands\<close>

definition live_pause :: "('c, 'h) live \<Rightarrow> unit result \<times> ('c, 'h) live" where
  "live_pause lv = (Inr (), lv\<lparr>lv_sc := st_pause (lv_sc lv)\<rparr>)"

definition live_resume :: "('c, 'h) live \<Rightarrow> unit result \<times> ('c, 'h) live" where
  "live_resume lv = (Inr (), lv\<lparr>lv_sc := st_resume (lv_sc lv)\<rparr>)"

definition live_flatten_signal :: "live_env \<Rightarrow> string \<Rightarrow> int \<Rightarrow> string \<Rightarrow> signal_event" where
  "live_flatten_signal env symb qty corr =
     \<lparr>sg_ts = le_now env, sg_symbol = symb, sg_strategy = ''operator-flatten'', sg_side = (if 0 < qty then SELL else BUY),
      sg_strength = 1, sg_qty = \<bar>qty\<bar>, sg_type = MARKET, sg_limit = None, sg_tif = DAY, sg_corr = corr,
      sg_oca = None, sg_meta = []\<rparr>"

text \<open>Closing orders one by one; an exception leaves the remaining positions alone.\<close>

fun live_close_each ::
  "'c api \<Rightarrow> live_env \<Rightarrow> (string \<times> string) list \<Rightarrow> (string, int) dict \<Rightarrow> ('c, 'h) live \<Rightarrow> unit result \<times> ('c, 'h) live" where
  "live_close_each api env ((oid, corr) # ids) ((symb, qty) # ps) lv =
     on_ok (live_submit api env oid (live_flatten_signal env symb qty corr) (uf_latest_price (lv_feed lv) symb) lv)
       (\<lambda>_ lv1. live_close_each api env ids ps lv1)"
| "live_close_each api env _ _ lv = (Inr (), lv)"

definition live_flatten :: "'c api \<Rightarrow> live_env \<Rightarrow> ('c, 'h) live \<Rightarrow> unit result \<times> ('c, 'h) live" where
  "live_flatten api env lv =
     on_ok (lv_broker (bn_get_positions api) lv)
       (\<lambda>positions lv1.
          let open_positions = filter (\<lambda>p. snd p \<noteq> 0) positions in
          if open_positions = []
          then live_audit env ''risk'' ''operator'' [Lit ''Flatten requested: no open positions to close''] lv1
          else on_ok (live_audit env ''risk'' ''operator''
                 [Lit ''FLATTEN: closing '', IntP (int (length open_positions)), Lit '' position(s) at market''] lv1)
            (\<lambda>_ lv2. live_close_each api env (le_ids env) open_positions lv2))"

definition live_engage_kill_switch :: "'c api \<Rightarrow> live_env \<Rightarrow> ('c, 'h) live \<Rightarrow> unit result \<times> ('c, 'h) live" where
  "live_engage_kill_switch api env lv =
     on_ok (live_pause lv) (\<lambda>_ lv1.
     on_ok (lv_orders (om_cancel_all (bn_venue api (le_now env))) lv1) (\<lambda>_ lv2.
     on_ok (live_persist (lv_breaker (cb_force_halt [Lit ''Manual kill switch via dashboard'']) lv2)) (\<lambda>_ lv3.
       live_audit env ''error'' ''operator''
         [Lit ''KILL SWITCH engaged via dashboard: cancelled all working orders and halted new entries '',
          Lit ''(existing open positions are still watched for stop-loss/take-profit)''] lv3)))"

definition live_reset_kill_switch :: "'c api \<Rightarrow> live_env \<Rightarrow> ('c, 'h) live \<Rightarrow> unit result \<times> ('c, 'h) live" where
  "live_reset_kill_switch api env lv =
     on_ok (lv_broker (bn_get_account_equity api) lv) (\<lambda>equity lv1.
     on_ok (live_resume (lv_breaker (cb_reset_session equity (date_of (le_now env))) lv1)) (\<lambda>_ lv2.
     on_ok (live_persist lv2) (\<lambda>_ lv3.
       live_audit env ''info'' ''operator'' [Lit ''Kill switch reset via dashboard: trading loop re-armed''] lv3)))"

definition live_command :: "'c api \<Rightarrow> live_env \<Rightarrow> string \<Rightarrow> ('c, 'h) live \<Rightarrow> unit result \<times> ('c, 'h) live" where
  "live_command api env c lv =
     (if c = ''pause'' then live_pause lv
      else if c = ''resume'' then live_resume lv
      else if c = ''flatten'' then live_flatten api env lv
      else if c = ''kill_switch'' then live_engage_kill_switch api env lv
      else live_reset_kill_switch api env lv)"

text \<open>A message of a tab, served by the bridge with these handlers.\<close>

definition live_handler ::
  "'c api \<Rightarrow> live_env \<Rightarrow> string \<Rightarrow> bridge \<times> ('c, 'h) live \<Rightarrow> unit result \<times> bridge \<times> ('c, 'h) live" where
  "live_handler api env c bw =
     (case live_command api env c ((snd bw)\<lparr>lv_db := fst bw\<rparr>) of (r, lv) \<Rightarrow> (r, lv_db lv, lv))"

definition live_incoming ::
  "'c api \<Rightarrow> bridge_cfg \<Rightarrow> live_env \<Rightarrow> incoming \<Rightarrow> ('c, 'h) live \<Rightarrow> unit result \<times> ('c, 'h) live" where
  "live_incoming api bcfg env raw lv =
     (case db_handle_incoming bcfg (le_dash env) (live_handler api env) raw (lv_db lv, lv) of
        (r, b, lv1) \<Rightarrow> (r, lv1\<lparr>lv_db := b\<rparr>))"

section \<open>Closing a position\<close>

definition live_on_position_close :: "live_env \<Rightarrow> string \<Rightarrow> fstr \<Rightarrow> bridge \<Rightarrow> unit result \<times> bridge" where
  "live_on_position_close env symb reason b =
     db_push_audit (le_dash env) ''risk'' ''position_monitor'' ([StrP symb, Lit '': ''] @ reason) []
       (db_note_close_reason symb reason b)"

text \<open>What the position monitor is built with: the step sizes and latest prices of the moment.\<close>

definition live_monitor_env :: "'c api \<Rightarrow> live_env \<Rightarrow> 'c binance \<Rightarrow> universe_feed \<Rightarrow> ('c, bridge) monitor_env" where
  "live_monitor_env api env bn feed =
     \<lparr>me_api = api, me_step_size = (\<lambda>symb. bn_get_step_size symb bn), me_on_close = live_on_position_close env,
      me_price = uf_latest_price feed\<rparr>"

text \<open>One poll of the monitor, over the components it shares with the rest of the bot.\<close>

definition live_poll ::
  "'c api \<Rightarrow> monitor_cfg \<Rightarrow> live_env \<Rightarrow> (string \<Rightarrow> string \<times> string) \<Rightarrow> ('c, 'h) live \<Rightarrow> unit result \<times> ('c, 'h) live" where
  "live_poll api mcfg env oids lv =
     (case pm_loop_step mcfg (live_monitor_env api env (lv_bn lv) (lv_feed lv)) (le_now env, oids)
             \<lparr>dk_mon = lv_mon lv, dk_om = lv_om lv, dk_bn = lv_bn lv, dk_world = lv_db lv\<rparr> of
        (r, dk) \<Rightarrow> (r, lv\<lparr>lv_mon := dk_mon dk, lv_om := dk_om dk, lv_bn := dk_bn dk, lv_db := dk_world dk\<rparr>))"

section \<open>The monitor loop\<close>

text \<open>The part of a round inside the \<^verbatim>\<open>try\<close>.\<close>

definition live_new_day :: "live_env \<Rightarrow> ('c, 'h) live \<Rightarrow> unit result \<times> ('c, 'h) live" where
  "live_new_day env lv =
     (case cb_consume_auto_reset (re_breaker (lv_re lv)) of
        (False, b) \<Rightarrow> (Inr (), lv_breaker (\<lambda>_. b) lv)
      | (True, b) \<Rightarrow>
          on_ok (live_audit env ''info'' ''circuit_breaker''
              [Lit ''New trading day: daily drawdown limit auto-reset, trading resumed''] (lv_breaker (\<lambda>_. b) lv))
            (\<lambda>_ lv1. (Inr (), lv1\<lparr>lv_db := db_notify NewDayN (lv_db lv1)\<rparr>)))"

definition live_update_breaker :: "live_env \<Rightarrow> real \<Rightarrow> ('c, 'h) live \<Rightarrow> bool result \<times> ('c, 'h) live" where
  "live_update_breaker env equity lv =
     (case cb_update equity (le_now env) (re_breaker (lv_re lv)) of (r, b) \<Rightarrow> (r, lv_breaker (\<lambda>_. b) lv))"

definition live_monitor_check :: "'c api \<Rightarrow> live_env \<Rightarrow> ('c, 'h) live \<Rightarrow> unit result \<times> ('c, 'h) live" where
  "live_monitor_check api env lv =
     on_ok (lv_broker (bn_get_account_equity api) lv) (\<lambda>equity lv1.
     on_ok (lv_broker (bn_get_positions api) lv1) (\<lambda>ps lv2.
     on_ok (live_update_breaker env equity (lv2\<lparr>lv_re := sr_update_positions ps (lv_re lv2)\<rparr>)) (\<lambda>tripped lv3.
     on_ok (if tripped then lv_orders (om_cancel_all (bn_venue api (le_now env))) lv3 else (Inr (), lv3)) (\<lambda>_ lv4.
     on_ok (live_new_day env lv4) (\<lambda>_ lv5. live_persist lv5)))))"

text \<open>An exception is logged; the next round comes five seconds later, or fifteen after an exception.\<close>

definition live_monitor_round :: "'c api \<Rightarrow> live_env \<Rightarrow> ('c, 'h) live \<Rightarrow> ('c, 'h) live" where
  "live_monitor_round api env lv = snd (live_monitor_check api env lv)"

definition live_monitor_pause :: "'c api \<Rightarrow> live_env \<Rightarrow> ('c, 'h) live \<Rightarrow> real" where
  "live_monitor_pause api env lv = (if ok (fst (live_monitor_check api env lv)) then 5 else 15)"

section \<open>A sample bot\<close>

definition keyed_env :: env_source where
  "keyed_env = empty_env\<lparr>en_str := [''BINANCE_API_KEY'' \<mapsto> Inr ''k'', ''BINANCE_API_SECRET'' \<mapsto> Inr ''k'']\<rparr>"

lemma keyed_fields:
  "env_field (en_bool keyed_env) v x = Inr x" "env_field (en_int keyed_env) v i = Inr i"
  "env_field (en_float keyed_env) v r = Inr r"
  "env_field (en_str keyed_env) v s = (if v = ''BINANCE_API_SECRET'' \<or> v = ''BINANCE_API_KEY'' then Inr ''k'' else Inr s)"
  by (simp_all add: env_field_def keyed_env_def empty_env_def)

definition sample_settings :: settings where
  "sample_settings = projr (make_settings keyed_env)"

lemma sample_settings:
  "make_settings keyed_env = Inr sample_settings"
  "live_broker sample_settings = Inr (bn_init True [] 15 ''CROSSED'' 5000 2 60)"
proof -
  note sub = keyed_fields collect_def Let_def field_errors_def
  obtain ib where ib: "make_ibkr_settings keyed_env = Inr ib" by (simp add: make_ibkr_settings_def sub del: field_errors_Nil)
  obtain rk where rk: "make_risk_settings keyed_env = Inr rk"
    by (simp add: make_risk_settings_def sub valid_drawdown_def del: field_errors_Nil)
  obtain dt where dt: "make_data_settings keyed_env = Inr dt" by (simp add: make_data_settings_def sub del: field_errors_Nil)
  obtain tg where tg: "make_telegram_settings keyed_env = Inr tg" by (simp add: make_telegram_settings_def sub del: field_errors_Nil)
  obtain sc where sc: "make_scanner_settings keyed_env = Inr sc" "scs_leverage sc = 15" "scs_margin_type sc = ''CROSSED''"
    by (simp add: make_scanner_settings_def sub validator_defs model_checked_def del: field_errors_Nil)
  obtain bs where bs: "make_binance_settings keyed_env = Inr bs" "bns_api_key bs = ''k''" "bns_api_secret bs = ''k''"
      "bns_testnet bs" "bns_recv_window_ms bs = 5000" "bns_reconnect_backoff_s bs = 2" "bns_reconnect_backoff_max_s bs = 60"
    by (simp add: make_binance_settings_def sub del: field_errors_Nil)
  have "make_settings keyed_env = Inr \<lparr>stg_env = ''paper'', stg_log_level = ''INFO'', stg_log_json = True, stg_ibkr = ib,
      stg_binance = bs, stg_risk = rk, stg_data = dt, stg_scanner = sc, stg_telegram = tg\<rparr>"
    by (simp add: make_settings_def ib rk dt tg sc(1) bs(1) sub valid_env_def del: field_errors_Nil)
  then show "make_settings keyed_env = Inr sample_settings"
    "live_broker sample_settings = Inr (bn_init True [] 15 ''CROSSED'' 5000 2 60)"
    using sc(2,3) bs(2-) by (simp_all add: sample_settings_def live_broker_def)
qed

definition sample_live_broker :: "(string \<times> cancel_ref) list binance" where
  "sample_live_broker = (bn_init True [] 15 ''CROSSED'' 5000 2 60)
     \<lparr>bn_client := Some [], bn_filters := [(''BTCUSDT'', sample_filters)]\<rparr>"

definition sample_live :: "((string \<times> cancel_ref) list, nat) live" where
  "sample_live =
     \<lparr>lv_bn = sample_live_broker, lv_om = om_init, lv_re = sample_engine\<lparr>re_positions := [''ETHUSDT'' \<mapsto> 49]\<rparr>,
      lv_sc = \<lparr>st_id = ''s'', st_symbols = [''BTCUSDT''], st_active = True,
        sc_params = \<lparr>sp_max_open = 4, sp_margin_equity_pct = 5, sp_leverage = 15, sp_price_jump_pct = 10\<rparr>, sc_pending = []\<rparr>,
      lv_mon = pm_init, lv_db = sample_bridge, lv_feed = uf_init 20 20, lv_agg = \<lparr>ba_timeframe = 60, ba_open_bars = Map.empty\<rparr>,
      lv_last = Map.empty, lv_recovery = sample_recovery, lv_stored = [], lv_bus = eb_init 10\<rparr>"

definition sample_live_env :: live_env where
  "sample_live_env = \<lparr>le_now = 0, le_mono = 0, le_dash = sample_dash_env, le_ids = [(''o'', ''c'')], le_store = Inr ()\<rparr>"

definition sample_live_cfg :: live_cfg where
  "sample_live_cfg = \<lparr>lc_universe = [''BTCUSDT''], lc_leverage = 15, lc_margin_type = ''CROSSED''\<rparr>"

section \<open>Frames\<close>

lemma lv_broker_frame [simp]:
  "lv_om (snd (lv_broker f lv)) = lv_om lv" "lv_re (snd (lv_broker f lv)) = lv_re lv"
  "lv_sc (snd (lv_broker f lv)) = lv_sc lv" "lv_db (snd (lv_broker f lv)) = lv_db lv"
  "lv_last (snd (lv_broker f lv)) = lv_last lv" "lv_recovery (snd (lv_broker f lv)) = lv_recovery lv"
  by (simp_all add: lv_broker_def split: prod.split)

lemma live_audit_frame [simp]:
  "lv_om (snd (live_audit env level src msg lv)) = lv_om lv" "lv_re (snd (live_audit env level src msg lv)) = lv_re lv"
  "lv_bn (snd (live_audit env level src msg lv)) = lv_bn lv" "lv_sc (snd (live_audit env level src msg lv)) = lv_sc lv"
  "lv_last (snd (live_audit env level src msg lv)) = lv_last lv"
  "lv_recovery (snd (live_audit env level src msg lv)) = lv_recovery lv"
  by (simp_all add: live_audit_def lv_bridge_def split: prod.split)

lemma lv_breaker_frame [simp]:
  "lv_om (lv_breaker f lv) = lv_om lv" "lv_bn (lv_breaker f lv) = lv_bn lv"
  "lv_re (lv_breaker f lv) = (lv_re lv)\<lparr>re_breaker := f (re_breaker (lv_re lv))\<rparr>"
  "lv_recovery (lv_breaker f lv) = lv_recovery lv"
  by (simp_all add: lv_breaker_def)

lemma live_persist_frame [simp]:
  "lv_om (snd (live_persist lv)) = lv_om lv" "lv_re (snd (live_persist lv)) = lv_re lv"
  "lv_bn (snd (live_persist lv)) = lv_bn lv"
  by (simp_all add: live_persist_def split: prod.split)

lemma lv_orders_frame [simp]:
  "lv_re (snd (lv_orders f lv)) = lv_re lv" "lv_last (snd (lv_orders f lv)) = lv_last lv"
  by (simp_all add: lv_orders_def split: prod.split)

lemma live_submit_frame [simp]: "lv_re (snd (live_submit api env oid sg expected lv)) = lv_re lv"
proof -
  obtain r lv1 where o: "lv_orders (om_submit (bn_venue api (le_now env)) oid (le_now env) sg expected) lv = (r, lv1)"
    by (cases "lv_orders (om_submit (bn_venue api (le_now env)) oid (le_now env) sg expected) lv")
  then have "lv_re lv1 = lv_re lv"
    using lv_orders_frame(1) [of "om_submit (bn_venue api (le_now env)) oid (le_now env) sg expected" lv] by simp
  with o show ?thesis by (simp add: live_submit_def)
qed

lemma lv_cancel_all_frame [simp]:
  "lv_om (snd (lv_orders (om_cancel_all vn) lv)) = lv_om lv"
  by (simp add: lv_orders_def om_cancel_all_def split: prod.split)

text \<open>Asking for the account leaves orders, engine and prices alone.\<close>

definition live_kept :: "('c, 'h) live \<Rightarrow> ('c, 'h) live \<Rightarrow> bool" where
  "live_kept lv lv' \<longleftrightarrow> lv_om lv' = lv_om lv \<and> lv_re lv' = lv_re lv \<and> lv_last lv' = lv_last lv"

lemma live_account_view_kept: "live_kept lv (snd (live_account_view api lv))"
  unfolding live_account_view_def
  by (intro on_ok_snd [where P = "live_kept lv"])
    (auto simp: live_kept_def split: sum.split intro!: on_ok_snd [where P = "\<lambda>s. lv_om s = lv_om lv \<and> lv_re s = lv_re lv \<and> lv_last s = lv_last lv"])

section \<open>Every order of a signal passed the risk engine\<close>

lemma live_on_signal_orders:
  assumes "live_account_view api lv = (Inr av, lv1)"
  shows "lv_re (snd (live_on_signal api cfg env oid sg lv)) = snd (re_check_order sg av (le_mono env) (lv_re lv))"
    and "\<not> rr_passed (fst (re_check_order sg av (le_mono env) (lv_re lv))) \<Longrightarrow>
      lv_om (snd (live_on_signal api cfg env oid sg lv)) = lv_om lv"
proof -
  have kept: "lv_om lv1 = lv_om lv" "lv_re lv1 = lv_re lv"
    using live_account_view_kept [of lv api] assms by (simp_all add: live_kept_def)
  obtain res re where chk: "re_check_order sg av (le_mono env) (lv_re lv) = (res, re)"
    by (cases "re_check_order sg av (le_mono env) (lv_re lv)")
  have "lv_re (snd (live_on_signal api cfg env oid sg lv)) = re"
    by (auto simp: live_on_signal_def assms kept chk Let_def intro!: on_ok_snd [where P = "\<lambda>s. lv_re s = re"])
  with chk show "lv_re (snd (live_on_signal api cfg env oid sg lv)) = snd (re_check_order sg av (le_mono env) (lv_re lv))"
    by simp
  assume "\<not> rr_passed (fst (re_check_order sg av (le_mono env) (lv_re lv)))"
  with chk show "lv_om (snd (live_on_signal api cfg env oid sg lv)) = lv_om lv"
    by (simp add: live_on_signal_def assms kept)
qed

text \<open>
  Property C2. A signal changes the order table only when the risk engine has approved it against
  the equity, the gross exposure and the margins the broker reports at that moment: the breaker is
  not halted, the size is within the per-order limit, a rate token was granted, and position,
  notional, leverage and margin are within their limits.  Nothing but the rate limiter changes in
  the engine, and when a request for the account fails nothing changes in either.
\<close>

theorem live_orders_pass_risk:
  "(lv_om (snd (live_on_signal api cfg env oid sg lv)) = lv_om lv \<or>
      (\<exists>av lv1. live_account_view api lv = (Inr av, lv1)
        \<and> \<not> cb_halted (re_breaker (lv_re lv)) \<and> 0 < \<bar>sg_qty sg\<bar> \<and> \<bar>sg_qty sg\<bar> \<le> re_max_order (lv_re lv)
        \<and> fst (rl_admit (le_mono env) (re_limiter (lv_re lv))) \<and> re_within_limits sg av (lv_re lv)))
   \<and> (\<exists>l. lv_re (snd (live_on_signal api cfg env oid sg lv)) = (lv_re lv)\<lparr>re_limiter := l\<rparr>)"
    (is "(_ \<or> ?approved) \<and> _")
proof -
  define lv' where "lv' = snd (live_on_signal api cfg env oid sg lv)"
  obtain r lv1 where view: "live_account_view api lv = (r, lv1)" by (cases "live_account_view api lv")
  have "(lv_om lv' = lv_om lv \<or> ?approved) \<and> (\<exists>l. lv_re lv' = (lv_re lv)\<lparr>re_limiter := l\<rparr>)"
  proof (cases r)
    case (Inl e)
    then have "lv' = lv1" by (simp add: lv'_def live_on_signal_def view)
    then have "lv_om lv' = lv_om lv" "lv_re lv' = (lv_re lv)\<lparr>re_limiter := re_limiter (lv_re lv)\<rparr>"
      using live_account_view_kept [of lv api] view by (simp_all add: live_kept_def)
    then show ?thesis by blast
  next
    case (Inr av)
    note step = live_on_signal_orders [OF view [unfolded Inr], where cfg = cfg and env = env and oid = oid and sg = sg]
    have "\<exists>l. lv_re lv' = (lv_re lv)\<lparr>re_limiter := l\<rparr>"
    proof (cases "\<not> cb_halted (re_breaker (lv_re lv)) \<and> re_size_ok sg (lv_re lv)")
      case True
      then show ?thesis by (auto simp: lv'_def step(1) re_check_order_state)
    next
      case False
      then have "lv_re lv' = (lv_re lv)\<lparr>re_limiter := re_limiter (lv_re lv)\<rparr>"
        by (auto simp: lv'_def step(1) re_check_order_state)
      then show ?thesis by blast
    qed
    moreover have "lv_om lv' = lv_om lv \<or> ?approved"
      using step(2) view Inr
      by (auto simp: lv'_def re_check_order_passed_iff re_takes_token_def re_size_ok_def)
    ultimately show ?thesis by blast
  qed
  then show ?thesis by (simp add: lv'_def)
qed

section \<open>The kill switch\<close>

datatype live_op =
    LTick live_env tick_event
  | LSignal live_env string signal_event
  | LMonitor live_env

fun live_step :: "'c api \<Rightarrow> live_cfg \<Rightarrow> live_op \<Rightarrow> ('c, 'h) live \<Rightarrow> ('c, 'h) live" where
  "live_step api cfg (LTick env t) lv = snd (live_on_tick cfg env t lv)"
| "live_step api cfg (LSignal env oid sg) lv = snd (live_on_signal api cfg env oid sg lv)"
| "live_step api cfg (LMonitor env) lv = live_monitor_round api env lv"

fun live_op_env :: "live_op \<Rightarrow> live_env" where
  "live_op_env (LTick env _) = env"
| "live_op_env (LSignal env _ _) = env"
| "live_op_env (LMonitor env) = env"

definition live_locked :: "order_manager \<Rightarrow> date \<Rightarrow> ('c, 'h) live \<Rightarrow> bool" where
  "live_locked om d lv \<longleftrightarrow> lv_om lv = om \<and> cb_halted (re_breaker (lv_re lv)) \<and> cb_date (re_breaker (lv_re lv)) = d"

lemma live_on_tick_keeps:
  "lv_om (snd (live_on_tick cfg env t lv)) = lv_om lv \<and> re_breaker (lv_re (snd (live_on_tick cfg env t lv))) = re_breaker (lv_re lv)"
proof (cases "tk_symbol t \<in> set (lc_universe cfg)")
  case False
  then show ?thesis by (simp add: live_on_tick_def)
next
  case True
  let ?P = "\<lambda>s :: ('b, 'c) live. lv_om s = lv_om lv \<and> re_breaker (lv_re s) = re_breaker (lv_re lv)"
  show ?thesis
    unfolding live_on_tick_def Let_def
    using True
    by (auto intro!: on_ok_snd [where P = ?P] simp: live_refresh_margin_schedule_def re_update_market_state_def
        live_completed_bar_def split: sum.split option.split prod.split)
qed

text \<open>What keeps the lock, call by call.\<close>

lemma live_locked_kept [simp]:
  "live_locked om d (snd (lv_broker f lv)) = live_locked om d lv"
  "live_locked om d (snd (live_audit env level src msg lv)) = live_locked om d lv"
  "live_locked om d (snd (live_persist lv)) = live_locked om d lv"
  "live_locked om d (snd (lv_orders (om_cancel_all vn) lv)) = live_locked om d lv"
  "live_locked om d (lv\<lparr>lv_db := b\<rparr>) = live_locked om d lv"
  "live_locked om d (lv\<lparr>lv_re := sr_update_positions ps (lv_re lv)\<rparr>) = live_locked om d lv"
  by (simp_all add: live_locked_def)

lemma live_update_breaker_locked:
  "live_locked om d lv \<Longrightarrow> date_of (le_now env) = d \<Longrightarrow> live_locked om d (snd (live_update_breaker env equity lv))"
  by (simp add: live_locked_def live_update_breaker_def cb_update_halted)

lemma live_new_day_locked:
  assumes "live_locked om d lv"
  shows "live_locked om d (snd (live_new_day env lv))"
proof -
  have b: "live_locked om d (lv_breaker (\<lambda>_. (re_breaker (lv_re lv))\<lparr>cb_auto_reset := False\<rparr>) lv)"
    using assms by (simp add: live_locked_def)
  show ?thesis
  proof (cases "cb_auto_reset (re_breaker (lv_re lv))")
    case True
    with b show ?thesis
      by (auto simp: live_new_day_def cb_consume_auto_reset_def intro!: on_ok_snd [where P = "live_locked om d"])
  next
    case False
    with b show ?thesis by (simp add: live_new_day_def cb_consume_auto_reset_def)
  qed
qed

lemma live_monitor_locked:
  assumes "live_locked om d lv" "date_of (le_now env) = d"
  shows "live_locked om d (snd (live_monitor_check api env lv))"
  unfolding live_monitor_check_def
  using assms
  by (intro on_ok_snd [where P = "live_locked om d"] live_update_breaker_locked live_new_day_locked)
    (auto simp: live_locked_def split: if_splits)

lemma live_on_signal_locked:
  assumes "live_locked om d lv"
  shows "live_locked om d (snd (live_on_signal api cfg env oid sg lv))"
proof -
  obtain r lv1 where view: "live_account_view api lv = (r, lv1)" by (cases "live_account_view api lv")
  show ?thesis
  proof (cases r)
    case (Inl e)
    with view assms live_account_view_kept [of lv api] show ?thesis
      by (simp add: live_on_signal_def live_kept_def live_locked_def)
  next
    case (Inr av)
    note step = live_on_signal_orders [OF view [unfolded Inr], where cfg = cfg and env = env and oid = oid and sg = sg]
    from assms have "\<not> rr_passed (fst (re_check_order sg av (le_mono env) (lv_re lv)))"
        "re_breaker (snd (re_check_order sg av (le_mono env) (lv_re lv))) = re_breaker (lv_re lv)"
      by (simp_all add: live_locked_def re_check_order_passed_iff re_takes_token_def re_check_order_state)
    with step assms show ?thesis by (simp add: live_locked_def)
  qed
qed

lemma live_step_locked:
  assumes "live_locked om d lv" "date_of (le_now (live_op_env oper)) = d"
  shows "live_locked om d (live_step api cfg oper lv)"
proof (cases oper)
  case (LTick env t)
  with assms live_on_tick_keeps [of cfg env t lv] show ?thesis by (simp add: live_locked_def)
qed (use assms in \<open>simp_all add: live_on_signal_locked live_monitor_locked live_monitor_round_def\<close>)

lemma live_run_locked:
  assumes "live_locked om d lv" "\<forall>oper \<in> set ops. date_of (le_now (live_op_env oper)) = d"
  shows "live_locked om d (fold (live_step api cfg) ops lv)"
  using assms by (induction ops arbitrary: lv) (simp_all add: live_step_locked)

lemma live_engage_effect:
  assumes "bn_client (lv_bn lv) \<noteq> None"
  shows "lv_om (snd (live_engage_kill_switch api env lv)) = lv_om lv"
    and "cb_halted (re_breaker (lv_re (snd (live_engage_kill_switch api env lv))))"
    and "cb_date (re_breaker (lv_re (snd (live_engage_kill_switch api env lv)))) = cb_date (re_breaker (lv_re lv))"
    and "lv_bn (snd (live_engage_kill_switch api env lv)) = snd (bn_cancel_all api (lv_bn lv))"
proof -
  let ?lv1 = "lv\<lparr>lv_sc := st_pause (lv_sc lv)\<rparr>"
  let ?lv2 = "?lv1\<lparr>lv_bn := snd (bn_cancel_all api (lv_bn lv))\<rparr>"
  have "lv_orders (om_cancel_all (bn_venue api (le_now env))) ?lv1 = (Inr (), ?lv2)"
    using assms by (simp add: lv_orders_def om_cancel_all_def bn_venue_def bn_cancel_all_def)
  then have eng: "live_engage_kill_switch api env lv =
      on_ok (live_persist (lv_breaker (cb_force_halt [Lit ''Manual kill switch via dashboard'']) ?lv2))
        (\<lambda>_ lv3. live_audit env ''error'' ''operator''
           [Lit ''KILL SWITCH engaged via dashboard: cancelled all working orders and halted new entries '',
            Lit ''(existing open positions are still watched for stop-loss/take-profit)''] lv3)"
    by (simp add: live_engage_kill_switch_def live_pause_def)
  have "(\<lambda>s. lv_om s = lv_om lv \<and> lv_bn s = snd (bn_cancel_all api (lv_bn lv))
      \<and> re_breaker (lv_re s) = cb_force_halt [Lit ''Manual kill switch via dashboard''] (re_breaker (lv_re lv)))
    (snd (live_engage_kill_switch api env lv))"
    unfolding eng by (rule on_ok_snd) simp_all
  then show "lv_om (snd (live_engage_kill_switch api env lv)) = lv_om lv"
    and "cb_halted (re_breaker (lv_re (snd (live_engage_kill_switch api env lv))))"
    and "cb_date (re_breaker (lv_re (snd (live_engage_kill_switch api env lv)))) = cb_date (re_breaker (lv_re lv))"
    and "lv_bn (snd (live_engage_kill_switch api env lv)) = snd (bn_cancel_all api (lv_bn lv))"
    by (simp_all add: cb_force_halt_def)
qed

text \<open>
  Once the kill switch has been engaged, no signal becomes an order for the rest of
  the day, whatever ticks, signals and rounds of the monitor loop follow and in whatever order,
  and even if writing the state file or telling the tabs failed.
\<close>

theorem live_kill_switch_holds:
  assumes "bn_client (lv_bn lv) \<noteq> None"
    and "\<forall>oper \<in> set ops. date_of (le_now (live_op_env oper)) = cb_date (re_breaker (lv_re lv))"
  shows "lv_om (fold (live_step api cfg) ops (snd (live_engage_kill_switch api env lv))) = lv_om lv
    \<and> cb_halted (re_breaker (lv_re (fold (live_step api cfg) ops (snd (live_engage_kill_switch api env lv)))))"
proof -
  let ?d = "cb_date (re_breaker (lv_re lv))"
  have "live_locked (lv_om lv) ?d (snd (live_engage_kill_switch api env lv))"
    using live_engage_effect [OF assms(1)] by (simp add: live_locked_def)
  then have "live_locked (lv_om lv) ?d (fold (live_step api cfg) ops (snd (live_engage_kill_switch api env lv)))"
    using assms(2) by (rule live_run_locked)
  then show ?thesis unfolding live_locked_def by blast
qed

theorem live_kill_switch_holds_witness:
  "lv_om (fold (live_step sample_api sample_live_cfg)
      [LSignal sample_live_env ''o'' (sample_signal BUY 1), LMonitor sample_live_env,
       LSignal sample_live_env ''p'' (sample_signal SELL 2)]
      (snd (live_engage_kill_switch sample_api sample_live_env sample_live))) = om_init"
proof -
  have "bn_client (lv_bn sample_live) \<noteq> None"
    by (simp add: sample_live_def sample_live_broker_def)
  moreover have "\<forall>oper \<in> set [LSignal sample_live_env ''o'' (sample_signal BUY 1), LMonitor sample_live_env,
       LSignal sample_live_env ''p'' (sample_signal SELL 2)].
      date_of (le_now (live_op_env oper)) = cb_date (re_breaker (lv_re sample_live))"
    by (simp add: sample_live_env_def date_of_def sample_live_def sample_engine_def re_init_def)
  ultimately have "lv_om (fold (live_step sample_api sample_live_cfg)
      [LSignal sample_live_env ''o'' (sample_signal BUY 1), LMonitor sample_live_env,
       LSignal sample_live_env ''p'' (sample_signal SELL 2)]
      (snd (live_engage_kill_switch sample_api sample_live_env sample_live))) = lv_om sample_live"
    by (rule live_kill_switch_holds [THEN conjunct1])
  then show ?thesis by (simp only: sample_live_def live.simps)
qed

text \<open>
  Property C40. The broker of the live bot is built without symbols, and its \<^verbatim>\<open>cancel_all\<close> goes over
  those symbols: engaging the kill switch sends no cancellation for any order, whatever is
  working, although the audit line says that all working orders were cancelled.
\<close>

theorem live_kill_switch_cancels_nothing:
  assumes "live_broker s = Inr bn0" "bn_symbols (lv_bn lv) = bn_symbols bn0" "bn_client (lv_bn lv) \<noteq> None"
  shows "lv_bn (snd (live_engage_kill_switch api env lv)) = lv_bn lv"
proof -
  have "bn_symbols bn0 = []"
    using assms(1) by (auto simp: live_broker_def bn_init_def Let_def split: if_splits)
  with assms show ?thesis by (simp add: live_engage_effect bn_cancel_all_def)
qed

theorem live_kill_switch_cancels_nothing_witness:
  "bn_client (lv_bn (snd (live_engage_kill_switch sample_api sample_live_env sample_live))) = Some []"
proof -
  have "lv_bn (snd (live_engage_kill_switch sample_api sample_live_env sample_live)) = lv_bn sample_live"
    by (rule live_kill_switch_cancels_nothing [OF sample_settings(2)])
      (simp_all add: sample_live_def sample_live_broker_def bn_init_def)
  then show ?thesis by (simp only:) (simp add: sample_live_def sample_live_broker_def)
qed

section \<open>Positions the broker no longer reports\<close>

lemma on_ok_snd_val:
  assumes "P (snd r)" "\<And>x. fst r = Inr x \<Longrightarrow> P (snd r) \<Longrightarrow> P (snd (k x (snd r)))"
  shows "P (snd (on_ok r k))"
proof -
  obtain a s where r: "r = (a, s)" by (cases r)
  with assms show ?thesis by (cases a) simp_all
qed

lemma bn_positions_absent:
  assumes "symb \<notin> pr_symbol ` set rows"
  shows "symb \<notin> fst ` set (bn_positions_of fs rows)"
proof -
  have "symb \<notin> fst ` set (fold (\<lambda>p d. case bn_row_lots fs p of None \<Rightarrow> d | Some n \<Rightarrow> dset (pr_symbol p) n d) rows d)"
    if "symb \<notin> fst ` set d" for d
    using assms that
  proof (induction rows arbitrary: d)
    case Nil
    then show ?case by simp
  next
    case (Cons p rows)
    have "symb \<notin> fst ` set (dset (pr_symbol p) n d)" for n
      using Cons.prems by (auto dest!: set_dset)
    with Cons show ?case by (auto split: option.split)
  qed
  from this [of "[]"] show ?thesis by (simp add: bn_positions_of_def)
qed

definition ap_never_reports :: "'c api \<Rightarrow> string \<Rightarrow> bool" where
  "ap_never_reports api symb \<longleftrightarrow>
     (\<forall>c. case fst (ap_positions api c) of Inl _ \<Rightarrow> True | Inr rows \<Rightarrow> symb \<notin> pr_symbol ` set rows)"

lemma bn_get_positions_absent:
  assumes "ap_never_reports api symb" "fst (bn_get_positions api bn) = Inr ps"
  shows "map_of (rev ps) symb = None"
proof -
  obtain c where c: "bn_client bn = Some c"
    using assms(2) by (cases "bn_client bn") (simp_all add: bn_get_positions_def bn_call_def)
  obtain rows c1 where r: "ap_positions api c = (Inr rows, c1)"
    using assms(2) c
    by (cases "ap_positions api c"; cases "fst (ap_positions api c)") (auto simp: bn_get_positions_def bn_call_def)
  then have "ps = bn_positions_of (bn_filters bn) rows"
    using assms(2) c by (simp add: bn_get_positions_def bn_call_def)
  moreover have "symb \<notin> pr_symbol ` set rows"
    using assms(1) r unfolding ap_never_reports_def by (metis fst_conv sum.case(2))
  ultimately show ?thesis using bn_positions_absent by (simp add: map_of_eq_None_iff)
qed

definition live_book :: "string \<Rightarrow> int \<Rightarrow> int \<Rightarrow> ('c, 'h) live \<Rightarrow> bool" where
  "live_book symb q m lv \<longleftrightarrow> re_position (lv_re lv) symb = q \<and> re_max_symbol (lv_re lv) = m"

lemma live_book_kept [simp]:
  "live_book symb q m (snd (lv_broker f lv)) = live_book symb q m lv"
  "live_book symb q m (snd (live_audit env level src msg lv)) = live_book symb q m lv"
  "live_book symb q m (snd (live_persist lv)) = live_book symb q m lv"
  "live_book symb q m (snd (lv_orders g lv)) = live_book symb q m lv"
  "live_book symb q m (lv_breaker h lv) = live_book symb q m lv"
  "live_book symb q m (lv\<lparr>lv_db := b\<rparr>) = live_book symb q m lv"
  by (simp_all add: live_book_def re_position_def)

lemma live_update_breaker_book [simp]:
  "live_book symb q m (snd (live_update_breaker env equity lv)) = live_book symb q m lv"
  by (simp add: live_update_breaker_def split: prod.split)

lemma live_new_day_book: "live_book symb q m lv \<Longrightarrow> live_book symb q m (snd (live_new_day env lv))"
  by (auto simp: live_new_day_def split: prod.split bool.split intro!: on_ok_snd [where P = "live_book symb q m"])

lemma live_monitor_book:
  assumes "ap_never_reports api symb" "live_book symb q m lv"
  shows "live_book symb q m (live_monitor_round api env lv)"
  unfolding live_monitor_round_def live_monitor_check_def
proof (rule on_ok_snd_val)
  show "live_book symb q m (snd (lv_broker (bn_get_account_equity api) lv))" using assms(2) by simp
next
  fix equity
  let ?lv1 = "snd (lv_broker (bn_get_account_equity api) lv)"
  show "live_book symb q m (snd (on_ok (lv_broker (bn_get_positions api) ?lv1)
    (\<lambda>ps lv2. on_ok (live_update_breaker env equity (lv2\<lparr>lv_re := sr_update_positions ps (lv_re lv2)\<rparr>))
      (\<lambda>tripped lv3. on_ok (if tripped then lv_orders (om_cancel_all (bn_venue api (le_now env))) lv3 else (Inr (), lv3))
        (\<lambda>_ lv4. on_ok (live_new_day env lv4) (\<lambda>_ lv5. live_persist lv5))))))"
  proof (rule on_ok_snd_val)
    show "live_book symb q m (snd (lv_broker (bn_get_positions api) ?lv1))" using assms(2) by simp
  next
    fix ps
    let ?lv2 = "snd (lv_broker (bn_get_positions api) ?lv1)"
    assume "fst (lv_broker (bn_get_positions api) ?lv1) = Inr ps"
    then have "fst (bn_get_positions api (lv_bn ?lv1)) = Inr ps"
      by (simp add: lv_broker_def split: prod.splits)
    then have "map_of (rev ps) symb = None" by (rule bn_get_positions_absent [OF assms(1)])
    moreover assume "live_book symb q m ?lv2"
    ultimately have "live_book symb q m (?lv2\<lparr>lv_re := sr_update_positions ps (lv_re ?lv2)\<rparr>)"
      by (simp add: live_book_def sr_update_positions_as_map re_position_def map_add_def)
    then show "live_book symb q m (snd (on_ok (live_update_breaker env equity (?lv2\<lparr>lv_re := sr_update_positions ps (lv_re ?lv2)\<rparr>))
      (\<lambda>tripped lv3. on_ok (if tripped then lv_orders (om_cancel_all (bn_venue api (le_now env))) lv3 else (Inr (), lv3))
        (\<lambda>_ lv4. on_ok (live_new_day env lv4) (\<lambda>_ lv5. live_persist lv5)))))"
      by (intro on_ok_snd [where P = "live_book symb q m"] live_new_day_book) (simp_all split: if_splits)
  qed
qed

text \<open>
  Property C37. A position that the broker has stopped reporting because it was closed stays in the
  risk engine's book through every later round of the monitor loop, so an entry in that symbol
  whose size together with the closed position exceeds the per-symbol limit is rejected although
  the account is flat in it.
\<close>

theorem live_closed_position_stays_in_book:
  assumes "ap_never_reports api symb" "sg_symbol sg = symb"
    and "re_max_symbol (lv_re lv) < \<bar>re_position (lv_re lv) symb + sg_qty sg * side_sign (sg_side sg)\<bar>"
  defines "rounds \<equiv> fold (live_monitor_round api)"
  shows "re_position (lv_re (rounds envs lv)) symb = re_position (lv_re lv) symb
    \<and> \<not> rr_passed (fst (re_check_order sg av now (lv_re (rounds envs lv))))"
proof -
  let ?q = "re_position (lv_re lv) symb" and ?m = "re_max_symbol (lv_re lv)"
  have "live_book symb ?q ?m (fold (live_monitor_round api) envs s)" if "live_book symb ?q ?m s" for s
    using that by (induction envs arbitrary: s) (simp_all add: live_monitor_book [OF assms(1)])
  moreover have "live_book symb ?q ?m lv" by (simp add: live_book_def)
  ultimately have "live_book symb ?q ?m (rounds envs lv)" unfolding rounds_def by blast
  with assms(2,3) show ?thesis
    by (simp add: live_book_def re_check_order_passed_iff re_within_limits_def)
qed

theorem live_closed_position_stays_in_book_witness:
  "re_position (lv_re (fold (live_monitor_round sample_api) [sample_live_env, sample_live_env] sample_live)) ''ETHUSDT'' = 49"
proof -
  let ?sg = "(sample_signal BUY 2)\<lparr>sg_symbol := ''ETHUSDT''\<rparr>"
  have "ap_never_reports sample_api ''ETHUSDT''" by (simp add: ap_never_reports_def sample_api_def)
  moreover have "sg_symbol ?sg = ''ETHUSDT''" by simp
  moreover have pos: "re_position (lv_re sample_live) ''ETHUSDT'' = 49"
    by (simp add: sample_live_def re_position_def)
  moreover have "re_max_symbol (lv_re sample_live) <
      \<bar>re_position (lv_re sample_live) ''ETHUSDT'' + sg_qty ?sg * side_sign (sg_side ?sg)\<bar>"
    by (simp add: pos) (simp add: sample_live_def sample_engine_def re_init_def sample_signal_def)
  ultimately have "re_position (lv_re (fold (live_monitor_round sample_api) [sample_live_env, sample_live_env] sample_live)) ''ETHUSDT''
      = re_position (lv_re sample_live) ''ETHUSDT''"
    using live_closed_position_stays_in_book by blast
  with pos show ?thesis by (simp only:)
qed

section \<open>A close that is lost for good\<close>

text \<open>
  When the position monitor decides to close a position and a tab joins while the
  audit line of that close is being sent, the close is abandoned before its order is submitted,
  yet the position stays marked as closing: no later poll submits an order for it either, whatever
  it goes on to lose, as long as it stays open.
\<close>

theorem live_joining_tab_loses_close:
  fixes now :: datetime and ids :: "string \<times> string" and qty :: int and reason :: fstr and symb :: string
    and dk :: "('c, bridge) desk" and env :: "('c, bridge) monitor_env"
  assumes "env = live_monitor_env api lenv bn feed"
    and "snd (de_net (le_dash lenv) (db_sends (dk_world dk))) = Joins t" "t \<notin> set (db_clients (dk_world dk))"
    and "db_clients (dk_world dk) \<noteq> []" "bn_client (dk_bn dk) \<noteq> None"
    and "\<forall>c. \<exists>r c'. ap_positions api c = (Inr [r], c') \<and> pr_symbol r = symb \<and> pr_amt r \<noteq> 0"
    and "dget (bn_filters (dk_bn dk)) symb \<noteq> None" "dkeys (pm_positions (dk_mon dk)) = [symb]"
  defines "dk1 \<equiv> snd (pm_close_position env now ids symb qty reason dk)"
  shows "dk_om (snd (drive (pm_loop_step cfg env) ticks dk1)) = dk_om dk
    \<and> symb \<in> set (pm_closing (dk_mon (snd (drive (pm_loop_step cfg env) ticks dk1))))"
proof -
  let ?b = "dk_world dk"
  have "fst (live_on_position_close lenv symb reason ?b) = Inl (RuntimeError [Lit ''Set changed size during iteration''])"
    unfolding live_on_position_close_def
    by (rule db_push_audit_join) (use assms(2-4) in \<open>simp_all add: db_note_close_reason_def\<close>)
  then obtain w where "me_on_close env symb reason ?b = (Inl (RuntimeError [Lit ''Set changed size during iteration'']), w)"
    using assms(1) by (cases "live_on_position_close lenv symb reason ?b") (simp add: live_monitor_env_def)
  then have dk1: "dk1 = (dk_monitor (\<lambda>m. m\<lparr>pm_closing := List.insert symb (pm_closing m)\<rparr>) dk)\<lparr>dk_world := w\<rparr>"
    by (simp add: dk1_def pm_close_position_def Let_def dk_monitor_def)
  have "dk_om (snd (drive (pm_loop_step cfg env) ticks dk1)) = dk_om dk1
    \<and> symb \<in> set (pm_closing (dk_mon (snd (drive (pm_loop_step cfg env) ticks dk1))))"
    by (rule pm_closing_run) (use assms(1,5-8) in \<open>simp_all add: dk1 live_monitor_env_def\<close>)
  then show ?thesis by (simp add: dk1)
qed

definition sample_bridge_desk :: "((string \<times> cancel_ref) list, bridge) desk" where
  "sample_bridge_desk = \<lparr>dk_mon = dk_mon sample_desk, dk_om = om_init, dk_bn = sample_binance, dk_world = sample_bridge\<rparr>"

definition joining_env :: live_env where
  "joining_env = sample_live_env\<lparr>le_dash := sample_dash_env\<lparr>de_net := \<lambda>_. (True, Joins 2)\<rparr>\<rparr>"

theorem live_joining_tab_loses_close_witness:
  "dk_om (snd (drive (pm_loop_step sample_cfg (live_monitor_env (limited_api (-900)) joining_env sample_binance (uf_init 20 20)))
      [(1, \<lambda>s. (s, s)), (2, \<lambda>s. (s, s))]
      (snd (pm_close_position (live_monitor_env (limited_api (-900)) joining_env sample_binance (uf_init 20 20)) 0 (''o'', ''c'')
          ''BTCUSDT'' 1000 [Lit ''STOP-LOSS''] sample_bridge_desk)))) = dk_om sample_bridge_desk"
  by (rule live_joining_tab_loses_close [where t = 2 and lenv = joining_env and api = "limited_api (-900)", OF refl, THEN conjunct1])
    (simp_all add: joining_env_def sample_bridge_desk_def sample_bridge_def sample_desk_def sample_binance_def
      dkeys_def limited_api_def sample_row_def)

section \<open>Start-up\<close>

lemma live_set_multipliers_ok:
  assumes "\<forall>symb \<in> set symbs. \<exists>m. step_size symb = Inr m"
  shows "\<exists>re1. live_set_multipliers step_size symbs re = Inr re1
    \<and> re_breaker re1 = re_breaker re \<and> re_positions re1 = re_positions re
    \<and> (\<forall>symb. re_mults re1 symb = (if symb \<in> set symbs then Some (projr (step_size symb)) else re_mults re symb))"
  using assms
proof (induction symbs arbitrary: re)
  case Nil
  then show ?case by simp
next
  case (Cons s symbs)
  then obtain m where m: "step_size s = Inr m" by auto
  from Cons obtain re1 where "live_set_multipliers step_size symbs (re_set_contract_multiplier s m re) = Inr re1"
      "re_breaker re1 = re_breaker re" "re_positions re1 = re_positions re"
      "\<forall>symb. re_mults re1 symb = (if symb \<in> set symbs then Some (projr (step_size symb))
         else re_mults (re_set_contract_multiplier s m re) symb)"
    by (force simp: re_set_contract_multiplier_def)
  with m show ?case by (auto simp: re_set_contract_multiplier_def)
qed

text \<open>
  Property C28. Settings that pass validation give well-formed components: the circuit breaker and the
  risk engine start, running, with no position and the step size of every symbol of the universe as
  its multiplier; the position monitor's trailing level never divides by zero, is not above the
  peak when it arms, and arms below the hard cap; and the margin committed to an entry is at most
  the whole equity, so its notional is at most the equity times the leverage.
\<close>

theorem live_components_wellformed:
  assumes "make_settings env = Inr s" "\<forall>symb \<in> set universe. \<exists>m. step_size symb = Inr m" "0 \<le> equity"
  defines "cfg \<equiv> live_monitor_cfg (stg_scanner s)" and "ps \<equiv> live_scanner_params (stg_scanner s)"
  shows "(\<exists>re. live_risk_engine s today step_size universe = Inr re
      \<and> cb_inv (re_breaker re) \<and> \<not> cb_halted (re_breaker re) \<and> re_positions re = Map.empty
      \<and> re_mults re = (\<lambda>symb. if symb \<in> set universe then Some (projr (step_size symb)) else None))
    \<and> (\<forall>peak. ok (pm_trailing_level cfg peak))
    \<and> (\<exists>level. pm_trailing_level cfg (mon_arm cfg) = Inr level \<and> level \<le> mon_arm cfg \<and> mon_arm cfg < mon_cap cfg)
    \<and> 0 < mon_leverage cfg \<and> 1 \<le> sp_max_open ps \<and> sc_notional ps equity \<le> equity * sp_leverage ps"
proof -
  let ?r = "stg_risk s" and ?c = "stg_scanner s"
  have okr: "risk_settings_ok ?r" and okc: "scanner_settings_ok ?c"
    using make_settings_ok [OF assms(1)] by (simp_all add: settings_ok_def)
  from okr obtain cb where cb: "cb_init (rks_max_daily_drawdown_pct ?r) 1 today = Inr cb" "cb_inv cb" "\<not> cb_halted cb"
    using cb_inv_init [of "rks_max_daily_drawdown_pct ?r" 1 today]
    by (auto simp: cb_init_def risk_settings_ok_def)
  let ?re = "re_init (rks_max_contracts_per_order ?r) (rks_max_contracts_per_symbol ?r) (rks_max_position_notional_usd ?r)
     (rks_max_orders_per_second ?r) (rks_max_orders_per_minute ?r) (rks_max_gross_leverage ?r) cb
     \<lparr>mc_schedule = Map.empty, mc_initial_buffer = rks_initial_margin_buffer_pct ?r,
      mc_maintenance_buffer = rks_maintenance_margin_buffer_pct ?r\<rparr>"
  obtain re where "live_set_multipliers step_size universe ?re = Inr re"
      "re_breaker re = re_breaker ?re" "re_positions re = re_positions ?re"
      "\<forall>symb. re_mults re symb = (if symb \<in> set universe then Some (projr (step_size symb)) else re_mults ?re symb)"
    using live_set_multipliers_ok [OF assms(2), of ?re] by blast
  then have engine: "\<exists>re. live_risk_engine s today step_size universe = Inr re
      \<and> cb_inv (re_breaker re) \<and> \<not> cb_halted (re_breaker re) \<and> re_positions re = Map.empty
      \<and> re_mults re = (\<lambda>symb. if symb \<in> set universe then Some (projr (step_size symb)) else None)"
    using cb by (intro exI [of _ re]) (auto simp: live_risk_engine_def Let_def re_init_def)
  have level: "pm_trailing_level cfg peak =
      Inr (mon_base cfg + of_int \<lfloor>(peak - mon_arm cfg) / mon_increment cfg\<rfloor> * mon_step cfg)" for peak
    using okc by (simp add: pm_trailing_level_def cfg_def live_monitor_cfg_def scanner_settings_ok_def)
  have "equity * scs_margin_equity_pct ?c / 100 \<le> equity"
    using okc assms(3) mult_left_mono [of "scs_margin_equity_pct ?c" 100 equity] by (simp add: scanner_settings_ok_def)
  then have "equity * scs_margin_equity_pct ?c / 100 * of_int (scs_leverage ?c) \<le> equity * of_int (scs_leverage ?c)"
    using okc by (intro mult_right_mono) (simp_all add: scanner_settings_ok_def)
  then show ?thesis
    using engine level okc
    by (simp add: cfg_def ps_def live_monitor_cfg_def live_scanner_params_def sc_notional_def scanner_settings_ok_def)
qed

theorem live_components_wellformed_witness:
  "\<exists>re. live_risk_engine sample_settings 0 (\<lambda>_. Inr 1) [''BTCUSDT''] = Inr re \<and> cb_inv (re_breaker re)"
proof -
  have "\<forall>symb \<in> set [''BTCUSDT'']. \<exists>m. (\<lambda>_ :: string. Inr 1 :: real result) symb = Inr m" "0 \<le> (1 :: real)"
    by simp_all
  from live_components_wellformed [OF sample_settings(1) this, where today = 0] show ?thesis by blast
qed

end
