(* ===== verification/Live_Startup.thy ===== *)
theory Live_Startup
  imports Live_Scanner
begin

text \<open>
  The start of the live bot: the straight part of \<^verbatim>\<open>main\<close> in
  \<^verbatim>\<open>scripts/run_live_binance_scanner.py\<close>, from the settings to the wired components.  The clock is
  read once; logging, the directory of the bar store and the tasks that are started are left out.
\<close>

section \<open>Surroundings\<close>

record 'c start_env =
  se_attempts :: "'c result list"       \<comment> \<open>the outcomes of the attempts to create the client\<close>
  se_now :: datetime
  se_fingerprint :: string              \<comment> \<open>of the API key\<close>
  se_session :: file_content
  se_session_write :: write_outcome
  se_text :: text_reader
  se_fresh_token :: string
  se_token_file :: "string option"
  se_closed_log :: "closed_payload log_files"
  se_audit_log :: "audit_line log_files"
  se_log_fault :: "date \<Rightarrow> nat option"
  se_dash :: dash_env
  se_klines :: "string \<Rightarrow> ((int \<times> real) list \<times> (int \<times> real) list) result"

section \<open>Broker and universe\<close>

definition live_universe :: "'c api \<Rightarrow> 'c binance \<Rightarrow> string list result \<times> 'c binance" where
  "live_universe api bn =
     on_ok (bn_get_universe api False bn)
       (\<lambda>universe bn1. on_ok (bn_load_all_filters api bn1) (\<lambda>_ bn2. (Inr universe, bn2)))"

text \<open>\<open>None\<close> while no attempt has succeeded.\<close>

definition live_connect :: "'c api \<Rightarrow> settings \<Rightarrow> 'c result list \<Rightarrow> (string list result \<times> 'c binance) option" where
  "live_connect api s attempts =
     (case live_broker s of
        Inl e \<Rightarrow> Some (Inl e, bn_init True [] 0 [] 0 0 0)
      | Inr bn \<Rightarrow> map_option (\<lambda>r. on_ok r (\<lambda>_ bn1. live_universe api bn1)) (snd (bn_connect api attempts bn)))"

section \<open>Risk engine and recovery\<close>

definition live_account_source :: "'c api \<Rightarrow> 'c binance account_source" where
  "live_account_source api = \<lparr>as_reconcile = bn_reconcile_state api, as_equity = bn_get_account_equity api\<rparr>"

definition live_recover ::
  "'c api \<Rightarrow> settings \<Rightarrow> 'c start_env \<Rightarrow> string list \<Rightarrow> 'c binance \<Rightarrow> (risk_engine \<times> recovery) result \<times> 'c binance" where
  "live_recover api s env universe bn =
     (case live_risk_engine s (date_of (se_now env)) (\<lambda>symb. bn_get_step_size symb bn) universe of
        Inl e \<Rightarrow> (Inl e, bn)
      | Inr re \<Rightarrow>
          (case sr_recover (live_account_source api) (se_text env) (se_now env)
                  (\<lparr>sr_env = live_environment_id s (se_fingerprint env), sr_file = se_session env,
                    sr_write = se_session_write env\<rparr>, re, bn) of
             (Inl e, _, _, bn1) \<Rightarrow> (Inl e, bn1)
           | (Inr _, sr, re1, bn1) \<Rightarrow> (Inr (re1, sr), bn1)))"

section \<open>Dashboard and wiring\<close>

definition live_bridge :: "settings \<Rightarrow> 'c start_env \<Rightarrow> bridge" where
  "live_bridge s env =
     db_start (se_dash env) (se_log_fault env)
       (db_init (Some tt_init)
          (Some \<lparr>tn_token = tgs_bot_token (stg_telegram s), tn_chat = tgs_chat_id (stg_telegram s), tn_posted = []\<rparr>)
          (Some (se_closed_log env)) (Some (se_audit_log env)))"

text \<open>The feed is filled from historical candles in batches of twenty, then started.\<close>

definition live_feed :: "settings \<Rightarrow> 'c start_env \<Rightarrow> string list \<Rightarrow> universe_feed" where
  "live_feed s env universe =
     uf_start (snd (uf_backfill (se_klines env) 20 universe
       (uf_init (scs_price_jump_window_min (stg_scanner s)) (scs_funding_trend_window_min (stg_scanner s)))))"

text \<open>The handlers on the bus, in the order in which they are subscribed.\<close>

datatype live_handler_id = BridgeOnEvent | ScannerOnTick | ScannerOnBar | ScannerOnBook | ScannerOnExec | OnTick | OnSignal

definition live_wiring :: "live_handler_id bus" where
  "live_wiring =
     eb_start (eb_subscribe SIGNAL OnSignal (eb_subscribe TICK OnTick
       (st_attach ScannerOnTick ScannerOnBar ScannerOnBook ScannerOnExec
         (eb_subscribe_all BridgeOnEvent (eb_init 100000)))))"

definition live_assemble ::
  "settings \<Rightarrow> 'c start_env \<Rightarrow> string list \<Rightarrow> risk_engine \<Rightarrow> recovery \<Rightarrow> 'c binance \<Rightarrow> ('c, live_handler_id) live" where
  "live_assemble s env universe re sr bn =
     \<lparr>lv_bn = bn, lv_om = om_init, lv_re = re, lv_sc = live_scanner s universe, lv_mon = pm_init, lv_db = live_bridge s env,
      lv_feed = live_feed s env universe, lv_agg = \<lparr>ba_timeframe = 60, ba_open_bars = Map.empty\<rparr>,
      lv_last = Map.empty, lv_recovery = sr, lv_stored = [], lv_bus = live_wiring\<rparr>"

definition live_cfg_of :: "settings \<Rightarrow> string list \<Rightarrow> live_cfg" where
  "live_cfg_of s universe =
     \<lparr>lc_universe = universe, lc_leverage = scs_leverage (stg_scanner s), lc_margin_type = scs_margin_type (stg_scanner s)\<rparr>"

text \<open>The whole start: the bot, its constants and those of the bridge.\<close>

definition live_start ::
  "'c api \<Rightarrow> settings \<Rightarrow> 'c start_env
   \<Rightarrow> (('c, live_handler_id) live \<times> live_cfg \<times> bridge_cfg) result option" where
  "live_start api s env =
     map_option (\<lambda>r. fst (on_ok r
       (\<lambda>universe bn. on_ok (live_recover api s env universe bn)
         (\<lambda>(re, sr) bn1. on_ok (bn_get_account_equity api bn1)
           (\<lambda>equity bn2.
              (Inr (live_assemble s env universe re sr bn2, live_cfg_of s universe,
                    live_bridge_cfg s equity (fst (load_or_create_control_token (se_fresh_token env) (se_token_file env)))),
               bn2))))))
       (live_connect api s (se_attempts env))"

section \<open>A halt survives a restart\<close>

lemma on_ok_fst_Inr:
  assumes "fst (on_ok r k) = Inr y"
  obtains x where "fst r = Inr x" "fst (k x (snd r)) = Inr y"
proof -
  obtain a s where r: "r = (a, s)" by (cases r)
  with assms that show ?thesis by (cases a) auto
qed

lemma live_start_cases:
  assumes "live_start api s env = Some (Inr (lv, cfg, bcfg))"
  obtains universe bn re sr bn1 bn2 where "live_recover api s env universe bn = (Inr (re, sr), bn1)"
    "lv = live_assemble s env universe re sr bn2"
proof -
  obtain r where r: "live_connect api s (se_attempts env) = Some r"
    using assms by (auto simp: live_start_def)
  let ?equity = "\<lambda>universe bn (re, sr) bn1. on_ok (bn_get_account_equity api bn1)
           (\<lambda>equity bn2.
              (Inr (live_assemble s env universe re sr bn2, live_cfg_of s universe,
                    live_bridge_cfg s equity (fst (load_or_create_control_token (se_fresh_token env) (se_token_file env)))),
               bn2))"
  have "fst (on_ok r (\<lambda>universe bn. on_ok (live_recover api s env universe bn) (?equity universe bn))) = Inr (lv, cfg, bcfg)"
    using assms r by (simp add: live_start_def)
  then obtain universe where u: "fst (on_ok (live_recover api s env universe (snd r)) (?equity universe (snd r))) = Inr (lv, cfg, bcfg)"
    by (rule on_ok_fst_Inr)
  then obtain x where x: "fst (live_recover api s env universe (snd r)) = Inr x"
      "fst (?equity universe (snd r) x (snd (live_recover api s env universe (snd r)))) = Inr (lv, cfg, bcfg)"
    by (rule on_ok_fst_Inr)
  obtain re sr where rs: "x = (re, sr)" by (cases x)
  have "\<exists>bn2. lv = live_assemble s env universe re sr bn2"
    using x(2) unfolding rs prod.case by (rule on_ok_fst_Inr) auto
  then obtain bn2 where "lv = live_assemble s env universe re sr bn2" ..
  moreover have "live_recover api s env universe (snd r) = (Inr (re, sr), snd (live_recover api s env universe (snd r)))"
    using x(1) rs by (simp add: prod_eq_iff)
  ultimately show thesis by (rule that [rotated])
qed

lemma live_recover_resumes:
  assumes "live_recover api s env universe bn = (Inr (re, sr), bn1)"
    and "se_session env = Json (sr_payload sr0 b0)" "cb_date b0 = date_of (se_now env)"
    and "sr_env sr0 = live_environment_id s (se_fingerprint env)"
  shows "\<exists>b. re_breaker re = cb_restore (cb_snapshot b0) b"
proof -
  let ?src = "live_account_source api"
  let ?sr = "\<lparr>sr_env = live_environment_id s (se_fingerprint env), sr_file = se_session env,
                    sr_write = se_session_write env\<rparr>"
  have sess: "sr_restore_circuit_breaker tx (se_now env) equity ?sr b = (Inr True, cb_restore (cb_snapshot b0) b)"
    for tx equity b
    using assms(2-4) by (simp add: sr_restore_circuit_breaker_def sr_read_payload cb_snapshot_def)
  have rec: "re_breaker (fst (snd (snd (sr_recover ?src (se_text env) (se_now env) (?sr, re0, bn))))) =
      cb_restore (cb_snapshot b0) (re_breaker re0)"
    if "fst (sr_recover ?src (se_text env) (se_now env) (?sr, re0, bn)) = Inr rv" for re0 rv
    using that by (auto simp: sr_recover_def sess Let_def split: prod.splits sum.splits)
  obtain re0 where re0: "live_risk_engine s (date_of (se_now env)) (\<lambda>symb. bn_get_step_size symb bn) universe = Inr re0"
    using assms(1) by (auto simp: live_recover_def split: sum.splits)
  obtain r sr1 re1 bn2 where run: "sr_recover ?src (se_text env) (se_now env) (?sr, re0, bn) = (r, sr1, re1, bn2)"
    by (metis prod.exhaust)
  obtain rv where rv: "r = Inr rv" "re1 = re"
    using assms(1) by (auto simp: live_recover_def re0 run split: sum.splits)
  have "re_breaker re = cb_restore (cb_snapshot b0) (re_breaker re0)"
    using rec [of re0 rv] by (simp add: run rv)
  then show ?thesis by blast
qed

text \<open>
  A halt survives a restart.  When the stored session is a halted one of the same day
  and the same account, a bot that comes up comes up halted with the stored reason, and through
  any ticks, signals and rounds of the monitor loop on that day places no order.
\<close>

theorem live_restart_keeps_halt:
  assumes "live_start api s env = Some (Inr (lv, cfg, bcfg))"
    and "se_session env = Json (sr_payload sr0 b0)" "cb_halted b0" "cb_date b0 = date_of (se_now env)"
    and "sr_env sr0 = live_environment_id s (se_fingerprint env)"
    and "\<forall>oper \<in> set ops. date_of (le_now (live_op_env oper)) = date_of (se_now env)"
  shows "cb_reason (re_breaker (lv_re lv)) = cb_reason b0
    \<and> om_orders (lv_om (fold (live_step api cfg) ops lv)) = []
    \<and> cb_halted (re_breaker (lv_re (fold (live_step api cfg) ops lv)))"
proof -
  let ?d = "date_of (se_now env)"
  obtain universe bn re sr bn1 bn2 where start: "live_recover api s env universe bn = (Inr (re, sr), bn1)"
      "lv = live_assemble s env universe re sr bn2"
    using assms(1) by (rule live_start_cases)
  obtain b where b: "re_breaker (lv_re lv) = cb_restore (cb_snapshot b0) b"
    using live_recover_resumes [OF start(1) assms(2,4,5)] start(2) by (auto simp: live_assemble_def)
  have "live_locked om_init ?d lv"
    using b start(2) assms(3,4) by (simp add: live_locked_def live_assemble_def cb_restore_def cb_snapshot_def)
  then have "live_locked om_init ?d (fold (live_step api cfg) ops lv)"
    using assms(6) by (rule live_run_locked)
  with b show ?thesis by (simp add: live_locked_def om_init_def cb_restore_def cb_snapshot_def)
qed

definition sample_start :: "(string \<times> cancel_ref) list start_env" where
  "sample_start =
     \<lparr>se_attempts = [Inl (ApiError ''timeout''), Inr []], se_now = usec_per_day, se_fingerprint = ''abc'',
      se_session = Json (sr_payload \<lparr>sr_env = live_environment_id sample_settings ''abc'', sr_file = Missing, sr_write = Written\<rparr>
        halted_breaker),
      se_session_write = Written, se_text = \<lparr>tx_date = (\<lambda>_. None), tx_float = (\<lambda>_. None), tx_repr = (\<lambda>_. [])\<rparr>,
      se_fresh_token = ''t'', se_token_file = None, se_closed_log = Map.empty, se_audit_log = Map.empty,
      se_log_fault = (\<lambda>_. None), se_dash = sample_dash_env, se_klines = (\<lambda>_. Inr ([], []))\<rparr>"

lemma sample_connects:
  obtains bn where "live_connect sample_api sample_settings (se_attempts sample_start) = Some (Inr [], bn)"
    "bn_client bn = Some []"
  by (simp add: live_connect_def sample_settings(2) bn_connect_def sample_start_def bn_init_def bn_load_symbol_filters_def
      bn_ensure_info_def bn_refresh_exchange_info_def bn_call_def sample_api_def bn_configure_symbols_def live_universe_def
      bn_get_universe_def bn_load_all_filters_def)

lemma sample_engine_starts:
  obtains re where "live_risk_engine sample_settings (date_of (se_now sample_start)) step [] = Inr re"
proof -
  have "risk_settings_ok (stg_risk sample_settings)"
    using make_settings_ok [OF sample_settings(1)] by (simp add: settings_ok_def)
  then show thesis using that by (simp add: live_risk_engine_def risk_settings_ok_def cb_init_def Let_def)
qed

lemma sample_starts:
  obtains lv cfg bcfg where "live_start sample_api sample_settings sample_start = Some (Inr (lv, cfg, bcfg))"
proof -
  obtain bn where bn: "live_connect sample_api sample_settings (se_attempts sample_start) = Some (Inr [], bn)"
      "bn_client bn = Some []" by (rule sample_connects)
  obtain re where re: "live_risk_engine sample_settings (date_of (se_now sample_start)) (\<lambda>symb. bn_get_step_size symb bn) [] = Inr re"
    by (rule sample_engine_starts)
  have src: "as_reconcile (live_account_source sample_api) bn = (Inr [], bn)"
      "as_equity (live_account_source sample_api) bn = (Inr 1000, bn)"
    using bn(2) by (simp_all add: live_account_source_def bn_reconcile_state_def bn_get_positions_def bn_positions_of_def
        bn_get_account_equity_def bn_call_def sample_api_def)
  let ?sr = "\<lparr>sr_env = live_environment_id sample_settings (se_fingerprint sample_start), sr_file = se_session sample_start,
      sr_write = se_session_write sample_start\<rparr>"
  have st: "sr_read_snapshot (se_text sample_start) ?sr =
      Inr (Some \<lparr>ss_snap = cb_snapshot halted_breaker, ss_env = live_environment_id sample_settings ''abc''\<rparr>)"
    by (simp add: sample_start_def sr_read_snapshot_def sr_parse_payload)
  have "sr_write ?sr = Written" by (simp add: sample_start_def)
  from sr_recover_ok [OF src st this, of "se_now sample_start" re]
  obtain rv sr1 re1 where "sr_recover (live_account_source sample_api) (se_text sample_start) (se_now sample_start)
      (?sr, re, bn) = (Inr rv, sr1, re1, bn)" by blast
  then have "live_recover sample_api sample_settings sample_start [] bn = (Inr (re1, sr1), bn)"
    by (simp add: live_recover_def re)
  then show thesis using that src(2) bn(1)
    by (simp add: live_start_def live_account_source_def)
qed

theorem live_restart_keeps_halt_witness:
  "\<exists>lv cfg bcfg. live_start sample_api sample_settings sample_start = Some (Inr (lv, cfg, bcfg))
    \<and> cb_reason (re_breaker (lv_re lv)) = cb_reason halted_breaker
    \<and> om_orders (lv_om (fold (live_step sample_api cfg)
          [LSignal (sample_live_env\<lparr>le_now := usec_per_day\<rparr>) ''o'' (sample_signal BUY 1)] lv)) = []"
proof -
  obtain lv cfg bcfg where start: "live_start sample_api sample_settings sample_start = Some (Inr (lv, cfg, bcfg))"
    by (rule sample_starts)
  then have "cb_reason (re_breaker (lv_re lv)) = cb_reason halted_breaker
    \<and> om_orders (lv_om (fold (live_step sample_api cfg)
          [LSignal (sample_live_env\<lparr>le_now := usec_per_day\<rparr>) ''o'' (sample_signal BUY 1)] lv)) = []"
    using live_restart_keeps_halt [where env = sample_start and ?b0.0 = halted_breaker
      and ?sr0.0 = "\<lparr>sr_env = live_environment_id sample_settings ''abc'', sr_file = Missing, sr_write = Written\<rparr>"
      and ops = "[LSignal (sample_live_env\<lparr>le_now := usec_per_day\<rparr>) ''o'' (sample_signal BUY 1)]"]
    by (simp add: sample_start_def halted_breaker_def date_of_def usec_per_day_def)
  with start show ?thesis by blast
qed

end
