(* ===== verification/Live_Bot.thy ===== *)
theory Live_Bot
  imports Live_Startup
begin

text \<open>
  The running bot: the tasks that \<^verbatim>\<open>scripts/run_live_binance_scanner.py\<close> leaves running, composed
  over the state of \<^verbatim>\<open>Live_Scanner\<close>, and the orderly end of the script.  One step is one turn of one
  task: the dispatcher takes an event to its handlers, the order manager takes a broker event, a
  socket delivers a message, a loop makes a round, a tab joins, leaves or sends.  Any task may take
  any turn at any time; within a turn no other task runs, except for the tabs of \<open>dash_env\<close>.
\<close>

section \<open>Handlers\<close>

text \<open>What the scanner is handed when a bar completes.\<close>

definition live_scan_input :: "'c api \<Rightarrow> live_env \<Rightarrow> string \<Rightarrow> ('c, 'h) live \<Rightarrow> scan_input" where
  "live_scan_input api env corr lv =
     \<lparr>sn_mono = le_mono env, sn_now = le_now env, sn_corr = corr,
      sn_step_size = (\<lambda>symb. bn_get_step_size symb (lv_bn lv)),
      sn_equity = fst (bn_get_account_equity api (lv_bn lv))\<rparr>"

text \<open>Whether the scanner comes as far as asking for the equity, which is a request to the exchange.\<close>

definition live_asks_equity :: "scan_input \<Rightarrow> bar_event \<Rightarrow> ('c, 'h) live \<Rightarrow> bool" where
  "live_asks_equity i bar lv \<longleftrightarrow>
     (let symb = br_symbol bar; opens = pm_open_symbols (lv_mon lv); sc = sc_prune opens (sn_mono i) (lv_sc lv) in
      st_wants (lv_sc lv) (BarE bar) \<and> symb \<notin> sc_engaged opens sc
      \<and> int (card (sc_engaged opens sc)) < sp_max_open (sc_params sc)
      \<and> sc_setup (lv_feed lv) (sc_params sc) symb \<noteq> None \<and> ok (sn_step_size i symb))"

definition live_on_bar :: "'c api \<Rightarrow> live_env \<Rightarrow> string \<Rightarrow> bar_event \<Rightarrow> ('c, 'h) live \<Rightarrow> unit result \<times> ('c, 'h) live" where
  "live_on_bar api env corr bar lv =
     (let i = live_scan_input api env corr lv in
      case sc_dispatch_bar i (lv_mon lv) (lv_feed lv) bar (lv_sc lv, lv_bus lv) of
        (r, sc, b) \<Rightarrow>
          (and_then r (\<lambda>_. Inr ()),
           lv\<lparr>lv_sc := sc, lv_bus := b,
              lv_bn := if live_asks_equity i bar lv then snd (bn_get_account_equity api (lv_bn lv)) else lv_bn lv\<rparr>))"

text \<open>
  Every handler begins by asserting the type of its event; the base strategy's tick, book and
  execution callbacks do nothing.  The first pair of \<open>le_ids\<close> names a new order and a new signal.
\<close>

fun live_handle ::
  "'c api \<Rightarrow> live_cfg \<Rightarrow> bridge_cfg \<Rightarrow> live_env \<Rightarrow> live_handler_id \<Rightarrow> event \<Rightarrow> ('c, 'h) live
   \<Rightarrow> unit result \<times> ('c, 'h) live" where
  "live_handle api cfg bcfg env BridgeOnEvent e lv = lv_bridge (db_on_event bcfg (le_dash env) (lv_om lv) e) lv"
| "live_handle api cfg bcfg env OnTick (TickE t) lv = live_on_tick cfg env t lv"
| "live_handle api cfg bcfg env OnSignal (SignalE sg) lv = live_on_signal api cfg env (fst (hd (le_ids env))) sg lv"
| "live_handle api cfg bcfg env ScannerOnBar (BarE bar) lv = live_on_bar api env (snd (hd (le_ids env))) bar lv"
| "live_handle api cfg bcfg env ScannerOnTick (TickE t) lv = (Inr (), lv)"
| "live_handle api cfg bcfg env ScannerOnBook (BookE b) lv = (Inr (), lv)"
| "live_handle api cfg bcfg env ScannerOnExec (ExecE x) lv = (Inr (), lv)"
| "live_handle api cfg bcfg env _ _ lv = (Inl AssertionError, lv)"

text \<open>
  A handler as the bus sees it: it runs with an empty, unbounded queue, and what it left there is
  what it published.  The surroundings may depend on the handler and on the state it meets.
\<close>

type_synonym 'c surroundings = "live_handler_id \<Rightarrow> ('c, live_handler_id) live \<Rightarrow> live_env"

definition live_run ::
  "'c api \<Rightarrow> live_cfg \<Rightarrow> bridge_cfg \<Rightarrow> 'c surroundings \<Rightarrow> (live_handler_id, ('c, live_handler_id) live) handler_sem" where
  "live_run api cfg bcfg envs h e lv =
     (case live_handle api cfg bcfg (envs h lv) h e (lv\<lparr>lv_bus := eb_init 0\<rparr>) of
        (r, lv1) \<Rightarrow> ((aq_items (eb_queue (lv_bus lv1)), \<not> ok r), lv1))"

section \<open>The running bot\<close>

datatype task = ConsumeTask | PollTask | FeedTask | KpiTask | MonitorTask

record 'c bot =
  bt_live :: "('c, live_handler_id) live"
  bt_user :: "bool \<times> real"      \<comment> \<open>the user data stream: socket open, backoff\<close>
  bt_marks :: "bool \<times> real"     \<comment> \<open>the mark price stream\<close>
  bt_alive :: "task \<Rightarrow> bool"
  bt_store_open :: bool

record 'c bot_cfg =
  bg_api :: "'c api"
  bg_live :: live_cfg
  bg_bridge :: bridge_cfg
  bg_monitor :: monitor_cfg

definition bot_live :: "(('c, live_handler_id) live \<Rightarrow> ('c, live_handler_id) live) \<Rightarrow> 'c bot \<Rightarrow> 'c bot" where
  "bot_live f bt = bt\<lparr>bt_live := f (bt_live bt)\<rparr>"

text \<open>The dispatcher: one step of its loop, or no change while it waits.\<close>

definition bot_dispatch :: "'c bot_cfg \<Rightarrow> 'c surroundings \<Rightarrow> 'c bot \<Rightarrow> 'c bot" where
  "bot_dispatch g envs bt =
     (case eb_loop_step (live_run (bg_api g) (bg_live g) (bg_bridge g) envs) (lv_bus (bt_live bt), bt_live bt) of
        None \<Rightarrow> bt
      | Some (b, lv) \<Rightarrow> bt\<lparr>bt_live := lv\<lparr>lv_bus := b\<rparr>\<rparr>)"

text \<open>The order manager takes the next event of the broker's stream.\<close>

definition bot_consume :: "datetime \<Rightarrow> 'c bot \<Rightarrow> 'c bot" where
  "bot_consume now bt =
     (case bn_next_event (lv_bn (bt_live bt)) of
        None \<Rightarrow> bt
      | Some (ev, bn) \<Rightarrow>
          (case om_handle_broker_event now ev (lv_om (bt_live bt), lv_bus (bt_live bt)) of
             (om, b) \<Rightarrow> bot_live (\<lambda>lv. lv\<lparr>lv_bn := bn, lv_om := om, lv_bus := b\<rparr>) bt))"

definition bot_user_socket :: "'c bot_cfg \<Rightarrow> socket_event \<Rightarrow> 'c bot \<Rightarrow> 'c bot" where
  "bot_user_socket g ev bt =
     (case bn_stream_step (bg_api g) ev (bt_user bt, lv_bn (bt_live bt)) of
        (_, st, bn) \<Rightarrow> bot_live (\<lambda>lv. lv\<lparr>lv_bn := bn\<rparr>) (bt\<lparr>bt_user := st\<rparr>))"

text \<open>The feed is built with the default backoff, from two to sixty seconds.\<close>

definition bot_mark_socket :: "feed_event \<Rightarrow> 'c bot \<Rightarrow> 'c bot" where
  "bot_mark_socket ev bt =
     (case uf_stream_step (2, 60) ev (bt_marks bt, lv_feed (bt_live bt), lv_bus (bt_live bt)) of
        (_, st, f, b) \<Rightarrow> bot_live (\<lambda>lv. lv\<lparr>lv_feed := f, lv_bus := b\<rparr>) (bt\<lparr>bt_marks := st\<rparr>))"

text \<open>What the dashboard's KPI loop is shown.\<close>

definition live_kpi_source :: "'c api \<Rightarrow> ('c, 'h) live \<Rightarrow> 'c binance kpi_source" where
  "live_kpi_source api lv =
     \<lparr>ks_equity = bn_get_account_equity api, ks_margin = bn_get_margin_usage api,
      ks_details = Some (bn_get_position_details api), ks_positions = bn_get_positions api,
      ks_connected = bn_connected, ks_paused = st_is_paused (lv_sc lv), ks_breaker = re_breaker (lv_re lv)\<rparr>"

definition live_kpi_round :: "'c api \<Rightarrow> bridge_cfg \<Rightarrow> live_env \<Rightarrow> ('c, 'h) live \<Rightarrow> ('c, 'h) live" where
  "live_kpi_round api bcfg env lv =
     (case db_kpi_round bcfg (le_dash env) (live_kpi_source api lv) (lv_db lv, lv_bn lv) of
        (b, bn) \<Rightarrow> lv\<lparr>lv_db := b, lv_bn := bn\<rparr>)"

text \<open>A message of a tab; an exception of its handling ends the connection.\<close>

definition bot_incoming :: "'c bot_cfg \<Rightarrow> live_env \<Rightarrow> nat \<Rightarrow> incoming \<Rightarrow> 'c bot \<Rightarrow> 'c bot" where
  "bot_incoming g env c raw bt =
     (case live_incoming (bg_api g) (bg_bridge g) env raw (bt_live bt) of
        (r, lv) \<Rightarrow> bt\<lparr>bt_live := if ok r then lv else lv\<lparr>lv_db := db_disconnect c (lv_db lv)\<rparr>\<rparr>)"

datatype 'c bot_op =
    Dispatch "'c surroundings"
  | Consume datetime
  | UserSocket socket_event
  | MarkSocket feed_event
  | Poll live_env "string \<Rightarrow> string \<times> string"
  | MonitorRound live_env
  | KpiRound live_env
  | TabJoins live_env nat
  | TabLeaves nat
  | TabSends live_env nat incoming

fun is_dispatch :: "'c bot_op \<Rightarrow> bool" where
  "is_dispatch (Dispatch envs) = True"
| "is_dispatch _ = False"

text \<open>A turn of a task that has been cancelled is no turn.\<close>

fun bot_step :: "'c bot_cfg \<Rightarrow> 'c bot_op \<Rightarrow> 'c bot \<Rightarrow> 'c bot" where
  "bot_step g (Dispatch envs) bt = bot_dispatch g envs bt"
| "bot_step g (Consume now) bt = (if bt_alive bt ConsumeTask then bot_consume now bt else bt)"
| "bot_step g (UserSocket ev) bt = bot_user_socket g ev bt"
| "bot_step g (MarkSocket ev) bt = (if bt_alive bt FeedTask then bot_mark_socket ev bt else bt)"
| "bot_step g (Poll env oids) bt =
     (if bt_alive bt PollTask then bot_live (\<lambda>lv. snd (live_poll (bg_api g) (bg_monitor g) env oids lv)) bt else bt)"
| "bot_step g (MonitorRound env) bt =
     (if bt_alive bt MonitorTask then bot_live (live_monitor_round (bg_api g) env) bt else bt)"
| "bot_step g (KpiRound env) bt =
     (if bt_alive bt KpiTask then bot_live (live_kpi_round (bg_api g) (bg_bridge g) env) bt else bt)"
| "bot_step g (TabJoins env c) bt = bot_live (\<lambda>lv. lv\<lparr>lv_db := db_connect (le_dash env) c (lv_db lv)\<rparr>) bt"
| "bot_step g (TabLeaves c) bt = bot_live (\<lambda>lv. lv\<lparr>lv_db := db_disconnect c (lv_db lv)\<rparr>) bt"
| "bot_step g (TabSends env c raw) bt = bot_incoming g env c raw bt"

text \<open>The bot as the script leaves it running, and the states it can reach.\<close>

definition bot_init :: "('c, live_handler_id) live \<Rightarrow> 'c bot" where
  "bot_init lv = \<lparr>bt_live = lv, bt_user = (False, bn_backoff (lv_bn lv)), bt_marks = (False, 2),
     bt_alive = (\<lambda>_. True), bt_store_open = True\<rparr>"

definition bot_cfg_of :: "'c api \<Rightarrow> settings \<Rightarrow> live_cfg \<Rightarrow> bridge_cfg \<Rightarrow> 'c bot_cfg" where
  "bot_cfg_of api s cfg bcfg = \<lparr>bg_api = api, bg_live = cfg, bg_bridge = bcfg, bg_monitor = live_monitor_cfg (stg_scanner s)\<rparr>"

inductive bot_reach :: "'c api \<Rightarrow> settings \<Rightarrow> 'c bot_cfg \<Rightarrow> 'c bot \<Rightarrow> bool"
  for api :: "'c api" and s :: settings where
  start: "live_start api s env = Some (Inr (lv, cfg, bcfg)) \<Longrightarrow> bot_reach api s (bot_cfg_of api s cfg bcfg) (bot_init lv)"
| step: "bot_reach api s g bt \<Longrightarrow> bot_reach api s g (bot_step g oper bt)"

section \<open>Requests that leave the adapter's books alone\<close>

definition bn_asked :: "'c binance \<Rightarrow> 'c binance \<Rightarrow> bool" where
  "bn_asked bn bn1 \<longleftrightarrow> (\<exists>c. bn1 = bn\<lparr>bn_client := c\<rparr>)"

lemma bn_asked_refl [simp]: "bn_asked bn bn"
  unfolding bn_asked_def by (rule exI [of _ "bn_client bn"]) simp

lemma bn_asked_call [simp]: "bn_asked bn (snd (bn_call f bn))"
proof (cases "bn_client bn")
  case None
  then show ?thesis by (simp add: bn_call_def)
next
  case (Some c)
  then show ?thesis by (auto simp: bn_call_Some bn_asked_def)
qed

lemma on_ok_return [simp]: "snd (on_ok r (\<lambda>x s. (Inr (g x s), s))) = snd r"
  by (cases r; cases "fst r") auto

lemma bn_asked_requests [simp]:
  "bn_asked bn (snd (bn_get_account_equity api bn))" "bn_asked bn (snd (bn_get_margin_usage api bn))"
  "bn_asked bn (snd (bn_get_positions api bn))" "bn_asked bn (snd (bn_get_position_details api bn))"
  by (simp_all add: bn_get_account_equity_def bn_get_margin_usage_def bn_get_positions_def bn_get_position_details_def)

lemma stop_reply [simp]:
  "snd (case r of (Inl _, bn1) \<Rightarrow> (Inr None, bn1) | (Inr None, bn1) \<Rightarrow> (Inr (Some x), bn1)
      | (Inr (Some oid), bn1) \<Rightarrow> (Inr (Some oid), bn1)) = snd r"
  by (simp split: prod.split sum.split option.split)

lemma bn_asked_stop [simp]: "bn_asked bn (snd (bn_place_stop_loss api now symb is_long entry lots loss bn))"
  by (cases "dget (bn_filters bn) symb") (simp_all add: bn_place_stop_loss_def Let_def)

lemma bn_asked_unstop [simp]: "bn_asked bn (snd (bn_cancel_stop_loss api symb oid bn))"
  by (simp add: bn_cancel_stop_loss_def split: option.split)

lemma bn_asked_trans: "bn_asked bn bn1 \<Longrightarrow> bn_asked bn1 bn2 \<Longrightarrow> bn_asked bn bn2"
  by (auto simp: bn_asked_def)

lemma bn_asked_cancel_all [simp]: "bn_asked bn (snd (bn_cancel_all api bn))"
proof -
  have "bn_asked bn0 (fold (\<lambda>symb b. snd (bn_call (ap_cancel_open api symb) b)) symbs bn0)" for bn0 symbs
    by (induction symbs arbitrary: bn0) (auto intro: bn_asked_trans [OF bn_asked_call])
  then show ?thesis by (simp add: bn_cancel_all_def)
qed

lemma lv_broker_bn [simp]: "lv_bn (snd (lv_broker f lv)) = snd (f (lv_bn lv))"
  by (simp add: lv_broker_def split: prod.split)

lemma lv_cancel_all_bn [simp]:
  "lv_bn (snd (lv_orders (om_cancel_all (bn_venue api now)) lv)) = snd (bn_cancel_all api (lv_bn lv))"
  by (simp add: lv_orders_def om_cancel_all_def bn_venue_def split: prod.split)

section \<open>Closing orders\<close>

text \<open>
  What the closing paths of the bot need to know of a statement about the order table and the
  adapter: requests keep it, and so does the submission of an order that is \<open>allowed\<close>.  Then a
  poll of the position monitor and a flatten command keep it.
\<close>

locale order_desk =
  fixes api :: "'c api"
    and kept :: "order_manager \<Rightarrow> 'c binance \<Rightarrow> bool"
    and allowed :: "string \<Rightarrow> signal_event \<Rightarrow> bool"
  assumes asked: "kept om bn \<Longrightarrow> bn_asked bn bn1 \<Longrightarrow> kept om bn1"
    and submitted: "kept om bn \<Longrightarrow> allowed oid sg \<Longrightarrow>
      (case om_submit (bn_venue api now) oid now sg x (om, bn) of (r, om1, bn1) \<Rightarrow> kept om1 bn1)"
begin

definition desk_kept :: "('c, 'w) desk \<Rightarrow> bool" where
  "desk_kept dk \<longleftrightarrow> kept (dk_om dk) (dk_bn dk)"

lemma desk_broker:
  assumes "desk_kept dk" "\<And>bn. bn_asked bn (snd (f bn))"
  shows "desk_kept (snd (dk_broker f dk))"
proof -
  have "snd (dk_broker f dk) = dk\<lparr>dk_bn := snd (f (dk_bn dk))\<rparr>"
    by (simp add: dk_broker_def split: prod.split)
  then show ?thesis using asked [OF _ assms(2)] assms(1) by (simp add: desk_kept_def)
qed

lemma desk_monitor [simp]: "desk_kept (dk_monitor f dk) = desk_kept dk"
  by (simp add: desk_kept_def dk_monitor_def)

lemma desk_close:
  assumes "desk_kept dk" "\<And>q. allowed (fst ids) (pm_close_signal now symb q (snd ids))" "me_api env = api"
  shows "desk_kept (snd (pm_close_position env now ids symb qty reason dk))"
proof -
  let ?dk = "dk_monitor (\<lambda>m. m\<lparr>pm_closing := List.insert symb (pm_closing m)\<rparr>) dk"
  obtain r w where w: "me_on_close env symb reason (dk_world ?dk) = (r, w)"
    by (cases "me_on_close env symb reason (dk_world ?dk)")
  obtain r2 om bn where sub: "om_submit (bn_venue (me_api env) now) (fst ids) now (pm_close_signal now symb qty (snd ids))
      (me_price env symb) (dk_om ?dk, dk_bn ?dk) = (r2, om, bn)" by (rule prod_cases3)
  have "kept (dk_om ?dk) (dk_bn ?dk)" using assms(1) by (simp add: desk_kept_def dk_monitor_def)
  from submitted [OF this assms(2), of now qty "me_price env symb"] sub assms(3) have "kept om bn" by simp
  with assms(1) w sub show ?thesis
    by (cases r) (simp_all add: pm_close_position_def Let_def desk_kept_def dk_monitor_def)
qed

lemma desk_first_seen:
  assumes "desk_kept dk" "me_api env = api"
  shows "desk_kept (snd (pm_first_seen cfg env now d dk))"
  unfolding pm_first_seen_def pm_arm_native_stop_def Let_def
  by (intro on_ok_snd [where P = desk_kept]) (auto simp: assms intro!: desk_broker split: option.split)

lemma desk_check_one:
  assumes "desk_kept dk" "\<And>q. allowed (fst (oids (pd_symbol d))) (pm_close_signal now (pd_symbol d) q (snd (oids (pd_symbol d))))"
    and "me_api env = api"
  shows "desk_kept (snd (pm_check_one cfg env now oids previous d dk))"
  unfolding pm_check_one_def Let_def
  using assms
  by (auto intro!: on_ok_snd [where P = desk_kept] desk_first_seen desk_close split: sum.split option.split)

lemma desk_each:
  assumes "desk_kept dk" "\<And>x dk. desk_kept dk \<Longrightarrow> desk_kept (snd (f x dk))"
  shows "desk_kept (snd (bn_for_each f xs dk))"
  using assms(1) by (induction xs arbitrary: dk) (auto intro!: on_ok_snd [where P = desk_kept] assms(2))

lemma desk_poll:
  assumes "desk_kept dk" "\<And>symb q. allowed (fst (oids symb)) (pm_close_signal now symb q (snd (oids symb)))" "me_api env = api"
  shows "desk_kept (snd (pm_loop_step cfg env (now, oids) dk))"
  unfolding pm_loop_step_def fst_conv snd_conv pm_check_once_def Let_def pm_forget_def pm_disarm_native_stop_def
  by (intro on_ok_snd [where P = desk_kept] desk_each)
    (auto simp: assms intro!: desk_broker desk_check_one on_ok_snd [where P = desk_kept] split: option.split)

definition live_keeps :: "('c, 'h) live \<Rightarrow> bool" where
  "live_keeps lv \<longleftrightarrow> kept (lv_om lv) (lv_bn lv)"

lemma live_keeps_broker [simp]:
  "live_keeps lv \<Longrightarrow> (\<And>bn. bn_asked bn (snd (f bn))) \<Longrightarrow> live_keeps (snd (lv_broker f lv))"
  by (simp add: live_keeps_def asked)

lemma live_keeps_frame [simp]:
  "live_keeps (snd (live_audit env level src msg lv)) = live_keeps lv"
  "live_keeps (snd (live_persist lv)) = live_keeps lv" "live_keeps (lv_breaker f lv) = live_keeps lv"
  "live_keeps (lv\<lparr>lv_db := b\<rparr>) = live_keeps lv" "live_keeps (lv\<lparr>lv_sc := sc\<rparr>) = live_keeps lv"
  "live_keeps (lv\<lparr>lv_re := re\<rparr>) = live_keeps lv" "live_keeps (lv\<lparr>lv_bus := bus\<rparr>) = live_keeps lv"
  by (simp_all add: live_keeps_def)

lemma live_keeps_cancel_all [simp]:
  "live_keeps lv \<Longrightarrow> live_keeps (snd (lv_orders (om_cancel_all (bn_venue api now)) lv))"
  by (simp add: live_keeps_def asked)

lemma live_keeps_submit:
  assumes "live_keeps lv" "allowed oid sg"
  shows "live_keeps (snd (live_submit api env oid sg x lv))"
  using submitted [of "lv_om lv" "lv_bn lv" oid sg "le_now env" x] assms
  by (auto simp: live_keeps_def live_submit_def lv_orders_def split: prod.splits)

lemma live_keeps_close_each:
  assumes "live_keeps lv" "\<forall>p \<in> set ids. \<forall>symb q. allowed (fst p) (live_flatten_signal env symb q (snd p))"
  shows "live_keeps (snd (live_close_each api env ids ps lv))"
  using assms
proof (induction ids arbitrary: ps lv)
  case Nil
  then show ?case by simp
next
  case (Cons p ids)
  obtain oid corr where p: "p = (oid, corr)" by (cases p)
  show ?case
  proof (cases ps)
    case Nil
    with Cons.prems p show ?thesis by simp
  next
    case (Cons q ps1)
    obtain symb qty where q: "q = (symb, qty)" by (cases q)
    have "allowed oid (live_flatten_signal env symb qty corr)" using Cons.prems(2) p by simp
    with Cons.prems Cons.IH show ?thesis
      by (auto simp: p q \<open>ps = q # ps1\<close> intro!: on_ok_snd [where P = live_keeps] live_keeps_submit)
  qed
qed

lemma live_keeps_flatten:
  assumes "live_keeps lv" "\<forall>p \<in> set (le_ids env). \<forall>symb q. allowed (fst p) (live_flatten_signal env symb q (snd p))"
  shows "live_keeps (snd (live_flatten api env lv))"
  unfolding live_flatten_def Let_def
  by (intro on_ok_snd [where P = live_keeps]) (auto simp: assms(1) intro!: on_ok_snd [where P = live_keeps] live_keeps_close_each [OF _ assms(2)])

lemma live_keeps_command:
  assumes "live_keeps lv"
    and "c = ''flatten'' \<Longrightarrow> \<forall>p \<in> set (le_ids env). \<forall>symb q. allowed (fst p) (live_flatten_signal env symb q (snd p))"
  shows "live_keeps (snd (live_command api env c lv))"
  using assms
  by (auto simp: live_command_def live_pause_def live_resume_def live_engage_kill_switch_def live_reset_kill_switch_def
      intro!: live_keeps_flatten on_ok_snd [where P = live_keeps])

lemma live_keeps_view: "live_keeps lv \<Longrightarrow> live_keeps (snd (live_account_view api lv))"
  unfolding live_account_view_def
  by (auto intro!: on_ok_snd [where P = live_keeps] split: sum.split)

lemma live_keeps_update [simp]: "live_keeps (snd (live_update_breaker env equity lv)) = live_keeps lv"
  by (simp add: live_update_breaker_def split: prod.split)

lemma live_keeps_new_day: "live_keeps lv \<Longrightarrow> live_keeps (snd (live_new_day env lv))"
  by (auto simp: live_new_day_def split: prod.split bool.split intro!: on_ok_snd [where P = live_keeps])

lemma live_keeps_monitor: "live_keeps lv \<Longrightarrow> live_keeps (live_monitor_round api env lv)"
  unfolding live_monitor_round_def live_monitor_check_def
  by (auto intro!: on_ok_snd [where P = live_keeps] live_keeps_new_day)

lemma live_keeps_poll:
  assumes "live_keeps lv" "\<And>symb q. allowed (fst (oids symb)) (pm_close_signal (le_now env) symb q (snd (oids symb)))"
  shows "live_keeps (snd (live_poll api mcfg env oids lv))"
  using desk_poll [where env = "live_monitor_env api env (lv_bn lv) (lv_feed lv)" and cfg = mcfg and now = "le_now env"
      and dk = "\<lparr>dk_mon = lv_mon lv, dk_om = lv_om lv, dk_bn = lv_bn lv, dk_world = lv_db lv\<rparr>", OF _ assms(2)] assms(1)
  by (auto simp: live_poll_def live_keeps_def desk_kept_def live_monitor_env_def split: prod.split)

end

text \<open>The command a message of a tab makes the bot run, if any.\<close>

fun incoming_command :: "bridge_cfg \<Rightarrow> incoming \<Rightarrow> string option" where
  "incoming_command cfg (Value (JObj d)) =
     (if bears_token cfg (Value (JObj d))
      then case db_lookup_command (dget d ''command'') of Inl _ \<Rightarrow> None | Inr c \<Rightarrow> c
      else None)"
| "incoming_command cfg _ = None"

lemma live_incoming_keeps:
  assumes "P lv" "\<And>lv b. P (lv\<lparr>lv_db := b\<rparr>) = P lv"
    and "\<And>c lv. incoming_command bcfg raw = Some c \<Longrightarrow> P lv \<Longrightarrow> P (snd (live_command api env c lv))"
  shows "P (snd (live_incoming api bcfg env raw lv))"
proof -
  have "P (snd (snd (db_handle_incoming bcfg (le_dash env) (live_handler api env) raw (lv_db lv, lv))))"
  proof (cases raw)
    case Malformed
    with assms(1) show ?thesis by (simp add: db_handle_incoming_def)
  next
    case (Value v)
    show ?thesis
    proof (cases v)
      case (JObj d)
      have "P (snd (snd (live_handler api env c (lv_db lv, lv))))"
        if "incoming_command bcfg raw = Some c" for c
        using assms(3) [OF that, of lv] assms(1)
        by (cases "live_command api env c lv") (simp add: live_handler_def)
      with assms(1) Value JObj show ?thesis
        by (auto simp: db_handle_incoming_def split: prod.split sum.split option.split if_splits, fastforce?)
    qed (use assms(1) in \<open>simp_all add: db_handle_incoming_def Value\<close>)
  qed
  then show ?thesis
    using assms(2)
    by (cases "db_handle_incoming bcfg (le_dash env) (live_handler api env) raw (lv_db lv, lv)") (simp add: live_incoming_def)
qed

section \<open>A halted bot\<close>

definition live_halted :: "date \<Rightarrow> ('c, 'h) live \<Rightarrow> bool" where
  "live_halted d lv \<longleftrightarrow> cb_halted (re_breaker (lv_re lv)) \<and> cb_date (re_breaker (lv_re lv)) = d"

lemma live_locked_own: "live_locked (lv_om lv) d lv = live_halted d lv"
  by (simp add: live_locked_def live_halted_def)

lemma live_locked_halted: "live_locked om d lv \<Longrightarrow> live_halted d lv \<and> lv_om lv = om"
  by (simp add: live_locked_def live_halted_def)

lemma lv_bridge_frame [simp]:
  "lv_om (snd (lv_bridge f lv)) = lv_om lv" "lv_re (snd (lv_bridge f lv)) = lv_re lv"
  "lv_bn (snd (lv_bridge f lv)) = lv_bn lv" "lv_sc (snd (lv_bridge f lv)) = lv_sc lv"
  "lv_bus (snd (lv_bridge f lv)) = lv_bus lv"
  by (simp_all add: lv_bridge_def split: prod.split)

lemma live_on_bar_frame [simp]:
  "lv_om (snd (live_on_bar api env corr bar lv)) = lv_om lv" "lv_re (snd (live_on_bar api env corr bar lv)) = lv_re lv"
  by (simp_all add: live_on_bar_def Let_def split: prod.split)

lemma live_handle_locked:
  assumes "live_locked om d lv"
  shows "live_locked om d (snd (live_handle api cfg bcfg env h e lv))"
  using assms live_on_tick_keeps [of cfg env _ lv]
  by (cases h; cases e) (simp_all add: live_on_signal_locked, simp_all add: live_locked_def)

lemma live_run_world: "snd (live_run api cfg bcfg envs h e lv) =
    snd (live_handle api cfg bcfg (envs h lv) h e (lv\<lparr>lv_bus := eb_init 0\<rparr>))"
  by (simp add: live_run_def split: prod.split)

lemma live_locked_bus [simp]: "live_locked om d (lv\<lparr>lv_bus := b\<rparr>) = live_locked om d lv"
  by (simp add: live_locked_def)

interpretation halt_bus: bus_client "live_run api cfg bcfg envs" "live_locked om d" "\<lambda>_. True" for api cfg bcfg envs om d
  by unfold_locales (simp_all add: live_run_world live_handle_locked)

text \<open>No order is in the table but under these names.\<close>

definition om_within :: "string set \<Rightarrow> order_manager \<Rightarrow> bool" where
  "om_within ids om \<longleftrightarrow> (\<forall>oid. oid \<notin> ids \<longrightarrow> dget (om_orders om) oid = None)"

interpretation halt_desk: order_desk api "\<lambda>om bn. om_within ids om" "\<lambda>oid sg. oid \<in> ids" for api ids
  by unfold_locales (auto simp: om_within_def om_submit_def Let_def split: prod.split sum.split)

definition bot_shut :: "date \<Rightarrow> string set \<Rightarrow> 'c bot \<Rightarrow> bool" where
  "bot_shut d ids bt \<longleftrightarrow> live_halted d (bt_live bt) \<and> om_within ids (lv_om (bt_live bt))"

lemma live_halted_frame [simp]:
  "live_halted d (snd (lv_broker f lv)) = live_halted d lv" "live_halted d (snd (live_audit env level src msg lv)) = live_halted d lv"
  "live_halted d (snd (live_persist lv)) = live_halted d lv" "live_halted d (snd (lv_orders g lv)) = live_halted d lv"
  "live_halted d (snd (live_submit api env oid sg x lv)) = live_halted d lv"
  "live_halted d (lv\<lparr>lv_db := b\<rparr>) = live_halted d lv" "live_halted d (lv\<lparr>lv_sc := sc\<rparr>) = live_halted d lv"
  "live_halted d (lv\<lparr>lv_bus := bus\<rparr>) = live_halted d lv"
  by (simp_all add: live_halted_def)

lemma live_close_each_halted [simp]: "live_halted d (snd (live_close_each api env ids ps lv)) = live_halted d lv"
proof (induction api env ids ps lv rule: live_close_each.induct)
  case (1 api env oid corr ids symb qty ps lv)
  obtain r lv1 where sub: "live_submit api env oid (live_flatten_signal env symb qty corr) (uf_latest_price (lv_feed lv) symb) lv = (r, lv1)"
    by (cases "live_submit api env oid (live_flatten_signal env symb qty corr) (uf_latest_price (lv_feed lv) symb) lv")
  then have "live_halted d lv1 = live_halted d lv"
    using live_halted_frame(5) [of d api env oid "live_flatten_signal env symb qty corr" "uf_latest_price (lv_feed lv) symb" lv] by simp
  with 1 sub show ?case by (cases r) simp_all
qed simp_all

lemma live_command_halted:
  assumes "live_halted d lv" "c \<in> set db_commands" "c \<noteq> ''reset_kill_switch''"
  shows "live_halted d (snd (live_command api env c lv))"
proof -
  have "live_halted d (snd (live_flatten api env lv))"
    unfolding live_flatten_def Let_def
    using assms(1) by (auto intro!: on_ok_snd [where P = "live_halted d"])
  moreover have "live_halted d (lv_breaker (cb_force_halt reason) lv1)" if "live_halted d lv1" for reason and lv1 :: "('a, 'b) live"
    using that by (simp add: live_halted_def cb_force_halt_def)
  ultimately show ?thesis
    using assms
    by (auto simp: live_command_def db_commands_def live_pause_def live_resume_def live_engage_kill_switch_def
        intro!: on_ok_snd [where P = "live_halted d"])
qed

lemma incoming_command_known: "incoming_command cfg raw = Some c \<Longrightarrow> c \<in> set db_commands"
  by (cases "(cfg, raw)" rule: incoming_command.cases)
    (auto split: sum.splits if_splits elim!: db_lookup_command.elims)

text \<open>The names under which a turn may enter orders on the closing paths.\<close>

fun bot_op_ids :: "'c bot_cfg \<Rightarrow> 'c bot_op \<Rightarrow> string set" where
  "bot_op_ids g (Poll env oids) = range (\<lambda>symb. fst (oids symb))"
| "bot_op_ids g (TabSends env c raw) =
     (if incoming_command (bg_bridge g) raw = Some ''flatten'' then fst ` set (le_ids env) else {})"
| "bot_op_ids g _ = {}"

text \<open>The turns that leave a halt of the day alone: all but rounds of another day and the operator's reset.\<close>

fun bot_op_quiet :: "'c bot_cfg \<Rightarrow> date \<Rightarrow> 'c bot_op \<Rightarrow> bool" where
  "bot_op_quiet g d (MonitorRound env) \<longleftrightarrow> date_of (le_now env) = d"
| "bot_op_quiet g d (TabSends env c raw) \<longleftrightarrow> incoming_command (bg_bridge g) raw \<noteq> Some ''reset_kill_switch''"
| "bot_op_quiet g d _ \<longleftrightarrow> True"

lemma bot_live_simps [simp]:
  "bt_live (bot_live f bt) = f (bt_live bt)" "bt_alive (bot_live f bt) = bt_alive bt" "bt_user (bot_live f bt) = bt_user bt"
  by (simp_all add: bot_live_def)

lemma bot_dispatch_shut:
  assumes "bot_shut d ids bt"
  shows "bot_shut d ids (bot_dispatch g envs bt)"
proof (cases "eb_loop_step (live_run (bg_api g) (bg_live g) (bg_bridge g) envs) (lv_bus (bt_live bt), bt_live bt)")
  case None
  with assms show ?thesis by (simp add: bot_dispatch_def)
next
  case (Some p)
  obtain b lv where p: "p = (b, lv)" by (cases p)
  have "live_locked (lv_om (bt_live bt)) d lv"
    using halt_bus.loop_step_keeps [OF Some [unfolded p], of "lv_om (bt_live bt)" d] assms
    by (simp add: live_locked_own bot_shut_def halt_bus.queue_fit_def)
  with assms Some p show ?thesis
    by (auto simp: bot_dispatch_def bot_shut_def dest!: live_locked_halted)
qed

lemma om_within_consume:
  "om_within ids om \<Longrightarrow> om_within ids (fst (om_handle_broker_event now ev (om, b)))"
  by (auto simp: om_within_def om_handle_broker_event_def Let_def split: option.split)

lemma bot_consume_shut:
  assumes "bot_shut d ids bt"
  shows "bot_shut d ids (bot_consume now bt)"
proof (cases "bn_next_event (lv_bn (bt_live bt))")
  case None
  with assms show ?thesis by (simp add: bot_consume_def)
next
  case (Some p)
  obtain ev bn where p: "p = (ev, bn)" by (cases p)
  have "om_within ids (fst (om_handle_broker_event now ev (lv_om (bt_live bt), lv_bus (bt_live bt))))"
    using assms by (simp add: bot_shut_def om_within_consume)
  with assms Some p show ?thesis
    by (cases "om_handle_broker_event now ev (lv_om (bt_live bt), lv_bus (bt_live bt))")
      (simp add: bot_consume_def bot_shut_def live_halted_def)
qed

lemma live_poll_re [simp]: "lv_re (snd (live_poll api mcfg env oids lv)) = lv_re lv"
  by (simp add: live_poll_def split: prod.split)

lemma live_kpi_frame [simp]:
  "lv_re (live_kpi_round api bcfg env lv) = lv_re lv" "lv_om (live_kpi_round api bcfg env lv) = lv_om lv"
  "lv_bus (live_kpi_round api bcfg env lv) = lv_bus lv" "lv_sc (live_kpi_round api bcfg env lv) = lv_sc lv"
  by (simp_all add: live_kpi_round_def split: prod.split)

lemma live_incoming_shut:
  assumes "live_halted d lv" "om_within ids (lv_om lv)"
    and "incoming_command bcfg raw \<noteq> Some ''reset_kill_switch''"
    and "incoming_command bcfg raw = Some ''flatten'' \<Longrightarrow> fst ` set (le_ids env) \<subseteq> ids"
  shows "live_halted d (snd (live_incoming api bcfg env raw lv)) \<and> om_within ids (lv_om (snd (live_incoming api bcfg env raw lv)))"
proof (rule live_incoming_keeps [where P = "\<lambda>lv. live_halted d lv \<and> om_within ids (lv_om lv)"])
  fix c and lv :: "('a, 'b) live"
  assume c: "incoming_command bcfg raw = Some c" and lv: "live_halted d lv \<and> om_within ids (lv_om lv)"
  have "live_halted d (snd (live_command api env c lv))"
    using c lv assms(3) incoming_command_known [OF c] by (intro live_command_halted) auto
  moreover have "halt_desk.live_keeps ids (snd (live_command api env c lv))"
    using c lv assms(4) by (intro halt_desk.live_keeps_command) (auto simp: halt_desk.live_keeps_def)
  ultimately show "live_halted d (snd (live_command api env c lv)) \<and> om_within ids (lv_om (snd (live_command api env c lv)))"
    by (simp add: halt_desk.live_keeps_def)
qed (use assms(1,2) in simp_all)

lemma bot_step_shut:
  assumes "bot_shut d ids bt" "bot_op_quiet g d oper" "bot_op_ids g oper \<subseteq> ids"
  shows "bot_shut d ids (bot_step g oper bt)"
proof (cases oper)
  case (Dispatch envs)
  with assms show ?thesis by (simp add: bot_dispatch_shut)
next
  case (Consume now)
  with assms show ?thesis by (simp add: bot_consume_shut)
next
  case (UserSocket ev)
  with assms show ?thesis by (simp add: bot_user_socket_def bot_shut_def live_halted_def split: prod.split)
next
  case (MarkSocket ev)
  with assms show ?thesis by (simp add: bot_mark_socket_def bot_shut_def live_halted_def split: prod.split)
next
  case (Poll env oids)
  with assms halt_desk.live_keeps_poll [where ids = ids and lv = "bt_live bt" and api = "bg_api g" and env = env and mcfg = "bg_monitor g" and oids = oids]  show ?thesis
    by (auto simp: bot_shut_def live_halted_def halt_desk.live_keeps_def)
next
  case (MonitorRound env)
  with assms live_monitor_locked [of "lv_om (bt_live bt)" d "bt_live bt" env "bg_api g"] show ?thesis
    by (auto simp: bot_shut_def live_locked_own live_monitor_round_def dest!: live_locked_halted)
next
  case (KpiRound env)
  with assms show ?thesis by (simp add: bot_shut_def live_halted_def)
next
  case (TabSends env c raw)
  have "fst ` set (le_ids env) \<subseteq> ids" if "incoming_command (bg_bridge g) raw = Some ''flatten''"
    using assms(3) TabSends that by simp
  then have "live_halted d (snd (live_incoming (bg_api g) (bg_bridge g) env raw (bt_live bt)))
      \<and> om_within ids (lv_om (snd (live_incoming (bg_api g) (bg_bridge g) env raw (bt_live bt))))"
    using assms TabSends by (intro live_incoming_shut) (simp_all add: bot_shut_def)
  with TabSends show ?thesis
    by (cases "live_incoming (bg_api g) (bg_bridge g) env raw (bt_live bt)") (simp add: bot_incoming_def bot_shut_def)
qed (use assms in \<open>simp_all add: bot_shut_def live_halted_def\<close>)

lemma bot_run_shut:
  assumes "bot_shut d ids bt" "\<forall>oper \<in> set ops. bot_op_quiet g d oper \<and> bot_op_ids g oper \<subseteq> ids"
  shows "bot_shut d ids (fold (bot_step g) ops bt)"
  using assms by (induction ops arbitrary: bt) (simp_all add: bot_step_shut)

lemma live_incoming_command:
  assumes "incoming_command bcfg raw = Some c"
  shows "\<exists>b. snd (live_incoming api bcfg env raw lv) = (snd (live_command api env c lv))\<lparr>lv_db := b\<rparr>"
proof -
  obtain d where d: "raw = Value (JObj d)" "bc_token bcfg \<noteq> []" "dget d ''token'' = Some (JStr [StrP (bc_token bcfg)])"
      "db_lookup_command (dget d ''command'') = Inr (Some c)"
    using assms by (cases "(bcfg, raw)" rule: incoming_command.cases) (auto split: sum.splits if_splits)
  obtain r lv1 where run: "live_command api env c lv = (r, lv1)" by (cases "live_command api env c lv")
  then have h: "live_handler api env c (lv_db lv, lv) = (r, lv_db lv1, lv1)" by (simp add: live_handler_def)
  have "snd (snd (db_handle_incoming bcfg (le_dash env) (live_handler api env) raw (lv_db lv, lv))) = lv1"
    by (cases r) (simp_all add: db_handle_incoming_def d h split: prod.split)
  with run show ?thesis
    by (cases "db_handle_incoming bcfg (le_dash env) (live_handler api env) raw (lv_db lv, lv)")
      (auto simp: live_incoming_def)
qed

definition orders_of :: "'c bot \<Rightarrow> string set" where
  "orders_of bt = set (dkeys (om_orders (lv_om (bt_live bt))))"

lemma om_within_own: "om_within (orders_of bt \<union> ids) (lv_om (bt_live bt))"
  by (auto simp: om_within_def orders_of_def set_dkeys)

lemma bot_shut_orders: "bot_shut d ids bt \<Longrightarrow> cb_halted (re_breaker (lv_re (bt_live bt))) \<and> orders_of bt \<subseteq> ids"
  by (auto simp: bot_shut_def live_halted_def om_within_def orders_of_def set_dkeys)

lemma bot_kill_shut:
  assumes "bn_client (lv_bn (bt_live bt)) \<noteq> None" "incoming_command (bg_bridge g) raw = Some ''kill_switch''"
  shows "bot_shut (cb_date (re_breaker (lv_re (bt_live bt)))) (orders_of bt \<union> ids) (bot_step g (TabSends env c raw) bt)"
proof -
  obtain b where b: "snd (live_incoming (bg_api g) (bg_bridge g) env raw (bt_live bt)) =
      (snd (live_engage_kill_switch (bg_api g) env (bt_live bt)))\<lparr>lv_db := b\<rparr>"
    using live_incoming_command [OF assms(2), of "bg_api g" env "bt_live bt"] by (auto simp: live_command_def)
  show ?thesis
    using live_engage_effect [OF assms(1), of "bg_api g" env] om_within_own [of bt ids] b
    by (cases "live_incoming (bg_api g) (bg_bridge g) env raw (bt_live bt)")
      (auto simp: bot_incoming_def bot_shut_def live_halted_def)
qed

text \<open>
  Taking a handler as one turn: once an operator's kill switch has been served, no signal becomes an order for the
  rest of the day, whatever turns the tasks of the bot take after it and in whatever order: the
  dispatcher with all its handlers, broker events, the sockets, polls, rounds of the loops, tabs and
  their commands, short of a reset.  Any order in the table was there before or was entered by a
  poll of the position monitor or a flatten command.
\<close>

theorem bot_kill_switch_holds:
  fixes c :: nat and env :: live_env
  assumes "bn_client (lv_bn (bt_live bt)) \<noteq> None" "incoming_command (bg_bridge g) raw = Some ''kill_switch''"
    and "\<forall>oper \<in> set ops. bot_op_quiet g (cb_date (re_breaker (lv_re (bt_live bt)))) oper"
  defines "bt1 \<equiv> fold (bot_step g) ops (bot_step g (TabSends env c raw) bt)"
  shows "cb_halted (re_breaker (lv_re (bt_live bt1)))
    \<and> orders_of bt1 \<subseteq> orders_of bt \<union> \<Union> (set (map (bot_op_ids g) ops))"
proof -
  let ?ids = "orders_of bt \<union> \<Union> (set (map (bot_op_ids g) ops))"
  have "bot_shut (cb_date (re_breaker (lv_re (bt_live bt)))) ?ids bt1"
    unfolding bt1_def using assms(3) by (intro bot_run_shut bot_kill_shut [OF assms(1,2)]) auto
  then show ?thesis by (rule bot_shut_orders)
qed

definition sample_wired :: "((string \<times> cancel_ref) list, live_handler_id) live" where
  "sample_wired =
     \<lparr>lv_bn = lv_bn sample_live, lv_om = lv_om sample_live, lv_re = lv_re sample_live, lv_sc = lv_sc sample_live,
      lv_mon = lv_mon sample_live, lv_db = lv_db sample_live, lv_feed = lv_feed sample_live, lv_agg = lv_agg sample_live,
      lv_last = lv_last sample_live, lv_recovery = lv_recovery sample_live, lv_stored = [], lv_bus = live_wiring\<rparr>"

definition sample_bot_cfg :: "(string \<times> cancel_ref) list bot_cfg" where
  "sample_bot_cfg = \<lparr>bg_api = sample_api, bg_live = sample_live_cfg, bg_bridge = sample_bridge_cfg, bg_monitor = sample_cfg\<rparr>"

definition sample_command :: "string \<Rightarrow> incoming" where
  "sample_command c = Value (JObj [(''token'', JStr [StrP ''secret'']), (''command'', JStr [StrP c])])"

definition sample_turns :: "(string \<times> cancel_ref) list bot_op list" where
  "sample_turns =
     [MarkSocket FeedOpened, MarkSocket (FeedMsg 5 (Some [Some (''BTCUSDT'', 100, 1)])), Dispatch (\<lambda>_ _. sample_live_env),
      Dispatch (\<lambda>_ _. sample_live_env), MonitorRound sample_live_env, KpiRound sample_live_env, TabJoins sample_live_env 3]"

theorem bot_kill_switch_holds_witness:
  "orders_of (fold (bot_step sample_bot_cfg) sample_turns
      (bot_step sample_bot_cfg (TabSends sample_live_env 1 (sample_command ''kill_switch'')) (bot_init sample_wired))) = {}"
proof -
  have "bn_client (lv_bn (bt_live (bot_init sample_wired))) \<noteq> None"
    by (simp add: bot_init_def sample_wired_def sample_live_def sample_live_broker_def)
  moreover have "incoming_command (bg_bridge sample_bot_cfg) (sample_command ''kill_switch'') = Some ''kill_switch''"
    by (simp add: sample_bot_cfg_def sample_bridge_cfg_def sample_command_def db_commands_def)
  moreover have "\<forall>oper \<in> set sample_turns.
      bot_op_quiet sample_bot_cfg (cb_date (re_breaker (lv_re (bt_live (bot_init sample_wired))))) oper"
    by (simp add: sample_turns_def sample_live_env_def date_of_def bot_init_def sample_wired_def sample_live_def
        sample_engine_def re_init_def)
  ultimately have "orders_of (fold (bot_step sample_bot_cfg) sample_turns
      (bot_step sample_bot_cfg (TabSends sample_live_env 1 (sample_command ''kill_switch'')) (bot_init sample_wired)))
    \<subseteq> orders_of (bot_init sample_wired) \<union> \<Union> (set (map (bot_op_ids sample_bot_cfg) sample_turns))"
    by (rule bot_kill_switch_holds [THEN conjunct2])
  also have "\<dots> = {}"
    by (simp add: orders_of_def sample_turns_def bot_init_def sample_wired_def sample_live_def om_init_def dkeys_def)
  finally show ?thesis by simp
qed

text \<open>
  Property C21. A halt survives a restart.  When the stored session is a halted one of the same UTC day
  and the same account, a bot that comes up comes up halted with the stored reason.  It stays halted, and
  its order table holds only orders entered by polls of the position monitor and flatten commands,
  through any turns of its tasks in any order, as long as the operator does not reset it and no round of
  the monitor loop falls on another day (such a round lifts the halt).
\<close>

theorem bot_restart_keeps_halt:
  assumes "live_start api s env = Some (Inr (lv, cfg, bcfg))"
    and "se_session env = Json (sr_payload sr0 b0)" "cb_halted b0" "cb_date b0 = date_of (se_now env)"
    and "sr_env sr0 = live_environment_id s (se_fingerprint env)"
    and "\<forall>oper \<in> set ops. bot_op_quiet g (date_of (se_now env)) oper"
  shows "cb_reason (re_breaker (lv_re lv)) = cb_reason b0
    \<and> cb_halted (re_breaker (lv_re (bt_live (fold (bot_step g) ops (bot_init lv)))))
    \<and> orders_of (fold (bot_step g) ops (bot_init lv)) \<subseteq> \<Union> (set (map (bot_op_ids g) ops))"
proof -
  obtain universe bn re sr bn1 bn2 where start: "live_recover api s env universe bn = (Inr (re, sr), bn1)"
      "lv = live_assemble s env universe re sr bn2"
    using assms(1) by (rule live_start_cases)
  obtain b where b: "re_breaker (lv_re lv) = cb_restore (cb_snapshot b0) b"
    using live_recover_resumes [OF start(1) assms(2,4,5)] start(2) by (auto simp: live_assemble_def)
  have "bot_shut (date_of (se_now env)) (\<Union> (set (map (bot_op_ids g) ops))) (bot_init lv)"
    using b start(2) assms(3,4)
    by (simp add: bot_shut_def bot_init_def live_halted_def om_within_def live_assemble_def om_init_def cb_restore_def cb_snapshot_def)
  then have "bot_shut (date_of (se_now env)) (\<Union> (set (map (bot_op_ids g) ops))) (fold (bot_step g) ops (bot_init lv))"
    using assms(6) by (intro bot_run_shut) auto
  from bot_shut_orders [OF this] b show ?thesis by (simp add: cb_restore_def cb_snapshot_def)
qed

theorem bot_restart_keeps_halt_witness:
  "\<exists>lv cfg bcfg. live_start sample_api sample_settings sample_start = Some (Inr (lv, cfg, bcfg))
    \<and> cb_reason (re_breaker (lv_re lv)) = cb_reason halted_breaker
    \<and> orders_of (fold (bot_step sample_bot_cfg) [MonitorRound (sample_live_env\<lparr>le_now := usec_per_day\<rparr>), TabLeaves 1] (bot_init lv)) = {}"
proof -
  obtain lv cfg bcfg where start: "live_start sample_api sample_settings sample_start = Some (Inr (lv, cfg, bcfg))"
    by (rule sample_starts)
  let ?ops = "[MonitorRound (sample_live_env\<lparr>le_now := usec_per_day\<rparr>), TabLeaves 1]"
  have "cb_reason (re_breaker (lv_re lv)) = cb_reason halted_breaker
    \<and> cb_halted (re_breaker (lv_re (bt_live (fold (bot_step sample_bot_cfg) ?ops (bot_init lv)))))
    \<and> orders_of (fold (bot_step sample_bot_cfg) ?ops (bot_init lv)) \<subseteq> \<Union> (set (map (bot_op_ids sample_bot_cfg) ?ops))"
    by (rule bot_restart_keeps_halt [where ?sr0.0 = "\<lparr>sr_env = live_environment_id sample_settings ''abc'', sr_file = Missing, sr_write = Written\<rparr>",
          OF start])
      (simp_all add: sample_start_def halted_breaker_def date_of_def usec_per_day_def)
  with start show ?thesis by auto
qed

end
