(* ===== verification/Live_Invariant.thy ===== *)
theory Live_Invariant
  imports Live_Bot
begin

text \<open>
  What holds in every state the running bot can reach: the shape of its orders, the events on its
  bus, and the drain of the bus.  The proofs go turn by turn, over the contracts \<open>order_desk\<close> and
  \<open>bus_client\<close> of \<^verbatim>\<open>Live_Bot\<close> and \<^verbatim>\<open>Event_Bus\<close>.
\<close>

section \<open>Orders at market\<close>

definition plain_signal :: "signal_event \<Rightarrow> bool" where
  "plain_signal sg \<longleftrightarrow> sg_type sg = MARKET \<and> sg_tif sg = DAY \<and> sg_limit sg = None \<and> sg_oca sg = None"

definition plain_order :: "string \<Rightarrow> managed_order \<Rightarrow> bool" where
  "plain_order oid mo \<longleftrightarrow> mo_id mo = oid \<and> mo_type mo = MARKET \<and> mo_tif mo = DAY \<and> mo_limit mo = None
     \<and> mo_oca mo = None \<and> 0 \<le> mo_qty mo"

definition plain_orders :: "order_manager \<Rightarrow> bool" where
  "plain_orders om \<longleftrightarrow> wf_dict (om_orders om) \<and> (\<forall>oid mo. dget (om_orders om) oid = Some mo \<longrightarrow> plain_order oid mo)"

definition no_groups :: "'c binance \<Rightarrow> bool" where
  "no_groups bn \<longleftrightarrow> bn_order_group bn = Map.empty \<and> bn_oca_groups bn = Map.empty"

lemma no_groups_asked: "bn_asked bn bn1 \<Longrightarrow> no_groups bn1 = no_groups bn"
  by (auto simp: bn_asked_def no_groups_def)

lemma no_groups_call [simp]: "no_groups (snd (bn_call f bn)) = no_groups bn"
  by (simp add: no_groups_asked [OF bn_asked_call])

lemma no_groups_fields [simp]:
  "no_groups (bn\<lparr>bn_client := c\<rparr>) = no_groups bn" "no_groups (bn\<lparr>bn_info := i\<rparr>) = no_groups bn"
  "no_groups (bn\<lparr>bn_filters := f\<rparr>) = no_groups bn" "no_groups (bn\<lparr>bn_configured := g\<rparr>) = no_groups bn"
  "no_groups (bn\<lparr>bn_events := es\<rparr>) = no_groups bn" "no_groups (bn\<lparr>bn_connected := b\<rparr>) = no_groups bn"
  "no_groups (bn_emit e bn) = no_groups bn" "no_groups (bn_init t ss l mt rw b0 bm)"
  by (simp_all add: no_groups_def bn_emit_def bn_init_def)

lemma no_groups_register: "rq_oca rq = None \<Longrightarrow> no_groups bn \<Longrightarrow> no_groups (bn_register rq bn)"
  by (simp add: no_groups_def bn_register_def Let_def)

lemma no_groups_place:
  assumes "rq_oca rq = None" "no_groups bn"
  shows "no_groups (snd (bn_place_order api now rq bn))"
  by (rule bn_place_cases [of api now rq bn]) (simp_all add: assms no_groups_register)

lemma plain_submit:
  assumes "plain_orders om" "no_groups bn" "plain_signal sg"
  shows "case om_submit (bn_venue api now) oid now sg x (om, bn) of (r, om1, bn1) \<Rightarrow> plain_orders om1 \<and> no_groups bn1"
proof -
  let ?mo = "(om_new_order oid now sg x)\<lparr>mo_status := SUBMITTED\<rparr>"
  have "plain_order oid ?mo" using assms(3) by (simp add: plain_order_def om_new_order_def plain_signal_def)
  then have "plain_orders (om\<lparr>om_orders := dset oid ?mo (om_orders om)\<rparr>)"
    using assms(1) by (simp add: plain_orders_def)
  moreover have "no_groups (snd (vn_place (bn_venue api now) (om_request oid sg) bn))"
    using assms(2,3) by (simp add: bn_venue_def om_request_def plain_signal_def no_groups_place)
  ultimately show ?thesis
    by (simp add: om_submit_def Let_def split: prod.splits sum.split) (metis snd_conv)
qed

interpretation plain_desk: order_desk api "\<lambda>om bn. plain_orders om \<and> no_groups bn" "\<lambda>oid. plain_signal" for api
proof unfold_locales
  fix om and bn bn1 :: "'a binance"
  assume "plain_orders om \<and> no_groups bn" "bn_asked bn bn1"
  then show "plain_orders om \<and> no_groups bn1" by (simp add: no_groups_asked)
qed (rule plain_submit, simp_all)

lemma plain_closing [simp]: "plain_signal (pm_close_signal now symb q corr)" "plain_signal (live_flatten_signal env symb q corr)"
  by (simp_all add: plain_signal_def pm_close_signal_def live_flatten_signal_def)

lemma no_groups_refresh [simp]: "no_groups bn \<Longrightarrow> no_groups (snd (bn_refresh_exchange_info api bn))"
  unfolding bn_refresh_exchange_info_def by (auto intro!: on_ok_snd [where P = no_groups])

lemma no_groups_load [simp]: "no_groups bn \<Longrightarrow> no_groups (snd (bn_load_filter symb bn))"
  by (simp add: bn_load_filter_def split: option.split)

lemma no_groups_max_leverage [simp]: "no_groups bn \<Longrightarrow> no_groups (snd (bn_max_leverage_for api symb bn))"
  using no_groups_call [of "ap_first_bracket api symb" bn]
  by (cases "bn_call (ap_first_bracket api symb) bn") (auto simp: bn_max_leverage_for_def split: sum.split)

lemma no_groups_configure [simp]:
  assumes "no_groups bn"
  shows "no_groups (snd (bn_configure_leverage_and_margin api symb lev mt bn))"
proof -
  let ?bn1 = "snd (bn_call (ap_margin_type api symb mt) bn)"
  obtain r bn2 where lev: "bn_call (ap_set_leverage api symb lev) ?bn1 = (r, bn2)"
    by (cases "bn_call (ap_set_leverage api symb lev) ?bn1")
  have "no_groups bn2"
    using no_groups_call [of "ap_set_leverage api symb lev" ?bn1] lev assms by simp
  then show ?thesis
    using assms lev
    by (cases r) (auto simp: bn_configure_leverage_and_margin_def Let_def bn_mark_configured_def
        intro!: on_ok_snd [where P = no_groups] split: option.split)
qed

lemma no_groups_ready: "no_groups bn \<Longrightarrow> no_groups (snd (bn_ensure_symbol_ready api symb lev mt bn))"
  unfolding bn_ensure_symbol_ready_def
  by (intro on_ok_snd [where P = no_groups]) (auto intro!: on_ok_snd [where P = no_groups] split: option.split)

lemma plain_broker_event:
  assumes "plain_orders om"
  shows "plain_orders (fst (om_handle_broker_event now ev (om, b)))"
proof (cases "dget (om_orders om) (be_order_id ev)")
  case None
  with assms show ?thesis by (simp add: om_handle_broker_event_def)
next
  case (Some mo)
  then have "plain_order (be_order_id ev) mo" using assms by (simp add: plain_orders_def)
  then have "plain_order (be_order_id ev) (om_apply ev (mo\<lparr>mo_updated := now\<rparr>))"
    by (cases ev) (simp_all add: plain_order_def om_fill_def Let_def)
  with Some assms show ?thesis by (simp add: om_handle_broker_event_def Let_def plain_orders_def)
qed

lemma no_groups_user_message:
  "no_groups bn \<Longrightarrow> no_groups (snd (bn_handle_user_message api now m bn))"
  by (auto simp: bn_handle_user_message_def Let_def bn_handle_oca_fill_def no_groups_def split: option.split)

section \<open>What the handlers keep\<close>

definition agg_within :: "string set \<Rightarrow> aggregator \<Rightarrow> bool" where
  "agg_within u a \<longleftrightarrow> (\<forall>symb b. ba_open_bars a symb = Some b \<longrightarrow> ob_symbol b \<in> u)"

lemma ba_on_tick_within:
  assumes "agg_within u a" "tk_symbol t \<in> u"
  shows "agg_within u (snd (ba_on_tick t a)) \<and> (\<forall>bar. fst (ba_on_tick t a) = Inr (Some bar) \<longrightarrow> br_symbol bar \<in> u)"
  using assms
  by (auto simp: ba_on_tick_def agg_within_def Let_def ba_finalize_def ba_new_bar_def ob_update_def
      split: sum.split option.splits if_splits)

text \<open>Events of the dispatcher's making concern the universe, and signals ask for a market order.\<close>

fun event_fit :: "string set \<Rightarrow> event \<Rightarrow> bool" where
  "event_fit u (SignalE sg) \<longleftrightarrow> sg_symbol sg \<in> u \<and> 0 < sg_qty sg \<and> plain_signal sg"
| "event_fit u (BarE bar) \<longleftrightarrow> br_symbol bar \<in> u"
| "event_fit u _ \<longleftrightarrow> True"

definition live_good :: "string set \<Rightarrow> ('c, 'h) live \<Rightarrow> bool" where
  "live_good u lv \<longleftrightarrow> plain_orders (lv_om lv) \<and> no_groups (lv_bn lv)
     \<and> set (st_symbols (lv_sc lv)) = u \<and> agg_within u (lv_agg lv)"

definition bus_fit :: "string set \<Rightarrow> 'h bus \<Rightarrow> bool" where
  "bus_fit u b \<longleftrightarrow> (\<forall>e \<in> set (aq_items (eb_queue b)). event_fit u e)"

lemma bus_fit_publish: "bus_fit u b \<Longrightarrow> event_fit u e \<Longrightarrow> bus_fit u (eb_publish e b)"
  by (auto simp: bus_fit_def eb_publish_unfold)

lemma bus_fit_init [simp]: "bus_fit u (eb_init n)"
  by (simp add: bus_fit_def eb_init_def aq_new_def)

lemma live_good_frame [simp]:
  "live_good u (lv\<lparr>lv_db := b\<rparr>) = live_good u lv" "live_good u (lv\<lparr>lv_bus := bus\<rparr>) = live_good u lv"
  "live_good u (lv\<lparr>lv_re := re\<rparr>) = live_good u lv" "live_good u (lv\<lparr>lv_last := l\<rparr>) = live_good u lv"
  "live_good u (lv\<lparr>lv_stored := st\<rparr>) = live_good u lv" "live_good u (lv\<lparr>lv_feed := f\<rparr>) = live_good u lv"
  by (simp_all add: live_good_def)

definition live_fit :: "string set \<Rightarrow> ('c, 'h) live \<Rightarrow> bool" where
  "live_fit u lv \<longleftrightarrow> live_good u lv \<and> bus_fit u (lv_bus lv)"

lemma live_on_tick_fit:
  assumes "live_fit u lv" "set (lc_universe cfg) = u"
  shows "live_fit u (snd (live_on_tick cfg env t lv))"
proof (cases "tk_symbol t \<in> u")
  case False
  with assms show ?thesis by (simp add: live_on_tick_def)
next
  case True
  define lv1 where "lv1 = lv\<lparr>lv_last := (lv_last lv)(tk_symbol t \<mapsto> tick_mid t),
     lv_re := re_update_market_state (tk_symbol t) (tick_mid t) (lv_re lv)\<rparr>"
  have lv1: "live_fit u lv1" using assms(1) by (simp add: lv1_def live_fit_def)
  define k :: "('a, 'b) live \<Rightarrow> unit result \<times> ('a, 'b) live" where
    "k = (\<lambda>lv2. case ba_on_tick t (lv_agg lv2) of
               (Inl e, agg) \<Rightarrow> (Inl e, lv2\<lparr>lv_agg := agg\<rparr>)
             | (Inr None, agg) \<Rightarrow> (Inr (), lv2\<lparr>lv_agg := agg\<rparr>)
             | (Inr (Some bar), agg) \<Rightarrow> live_completed_bar env bar (lv2\<lparr>lv_agg := agg\<rparr>))"
  have k: "live_fit u (snd (k lv2))" if lv2: "live_fit u lv2" for lv2
  proof -
    obtain r a where t: "ba_on_tick t (lv_agg lv2) = (r, a)" by (cases "ba_on_tick t (lv_agg lv2)")
    then have a: "agg_within u a" "\<And>bar. r = Inr (Some bar) \<Longrightarrow> br_symbol bar \<in> u"
      using ba_on_tick_within [of u "lv_agg lv2" t] lv2 True by (simp_all add: live_fit_def live_good_def)
    then show ?thesis
      using lv2 t by (auto simp: k_def live_fit_def live_good_def live_completed_bar_def bus_fit_publish
          split: sum.split option.split)
  qed
  have "live_fit u (snd (live_refresh_margin_schedule cfg (tk_symbol t) (tick_mid t) lv1))"
    using lv1 by (simp add: live_refresh_margin_schedule_def live_fit_def split: sum.split)
  moreover have "live_on_tick cfg env t lv =
      on_ok (live_refresh_margin_schedule cfg (tk_symbol t) (tick_mid t) lv1) (\<lambda>_ lv2. k lv2)"
    using True assms(2) by (simp add: live_on_tick_def Let_def lv1_def k_def)
  ultimately show ?thesis using k by (auto intro: on_ok_snd [where P = "live_fit u"])
qed

lemma live_on_bar_fit:
  assumes "live_fit u lv"
  shows "live_fit u (snd (live_on_bar api env corr bar lv))"
proof -
  let ?i = "live_scan_input api env corr lv"
  obtain r sc b where d: "sc_dispatch_bar ?i (lv_mon lv) (lv_feed lv) bar (lv_sc lv, lv_bus lv) = (r, sc, b)"
    by (rule prod_cases3)
  have "set (st_symbols sc) = u \<and> bus_fit u b"
  proof (cases "st_wants (lv_sc lv) (BarE bar)")
    case False
    with d have "sc = lv_sc lv" "b = lv_bus lv" by (simp_all add: sc_dispatch_bar_def del: st_wants.simps)
    with assms show ?thesis by (simp add: live_fit_def live_good_def)
  next
    case True
    have sc: "st_symbols (sc_prune opens clk s) = st_symbols s" for opens clk s by (simp add: sc_prune_def)
    show ?thesis
    proof (rule sc_on_bar_cases [of ?i "lv_mon lv" "lv_feed lv" bar "lv_sc lv" "lv_bus lv"])
      assume "snd (sc_on_bar ?i (lv_mon lv) (lv_feed lv) bar (lv_sc lv, lv_bus lv)) =
        (sc_prune (pm_open_symbols (lv_mon lv)) (sn_mono ?i) (lv_sc lv), lv_bus lv)"
      with d True assms sc show ?thesis by (auto simp: sc_dispatch_bar_def live_fit_def live_good_def)
    next
      fix sd lots sg
      assume "0 < lots" "sg_qty sg = lots" "sg_symbol sg = br_symbol bar" "sg_type sg = MARKET"
        "sg_tif sg = DAY" "sg_limit sg = None" "sg_oca sg = None"
        "sc_on_bar ?i (lv_mon lv) (lv_feed lv) bar (lv_sc lv, lv_bus lv) = (Inr (Some sg),
           ((sc_prune (pm_open_symbols (lv_mon lv)) (sn_mono ?i) (lv_sc lv))\<lparr>sc_pending := dset (br_symbol bar) (sn_mono ?i)
              (sc_pending (sc_prune (pm_open_symbols (lv_mon lv)) (sn_mono ?i) (lv_sc lv)))\<rparr>, st_emit_signal sg (lv_bus lv)))"
      with d True assms sc show ?thesis
        by (auto simp: sc_dispatch_bar_def live_fit_def live_good_def st_emit_signal_def plain_signal_def intro!: bus_fit_publish)
    qed
  qed
  moreover have "no_groups (if live_asks_equity ?i bar lv then snd (bn_get_account_equity api (lv_bn lv)) else lv_bn lv)"
    using assms by (simp add: live_fit_def live_good_def no_groups_asked [OF bn_asked_requests(1)])
  ultimately show ?thesis
    using assms by (simp add: live_on_bar_def Let_def d live_fit_def live_good_def)
qed

lemma live_fit_fields:
  "live_fit u lv = (plain_orders (lv_om lv) \<and> no_groups (lv_bn lv) \<and> set (st_symbols (lv_sc lv)) = u
     \<and> agg_within u (lv_agg lv) \<and> bus_fit u (lv_bus lv))"
  by (simp add: live_fit_def live_good_def)

lemma live_fit_broker:
  "live_fit u lv \<Longrightarrow> no_groups (snd (f (lv_bn lv))) \<Longrightarrow> live_fit u (snd (lv_broker f lv))"
  by (cases "f (lv_bn lv)") (simp add: lv_broker_def live_fit_fields)

lemma live_fit_bridge [simp]: "live_fit u (snd (lv_bridge f lv)) = live_fit u lv"
  by (cases "f (lv_db lv)") (simp add: lv_bridge_def live_fit_fields)

lemma live_fit_audit [simp]: "live_fit u (snd (live_audit env level src msg lv)) = live_fit u lv"
  by (simp add: live_audit_def)

lemma live_fit_asked:
  "live_fit u lv \<Longrightarrow> (\<And>bn. bn_asked bn (snd (f bn))) \<Longrightarrow> live_fit u (snd (lv_broker f lv))"
  by (rule live_fit_broker) (simp_all add: live_fit_fields no_groups_asked [of "lv_bn lv" "snd (f (lv_bn lv))"])

lemma live_fit_submit:
  assumes "live_fit u lv" "plain_signal sg"
  shows "live_fit u (snd (live_submit api env oid sg x lv))"
proof -
  obtain r om bn where sub: "om_submit (bn_venue api (le_now env)) oid (le_now env) sg x (lv_om lv, lv_bn lv) = (r, om, bn)"
    by (rule prod_cases3)
  then have "plain_orders om \<and> no_groups bn"
    using plain_submit [of "lv_om lv" "lv_bn lv" sg api "le_now env" oid x] assms by (simp add: live_fit_fields)
  with assms sub show ?thesis by (simp add: live_submit_def lv_orders_def live_fit_fields)
qed

lemma live_fit_view: "live_fit u lv \<Longrightarrow> live_fit u (snd (live_account_view api lv))"
  unfolding live_account_view_def
  by (auto intro!: on_ok_snd [where P = "live_fit u"] live_fit_asked split: sum.split)

lemma live_on_signal_fit:
  assumes "live_fit u lv" "plain_signal sg"
  shows "live_fit u (snd (live_on_signal api cfg env oid sg lv))"
proof -
  define k :: "account_view \<Rightarrow> ('a, 'b) live \<Rightarrow> unit result \<times> ('a, 'b) live" where
    "k = (\<lambda>av lv1. case re_check_order sg av (le_mono env) (lv_re lv1) of
            (result, re) \<Rightarrow>
              (let lv2 = lv1\<lparr>lv_re := re\<rparr> in
               if \<not> rr_passed result
               then live_audit env ''risk'' ''risk_engine''
                      ([Lit ''REJECTED ['', StrP (rr_code result), Lit ''] ''] @ rr_message result) lv2
               else on_ok (live_audit env ''risk'' ''risk_engine'' [Lit ''pre-trade checks passed''] lv2)
                 (\<lambda>_ lv3. on_ok (lv_broker (bn_ensure_symbol_ready api (sg_symbol sg) (lc_leverage cfg) (lc_margin_type cfg)) lv3)
                   (\<lambda>_ lv4. live_submit api env oid sg (lv_last lv4 (sg_symbol sg)) lv4))))"
  have k: "live_fit u (snd (k av lv1))" if lv1: "live_fit u lv1" for av lv1
  proof -
    obtain result re where c: "re_check_order sg av (le_mono env) (lv_re lv1) = (result, re)"
      by (cases "re_check_order sg av (le_mono env) (lv_re lv1)")
    have lv2: "live_fit u (lv1\<lparr>lv_re := re\<rparr>)" using lv1 by (simp add: live_fit_fields)
    have ready: "live_fit u (snd (lv_broker (bn_ensure_symbol_ready api (sg_symbol sg) (lc_leverage cfg) (lc_margin_type cfg)) lv3))"
      if "live_fit u lv3" for lv3 :: "('a, 'b) live"
      using that by (intro live_fit_broker no_groups_ready) (simp_all add: live_fit_fields)
    show ?thesis
      using lv2 ready assms(2)
      by (auto simp: k_def c Let_def intro!: on_ok_snd [where P = "live_fit u"] live_fit_submit)
  qed
  have "live_on_signal api cfg env oid sg lv = on_ok (live_account_view api lv) (\<lambda>av lv1. k av lv1)"
    by (simp add: live_on_signal_def k_def)
  then show ?thesis using k live_fit_view [OF assms(1), of api] by (auto intro: on_ok_snd [where P = "live_fit u"])
qed

lemma live_handle_fit:
  assumes "live_fit u lv" "event_fit u e" "set (lc_universe cfg) = u"
  shows "live_fit u (snd (live_handle api cfg bcfg env h e lv))"
  using assms
  by (cases h; cases e) (simp_all add: live_on_tick_fit live_on_bar_fit live_on_signal_fit)

definition live_world :: "string set \<Rightarrow> live_cfg \<Rightarrow> ('c, 'h) live \<Rightarrow> bool" where
  "live_world u cfg lv \<longleftrightarrow> live_good u lv \<and> set (lc_universe cfg) = u"

lemma live_run_fit:
  assumes "live_world u cfg lv" "event_fit u e"
  shows "live_world u cfg (snd (live_run api cfg bcfg envs h e lv))
    \<and> (\<forall>p \<in> set (fst (fst (live_run api cfg bcfg envs h e lv))). event_fit u p)"
proof -
  obtain r lv1 where h: "live_handle api cfg bcfg (envs h lv) h e (lv\<lparr>lv_bus := eb_init 0\<rparr>) = (r, lv1)"
    by (cases "live_handle api cfg bcfg (envs h lv) h e (lv\<lparr>lv_bus := eb_init 0\<rparr>)")
  have "live_fit u (lv\<lparr>lv_bus := eb_init 0\<rparr>)" using assms(1) by (simp add: live_world_def live_fit_def)
  then have "live_fit u lv1"
    using live_handle_fit [of u "lv\<lparr>lv_bus := eb_init 0\<rparr>" e cfg api bcfg "envs h lv" h] assms h by (simp add: live_world_def)
  with assms(1) h show ?thesis by (simp add: live_run_def live_world_def live_fit_def bus_fit_def)
qed

interpretation fit_bus: bus_client "live_run api cfg bcfg envs" "live_world u cfg" "event_fit u" for api cfg bcfg envs u
  by unfold_locales (simp_all add: live_run_fit)

lemma fit_bus_queue: "fit_bus.queue_fit u b = bus_fit u b"
  by (simp add: fit_bus.queue_fit_def bus_fit_def)

section \<open>Turns\<close>

text \<open>The bus between two turns: running, consistent, of its fixed capacity, holding only fit events.\<close>

definition bus_sound :: "string set \<Rightarrow> 'h bus \<Rightarrow> bool" where
  "bus_sound u b \<longleftrightarrow> eb_inv b \<and> aq_max (eb_queue b) = 100000 \<and> bus_fit u b
     \<and> eb_running b \<and> eb_pc b \<noteq> LoopExited"

lemma bus_sound_publish: "bus_sound u b \<Longrightarrow> event_fit u e \<Longrightarrow> bus_sound u (eb_publish e b)"
  by (simp add: bus_sound_def eb_inv_publish bus_fit_publish) (simp add: eb_publish_unfold)

lemma bus_inv_step:
  assumes "eb_loop_step run (b, w) = Some (b1, w1)" "eb_inv b" "eb_running b"
  shows "eb_inv b1 \<and> aq_max (eb_queue b1) = aq_max (eb_queue b) \<and> eb_running b1 \<and> eb_pc b1 \<noteq> LoopExited"
proof (cases "eb_pc b")
  case LoopGet
  then obtain e es where items: "aq_items (eb_queue b) = e # es"
    using assms(1) by (cases "aq_items (eb_queue b)") (auto simp: eb_step_idle)
  show ?thesis
    by (rule eb_step_get [OF assms(2) LoopGet items, of run w]) (use assms(1,3) in simp)
qed (use assms in \<open>auto simp: eb_step_test eb_inv_def\<close>)

definition bot_sound :: "'c bot_cfg \<Rightarrow> 'c bot \<Rightarrow> bool" where
  "bot_sound g bt \<longleftrightarrow> live_good (set (lc_universe (bg_live g))) (bt_live bt)
     \<and> bus_sound (set (lc_universe (bg_live g))) (lv_bus (bt_live bt))"

lemma bot_dispatch_sound:
  assumes "bot_sound g bt"
  shows "bot_sound g (bot_dispatch g envs bt)"
proof (cases "eb_loop_step (live_run (bg_api g) (bg_live g) (bg_bridge g) envs) (lv_bus (bt_live bt), bt_live bt)")
  case None
  with assms show ?thesis by (simp add: bot_dispatch_def)
next
  case (Some p)
  let ?u = "set (lc_universe (bg_live g))"
  obtain b lv where p: "p = (b, lv)" by (cases p)
  have "live_world ?u (bg_live g) lv \<and> fit_bus.queue_fit ?u b"
    using fit_bus.loop_step_keeps [OF Some [unfolded p], of ?u] assms
    by (simp add: bot_sound_def bus_sound_def live_world_def fit_bus_queue)
  moreover have "eb_inv b \<and> aq_max (eb_queue b) = aq_max (eb_queue (lv_bus (bt_live bt))) \<and> eb_running b \<and> eb_pc b \<noteq> LoopExited"
    using bus_inv_step [OF Some [unfolded p]] assms by (simp add: bot_sound_def bus_sound_def)
  ultimately show ?thesis
    using assms Some p by (simp add: bot_dispatch_def bot_sound_def bus_sound_def live_world_def fit_bus_queue)
qed

lemma broker_event_sound:
  "bus_sound u b \<Longrightarrow> bus_sound u (snd (om_handle_broker_event now ev (om, b)))"
  by (cases ev) (auto simp: om_handle_broker_event_def Let_def intro!: bus_sound_publish split: option.split)

lemma bot_consume_sound:
  assumes "bot_sound g bt"
  shows "bot_sound g (bot_consume now bt)"
proof (cases "bn_next_event (lv_bn (bt_live bt))")
  case None
  with assms show ?thesis by (simp add: bot_consume_def)
next
  case (Some p)
  let ?lv = "bt_live bt"
  obtain ev bn where p: "p = (ev, bn)" by (cases p)
  obtain om b where h: "om_handle_broker_event now ev (lv_om ?lv, lv_bus ?lv) = (om, b)"
    by (cases "om_handle_broker_event now ev (lv_om ?lv, lv_bus ?lv)")
  have "no_groups bn"
    using assms Some p by (auto simp: bn_next_event_def bot_sound_def live_good_def split: list.splits)
  moreover have "plain_orders om" "bus_sound (set (lc_universe (bg_live g))) b"
    using plain_broker_event [of "lv_om ?lv" now ev "lv_bus ?lv"] broker_event_sound [of _ "lv_bus ?lv" now ev "lv_om ?lv"]
      assms h by (simp_all add: bot_sound_def live_good_def)
  ultimately show ?thesis
    using assms Some p h by (simp add: bot_consume_def bot_sound_def live_good_def)
qed

lemma bot_user_socket_sound:
  assumes "bot_sound g bt"
  shows "bot_sound g (bot_user_socket g ev bt)"
proof -
  obtain opn backoff where u: "bt_user bt = (opn, backoff)" by (cases "bt_user bt")
  obtain out st bn where s: "bn_stream_step (bg_api g) ev ((opn, backoff), lv_bn (bt_live bt)) = (out, st, bn)"
    by (rule prod_cases3)
  have g: "no_groups (lv_bn (bt_live bt))" using assms by (simp add: bot_sound_def live_good_def)
  have "no_groups bn"
  proof (cases ev)
    case (SockMsg now m)
    obtain r bn1 where h: "bn_handle_user_message (bg_api g) now m (lv_bn (bt_live bt)) = (r, bn1)"
      by (cases "bn_handle_user_message (bg_api g) now m (lv_bn (bt_live bt))")
    then have "no_groups bn1" using no_groups_user_message [OF g, of "bg_api g" now m] by simp
    with s g h SockMsg show ?thesis by (auto simp: bn_stream_step_def Let_def split: if_splits sum.splits)
  qed (use s g in \<open>auto simp: bn_stream_step_def Let_def split: if_splits\<close>)
  with assms s u show ?thesis by (simp add: bot_user_socket_def bot_sound_def live_good_def)
qed

lemma mark_message_sound: "bus_sound u b \<Longrightarrow> bus_sound u (snd (uf_handle_message now payload (f, b)))"
proof -
  assume b: "bus_sound u b"
  have items: "bus_sound u (snd (fold (uf_handle_item now) items fb))" if "bus_sound u (snd fb)" for items fb
    using that
  proof (induction items arbitrary: fb)
    case Nil
    then show ?case by simp
  next
    case (Cons x items)
    have "bus_sound u (snd (uf_handle_item now x fb))"
      using Cons.prems by (cases "(now, x, fb)" rule: uf_handle_item.cases) (simp_all add: Let_def bus_sound_publish)
    with Cons.IH show ?case by simp
  qed
  show ?thesis
  proof (cases payload)
    case None
    with b show ?thesis by (simp add: uf_handle_message_def)
  next
    case (Some is0)
    with b items [of "(f, b)" is0] show ?thesis
      by (cases "fold (uf_handle_item now) is0 (f, b)") (simp add: uf_handle_message_def)
  qed
qed

lemma bot_mark_socket_sound:
  assumes "bot_sound g bt"
  shows "bot_sound g (bot_mark_socket ev bt)"
proof -
  obtain opn backoff where u: "bt_marks bt = (opn, backoff)" by (cases "bt_marks bt")
  obtain out st f b where s: "uf_stream_step (2, 60) ev ((opn, backoff), lv_feed (bt_live bt), lv_bus (bt_live bt)) = (out, st, f, b)"
    by (metis prod_cases4)
  have "bus_sound (set (lc_universe (bg_live g))) b"
    using s assms mark_message_sound [of _ "lv_bus (bt_live bt)" _ _ "lv_feed (bt_live bt)"]
    by (cases ev) (auto simp: uf_stream_step_def bot_sound_def split: if_splits, metis snd_conv)
  with assms s u show ?thesis by (simp add: bot_mark_socket_def bot_sound_def live_good_def)
qed

text \<open>What the closing paths and the operator's commands leave alone.\<close>

definition live_rest :: "('c, 'h) live \<Rightarrow> string set \<times> aggregator \<times> 'h bus" where
  "live_rest lv = (set (st_symbols (lv_sc lv)), lv_agg lv, lv_bus lv)"

lemma live_rest_frame [simp]:
  "live_rest (snd (lv_broker f lv)) = live_rest lv" "live_rest (snd (lv_bridge g lv)) = live_rest lv"
  "live_rest (snd (live_audit env level src msg lv)) = live_rest lv" "live_rest (snd (lv_orders h lv)) = live_rest lv"
  "live_rest (snd (live_persist lv)) = live_rest lv" "live_rest (lv_breaker k lv) = live_rest lv"
  "live_rest (lv\<lparr>lv_db := b\<rparr>) = live_rest lv" "live_rest (lv\<lparr>lv_re := re\<rparr>) = live_rest lv"
  by (simp_all add: live_rest_def lv_broker_def lv_bridge_def lv_orders_def live_persist_def lv_breaker_def live_audit_def
      split: prod.split)

lemma live_rest_submit [simp]: "live_rest (snd (live_submit api env oid sg x lv)) = live_rest lv"
  by (cases "lv_orders (om_submit (bn_venue api (le_now env)) oid (le_now env) sg x) lv")
    (metis live_rest_frame(4) live_submit_def prod.case snd_conv)

lemma live_rest_close_each [simp]: "live_rest (snd (live_close_each api env ids ps lv)) = live_rest lv"
proof (induction api env ids ps lv rule: live_close_each.induct)
  case (1 api env oid corr ids symb qty ps lv)
  let ?sub = "live_submit api env oid (live_flatten_signal env symb qty corr) (uf_latest_price (lv_feed lv) symb) lv"
  obtain r lv1 where sub: "?sub = (r, lv1)" by (cases ?sub)
  then have "live_rest lv1 = live_rest lv" using live_rest_submit [of api env oid] by (metis snd_conv)
  with 1 sub show ?case by (cases r) simp_all
qed simp_all

lemma live_rest_active [simp]:
  "live_rest (lv\<lparr>lv_sc := st_pause (lv_sc lv)\<rparr>) = live_rest lv" "live_rest (lv\<lparr>lv_sc := st_resume (lv_sc lv)\<rparr>) = live_rest lv"
  by (simp_all add: live_rest_def st_pause_def st_resume_def)

lemma live_rest_command [simp]: "live_rest (snd (live_command api env c lv)) = live_rest lv"
proof -
  let ?P = "\<lambda>s. live_rest s = live_rest lv"
  have "?P (snd (live_flatten api env lv))"
    unfolding live_flatten_def Let_def by (auto intro!: on_ok_snd [where P = ?P])
  moreover have "?P (snd (live_engage_kill_switch api env lv))" "?P (snd (live_reset_kill_switch api env lv))"
    unfolding live_engage_kill_switch_def live_reset_kill_switch_def live_pause_def live_resume_def
    by (auto intro!: on_ok_snd [where P = ?P])
  ultimately show ?thesis by (simp add: live_command_def live_pause_def live_resume_def)
qed

lemma live_rest_update [simp]: "live_rest (snd (live_update_breaker env equity lv)) = live_rest lv"
  by (cases "cb_update equity (le_now env) (re_breaker (lv_re lv))") (simp add: live_update_breaker_def)

lemma live_rest_new_day [simp]: "live_rest (snd (live_new_day env lv)) = live_rest lv"
  by (auto simp: live_new_day_def split: prod.split bool.split intro!: on_ok_snd [where P = "\<lambda>s. live_rest s = live_rest lv"])

lemma live_rest_monitor [simp]: "live_rest (live_monitor_round api env lv) = live_rest lv"
proof -
  let ?P = "\<lambda>s. live_rest s = live_rest lv"
  have "?P (snd (live_monitor_check api env lv))"
    unfolding live_monitor_check_def by (auto intro!: on_ok_snd [where P = ?P])
  then show ?thesis by (simp add: live_monitor_round_def)
qed

lemma live_rest_poll [simp]: "live_rest (snd (live_poll api mcfg env oids lv)) = live_rest lv"
  by (simp add: live_poll_def live_rest_def split: prod.split)

lemma bot_sound_rest:
  "bot_sound g bt \<longleftrightarrow> plain_orders (lv_om (bt_live bt)) \<and> no_groups (lv_bn (bt_live bt))
     \<and> fst (live_rest (bt_live bt)) = set (lc_universe (bg_live g))
     \<and> agg_within (set (lc_universe (bg_live g))) (fst (snd (live_rest (bt_live bt))))
     \<and> bus_sound (set (lc_universe (bg_live g))) (snd (snd (live_rest (bt_live bt))))"
  by (simp add: bot_sound_def live_good_def live_rest_def)

text \<open>What the KPI loop's requests keep of the broker, a round of the loop keeps.\<close>

lemma db_kpi_keeps:
  assumes "Q v" "\<And>v. Q v \<Longrightarrow> Q (snd (ks_equity src v))" "\<And>v. Q v \<Longrightarrow> Q (snd (ks_margin src v))"
    "\<And>v. Q v \<Longrightarrow> Q (snd (ks_positions src v))" "\<And>f v. ks_details src = Some f \<Longrightarrow> Q v \<Longrightarrow> Q (snd (f v))"
  shows "Q (snd (db_kpi_round cfg env src (b, v)))"
proof -
  have exposure: "Q (snd (db_exposure src v))" if "Q v" for v
    using that assms(4,5) by (auto simp: db_exposure_def split: option.split intro!: on_ok_snd [where P = Q])
  have status: "Q (snd (snd (db_push_status_and_kpis cfg env src (b, v))))"
  proof -
    obtain r1 v1 where 1: "ks_equity src v = (r1, v1)" by (cases "ks_equity src v")
    obtain r2 v2 where 2: "ks_margin src v1 = (r2, v2)" by (cases "ks_margin src v1")
    obtain r3 v3 where 3: "db_exposure src v2 = (r3, v3)" by (cases "db_exposure src v2")
    have q: "Q v1" "Q v2" "Q v3"
      using assms(2) [OF assms(1)] 1 assms(3) [of v1] 2 exposure [of v2] 3 by simp_all
    show ?thesis
    proof (cases r1)
      case (Inr equity)
      show ?thesis
      proof (cases r2)
        case (Inr m)
        obtain i k where m: "m = (i, k)" by (cases m)
        show ?thesis
        proof (cases r3)
          case (Inr x)
          obtain un us where "x = (un, us)" by (cases x)
          with q 1 2 3 \<open>r1 = Inr equity\<close> \<open>r2 = Inr m\<close> m Inr show ?thesis
            by (simp add: db_push_status_and_kpis_def Let_def)
        qed (use q 1 2 3 \<open>r1 = Inr equity\<close> Inr m in \<open>simp add: db_push_status_and_kpis_def Let_def\<close>)
      qed (use q 1 2 Inr in \<open>simp add: db_push_status_and_kpis_def Let_def\<close>)
    qed (use q 1 in \<open>simp add: db_push_status_and_kpis_def\<close>)
  qed
  have trades: "Q (snd (snd (db_push_open_trades env src bv)))" if "Q (snd bv)" for bv
  proof (cases "ks_details src")
    case None
    with that show ?thesis by (cases bv) (simp add: db_push_open_trades_def)
  next
    case (Some f)
    obtain b1 v1 where bv: "bv = (b1, v1)" by (cases bv)
    obtain r v2 where f: "f v1 = (r, v2)" by (cases "f v1")
    with assms(5) [OF Some, of v1] that bv have "Q v2" by simp
    with Some bv f show ?thesis by (simp add: db_push_open_trades_def split: sum.split prod.split)
  qed
  have "(\<lambda>bv. Q (snd bv)) (snd (on_ok (db_push_status_and_kpis cfg env src (b, v)) (\<lambda>_ bv1. db_push_open_trades env src bv1)))"
    by (rule on_ok_snd) (use status trades in auto)
  then show ?thesis by (simp add: db_kpi_round_def)
qed

lemma live_kpi_sound:
  assumes "no_groups (lv_bn lv)"
  shows "no_groups (lv_bn (live_kpi_round api bcfg env lv)) \<and> live_rest (live_kpi_round api bcfg env lv) = live_rest lv"
proof -
  have "no_groups (snd (db_kpi_round bcfg (le_dash env) (live_kpi_source api lv) (lv_db lv, lv_bn lv)))"
    by (rule db_kpi_keeps) (auto simp: assms live_kpi_source_def no_groups_asked [OF bn_asked_requests(1)]
        no_groups_asked [OF bn_asked_requests(2)] no_groups_asked [OF bn_asked_requests(3)] no_groups_asked [OF bn_asked_requests(4)])
  then show ?thesis by (simp add: live_kpi_round_def live_rest_def split: prod.split) (metis snd_conv)
qed

lemma plain_desk_live: "plain_desk.live_keeps lv \<longleftrightarrow> plain_orders (lv_om lv) \<and> no_groups (lv_bn lv)"
  by (simp add: plain_desk.live_keeps_def)

lemma bot_step_sound:
  assumes "bot_sound g bt"
  shows "bot_sound g (bot_step g oper bt)"
proof (cases oper)
  case (Dispatch envs)
  with assms show ?thesis by (simp add: bot_dispatch_sound)
next
  case (Consume now)
  with assms show ?thesis by (simp add: bot_consume_sound)
next
  case (UserSocket ev)
  with assms show ?thesis by (simp add: bot_user_socket_sound)
next
  case (MarkSocket ev)
  with assms show ?thesis by (simp add: bot_mark_socket_sound)
next
  case (Poll env oids)
  have "plain_desk.live_keeps (snd (live_poll (bg_api g) (bg_monitor g) env oids (bt_live bt)))"
    using assms by (intro plain_desk.live_keeps_poll) (simp_all add: plain_desk_live bot_sound_rest)
  with assms Poll show ?thesis by (simp add: plain_desk_live bot_sound_rest)
next
  case (MonitorRound env)
  have "plain_desk.live_keeps (live_monitor_round (bg_api g) env (bt_live bt))"
    using assms by (intro plain_desk.live_keeps_monitor) (simp add: plain_desk_live bot_sound_rest)
  with assms MonitorRound show ?thesis by (simp add: plain_desk_live bot_sound_rest)
next
  case (KpiRound env)
  with assms show ?thesis by (simp add: bot_sound_rest live_kpi_sound)
next
  case (TabSends env c raw)
  let ?P = "\<lambda>lv. plain_desk.live_keeps lv \<and> live_rest lv = live_rest (bt_live bt)"
  have "?P (snd (live_incoming (bg_api g) (bg_bridge g) env raw (bt_live bt)))"
    by (rule live_incoming_keeps [where P = ?P])
      (use assms in \<open>auto simp: plain_desk_live bot_sound_rest intro!: plain_desk.live_keeps_command [unfolded plain_desk_live, THEN conjunct1]
        plain_desk.live_keeps_command [unfolded plain_desk_live, THEN conjunct2]\<close>)
  with assms TabSends show ?thesis
    by (cases "live_incoming (bg_api g) (bg_bridge g) env raw (bt_live bt)")
      (simp add: bot_incoming_def bot_sound_rest plain_desk_live)
qed (use assms in \<open>simp_all add: bot_sound_rest\<close>)

section \<open>The start\<close>

lemma no_groups_each:
  "no_groups bn \<Longrightarrow> (\<And>x bn. no_groups bn \<Longrightarrow> no_groups (snd (f x bn))) \<Longrightarrow> no_groups (snd (bn_for_each f xs bn))"
  by (induction xs arbitrary: bn) (auto intro!: on_ok_snd [where P = no_groups])

lemma no_groups_connect:
  assumes "live_connect api s attempts = Some r"
  shows "no_groups (snd r)"
proof (cases "live_broker s :: 'a binance result")
  case (Inl e)
  with assms show ?thesis by (auto simp: live_connect_def)
next
  case (Inr bn)
  then have bn: "no_groups bn" by (auto simp: live_broker_def Let_def split: if_splits)
  have ensure: "no_groups (snd (bn_ensure_info api bn0))" if "no_groups bn0" for bn0
    using that by (simp add: bn_ensure_info_def)
  have load: "no_groups (snd (bn_load_symbol_filters api bn0))" if "no_groups bn0" for bn0
    unfolding bn_load_symbol_filters_def by (rule on_ok_snd [where P = no_groups]) (use that ensure in \<open>auto intro!: no_groups_each\<close>)
  have conf: "no_groups (snd (bn_configure_symbols api bn0))" if "no_groups bn0" for bn0
    unfolding bn_configure_symbols_def by (rule no_groups_each) (use that in simp_all)
  have filters: "no_groups (snd (bn_load_all_filters api bn0))" if "no_groups bn0" for bn0
    unfolding bn_load_all_filters_def by (rule on_ok_snd [where P = no_groups]) (simp_all add: that ensure)
  have "no_groups (snd (bn_get_universe api f bn0))" if "no_groups bn0" for f bn0
    unfolding bn_get_universe_def by (rule on_ok_snd [where P = no_groups]) (simp_all add: that)
  then have univ: "no_groups (snd (live_universe api bn0))" if "no_groups bn0" for bn0
    unfolding live_universe_def
    by (intro on_ok_snd [where P = no_groups]) (simp_all add: that filters)
  obtain sleeps c where "bn_connect_loop (bn_backoff bn) (bn_backoff_max bn) attempts = (sleeps, Some c)"
    using assms Inr by (cases "bn_connect_loop (bn_backoff bn) (bn_backoff_max bn) attempts")
      (auto simp: live_connect_def bn_connect_def split: option.splits)
  with assms Inr have r: "r = on_ok (on_ok (bn_load_symbol_filters api (bn\<lparr>bn_client := Some c\<rparr>))
      (\<lambda>_ bn1. on_ok (bn_configure_symbols api bn1) (\<lambda>_ bn2. (Inr (), bn2\<lparr>bn_connected := True\<rparr>)))) (\<lambda>_. live_universe api)"
    by (simp add: live_connect_def bn_connect_def)
  show ?thesis
    unfolding r using bn by (auto intro!: on_ok_snd [where P = no_groups] load conf univ)
qed

lemma no_groups_recover:
  assumes "no_groups bn"
  shows "no_groups (snd (live_recover api s env universe bn))"
proof -
  have "no_groups (snd (snd (snd (sr_recover (live_account_source api) tx now (sr, re, bn)))))" for tx now sr re
  proof -
    obtain r1 bn1 where 1: "bn_get_positions api bn = (r1, bn1)" by (cases "bn_get_positions api bn")
    obtain r2 bn2 where 2: "bn_get_account_equity api bn1 = (r2, bn2)" by (cases "bn_get_account_equity api bn1")
    have "no_groups bn1" "no_groups bn2"
      using assms no_groups_asked [OF bn_asked_requests(3), of api bn] no_groups_asked [OF bn_asked_requests(1), of api bn1] 1 2
      by simp_all
    with 1 2 show ?thesis
      by (auto simp: sr_recover_def live_account_source_def bn_reconcile_state_def Let_def split: sum.split prod.split)
  qed
  with assms show ?thesis by (auto simp: live_recover_def split: sum.split prod.split) (metis snd_conv)+
qed

lemma live_start_sound:
  assumes "live_start api s env = Some (Inr (lv, cfg, bcfg))"
  shows "bot_sound (bot_cfg_of api s cfg bcfg) (bot_init lv)"
proof -
  obtain r where r: "live_connect api s (se_attempts env) = Some r"
    using assms by (auto simp: live_start_def)
  let ?equity = "\<lambda>universe bn (re, sr) bn1. on_ok (bn_get_account_equity api bn1)
           (\<lambda>equity bn2.
              (Inr (live_assemble s env universe re sr bn2, live_cfg_of s universe,
                    live_bridge_cfg s equity (fst (load_or_create_control_token (se_fresh_token env) (se_token_file env)))),
               bn2))"
  have "fst (on_ok r (\<lambda>universe bn. on_ok (live_recover api s env universe bn) (?equity universe bn))) = Inr (lv, cfg, bcfg)"
    using assms r by (simp add: live_start_def)
  then obtain universe where u: "fst (on_ok (live_recover api s env universe (snd r)) (?equity universe (snd r))) = Inr (lv, cfg, bcfg)"
    by (rule on_ok_fst_Inr)
  let ?bn1 = "snd (live_recover api s env universe (snd r))"
  obtain x where x: "fst (?equity universe (snd r) x ?bn1) = Inr (lv, cfg, bcfg)"
    using u by (rule on_ok_fst_Inr)
  obtain re sr where rs: "x = (re, sr)" by (cases x)
  let ?bn2 = "snd (bn_get_account_equity api ?bn1)"
  have lv: "lv = live_assemble s env universe re sr ?bn2 \<and> cfg = live_cfg_of s universe"
    using x unfolding rs prod.case by (rule on_ok_fst_Inr) auto
  have "no_groups ?bn2"
    using no_groups_recover [OF no_groups_connect [OF r], of api s env universe] by (simp add: no_groups_asked [OF bn_asked_requests(1)])
  moreover have "bus_sound u live_wiring" for u
    by (simp add: live_wiring_def bus_sound_def eb_start_def eb_subscribe_def st_attach_def eb_subscribe_all_def eb_init_def
        aq_new_def eb_inv_def bus_fit_def)
  ultimately show ?thesis
    by (simp add: lv bot_sound_def live_good_def bot_cfg_of_def bot_init_def live_assemble_def live_cfg_of_def live_scanner_def
        plain_orders_def om_init_def agg_within_def)
qed

lemma bot_reach_sound: "bot_reach api s g bt \<Longrightarrow> bot_sound g bt"
  by (induction rule: bot_reach.induct) (simp_all add: live_start_sound bot_step_sound)

text \<open>
  Property C11. In every state the bot can reach from any start, whatever the exchange answers, the
  tabs send and the order of turns: every order in the table is filed under its own id and is a
  market day order of non-negative size, no order belongs to a one-cancels-other group, the bus is
  running and within its capacity, and every signal waiting on it asks for a market order of
  positive size in a symbol of the universe.
\<close>

theorem bot_orders_at_market:
  assumes "bot_reach api s g bt"
  shows "wf_dict (om_orders (lv_om (bt_live bt)))
    \<and> (\<forall>oid mo. om_get_order (lv_om (bt_live bt)) oid = Some mo \<longrightarrow>
        mo_id mo = oid \<and> mo_type mo = MARKET \<and> mo_tif mo = DAY \<and> mo_oca mo = None \<and> 0 \<le> mo_qty mo)
    \<and> bn_oca_groups (lv_bn (bt_live bt)) = Map.empty
    \<and> eb_running (lv_bus (bt_live bt)) \<and> eb_queue_depth (lv_bus (bt_live bt)) \<le> 100000
    \<and> (\<forall>sg. SignalE sg \<in> set (aq_items (eb_queue (lv_bus (bt_live bt)))) \<longrightarrow>
        sg_symbol sg \<in> set (lc_universe (bg_live g)) \<and> 0 < sg_qty sg \<and> sg_type sg = MARKET)"
  using bot_reach_sound [OF assms]
  by (fastforce simp: bot_sound_def live_good_def plain_orders_def plain_order_def no_groups_def bus_sound_def bus_fit_def
      eb_inv_def eb_queue_depth_def om_get_order_def plain_signal_def)

theorem bot_orders_at_market_witness:
  "\<exists>lv cfg bcfg. live_start sample_api sample_settings sample_start = Some (Inr (lv, cfg, bcfg))
    \<and> wf_dict (om_orders (lv_om (bt_live (bot_step (bot_cfg_of sample_api sample_settings cfg bcfg) (MarkSocket FeedOpened) (bot_init lv)))))"
proof -
  obtain lv cfg bcfg where start: "live_start sample_api sample_settings sample_start = Some (Inr (lv, cfg, bcfg))"
    by (rule sample_starts)
  have "bot_reach sample_api sample_settings (bot_cfg_of sample_api sample_settings cfg bcfg)
      (bot_step (bot_cfg_of sample_api sample_settings cfg bcfg) (MarkSocket FeedOpened) (bot_init lv))"
    by (intro bot_reach.step bot_reach.start [OF start])
  from bot_orders_at_market [OF this] start show ?thesis by blast
qed

section \<open>The bus drains\<close>

fun event_rank :: "event \<Rightarrow> nat" where
  "event_rank (TickE _) = 3"
| "event_rank (BarE _) = 2"
| "event_rank (SignalE _) = 1"
| "event_rank _ = 0"

definition bus_below :: "nat \<Rightarrow> ('c, 'h) live \<Rightarrow> bool" where
  "bus_below n lv \<longleftrightarrow> (\<forall>e \<in> set (aq_items (eb_queue (lv_bus lv))). event_rank e < n)"

lemma bus_below_empty [simp]: "bus_below n (lv\<lparr>lv_bus := eb_init 0\<rparr>)"
  by (simp add: bus_below_def eb_init_def aq_new_def)

lemma bus_below_rest: "live_rest lv1 = live_rest lv \<Longrightarrow> bus_below n lv1 = bus_below n lv"
  by (simp add: bus_below_def live_rest_def)

lemma bus_below_fields [simp]:
  "bus_below n (lv\<lparr>lv_agg := a\<rparr>) = bus_below n lv" "bus_below n (lv\<lparr>lv_re := re\<rparr>) = bus_below n lv"
  "bus_below n (lv\<lparr>lv_last := l\<rparr>) = bus_below n lv"
  by (simp_all add: bus_below_def)

lemma bus_below_completed: "bus_below 3 lv \<Longrightarrow> bus_below 3 (snd (live_completed_bar env bar lv))"
  by (auto simp: live_completed_bar_def bus_below_def eb_publish_unfold split: sum.split)

lemma bus_below_tick:
  assumes "bus_below 3 lv"
  shows "bus_below 3 (snd (live_on_tick cfg env t lv))"
proof -
  let ?lv = "lv\<lparr>lv_last := (lv_last lv)(tk_symbol t \<mapsto> tick_mid t),
     lv_re := re_update_market_state (tk_symbol t) (tick_mid t) (lv_re lv)\<rparr>"
  have "bus_below 3 (snd (live_refresh_margin_schedule cfg (tk_symbol t) (tick_mid t) ?lv))"
    using assms by (simp add: live_refresh_margin_schedule_def split: sum.split)
  moreover have "bus_below 3 (snd (case ba_on_tick t (lv_agg lv2) of
               (Inl e, agg) \<Rightarrow> (Inl e, lv2\<lparr>lv_agg := agg\<rparr>)
             | (Inr None, agg) \<Rightarrow> (Inr (), lv2\<lparr>lv_agg := agg\<rparr>)
             | (Inr (Some bar), agg) \<Rightarrow> live_completed_bar env bar (lv2\<lparr>lv_agg := agg\<rparr>)))"
    if "bus_below 3 lv2" for lv2
    using that by (cases "ba_on_tick t (lv_agg lv2)") (simp add: bus_below_completed split: sum.split option.split)
  ultimately have "bus_below 3 (snd (on_ok (live_refresh_margin_schedule cfg (tk_symbol t) (tick_mid t) ?lv)
      (\<lambda>_ lv2. case ba_on_tick t (lv_agg lv2) of
               (Inl e, agg) \<Rightarrow> (Inl e, lv2\<lparr>lv_agg := agg\<rparr>)
             | (Inr None, agg) \<Rightarrow> (Inr (), lv2\<lparr>lv_agg := agg\<rparr>)
             | (Inr (Some bar), agg) \<Rightarrow> live_completed_bar env bar (lv2\<lparr>lv_agg := agg\<rparr>))))"
    by (rule on_ok_snd [where P = "bus_below 3"])
  with assms show ?thesis by (simp add: live_on_tick_def Let_def)
qed

lemma published_items: "e \<in> set (aq_items (eb_queue (eb_publish p b))) \<Longrightarrow> e = p \<or> e \<in> set (aq_items (eb_queue b))"
  by (auto simp: eb_publish_unfold split: if_splits)

lemma bus_below_bar:
  assumes "bus_below 2 lv"
  shows "bus_below 2 (snd (live_on_bar api env corr bar lv))"
proof -
  let ?i = "live_scan_input api env corr lv"
  obtain r sc b where d: "sc_dispatch_bar ?i (lv_mon lv) (lv_feed lv) bar (lv_sc lv, lv_bus lv) = (r, sc, b)"
    by (rule prod_cases3)
  have "b = lv_bus lv \<or> (\<exists>sg. b = st_emit_signal sg (lv_bus lv))"
  proof (cases "st_wants (lv_sc lv) (BarE bar)")
    case False
    with d show ?thesis by (simp add: sc_dispatch_bar_def del: st_wants.simps)
  next
    case True
    with d show ?thesis
      by (cases rule: sc_on_bar_cases [of ?i "lv_mon lv" "lv_feed lv" bar "lv_sc lv" "lv_bus lv"])
        (auto simp: sc_dispatch_bar_def)
  qed
  then have "\<forall>e \<in> set (aq_items (eb_queue b)). event_rank e < 2"
    using assms by (auto simp: bus_below_def st_emit_signal_def dest!: published_items)
  with d show ?thesis by (simp add: live_on_bar_def Let_def bus_below_def)
qed

lemma live_rest_signal [simp]: "live_rest (snd (live_on_signal api cfg env oid sg lv)) = live_rest lv"
proof -
  let ?P = "\<lambda>s. live_rest s = live_rest lv"
  have "?P (snd (live_account_view api lv))"
    unfolding live_account_view_def by (auto intro!: on_ok_snd [where P = ?P] split: sum.split)
  then show ?thesis
    unfolding live_on_signal_def Let_def
    by (auto intro!: on_ok_snd [where P = ?P] split: prod.split)
qed

lemma live_rest_bus: "live_rest lv1 = live_rest (lv\<lparr>lv_bus := eb_init 0\<rparr>) \<Longrightarrow> bus_below n lv1"
  using bus_below_rest bus_below_empty by metis

lemma live_run_stratified: "stratified event_rank (live_run api cfg bcfg envs)"
  unfolding stratified_def
proof (intro allI)
  fix h e and lv :: "('a, live_handler_id) live"
  let ?lv = "lv\<lparr>lv_bus := eb_init 0\<rparr>"
  have "bus_below (event_rank e) (snd (live_handle api cfg bcfg (envs h lv) h e ?lv))"
    by (cases h; cases e) (simp_all add: bus_below_tick bus_below_bar live_rest_bus [of _ lv])
  then show "\<forall>p \<in> set (fst (fst (live_run api cfg bcfg envs h e lv))). event_rank p < event_rank e"
    by (cases "live_handle api cfg bcfg (envs h lv) h e ?lv") (simp add: live_run_def bus_below_def)
qed

text \<open>A loop that is waiting for an event drains the bus as one that is at its test does.\<close>

lemma eb_drain_from_get:
  assumes "stratified rank run" "eb_inv b" "eb_running b" "eb_pc b \<noteq> LoopExited"
  shows "\<exists>n b1 w1. eb_drain run n (b, w) = Some (b1, w1)"
proof (cases "eb_pc b")
  case LoopTest
  with assms show ?thesis by (intro eb_drain_returns)
next
  case LoopGet
  show ?thesis
  proof (cases "aq_items (eb_queue b)")
    case Nil
    then have "eb_joined b" using assms(2) by (simp add: eb_joined_def eb_inv_def)
    then have "eb_drain run 0 (b, w) = Some (b, w)" by simp
    then show ?thesis by blast
  next
    case (Cons e es)
    obtain b1 w1 where step: "eb_loop_step run (b, w) = Some (b1, w1)" "eb_pc b1 = LoopTest" "eb_running b1 = eb_running b" "eb_inv b1"
      by (rule eb_step_get [OF assms(2) LoopGet Cons, of run w]) blast
    have "\<exists>n b' w'. eb_drain run n (b1, w1) = Some (b', w')"
      by (rule eb_drain_returns [OF assms(1)]) (use step assms(3) in simp_all)
    then obtain n b' w' where "eb_drain run n (b1, w1) = Some (b', w')" by blast
    moreover have "\<not> eb_joined b" using assms(2) Cons by (simp add: eb_joined_def eb_inv_def)
    ultimately have "eb_drain run (Suc n) (b, w) = Some (b', w')" using step(1) by simp
    then show ?thesis by blast
  qed
qed (use assms(4) in simp)

lemma eb_drain_joined: "eb_drain run n (b, w) = Some (b1, w1) \<Longrightarrow> eb_joined b1"
  by (induction run n "(b, w)" arbitrary: b w rule: eb_drain.induct) (auto split: if_splits option.splits)

text \<open>
  Property C26. In every reachable state of the bot, whatever the surroundings of its handlers, the
  dispatcher empties the bus in finitely many steps, with all the bars, signals and orders that the
  events on it set off: ticks cause bars, bars cause signals, signals cause nothing on the bus, and
  no exception of a handler stops the loop.
\<close>

theorem bot_bus_drains:
  assumes "bot_reach api s g bt"
  shows "\<exists>fuel b lv. eb_drain (live_run (bg_api g) (bg_live g) (bg_bridge g) envs) fuel (lv_bus (bt_live bt), bt_live bt) = Some (b, lv)
    \<and> eb_joined b"
proof -
  have "eb_inv (lv_bus (bt_live bt))" "eb_running (lv_bus (bt_live bt))" "eb_pc (lv_bus (bt_live bt)) \<noteq> LoopExited"
    using bot_reach_sound [OF assms] by (simp_all add: bot_sound_def bus_sound_def)
  then obtain n b lv where d:
      "eb_drain (live_run (bg_api g) (bg_live g) (bg_bridge g) envs) n (lv_bus (bt_live bt), bt_live bt) = Some (b, lv)"
    using eb_drain_from_get [OF live_run_stratified] by metis
  then have "eb_joined b" by (rule eb_drain_joined)
  with d show ?thesis by blast
qed

theorem bot_bus_drains_witness:
  "\<exists>lv cfg bcfg. live_start sample_api sample_settings sample_start = Some (Inr (lv, cfg, bcfg))
    \<and> (\<exists>fuel b lv1. eb_drain (live_run sample_api cfg bcfg (\<lambda>_ _. sample_live_env)) fuel (lv_bus lv, lv) = Some (b, lv1))"
proof -
  obtain lv cfg bcfg where start: "live_start sample_api sample_settings sample_start = Some (Inr (lv, cfg, bcfg))"
    by (rule sample_starts)
  have "bot_reach sample_api sample_settings (bot_cfg_of sample_api sample_settings cfg bcfg) (bot_init lv)"
    by (rule bot_reach.start [OF start])
  from bot_bus_drains [OF this, of "\<lambda>_ _. sample_live_env"] start show ?thesis
    by (auto simp: bot_init_def bot_cfg_of_def)
qed

end
