(* ===== verification/Live_Flatten.thy ===== *)
theory Live_Flatten
  imports Live_Scanner
begin

text \<open>
  The operator's flatten command of \<^verbatim>\<open>scripts/run_live_binance_scanner.py\<close>: what orders it enters,
  given what the exchange reports, and what two of them do.
\<close>

section \<open>One closing order\<close>

lemma place_market_ok:
  assumes "bn_client bn \<noteq> None" "dget (bn_filters bn) (rq_symbol rq) \<noteq> None" "rq_type rq = MARKET"
  shows "fst (bn_place_order api now rq bn) = Inr ()
    \<and> bn_client (snd (bn_place_order api now rq bn)) \<noteq> None
    \<and> bn_filters (snd (bn_place_order api now rq bn)) = bn_filters bn"
proof -
  obtain filt where f: "dget (bn_filters bn) (rq_symbol rq) = Some filt" using assms(2) by blast
  let ?q = "lots_to_quantity filt (rq_qty rq)"
  obtain p where p: "bn_order_params rq filt ?q (bn_recv_window bn) = Inr p"
    using assms(3) by (simp add: bn_order_params_def Let_def)
  obtain r bn1 where c: "bn_call (ap_create_order api p) (bn_register rq bn) = (r, bn1)"
    by (cases "bn_call (ap_create_order api p) (bn_register rq bn)")
  then have "bn_client bn1 \<noteq> None" "bn_filters bn1 = bn_filters bn"
    using bn_call_frame(2,10) [of "ap_create_order api p" "bn_register rq bn"] assms(1) by simp_all
  with assms(1) f p c show ?thesis
    by (cases r) (auto simp: bn_place_order_def Let_def)
qed

definition closing_order :: "string \<times> int \<Rightarrow> managed_order \<Rightarrow> bool" where
  "closing_order p mo \<longleftrightarrow> mo_symbol mo = fst p \<and> mo_qty mo = \<bar>snd p\<bar> \<and> mo_side mo = (if 0 < snd p then SELL else BUY)
     \<and> mo_type mo = MARKET \<and> mo_status mo = SUBMITTED"

definition live_ready :: "(string \<times> int) list \<Rightarrow> ('c, 'h) live \<Rightarrow> bool" where
  "live_ready ps lv \<longleftrightarrow> bn_client (lv_bn lv) \<noteq> None \<and> (\<forall>p \<in> set ps. dget (bn_filters (lv_bn lv)) (fst p) \<noteq> None)"

lemma live_close_one:
  assumes "live_ready [(symb, qty)] lv"
  shows "\<exists>mo lv1. live_submit api env oid (live_flatten_signal env symb qty corr) x lv = (Inr (), lv1)
    \<and> closing_order (symb, qty) mo \<and> om_orders (lv_om lv1) = dset oid mo (om_orders (lv_om lv))
    \<and> (\<forall>ps. live_ready ps lv1 = live_ready ps lv)"
proof -
  let ?sg = "live_flatten_signal env symb qty corr"
  let ?mo = "(om_new_order oid (le_now env) ?sg x)\<lparr>mo_status := SUBMITTED\<rparr>"
  obtain r bn1 where place: "bn_place_order api (le_now env) (om_request oid ?sg) (lv_bn lv) = (r, bn1)"
    by (cases "bn_place_order api (le_now env) (om_request oid ?sg) (lv_bn lv)")
  have "r = Inr ()" "bn_client bn1 \<noteq> None" "bn_filters bn1 = bn_filters (lv_bn lv)"
    using place_market_ok [of "lv_bn lv" "om_request oid ?sg" api "le_now env"] place assms
    by (simp_all add: om_request_def live_flatten_signal_def live_ready_def)
  moreover have "closing_order (symb, qty) ?mo"
    by (simp add: closing_order_def om_new_order_def live_flatten_signal_def)
  ultimately show ?thesis
    using place assms by (auto simp: live_submit_def lv_orders_def om_submit_def bn_venue_def Let_def live_ready_def)
qed

section \<open>All of them\<close>

lemma live_close_all:
  assumes "live_ready ps lv" "length ps \<le> length ids" "distinct (map fst ids)"
  shows "fst (live_close_each api env ids ps lv) = Inr ()
    \<and> (\<forall>i < length ps. \<exists>mo. om_get_order (lv_om (snd (live_close_each api env ids ps lv))) (fst (ids ! i)) = Some mo
        \<and> closing_order (ps ! i) mo)
    \<and> (\<forall>oid. oid \<notin> fst ` set (take (length ps) ids) \<longrightarrow>
        om_get_order (lv_om (snd (live_close_each api env ids ps lv))) oid = om_get_order (lv_om lv) oid)"
  using assms
proof (induction ps arbitrary: ids lv)
  case Nil
  then show ?case by (cases ids) simp_all
next
  case (Cons p ps)
  obtain symb qty where p: "p = (symb, qty)" by (cases p)
  from Cons.prems(2) obtain oid corr ids1 where ids: "ids = (oid, corr) # ids1" by (cases ids) auto
  have "live_ready [(symb, qty)] lv" using Cons.prems(1) p by (simp add: live_ready_def)
  from live_close_one [OF this] obtain mo lv1 where
    one: "live_submit api env oid (live_flatten_signal env symb qty corr) (uf_latest_price (lv_feed lv) symb) lv = (Inr (), lv1)"
      "closing_order p mo" "om_orders (lv_om lv1) = dset oid mo (om_orders (lv_om lv))" "live_ready ps lv1 = live_ready ps lv"
    unfolding p by blast
  have run: "live_close_each api env ids (p # ps) lv = live_close_each api env ids1 ps lv1"
    by (simp add: ids p one(1))
  have rest: "fst (live_close_each api env ids1 ps lv1) = Inr ()"
      "\<forall>i < length ps. \<exists>mo. om_get_order (lv_om (snd (live_close_each api env ids1 ps lv1))) (fst (ids1 ! i)) = Some mo
        \<and> closing_order (ps ! i) mo"
      "\<forall>k. k \<notin> fst ` set (take (length ps) ids1) \<longrightarrow>
        om_get_order (lv_om (snd (live_close_each api env ids1 ps lv1))) k = om_get_order (lv_om lv1) k"
    using Cons.IH [of lv1 ids1] Cons.prems one(4) ids by (simp_all add: live_ready_def)
  have fresh: "oid \<notin> fst ` set (take (length ps) ids1)"
    using Cons.prems(3) ids by (auto dest!: in_set_takeD)
  have "\<exists>mo. om_get_order (lv_om (snd (live_close_each api env ids1 ps lv1))) (fst (ids ! i)) = Some mo \<and> closing_order ((p # ps) ! i) mo"
    if "i < length (p # ps)" for i
    using that rest(2,3) fresh one(2,3) ids by (cases i) (auto simp: om_get_order_def)
  then show ?case
    unfolding run using rest(1,3) one(3) by (simp add: ids om_get_order_def)
qed

lemma bn_positions_known:
  "p \<in> set (bn_positions_of fs rows) \<Longrightarrow> dget fs (fst p) \<noteq> None"
proof -
  have inv: "\<forall>p \<in> set (fold (\<lambda>r d. case bn_row_lots fs r of None \<Rightarrow> d | Some n \<Rightarrow> dset (pr_symbol r) n d) rows d). dget fs (fst p) \<noteq> None"
    if "\<forall>p \<in> set d. dget fs (fst p) \<noteq> None" for d
    using that
  proof (induction rows arbitrary: d)
    case Nil
    then show ?case by simp
  next
    case (Cons r rows)
    show ?case
    proof (cases "bn_row_lots fs r")
      case None
      with Cons show ?thesis by simp
    next
      case (Some n)
      then have "dget fs (pr_symbol r) \<noteq> None" by (auto simp: bn_row_lots_def split: option.splits)
      with Cons.prems have "\<forall>p \<in> set (dset (pr_symbol r) n d). dget fs (fst p) \<noteq> None"
        by (auto dest!: set_dset)
      with Cons.IH Some show ?thesis by simp
    qed
  qed
  assume "p \<in> set (bn_positions_of fs rows)"
  with inv [of "[]"] show ?thesis by (simp only: bn_positions_of_def) simp
qed

text \<open>
  Property C27. A flatten command, served while the exchange answers and no tab joins or leaves
  during a send, enters for every open position the exchange reports one market order that closes
  exactly that position, in the order of the report, and touches no other order.  It does so
  whatever orders are already working: a second flatten before the first has been filled, or one
  after the position monitor has submitted its own close, sells the same position again, and
  nothing on the order keeps the exchange from opening the opposite position.
\<close>

theorem live_flatten_closes_all:
  assumes "quiet_net (le_dash env)" "bn_client (lv_bn lv) \<noteq> None" "fst (bn_get_positions api (lv_bn lv)) = Inr ps"
    and "length (filter (\<lambda>p. snd p \<noteq> 0) ps) \<le> length (le_ids env)" "distinct (map fst (le_ids env))"
  defines "opens \<equiv> filter (\<lambda>p. snd p \<noteq> 0) ps" and "lv1 \<equiv> snd (live_flatten api env lv)"
  shows "fst (live_flatten api env lv) = Inr ()
    \<and> (\<forall>i < length opens. \<exists>mo. om_get_order (lv_om lv1) (fst (le_ids env ! i)) = Some mo \<and> closing_order (opens ! i) mo)
    \<and> (\<forall>oid. oid \<notin> fst ` set (take (length opens) (le_ids env)) \<longrightarrow> om_get_order (lv_om lv1) oid = om_get_order (lv_om lv) oid)"
proof -
  obtain c where c: "bn_client (lv_bn lv) = Some c" using assms(2) by blast
  obtain rows where rows: "fst (ap_positions api c) = Inr rows" "ps = bn_positions_of (bn_filters (lv_bn lv)) rows"
    using assms(3) c by (cases "fst (ap_positions api c)"; cases "ap_positions api c") (auto simp: bn_get_positions_def bn_call_Some)
  obtain bn where bn: "bn_get_positions api (lv_bn lv) = (Inr ps, bn)" "bn_client bn \<noteq> None" "bn_filters bn = bn_filters (lv_bn lv)"
    using rows c by (cases "ap_positions api c") (simp add: bn_get_positions_def bn_call_Some)
  have asked: "lv_broker (bn_get_positions api) lv = (Inr ps, lv\<lparr>lv_bn := bn\<rparr>)" by (simp add: lv_broker_def bn(1))
  have quiet: "fst (live_audit env level src msg lv2) = Inr ()" for level src msg and lv2 :: "('a, 'b) live"
    using db_push_audit_quiet [OF assms(1)] by (simp add: live_audit_def lv_bridge_def split: prod.split) (metis fst_conv)
  show ?thesis
  proof (cases "opens = []")
    case True
    then have "live_flatten api env lv = live_audit env ''risk'' ''operator'' [Lit ''Flatten requested: no open positions to close''] (lv\<lparr>lv_bn := bn\<rparr>)"
      by (simp add: live_flatten_def asked opens_def Let_def)
    with True quiet show ?thesis by (simp add: lv1_def)
  next
    case False
    let ?msg = "[Lit ''FLATTEN: closing '', IntP (int (length opens)), Lit '' position(s) at market'']"
    let ?lv2 = "snd (live_audit env ''risk'' ''operator'' ?msg (lv\<lparr>lv_bn := bn\<rparr>))"
    have "live_flatten api env lv = on_ok (live_audit env ''risk'' ''operator'' ?msg (lv\<lparr>lv_bn := bn\<rparr>))
        (\<lambda>_ lv2. live_close_each api env (le_ids env) opens lv2)"
      using False by (simp add: live_flatten_def asked opens_def Let_def)
    also have "\<dots> = live_close_each api env (le_ids env) opens ?lv2"
      using quiet by (rule on_ok_Inr)
    finally have run: "live_flatten api env lv = live_close_each api env (le_ids env) opens ?lv2" .
    have "\<forall>p \<in> set opens. dget (bn_filters (lv_bn lv)) (fst p) \<noteq> None"
      using bn_positions_known rows(2) by (auto simp: opens_def)
    then have "live_ready opens ?lv2" using bn by (simp add: live_ready_def)
    from live_close_all [OF this assms(4) [folded opens_def] assms(5), of api env] show ?thesis
      by (simp add: run lv1_def)
  qed
qed

theorem live_flatten_closes_all_witness:
  "\<exists>mo. om_get_order (lv_om (snd (live_flatten (limited_api 5) sample_live_env sample_live))) ''o'' = Some mo
    \<and> mo_side mo = SELL \<and> mo_qty mo = 1000"
proof -
  have lots: "quantity_to_lots sample_filters 1 = 1000"
    using round_half_even_of_int [of 1000] by (simp add: quantity_to_lots_def sample_filters_simps)
  have pos: "fst (bn_get_positions (limited_api 5) (lv_bn sample_live)) = Inr [(''BTCUSDT'', 1000)]"
    by (simp add: bn_get_positions_def bn_call_def sample_live_def sample_live_broker_def limited_api_def bn_positions_of_def
        bn_row_lots_def sample_row_def lots)
  have "quiet_net (le_dash sample_live_env)" "bn_client (lv_bn sample_live) \<noteq> None"
    "length (filter (\<lambda>p. snd p \<noteq> 0) [(''BTCUSDT'', 1000 :: int)]) \<le> length (le_ids sample_live_env)"
    "distinct (map fst (le_ids sample_live_env))"
    by (simp_all add: quiet_net_def sample_live_env_def sample_dash_env_def sample_live_def sample_live_broker_def)
  from live_flatten_closes_all [OF this(1,2) pos this(3,4)]
  show ?thesis by (simp add: sample_live_env_def closing_order_def) blast
qed

end
