(* ===== verification/Market_Store.thy ===== *)
theory Market_Store
  imports Market_Feed
begin

text \<open>
  The store of ticks and bars, \<^verbatim>\<open>data/storage.py\<close>: the SQL statements it sends and the order in
  which it sends them.  The database itself is a parameter; what the code relies on is the named
  hypothesis \<open>sql_laws\<close>.  Every method runs under the store's lock, so a call is one step.
\<close>

section \<open>Statements\<close>

datatype sql_val = TsV datetime | TextV string | IntV int | DoubleV real

datatype col_type = TimestampTZ | Varchar | Double | Integer

text \<open>
  A column is its name, its type and whether it is \<^verbatim>\<open>NOT NULL\<close>.  \<open>SelectRange cols t eqs c o\<close> is
  \<^verbatim>\<open>SELECT cols FROM t WHERE eq = ? AND ... AND c BETWEEN ? AND ? ORDER BY o\<close>.
\<close>

datatype sql =
    CreateTable string "(string \<times> col_type \<times> bool) list"
  | CreateIndex string string "string list"
  | InsertValues string nat
  | SelectRange "string list" string "string list" string string

definition tick_columns :: "(string \<times> col_type \<times> bool) list" where
  "tick_columns =
     [(''ts'', TimestampTZ, True), (''symbol'', Varchar, True), (''bid'', Double, False), (''ask'', Double, False),
      (''bid_size'', Integer, False), (''ask_size'', Integer, False), (''last'', Double, False), (''last_size'', Integer, False)]"

definition bar_columns :: "(string \<times> col_type \<times> bool) list" where
  "bar_columns =
     [(''ts'', TimestampTZ, True), (''symbol'', Varchar, True), (''timeframe_s'', Integer, True), (''open'', Double, False),
      (''high'', Double, False), (''low'', Double, False), (''close'', Double, False), (''volume'', Double, False),
      (''vwap'', Double, False)]"

definition store_schema :: "sql list" where
  "store_schema =
     [CreateTable ''ticks'' tick_columns, CreateIndex ''idx_ticks_symbol_ts'' ''ticks'' [''symbol'', ''ts''],
      CreateTable ''bars'' bar_columns, CreateIndex ''idx_bars_symbol_tf_ts'' ''bars'' [''symbol'', ''timeframe_s'', ''ts'']]"

section \<open>The database\<close>

text \<open>What the \<^verbatim>\<open>duckdb\<close> package provides; a call answers with the rows fetched.\<close>

record 'd database =
  sq_connect :: "string \<Rightarrow> 'd result"
  sq_execute :: "sql \<Rightarrow> sql_val list \<Rightarrow> 'd \<Rightarrow> sql_val list list result \<times> 'd"
  sq_close :: "'d \<Rightarrow> unit result \<times> 'd"

section \<open>Operations\<close>

text \<open>The whole schema is one call of \<^verbatim>\<open>execute\<close>: its statements run in order, up to one that raises.\<close>

fun sql_script :: "'d database \<Rightarrow> sql list \<Rightarrow> 'd \<Rightarrow> unit result \<times> 'd" where
  "sql_script db [] d = (Inr (), d)"
| "sql_script db (s # ss) d = on_ok (sq_execute db s [] d) (\<lambda>_. sql_script db ss)"

text \<open>Making the parent directory is left out.\<close>

definition store_open :: "'d database \<Rightarrow> string \<Rightarrow> 'd result" where
  "store_open db path =
     and_then (sq_connect db path)
       (\<lambda>d. case sql_script db store_schema d of (Inl e, _) \<Rightarrow> Inl e | (Inr _, d1) \<Rightarrow> Inr d1)"

definition tick_row :: "tick_event \<Rightarrow> sql_val list" where
  "tick_row t =
     [TsV (tk_ts t), TextV (tk_symbol t), DoubleV (tk_bid t), DoubleV (tk_ask t), IntV (tk_bid_size t),
      IntV (tk_ask_size t), DoubleV (tk_last t), IntV (tk_last_size t)]"

definition bar_row :: "bar_event \<Rightarrow> sql_val list" where
  "bar_row b =
     [TsV (br_ts b), TextV (br_symbol b), IntV (br_timeframe b), DoubleV (br_open b), DoubleV (br_high b),
      DoubleV (br_low b), DoubleV (br_close b), DoubleV (br_volume b), DoubleV (br_vwap b)]"

definition store_write_tick :: "'d database \<Rightarrow> tick_event \<Rightarrow> 'd \<Rightarrow> unit result \<times> 'd" where
  "store_write_tick db t d = on_ok (sq_execute db (InsertValues ''ticks'' 8) (tick_row t) d) (\<lambda>_ d1. (Inr (), d1))"

definition store_write_bar :: "'d database \<Rightarrow> bar_event \<Rightarrow> 'd \<Rightarrow> unit result \<times> 'd" where
  "store_write_bar db b d = on_ok (sq_execute db (InsertValues ''bars'' 9) (bar_row b) d) (\<lambda>_ d1. (Inr (), d1))"

definition bars_query :: sql where
  "bars_query = SelectRange [''ts'', ''open'', ''high'', ''low'', ''close'', ''volume'', ''vwap''] ''bars''
     [''symbol'', ''timeframe_s''] ''ts'' ''ts''"

definition store_read_bars ::
  "'d database \<Rightarrow> string \<Rightarrow> int \<Rightarrow> string \<Rightarrow> string \<Rightarrow> 'd \<Rightarrow> sql_val list list result \<times> 'd" where
  "store_read_bars db symb tf start_ts end_ts d =
     sq_execute db bars_query [TextV symb, IntV tf, TextV start_ts, TextV end_ts] d"

text \<open>\<open>frame\<close> is the constructor of the data frame, given the rows and the column names.\<close>

definition store_read_bars_df ::
  "'d database \<Rightarrow> (sql_val list list \<Rightarrow> string list \<Rightarrow> 'f) \<Rightarrow> string \<Rightarrow> int \<Rightarrow> string \<Rightarrow> string \<Rightarrow> 'd \<Rightarrow> 'f result \<times> 'd" where
  "store_read_bars_df db frame symb tf start_ts end_ts d =
     on_ok (store_read_bars db symb tf start_ts end_ts d)
       (\<lambda>rows d1. (Inr (frame rows [''ts'', ''open'', ''high'', ''low'', ''close'', ''volume'', ''vwap'']), d1))"

definition store_close :: "'d database \<Rightarrow> 'd \<Rightarrow> unit result \<times> 'd" where
  "store_close db d = sq_close db d"

section \<open>What the code relies on\<close>

text \<open>The value of a row in a named column.\<close>

definition row_value :: "string list \<Rightarrow> sql_val list \<Rightarrow> string \<Rightarrow> sql_val option" where
  "row_value names row c = dget (zip names row) c"

definition between :: "(string \<Rightarrow> datetime option) \<Rightarrow> sql_val list \<Rightarrow> sql_val option \<Rightarrow> bool" where
  "between parse bounds v =
     (case (bounds, v) of
        ([TextV lo, TextV hi], Some (TsV t)) \<Rightarrow>
          (case (parse lo, parse hi) of (Some l, Some h) \<Rightarrow> l \<le> t \<and> t \<le> h | _ \<Rightarrow> False)
      | _ \<Rightarrow> False)"

definition selected ::
  "(string \<Rightarrow> datetime option) \<Rightarrow> string list \<Rightarrow> string list \<Rightarrow> string \<Rightarrow> sql_val list \<Rightarrow> sql_val list \<Rightarrow> bool" where
  "selected parse names eqs c params row \<longleftrightarrow>
     list_all (\<lambda>(e, p). row_value names row e = Some p) (zip eqs params)
     \<and> between parse (drop (length eqs) params) (row_value names row c)"

definition ts_of :: "sql_val option \<Rightarrow> datetime" where
  "ts_of v = (case v of Some (TsV t) \<Rightarrow> t | _ \<Rightarrow> 0)"

text \<open>
  The documented behaviour of the statements used, over the rows \<open>rows d t\<close> of a table of known
  columns, for values of the columns' own types (others the database would cast): an insertion that succeeds adds its row to its table and touches no other, one that
  raises touches none; a query changes nothing, and when it succeeds its bounds were readable as
  times and it returns the requested columns of the rows selected, in order.
\<close>

definition insert_law ::
  "'d database \<Rightarrow> ('d \<Rightarrow> string \<Rightarrow> sql_val list multiset) \<Rightarrow> string \<Rightarrow> nat \<Rightarrow> sql_val list \<Rightarrow> 'd \<Rightarrow> bool" where
  "insert_law db rows t n vs d \<longleftrightarrow>
     (case sq_execute db (InsertValues t n) vs d of
        (Inl _, d1) \<Rightarrow> rows d1 = rows d
      | (Inr _, d1) \<Rightarrow> rows d1 = (rows d)(t := add_mset vs (rows d t)))"

definition select_law ::
  "'d database \<Rightarrow> (string \<Rightarrow> datetime option) \<Rightarrow> (string \<Rightarrow> string list) \<Rightarrow> ('d \<Rightarrow> string \<Rightarrow> sql_val list multiset)
   \<Rightarrow> string list \<Rightarrow> string \<Rightarrow> string list \<Rightarrow> string \<Rightarrow> string \<Rightarrow> sql_val list \<Rightarrow> 'd \<Rightarrow> bool" where
  "select_law db parse names rows cols t eqs c ord vs d \<longleftrightarrow>
     (case sq_execute db (SelectRange cols t eqs c ord) vs d of
        (Inl _, d1) \<Rightarrow> rows d1 = rows d
      | (Inr rs, d1) \<Rightarrow> rows d1 = rows d
          \<and> (\<exists>rs0. mset rs0 = filter_mset (selected parse (names t) eqs c vs) (rows d t)
              \<and> sorted (map (\<lambda>r. ts_of (row_value (names t) r ord)) rs0)
              \<and> rs = map (\<lambda>r. map (\<lambda>k. the (row_value (names t) r k)) cols) rs0))"

fun sql_has_type :: "col_type \<Rightarrow> sql_val \<Rightarrow> bool" where
  "sql_has_type TimestampTZ (TsV _) = True"
| "sql_has_type Varchar (TextV _) = True"
| "sql_has_type Integer (IntV _) = True"
| "sql_has_type Double (DoubleV _) = True"
| "sql_has_type _ _ = False"

definition sql_typed :: "(string \<times> col_type \<times> bool) list \<Rightarrow> sql_val list \<Rightarrow> bool" where
  "sql_typed cols vs \<longleftrightarrow> list_all2 (\<lambda>(_, ty, _) v. sql_has_type ty v) cols vs"

definition column_type :: "(string \<times> col_type \<times> bool) list \<Rightarrow> string \<Rightarrow> col_type option" where
  "column_type cols c = map_option fst (dget cols c)"

text \<open>The parameters of a query: a value of the type of each column compared, then two times as text.\<close>

definition sql_asked :: "(string \<times> col_type \<times> bool) list \<Rightarrow> string list \<Rightarrow> string \<Rightarrow> sql_val list \<Rightarrow> bool" where
  "sql_asked cols eqs c vs \<longleftrightarrow>
     list_all2 (\<lambda>e v. case column_type cols e of None \<Rightarrow> False | Some ty \<Rightarrow> sql_has_type ty v) eqs (take (length eqs) vs)
     \<and> (case drop (length eqs) vs of [TextV _, TextV _] \<Rightarrow> True | _ \<Rightarrow> False)
     \<and> column_type cols c = Some TimestampTZ"

definition sql_laws ::
  "'d database \<Rightarrow> (string \<Rightarrow> datetime option) \<Rightarrow> (string \<Rightarrow> string list) \<Rightarrow> ('d \<Rightarrow> string \<Rightarrow> sql_val list multiset) \<Rightarrow> bool" where
  "sql_laws db parse names rows \<longleftrightarrow>
     (\<forall>vs d. sql_typed tick_columns vs \<longrightarrow> insert_law db rows ''ticks'' (length tick_columns) vs d)
     \<and> (\<forall>vs d. sql_typed bar_columns vs \<longrightarrow> insert_law db rows ''bars'' (length bar_columns) vs d)
     \<and> (\<forall>cols eqs c ord vs d. set cols \<subseteq> fst ` set bar_columns \<and> sql_asked bar_columns eqs c vs
          \<and> column_type bar_columns ord = Some TimestampTZ
          \<longrightarrow> select_law db parse names rows cols ''bars'' eqs c ord vs d)"

lemma rows_typed: "sql_typed tick_columns (tick_row t)" "sql_typed bar_columns (bar_row b)"
  by (simp_all add: sql_typed_def tick_columns_def tick_row_def bar_columns_def bar_row_def)

lemma columns_count: "length tick_columns = 8" "length bar_columns = 9"
  by (simp_all add: tick_columns_def bar_columns_def)

lemma bars_query_asked:
  "sql_asked bar_columns [''symbol'', ''timeframe_s''] ''ts'' [TextV symb, IntV tf, TextV lo, TextV hi]"
  "column_type bar_columns ''ts'' = Some TimestampTZ"
  "set [''ts'', ''open'', ''high'', ''low'', ''close'', ''volume'', ''vwap''] \<subseteq> fst ` set bar_columns"
  by (simp_all add: sql_asked_def column_type_def bar_columns_def)

section \<open>What was written is read back\<close>

datatype store_op = WriteTick tick_event | WriteBar bar_event

fun store_write :: "'d database \<Rightarrow> store_op \<Rightarrow> 'd \<Rightarrow> unit result \<times> 'd" where
  "store_write db (WriteTick t) d = store_write_tick db t d"
| "store_write db (WriteBar b) d = store_write_bar db b d"

text \<open>The bars whose write returned.\<close>

definition bars_written :: "store_op list \<Rightarrow> unit result list \<Rightarrow> bar_event list" where
  "bars_written ops rs =
     List.map_filter (\<lambda>(oper, r). case oper of WriteBar b \<Rightarrow> if ok r then Some b else None | _ \<Rightarrow> None) (zip ops rs)"

lemma bars_written_simps [simp]:
  "bars_written [] rs = []"
  "bars_written (WriteTick t # ops) (r # rs) = bars_written ops rs"
  "bars_written (WriteBar b # ops) (r # rs) = (if ok r then [b] else []) @ bars_written ops rs"
  by (simp_all add: bars_written_def map_filter_simps)

lemma store_write_rows:
  assumes "sql_laws db parse names rows"
  shows "rows (snd (store_write db oper d)) ''bars'' =
    mset (map bar_row (bars_written [oper] [fst (store_write db oper d)])) + rows d ''bars''"
proof -
  have ins: "insert_law db rows ''ticks'' 8 (tick_row t) d" "insert_law db rows ''bars'' 9 (bar_row b) d" for t b
    using assms rows_typed by (simp_all add: sql_laws_def flip: columns_count)
  show ?thesis
  proof (cases oper)
    case (WriteTick t)
    obtain r d1 where e: "sq_execute db (InsertValues ''ticks'' 8) (tick_row t) d = (r, d1)"
      by (cases "sq_execute db (InsertValues ''ticks'' 8) (tick_row t) d")
    with ins(1) [of t] WriteTick show ?thesis by (cases r) (simp_all add: store_write_tick_def insert_law_def)
  next
    case (WriteBar b)
    obtain r d1 where e: "sq_execute db (InsertValues ''bars'' 9) (bar_row b) d = (r, d1)"
      by (cases "sq_execute db (InsertValues ''bars'' 9) (bar_row b) d")
    with ins(2) [of b] WriteBar show ?thesis by (cases r) (simp_all add: store_write_bar_def insert_law_def)
  qed
qed

lemma store_run_rows:
  assumes "sql_laws db parse names rows"
  shows "rows (snd (drive (store_write db) ops d)) ''bars'' =
    mset (map bar_row (bars_written ops (fst (drive (store_write db) ops d)))) + rows d ''bars''"
proof (induction ops arbitrary: d)
  case Nil
  then show ?case by simp
next
  case (Cons oper ops)
  let ?d = "snd (store_write db oper d)" and ?r = "fst (store_write db oper d)"
  have split: "bars_written (oper # ops) (?r # rs) = bars_written [oper] [?r] @ bars_written ops rs" for rs
    by (cases oper) simp_all
  show ?case
    using Cons.IH [of ?d] store_write_rows [OF assms, of oper d] by (simp only: drive_Cons fst_conv snd_conv split) simp
qed

lemma mset_map_split: "mset rs = image_mset f M \<Longrightarrow> \<exists>ys. rs = map f ys \<and> mset ys = M"
proof (induction rs arbitrary: M)
  case Nil
  then show ?case by simp
next
  case (Cons r rs)
  then have "image_mset f M = add_mset r (mset rs)" by simp
  then obtain M1 a where "M = add_mset a M1" "f a = r" "image_mset f M1 = mset rs"
    by (metis msed_map_invR)
  with Cons.IH [of M1] show ?case by (metis list.simps(9) mset.simps(2))
qed

definition bar_out :: "bar_event \<Rightarrow> sql_val list" where
  "bar_out b =
     [TsV (br_ts b), DoubleV (br_open b), DoubleV (br_high b), DoubleV (br_low b), DoubleV (br_close b),
      DoubleV (br_volume b), DoubleV (br_vwap b)]"

definition bar_between :: "string \<Rightarrow> int \<Rightarrow> datetime \<Rightarrow> datetime \<Rightarrow> bar_event \<Rightarrow> bool" where
  "bar_between symb tf lo hi b \<longleftrightarrow> br_symbol b = symb \<and> br_timeframe b = tf \<and> lo \<le> br_ts b \<and> br_ts b \<le> hi"

lemma bar_row_selected:
  assumes "parse start_ts = Some lo" "parse end_ts = Some hi"
  shows "selected parse (map fst bar_columns) [''symbol'', ''timeframe_s''] ''ts'' [TextV symb, IntV tf, TextV start_ts, TextV end_ts] (bar_row b)
    \<longleftrightarrow> bar_between symb tf lo hi b"
  using assms by (auto simp: selected_def between_def row_value_def bar_row_def bar_columns_def bar_between_def)

lemma bar_row_out:
  "map (\<lambda>k. the (row_value (map fst bar_columns) (bar_row b) k)) [''ts'', ''open'', ''high'', ''low'', ''close'', ''volume'', ''vwap''] = bar_out b"
  "ts_of (row_value (map fst bar_columns) (bar_row b) ''ts'') = br_ts b"
  by (simp_all add: row_value_def bar_row_def bar_columns_def bar_out_def ts_of_def)

text \<open>
  Property C31. Over a database that keeps its documented contract, reading a symbol's bars gives
  back what was written: from an empty table, after any sequence of writes of ticks and bars of
  which some may fail, a query that succeeds returns exactly the bars of that symbol and timeframe,
  between the two bounds, whose write returned, each with the prices and volume written, in order
  of time; when their times are distinct and were written in order, the very list written.  Reading
  changes nothing, and the ticks never show.
\<close>

theorem store_reads_back:
  fixes ops :: "store_op list" and d :: 'd and symb :: string and tf :: int
  assumes "sql_laws db parse names rows" "names ''bars'' = map fst bar_columns" "rows d ''bars'' = {#}"
    and "parse start_ts = Some lo" "parse end_ts = Some hi"
  defines "written \<equiv> filter (bar_between symb tf lo hi) (bars_written ops (fst (drive (store_write db) ops d)))"
  shows "case store_read_bars db symb tf start_ts end_ts (snd (drive (store_write db) ops d)) of
      (Inl _, d1) \<Rightarrow> rows d1 = rows (snd (drive (store_write db) ops d))
    | (Inr rs, d1) \<Rightarrow> rows d1 = rows (snd (drive (store_write db) ops d))
        \<and> (\<exists>bs. rs = map bar_out bs \<and> mset bs = mset written \<and> sorted (map br_ts bs)
            \<and> (sorted_wrt (<) (map br_ts written) \<longrightarrow> bs = written))"
proof -
  let ?d = "snd (drive (store_write db) ops d)" and ?vs = "[TextV symb, IntV tf, TextV start_ts, TextV end_ts]"
  let ?names = "map fst bar_columns"
  obtain r d1 where q: "sq_execute db bars_query ?vs ?d = (r, d1)" by (cases "sq_execute db bars_query ?vs ?d")
  have law: "select_law db parse names rows [''ts'', ''open'', ''high'', ''low'', ''close'', ''volume'', ''vwap''] ''bars''
      [''symbol'', ''timeframe_s''] ''ts'' ''ts'' ?vs ?d"
    using assms(1) bars_query_asked unfolding sql_laws_def by blast
  note law = law [unfolded select_law_def, folded bars_query_def, unfolded q]
  show ?thesis
  proof (cases r)
    case (Inl e)
    with law q show ?thesis by (simp add: store_read_bars_def)
  next
    case (Inr rs)
    with law assms(2) obtain rs0 where rs0: "rows d1 = rows ?d"
        "mset rs0 = filter_mset (selected parse ?names [''symbol'', ''timeframe_s''] ''ts'' ?vs) (rows ?d ''bars'')"
        "sorted (map (\<lambda>r. ts_of (row_value ?names r ''ts'')) rs0)"
        "rs = map (\<lambda>r. map (\<lambda>k. the (row_value ?names r k)) [''ts'', ''open'', ''high'', ''low'', ''close'', ''volume'', ''vwap'']) rs0"
      by auto
    have "rows ?d ''bars'' = mset (map bar_row (bars_written ops (fst (drive (store_write db) ops d))))"
      using store_run_rows [OF assms(1), of ops d] assms(3) by simp
    then have "mset rs0 = image_mset bar_row (mset written)"
      unfolding rs0(2) written_def
      by (simp add: filter_map bar_row_selected [OF assms(4,5)] comp_def flip: mset_map mset_filter)
    then obtain bs where bs: "rs0 = map bar_row bs" "mset bs = mset written" using mset_map_split by metis
    have st: "sorted (map br_ts bs)" using rs0(3) by (simp add: bs(1) comp_def bar_row_out)
    have "bs = written" if "sorted_wrt (<) (map br_ts written)"
    proof -
      have "sorted (map br_ts written)" "inj_on br_ts (set written)"
        using that by (simp_all add: strict_sorted_iff distinct_map)
      then have "sort_key br_ts written = written" "sort_key br_ts written = bs"
        using bs(2) st by (auto intro: sorted_sort_id sort_key_inj_key_eq)
      then show ?thesis by simp
    qed
    moreover have "rs = map bar_out bs"
      using rs0(4) by (simp add: bs(1) comp_def bar_row_out(1) [simplified])
    ultimately show ?thesis
      using q Inr rs0(1) bs(2) st by (auto simp: store_read_bars_def)
  qed
qed

text \<open>A database that keeps the contract: tables as lists, a query that sorts.\<close>

definition sample_names :: "string \<Rightarrow> string list" where
  "sample_names t = map fst (if t = ''bars'' then bar_columns else tick_columns)"

definition sample_time :: "string \<Rightarrow> datetime option" where
  "sample_time t = (if t = ''early'' then Some 0 else if t = ''late'' then Some 100 else None)"

fun list_execute ::
  "sql \<Rightarrow> sql_val list \<Rightarrow> (string \<Rightarrow> sql_val list list) \<Rightarrow> sql_val list list result \<times> (string \<Rightarrow> sql_val list list)" where
  "list_execute (InsertValues t n) vs d = (if length vs = n then (Inr [], d(t := d t @ [vs])) else (Inl (ApiError ''columns''), d))"
| "list_execute (SelectRange cols t eqs c ord) vs d =
     (Inr (map (\<lambda>r. map (\<lambda>k. the (row_value (sample_names t) r k)) cols)
        (sort_key (\<lambda>r. ts_of (row_value (sample_names t) r ord)) (filter (selected sample_time (sample_names t) eqs c vs) (d t)))), d)"
| "list_execute _ _ d = (Inr [], d)"

definition list_db :: "(string \<Rightarrow> sql_val list list) database" where
  "list_db = \<lparr>sq_connect = (\<lambda>_. Inr (\<lambda>_. [])), sq_execute = list_execute, sq_close = (\<lambda>d. (Inr (), d))\<rparr>"

lemma list_db_insert: "insert_law list_db (\<lambda>d t. mset (d t)) t n vs d"
  by (auto simp: insert_law_def list_db_def)

lemma list_db_select: "select_law list_db sample_time sample_names (\<lambda>d t. mset (d t)) cols t eqs c ord vs d"
proof -
  let ?rs = "sort_key (\<lambda>r. ts_of (row_value (sample_names t) r ord)) (filter (selected sample_time (sample_names t) eqs c vs) (d t))"
  have "mset ?rs = filter_mset (selected sample_time (sample_names t) eqs c vs) (mset (d t))"
    "sorted (map (\<lambda>r. ts_of (row_value (sample_names t) r ord)) ?rs)" by simp_all
  then show ?thesis
    unfolding select_law_def list_db_def database.simps list_execute.simps prod.case sum.case by blast
qed

lemma list_db_laws: "sql_laws list_db sample_time sample_names (\<lambda>d t. mset (d t))"
  unfolding sql_laws_def using list_db_insert list_db_select by blast

definition stored_bar :: "datetime \<Rightarrow> string \<Rightarrow> bar_event" where
  "stored_bar t symb = \<lparr>br_ts = t, br_symbol = symb, br_timeframe = 60, br_open = 1, br_high = 3, br_low = 1, br_close = 2,
     br_volume = 5, br_vwap = 2\<rparr>"

theorem store_reads_back_witness:
  "fst (store_read_bars list_db ''X'' 60 ''early'' ''late''
      (snd (drive (store_write list_db)
        [WriteBar (stored_bar 10 ''X''), WriteTick (uf_tick 11 ''X'' 2), WriteBar (stored_bar 20 ''Y''), WriteBar (stored_bar 70 ''X'')] (\<lambda>_. []))))
   = Inr [bar_out (stored_bar 10 ''X''), bar_out (stored_bar 70 ''X'')]"
proof -
  let ?ops = "[WriteBar (stored_bar 10 ''X''), WriteTick (uf_tick 11 ''X'' 2), WriteBar (stored_bar 20 ''Y''), WriteBar (stored_bar 70 ''X'')]"
  let ?d = "\<lambda>_ :: string. [] :: sql_val list list"
  have written: "filter (bar_between ''X'' 60 0 100) (bars_written ?ops (fst (drive (store_write list_db) ?ops ?d))) =
      [stored_bar 10 ''X'', stored_bar 70 ''X'']"
    by (simp add: store_write_bar_def store_write_tick_def list_db_def bar_row_def tick_row_def bar_between_def stored_bar_def)
  obtain rs d1 where r: "store_read_bars list_db ''X'' 60 ''early'' ''late'' (snd (drive (store_write list_db) ?ops ?d)) = (Inr rs, d1)"
    by (simp add: store_read_bars_def bars_query_def list_db_def)
  have strict: "sorted_wrt (<) (map br_ts [stored_bar 10 ''X'', stored_bar 70 ''X''])" by (simp add: stored_bar_def)
  have "rs = map bar_out [stored_bar 10 ''X'', stored_bar 70 ''X'']"
    using store_reads_back [OF list_db_laws, where d = ?d and start_ts = "''early''" and lo = 0 and end_ts = "''late''" and hi = 100
        and symb = "''X''" and tf = 60 and ops = ?ops] strict
    unfolding written r by (simp add: sample_names_def sample_time_def del: drive_Cons)
  with r show ?thesis by (simp del: drive_Cons)
qed

end
