(* ===== verification/Backtest_Report.thy ===== *)
theory Backtest_Report
  imports Backtest_Engine Performance
begin

text \<open>
  The result of a backtest, \<^verbatim>\<open>BacktestResult\<close> of \<^verbatim>\<open>backtest/engine.py\<close>: the engine as its
  constructor leaves it, and \<^verbatim>\<open>run\<close> with the report it ends with.  The figures are tied to the
  simulator's trade records: what the records earned is what the equity moved by.
\<close>

section \<open>The engine and its result\<close>

record backtest_result =
  rs_curve :: "real list"
  rs_times :: "datetime list"
  rs_trades :: "trade_record list"
  rs_performance :: performance_report
  rs_slippage :: "(string, slippage_stats) dict"
  rs_halted :: bool
  rs_halt_reason :: fstr

text \<open>The constructor: a bus whose only subscription is the engine's signal handler.\<close>

definition bt_engine :: "risk_engine \<Rightarrow> simulator \<Rightarrow> 'h bt_handler bus \<times> backtest" where
  "bt_engine re ms = (eb_subscribe SIGNAL RiskGate (eb_init 100000), bt_init re ms)"

definition bt_result :: "np_ops \<Rightarrow> real \<Rightarrow> backtest \<Rightarrow> backtest_result result" where
  "bt_result np bars_per_year bt =
     and_then (compute_performance_report np (bt_curve bt) (ms_trades (bt_broker bt)) bars_per_year 0)
       (\<lambda>performance. Inr \<lparr>rs_curve = bt_curve bt, rs_times = bt_times bt, rs_trades = ms_trades (bt_broker bt),
          rs_performance = performance, rs_slippage = sl_all_stats (om_slippage (bt_om bt)),
          rs_halted = bt_halted bt, rs_halt_reason = bt_halt_reason bt\<rparr>)"

definition bt_backtest ::
  "backtest_cfg \<Rightarrow> np_ops \<Rightarrow> real \<Rightarrow> ('h, 's) handler_sem \<Rightarrow> nat \<Rightarrow> bar_event list \<Rightarrow> ('h, 's) bt_world
   \<Rightarrow> (backtest_result result \<times> ('h, 's) bt_world) option" where
  "bt_backtest cfg np bars_per_year strat fuel bars w =
     (case bt_run cfg strat fuel bars w of
        None \<Rightarrow> None
      | Some (r, b, bt, s) \<Rightarrow> Some (and_then r (\<lambda>_. bt_result np bars_per_year bt), b, bt, s))"

section \<open>Trade records and equity\<close>

text \<open>The sum of a quantity over the values of a finite map.\<close>

definition sum_over :: "('a \<Rightarrow> real) \<Rightarrow> ('k \<rightharpoonup> 'a) \<Rightarrow> real" where
  "sum_over g m = (\<Sum>k \<in> dom m. g (the (m k)))"

definition val_at :: "('a \<Rightarrow> real) \<Rightarrow> 'a option \<Rightarrow> real" where
  "val_at g v = (case v of None \<Rightarrow> 0 | Some x \<Rightarrow> g x)"

lemma val_at_simps [simp]: "val_at g None = 0" "val_at g (Some x) = g x"
  by (simp_all add: val_at_def)

lemma sum_over_empty [simp]: "sum_over g Map.empty = 0"
  by (simp add: sum_over_def)

lemma sum_over_upd:
  assumes "finite (dom m)"
  shows "sum_over g (m(k := v)) = sum_over g m - val_at g (m k) + val_at g v"
proof -
  let ?d = "dom m - {k}"
  have same: "(\<Sum>j \<in> ?d. g (the ((m(k := v)) j))) = (\<Sum>j \<in> ?d. g (the (m j)))" by (rule sum.cong) auto
  have old: "sum_over g m = (\<Sum>j \<in> ?d. g (the (m j))) + val_at g (m k)"
    using assms by (cases "m k") (auto simp: sum_over_def sum.remove [where x = k] dom_def)
  show ?thesis
  proof (cases v)
    case None
    then have "dom (m(k := v)) = ?d" by auto
    with None same old show ?thesis by (simp add: sum_over_def)
  next
    case (Some x)
    then have "dom (m(k := v)) = insert k ?d" by auto
    then have "sum_over g (m(k := v)) = (\<Sum>j \<in> insert k ?d. g (the ((m(k := v)) j)))" by (simp only: sum_over_def)
    also have "\<dots> = g x + (\<Sum>j \<in> ?d. g (the ((m(k := v)) j)))" using assms Some by (subst sum.insert) auto
    finally show ?thesis using Some same old by simp
  qed
qed

definition open_pnl :: "simulator \<Rightarrow> real" where
  "open_pnl ms = sum_over sx_pnl (ms_open_trades ms)"

definition closed_pnl :: "trade_record list \<Rightarrow> real" where
  "closed_pnl trades = sum_list (map tr_pnl trades)"

text \<open>There is an open trade record exactly for the symbols with a position.\<close>

definition trades_account :: "real \<Rightarrow> simulator \<Rightarrow> bool" where
  "trades_account eq0 ms \<longleftrightarrow> finite (dom (ms_open_trades ms))
     \<and> (\<forall>s. ms_open_trades ms s = None \<longleftrightarrow> ms_position s ms = 0)
     \<and> ms_equity ms = eq0 + closed_pnl (ms_trades ms) + open_pnl ms"

lemma trades_account_alike: "trades_account eq0 ms \<Longrightarrow> sim_alike ms ms' \<Longrightarrow> trades_account eq0 ms'"
  by (simp add: sim_alike_def trades_account_def open_pnl_def ms_position_def)

text \<open>What a fill does to the records, by the position before and after it.\<close>

lemma ms_track_cases:
  fixes ms :: simulator and bar :: bar_event
  defines "symb \<equiv> br_symbol bar"
  assumes "ms_open_trades ms symb = None \<longleftrightarrow> prev = 0" "prev \<noteq> new"
  obtains
    (running) t where "new \<noteq> 0" "val_at sx_pnl (ms_open_trades ms symb) + closing - c = sx_pnl t"
      "ms_open_trades (ms_track_trade bar prev new c closing ms) = (ms_open_trades ms)(symb \<mapsto> t)"
      "ms_trades (ms_track_trade bar prev new c closing ms) = ms_trades ms"
  | (finished) t v where "v = None \<longleftrightarrow> new = 0" "val_at sx_pnl v = 0"
      "val_at sx_pnl (ms_open_trades ms symb) + closing - c = tr_pnl t"
      "ms_open_trades (ms_track_trade bar prev new c closing ms) = (ms_open_trades ms)(symb := v)"
      "ms_trades (ms_track_trade bar prev new c closing ms) = ms_trades ms @ [t]"
proof (cases "prev = 0")
  case True
  with assms have "new \<noteq> 0" "ms_open_trades ms symb = None" by auto
  with True show ?thesis
    by (intro running) (auto simp: ms_track_trade_def ms_is_flip_def ms_start_trade_def symb_def [symmetric] Let_def)
next
  case False
  with assms obtain t where t: "ms_open_trades ms symb = Some t" by auto
  show ?thesis
  proof (cases "new = 0 \<or> ms_is_flip prev new")
    case True
    with False t show ?thesis
      by (intro finished [of "if new = 0 then None else Some (ms_start_trade (br_ts bar) new)"
            "\<lparr>tr_symbol = symb, tr_side = sx_side t, tr_entry_ts = sx_entry_ts t, tr_exit_ts = br_ts bar,
              tr_qty = max (sx_peak t) \<bar>new\<bar>, tr_pnl = sx_pnl t - c + closing\<rparr>"])
        (auto simp: ms_track_trade_def ms_finalize_trade_def ms_start_trade_def ms_is_flip_def symb_def [symmetric] Let_def)
  next
    case flat: False
    with False t show ?thesis
      by (intro running [of "t\<lparr>sx_peak := max (sx_peak t) \<bar>new\<bar>, sx_pnl := sx_pnl t - c + closing\<rparr>"])
        (auto simp: ms_track_trade_def symb_def [symmetric] Let_def)
  qed
qed

lemma trades_account_fill:
  assumes "trades_account eq0 ms" "q \<noteq> 0"
  shows "trades_account eq0 (ms_apply_fill po q price bar ms)"
proof -
  let ?s = "br_symbol bar" and ?ms = "ms_apply_fill po q price bar ms"
  obtain signed where signed: "signed = q * (if rq_side (po_request po) = BUY then 1 else -1)" "signed \<noteq> 0"
    using assms(2) by simp
  let ?prev = "ms_position ?s ms" and ?c = "ms_commission ms * of_int q"
  let ?closing = "ms_closing_pnl ?prev signed (ms_avg_entry ms ?s) price (ms_multiplier ?s ms)"
  let ?ms1 = "ms_track_trade bar ?prev (?prev + signed) ?c ?closing ms"
  have inv: "finite (dom (ms_open_trades ms))" "\<And>s. ms_open_trades ms s = None \<longleftrightarrow> ms_position s ms = 0"
      "ms_equity ms = eq0 + closed_pnl (ms_trades ms) + open_pnl ms"
    using assms(1) by (simp_all add: trades_account_def)
  have ms: "ms_open_trades ?ms = ms_open_trades ?ms1" "ms_trades ?ms = ms_trades ?ms1"
      "ms_equity ?ms = ms_equity ms + (?closing - ?c)" "ms_positions ?ms = dset ?s (?prev + signed) (ms_positions ms)"
    by (simp_all add: ms_apply_fill_def Let_def signed(1))
  have pos: "ms_position s ?ms = (if s = ?s then ?prev + signed else ms_position s ms)" for s
    by (simp add: ms_position_def ms(4))
  have "?prev \<noteq> ?prev + signed" using signed(2) by simp
  with inv(2) [of ?s] show ?thesis
  proof (cases rule: ms_track_cases [where closing = ?closing and c = ?c])
    case (running t)
    with inv show ?thesis
      unfolding trades_account_def open_pnl_def ms pos by (simp add: sum_over_upd)
  next
    case (finished t v)
    with inv show ?thesis
      unfolding trades_account_def open_pnl_def closed_pnl_def ms pos by (auto simp: sum_over_upd)
  qed
qed

interpretation trades: sim_ledger "trades_account eq0" for eq0
  by unfold_locales (auto intro: trades_account_fill trades_account_alike)

section \<open>Through the engine\<close>

definition bt_accounts :: "real \<Rightarrow> backtest \<Rightarrow> bool" where
  "bt_accounts eq0 bt \<longleftrightarrow> trades_account eq0 (bt_broker bt) \<and> bt_curve bt \<noteq> [] \<and> hd (bt_curve bt) = eq0
     \<and> length (bt_times bt) = length (bt_curve bt)"

definition bt_current :: "backtest \<Rightarrow> bool" where
  "bt_current bt \<longleftrightarrow> last (bt_curve bt) = ms_equity (bt_broker bt)"

lemma bt_times_fixed [simp]:
  "bt_times (snd (bt_settle cfg b bt)) = bt_times bt" "bt_times (snd (bt_observe cfg bar bt)) = bt_times bt"
  "bt_times (snd (bt_record bar bt)) = bt_times bt @ [br_ts bar]"
  by (simp_all add: bt_settle_def bt_observe_def bt_roll_session_def bt_record_def Let_def split: prod.split)

lemma bt_accounts_signal: "bt_accounts eq0 bt \<Longrightarrow> bt_accounts eq0 (snd (bt_on_signal cfg sg bt))"
  by (rule bt_on_signal_cases [of cfg sg bt]) (auto simp: bt_accounts_def intro: trades_account_alike sim_alike_place)

lemma bt_current_signal: "bt_current bt \<Longrightarrow> bt_current (snd (bt_on_signal cfg sg bt))"
  by (rule bt_on_signal_cases [of cfg sg bt]) (auto simp: bt_current_def ms_place_order_def Let_def)

lemma bt_accounts_drain:
  "eb_drain (bt_handle cfg strat) n (b, bt, s) = Some (b', bt', s') \<Longrightarrow> bt_accounts eq0 bt \<Longrightarrow> bt_accounts eq0 bt'"
  by (rule bt_drain_invariant [where P = "bt_accounts eq0" and cfg = cfg]) (rule bt_accounts_signal)

lemma bt_current_drain:
  "eb_drain (bt_handle cfg strat) n (b, bt, s) = Some (b', bt', s') \<Longrightarrow> bt_current bt \<Longrightarrow> bt_current bt'"
  by (rule bt_drain_invariant [where P = bt_current and cfg = cfg]) (rule bt_current_signal)

lemma bt_accounts_settle: "bt_accounts eq0 bt \<Longrightarrow> bt_accounts eq0 (snd (bt_settle cfg b bt))"
  by (simp add: bt_accounts_def)

lemma bt_accounts_observe: "bt_accounts eq0 bt \<Longrightarrow> bt_accounts eq0 (snd (bt_observe cfg bar bt))"
  by (simp add: bt_accounts_def bt_observe_fixed trades.process)

lemma bt_accounts_record:
  "bt_accounts eq0 bt \<Longrightarrow> bt_accounts eq0 (snd (bt_record bar bt)) \<and> bt_current (snd (bt_record bar bt))"
  by (simp add: bt_accounts_def bt_current_def)

lemma bt_accounts_pass:
  assumes "bt_iteration cfg strat fuel bar (b, bt, s) = Some (r, b', bt', s')" "bt_accounts eq0 bt"
  shows "bt_accounts eq0 bt' \<and> (ok r \<longrightarrow> bt_current bt')"
  using assms(1)
proof (cases rule: bt_iteration_cases)
  case (raised e)
  then show ?thesis using bt_accounts_observe [OF assms(2), of cfg bar] by simp
next
  case (settled b1 bt2 s1 b3 bt4)
  then have "bt_accounts eq0 bt4"
    by (meson assms(2) bt_accounts_drain bt_accounts_observe bt_accounts_settle)
  from bt_accounts_record [OF bt_accounts_settle [OF this]] show ?thesis unfolding settled(6) by blast
next
  case (halted b1 bt2 s1 b3 bt4 s2 bt6)
  then have "bt_accounts eq0 bt4"
    by (meson assms(2) bt_accounts_drain bt_accounts_observe bt_accounts_settle)
  from bt_accounts_record [OF bt_accounts_settle [OF this]] have "bt_accounts eq0 bt6" "bt_current bt6"
    unfolding halted(6) by blast+
  then show ?thesis using bt_accounts_drain [OF halted(7)] bt_current_drain [OF halted(7)] by blast
qed

lemma bt_start_accounts:
  "bt_accounts equity (fst (snd (bt_start bar (b, bt_init re (ms_init equity mults ip c), s))))
   \<and> bt_current (fst (snd (bt_start bar (b, bt_init re (ms_init equity mults ip c), s))))"
  by (simp add: bt_start_def bt_init_def Let_def ms_connect_def ms_init_def ms_get_account_equity_def bt_accounts_def
      bt_current_def trades_account_def open_pnl_def closed_pnl_def ms_position_def dget_or_def)

lemma bt_run_accounts:
  assumes "bt_run cfg strat fuel bars (b, bt_init re (ms_init equity mults ip c), s) = Some (Inr (), b', bt', s')"
  shows "bt_accounts equity bt' \<and> bt_current bt'"
proof -
  obtain bt2 where "bt_accounts equity bt2" "bt_current bt2"
    and fin: "bt' = bt2\<lparr>bt_broker := ms_disconnect (bt_broker bt2)\<rparr>"
  proof (rule bt_run_invariant [where P = "bt_accounts equity" and Q = bt_current, OF assms bt_start_accounts bt_accounts_pass])
    fix b bt s b' bt' s'
    assume d: "eb_drain (bt_handle cfg strat) fuel (b, bt, s) = Some (b', bt', s')" "bt_accounts equity bt" "bt_current bt"
    show "bt_accounts equity bt' \<and> bt_current bt'"
      using bt_accounts_drain [OF d(1,2)] bt_current_drain [OF d(1,3)] by simp
  qed
  moreover have "sim_alike ms (ms_disconnect ms)" for ms by (simp add: sim_alike_def ms_disconnect_def)
  ultimately show ?thesis
    by (auto simp: bt_accounts_def bt_current_def ms_disconnect_def intro: trades_account_alike)
qed

section \<open>The report adds up\<close>

lemma pf_expectancy_total: "pf_expectancy_of trades * real (length trades) = closed_pnl trades"
proof (cases "trades = []")
  case False
  then show ?thesis using pf_expectancy_is_mean_pnl [of trades] by (simp add: closed_pnl_def)
qed (simp add: closed_pnl_def)

lemma bt_result_ok:
  assumes "bt_result np bpy bt = Inr res"
  shows "rs_curve res = bt_curve bt" "rs_times res = bt_times bt" "rs_trades res = ms_trades (bt_broker bt)"
    and "pf_expectancy (rs_performance res) = pf_expectancy_of (ms_trades (bt_broker bt))"
    and "pf_trades (rs_performance res) = length (ms_trades (bt_broker bt))"
    and "pf_total_return (rs_performance res) = (last (bt_curve bt) / hd (bt_curve bt) - 1) * 100"
    and "rs_halted res = bt_halted bt" "rs_halt_reason res = bt_halt_reason bt"
proof -
  obtain p where "compute_performance_report np (bt_curve bt) (ms_trades (bt_broker bt)) bpy 0 = Inr p"
    "res = \<lparr>rs_curve = bt_curve bt, rs_times = bt_times bt, rs_trades = ms_trades (bt_broker bt), rs_performance = p,
       rs_slippage = sl_all_stats (om_slippage (bt_om bt)), rs_halted = bt_halted bt, rs_halt_reason = bt_halt_reason bt\<rparr>"
    using assms by (auto simp: bt_result_def and_then_Inr_iff)
  with report_fields [OF this(1)] show "rs_curve res = bt_curve bt" "rs_times res = bt_times bt" "rs_trades res = ms_trades (bt_broker bt)"
    "pf_expectancy (rs_performance res) = pf_expectancy_of (ms_trades (bt_broker bt))"
    "pf_trades (rs_performance res) = length (ms_trades (bt_broker bt))"
    "pf_total_return (rs_performance res) = (last (bt_curve bt) / hd (bt_curve bt) - 1) * 100"
    "rs_halted res = bt_halted bt" "rs_halt_reason res = bt_halt_reason bt"
    by simp_all
qed

text \<open>
  Property C12. The figures of a backtest add up, over any bars, strategies and fills: the equity
  curve starts at the starting equity, has one time per point, and ends at the starting equity plus
  the number of trades times the reported expectancy plus what the trades still open have earned so
  far, commissions included; the reported total return is that sum over the starting equity; the
  trades still open are exactly those of the symbols with a position.
\<close>

theorem bt_report_adds_up:
  assumes "bt_backtest cfg np bpy strat fuel bars (b, bt_init re (ms_init equity mults ip c), s) = Some (Inr res, b', bt', s')"
    and "equity \<noteq> 0"
  defines "earned \<equiv> real (pf_trades (rs_performance res)) * pf_expectancy (rs_performance res) + open_pnl (bt_broker bt')"
  shows "hd (rs_curve res) = equity \<and> length (rs_times res) = length (rs_curve res)
    \<and> last (rs_curve res) = equity + earned \<and> pf_total_return (rs_performance res) = earned / equity * 100
    \<and> (\<forall>symb. ms_open_trades (bt_broker bt') symb = None \<longleftrightarrow> ms_position symb (bt_broker bt') = 0)"
proof -
  have run: "bt_run cfg strat fuel bars (b, bt_init re (ms_init equity mults ip c), s) = Some (Inr (), b', bt', s')"
    and res: "bt_result np bpy bt' = Inr res"
    using assms(1) by (auto simp: bt_backtest_def and_then_Inr_iff split: option.splits)
  have acc: "trades_account equity (bt_broker bt')" "hd (bt_curve bt') = equity" "length (bt_times bt') = length (bt_curve bt')"
      "last (bt_curve bt') = ms_equity (bt_broker bt')"
    using bt_run_accounts [OF run] by (simp_all add: bt_accounts_def bt_current_def)
  have "earned = closed_pnl (ms_trades (bt_broker bt')) + open_pnl (bt_broker bt')"
    using pf_expectancy_total by (simp add: earned_def bt_result_ok [OF res] mult.commute)
  with acc have total: "last (bt_curve bt') = equity + earned" by (simp add: trades_account_def)
  have "((equity + earned) / equity - 1) * 100 = earned / equity * 100"
    using assms(2) by (simp add: add_divide_distrib)
  with acc(2,3) total have "hd (rs_curve res) = equity" "length (rs_times res) = length (rs_curve res)"
    "last (rs_curve res) = equity + earned" "pf_total_return (rs_performance res) = earned / equity * 100"
    by (simp_all add: bt_result_ok [OF res])
  with acc(1) show ?thesis by (simp add: trades_account_def)
qed

theorem bt_report_adds_up_witness:
  "\<exists>res b bt s. bt_backtest replay_cfg np_reference 252 replay_strategy 9 [replay_bar 0 100, replay_bar 5 100]
      (replay_bus, bt_init sample_engine replay_sim, 0) = Some (Inr res, b, bt, s)
    \<and> hd (rs_curve res) = 1000 \<and> length (rs_times res) = length (rs_curve res)"
proof -
  obtain b bt s where run: "bt_run replay_cfg replay_strategy 9 [replay_bar 0 100, replay_bar 5 100]
      (replay_bus, bt_init sample_engine replay_sim, 0) = Some (Inr (), b, bt, s)"
    and three: "length (bt_curve bt) = 3"
    using replay_run by blast
  obtain res where "bt_result np_reference 252 bt = Inr res"
    using three by (simp add: bt_result_def compute_performance_report_def fdiv_def Let_def)
  with run have "bt_backtest replay_cfg np_reference 252 replay_strategy 9 [replay_bar 0 100, replay_bar 5 100]
      (replay_bus, bt_init sample_engine replay_sim, 0) = Some (Inr res, b, bt, s)"
    by (simp add: bt_backtest_def)
  with bt_report_adds_up [OF this [unfolded replay_sim_def]] show ?thesis by auto
qed

end
