(* ===== verification/Feature_Frames.thy ===== *)
theory Feature_Frames
  imports Bot_Prelude
begin

text \<open>
  The features on bar data, \<^verbatim>\<open>strategies/features.py\<close>: the queries it builds and the order in which it
  runs them.  A query is an expression of the \<^verbatim>\<open>polars\<close> package, whose frames and calls are the
  record \<open>polars\<close>, a parameter; what the results rely on is the documented meaning of
  \<^verbatim>\<open>with_columns\<close>, the named hypothesis \<open>with_law\<close>.
\<close>

section \<open>Queries\<close>













section \<open>What the code relies on\<close>










section \<open>How far a value of a window can lie from its mean\<close>






section \<open>The features of a timeframe\<close>








end
