(* ===== verification/Live_Parity.thy ===== *)
theory Live_Parity
  imports Live_Scanner Backtest_Engine
begin

text \<open>
  One signal, twice: the handler of the live script and the handler of the backtest engine, on the
  same risk engine, order table and prices, and shown the same account.
\<close>

lemma live_audit_quiet: "quiet_net (le_dash env) \<Longrightarrow> fst (live_audit env level src msg lv) = Inr ()"
  using db_push_audit_quiet [of "le_dash env"] by (simp add: live_audit_def lv_bridge_def split: prod.split) (metis fst_conv)

text \<open>The live handler once the account has been read and nothing outside raises.\<close>

lemma live_on_signal_passed:
  assumes view: "live_account_view api lv = (Inr av, lv1)" and quiet: "quiet_net (le_dash env)"
    and ready: "bn_ensure_symbol_ready api (sg_symbol sg) (lc_leverage cfg) (lc_margin_type cfg) (lv_bn lv1) = (Inr filt, bn)"
    and passed: "rr_passed (fst (re_check_order sg av (le_mono env) (lv_re lv)))"
  shows "lv_om (snd (live_on_signal api cfg env oid sg lv)) =
      (lv_om lv)\<lparr>om_orders := dset oid ((om_new_order oid (le_now env) sg (lv_last lv (sg_symbol sg)))\<lparr>mo_status := SUBMITTED\<rparr>)
        (om_orders (lv_om lv))\<rparr>
    \<and> lv_bn (snd (live_on_signal api cfg env oid sg lv)) = snd (bn_place_order api (le_now env) (om_request oid sg) bn)"
proof -
  have kept: "lv_om lv1 = lv_om lv" "lv_re lv1 = lv_re lv" "lv_last lv1 = lv_last lv"
    using live_account_view_kept [of lv api] view by (simp_all add: live_kept_def)
  obtain res re where chk: "re_check_order sg av (le_mono env) (lv_re lv) = (res, re)"
    by (cases "re_check_order sg av (le_mono env) (lv_re lv)")
  let ?lv3 = "snd (live_audit env ''risk'' ''risk_engine'' [Lit ''pre-trade checks passed''] (lv1\<lparr>lv_re := re\<rparr>))"
  let ?lv4 = "?lv3\<lparr>lv_bn := bn\<rparr>"
  have "live_on_signal api cfg env oid sg lv = live_submit api env oid sg (lv_last ?lv4 (sg_symbol sg)) ?lv4"
    using passed chk ready
    by (simp add: live_on_signal_def view kept Let_def on_ok_Inr [OF live_audit_quiet [OF quiet]] lv_broker_def)
  moreover have "lv_last ?lv4 = lv_last lv" "lv_om ?lv4 = lv_om lv" "lv_bn ?lv4 = bn" by (simp_all add: kept)
  ultimately show ?thesis
    by (auto simp: live_submit_def lv_orders_def om_submit_def bn_venue_def Let_def split: prod.split sum.split)
qed

text \<open>
  Property C13. Backtest and live treat a signal alike.  Shown the same account, with the same risk
  engine, order table, last prices, clock and order id, and when no call outside the risk decision
  raises, the two handlers leave the same risk engine and the same order table; and where one asks
  its broker to place an order, the other asks its broker to place the identical request.
\<close>

theorem live_backtest_parity:
  assumes "live_account_view api lv = (Inr (bt_view cfg bt), lv1)" "quiet_net (le_dash env)"
    and "bn_ensure_symbol_ready api (sg_symbol sg) (lc_leverage lcfg) (lc_margin_type lcfg) (lv_bn lv1) = (Inr filt, bn)"
    and "le_mono env = bc_mono cfg (bt_signals bt)" "le_now env = bc_wall cfg (bt_signals bt)"
    and "lv_re lv = bt_risk bt" "lv_om lv = bt_om bt" "lv_last lv = bt_last_price bt"
  defines "oid \<equiv> bc_uuid cfg (bt_orders bt)"
  defines "lv' \<equiv> snd (live_on_signal api lcfg env oid sg lv)" and "bt' \<equiv> snd (bt_on_signal cfg sg bt)"
  shows "lv_re lv' = bt_risk bt' \<and> lv_om lv' = bt_om bt'
    \<and> (if rr_passed (fst (re_check_order sg (bt_view cfg bt) (le_mono env) (lv_re lv)))
       then lv_bn lv' = snd (bn_place_order api (le_now env) (om_request oid sg) bn)
         \<and> bt_broker bt' = snd (ms_place_order (le_now env) (om_request oid sg) (bt_broker bt))
       else lv_bn lv' = lv_bn lv1 \<and> bt_broker bt' = bt_broker bt)"
proof -
  obtain res re where chk: "re_check_order sg (bt_view cfg bt) (le_mono env) (lv_re lv) = (res, re)"
    by (cases "re_check_order sg (bt_view cfg bt) (le_mono env) (lv_re lv)")
  note live = live_on_signal_orders [OF assms(1), where cfg = lcfg and env = env and oid = oid and sg = sg]
  show ?thesis
  proof (cases "rr_passed res")
    case False
    have "lv_bn lv' = lv_bn lv1"
      using False chk live_account_view_kept [of lv api]
      by (simp add: lv'_def live_on_signal_def assms(1) live_kept_def)
    with False chk live assms(4-8) show ?thesis
      by (simp add: lv'_def bt'_def bt_on_signal_def)
  next
    case True
    with chk live_on_signal_passed [OF assms(1-3), where oid = oid] live(1) assms(4-8) show ?thesis
      by (simp add: lv'_def bt'_def bt_on_signal_def om_submit_def ms_venue_def ms_place_order_def Let_def oid_def)
  qed
qed

definition parity_cfg :: backtest_cfg where
  "parity_cfg = \<lparr>bc_mults = Map.empty, bc_uuid = (\<lambda>_. ''o''), bc_wall = (\<lambda>_. 0), bc_mono = (\<lambda>_. 0)\<rparr>"

text \<open>The live sample with a price and a margin schedule for its symbol, so that an order of two lots passes.\<close>

definition armed_engine :: risk_engine where
  "armed_engine = sample_engine\<lparr>re_prices := [''BTCUSDT'' \<mapsto> 5],
     re_margin := \<lparr>mc_schedule = [''BTCUSDT'' \<mapsto> \<lparr>mr_symbol = ''BTCUSDT'', mr_initial = 5, mr_maintenance = 4\<rparr>],
       mc_initial_buffer = 25, mc_maintenance_buffer = 10\<rparr>\<rparr>"

definition armed_signal :: signal_event where
  "armed_signal = (sample_signal BUY 2)\<lparr>sg_symbol := ''BTCUSDT''\<rparr>"

definition armed_live :: "((string \<times> cancel_ref) list, nat) live" where
  "armed_live = sample_live\<lparr>lv_re := armed_engine\<rparr>"

definition armed_view :: account_view where
  "armed_view = \<lparr>av_equity = 1000, av_gross = 0, av_initial_used = 0, av_maintenance_used = 0\<rparr>"

lemma armed_passes: "rr_passed (fst (re_check_order armed_signal armed_view 0 armed_engine))"
  by (simp add: re_check_order_passed_iff armed_engine_def sample_engine_def re_init_def re_takes_token_def
      re_within_limits_def re_notional_def armed_signal_def sample_signal_def armed_view_def re_position_def
      re_multiplier_def re_size_ok_def mc_check_order_def rl_admit_unfold rl_expire_def rl_init_def Let_def)

lemma armed_account: "lv_bn lv = sample_live_broker \<Longrightarrow> live_account_view sample_api lv = (Inr armed_view, lv)"
  by (cases lv) (simp add: live_account_view_def lv_broker_def bn_get_account_equity_def bn_get_positions_def
      bn_get_margin_usage_def bn_call_def sample_live_broker_def sample_api_def bn_positions_of_def armed_view_def)

definition parity_backtest :: backtest where
  "parity_backtest = bt_init armed_engine (ms_init 1000 Map.empty ip_default 1)"

theorem live_backtest_parity_witness:
  "lv_om (snd (live_on_signal sample_api sample_live_cfg sample_live_env ''o'' armed_signal armed_live))
      = bt_om (snd (bt_on_signal parity_cfg armed_signal parity_backtest))
    \<and> bt_broker (snd (bt_on_signal parity_cfg armed_signal parity_backtest))
      = snd (ms_place_order 0 (om_request ''o'' armed_signal) (ms_init 1000 Map.empty ip_default 1))"
proof -
  have bview: "bt_view parity_cfg parity_backtest = armed_view"
    by (simp add: bt_view_def armed_view_def parity_backtest_def bt_init_def ms_init_def ms_get_account_equity_def
        bt_gross_exposure_def ms_get_positions_def ms_get_margin_usage_def)
  have view: "live_account_view sample_api armed_live = (Inr (bt_view parity_cfg parity_backtest), armed_live)"
    unfolding bview by (rule armed_account) (simp add: armed_live_def sample_live_def)
  have "fst (bn_ensure_symbol_ready sample_api (sg_symbol armed_signal) (lc_leverage sample_live_cfg) (lc_margin_type sample_live_cfg)
      (lv_bn armed_live)) = Inr sample_filters"
    by (simp add: bn_ensure_symbol_ready_def bn_configure_leverage_and_margin_def bn_call_def armed_live_def sample_live_def
        sample_live_broker_def sample_live_cfg_def sample_api_def bn_init_def bn_mark_configured_def Let_def armed_signal_def)
  then obtain bn where ready: "bn_ensure_symbol_ready sample_api (sg_symbol armed_signal) (lc_leverage sample_live_cfg)
      (lc_margin_type sample_live_cfg) (lv_bn armed_live) = (Inr sample_filters, bn)"
    by (metis prod.collapse)
  have "quiet_net (le_dash sample_live_env)"
    by (simp add: quiet_net_def sample_live_env_def sample_dash_env_def)
  from live_backtest_parity [OF view this ready] armed_passes show ?thesis
    by (simp add: parity_cfg_def parity_backtest_def bt_init_def sample_live_env_def armed_live_def sample_live_def bview
        [unfolded parity_cfg_def parity_backtest_def bt_init_def])
qed

end
