(* ===== verification/Live_Races.thy ===== *)
theory Live_Races
  imports Live_Bot Live_Parity
begin

text \<open>
  The kill switch against a signal in flight.  \<^verbatim>\<open>on_signal\<close> of
  \<^verbatim>\<open>scripts/run_live_binance_scanner.py\<close> decides with the risk engine and then awaits a request to the
  exchange before it submits; the tasks of the dashboard and the loops run meanwhile.  Here the
  handler is cut at that point and the two parts are turns of their own, between which all the other
  tasks of \<^verbatim>\<open>Live_Bot\<close> may take theirs.
\<close>

section \<open>The two parts of the signal handler\<close>

text \<open>Up to the audit line: whether the signal is going to be submitted.\<close>

definition live_signal_check :: "'c api \<Rightarrow> live_env \<Rightarrow> signal_event \<Rightarrow> ('c, 'h) live \<Rightarrow> bool result \<times> ('c, 'h) live" where
  "live_signal_check api env sg lv =
     on_ok (live_account_view api lv)
       (\<lambda>av lv1.
          case re_check_order sg av (le_mono env) (lv_re lv1) of
            (result, re) \<Rightarrow>
              (let lv2 = lv1\<lparr>lv_re := re\<rparr> in
               if \<not> rr_passed result
               then on_ok (live_audit env ''risk'' ''risk_engine''
                      ([Lit ''REJECTED ['', StrP (rr_code result), Lit ''] ''] @ rr_message result) lv2) (\<lambda>_ lv3. (Inr False, lv3))
               else on_ok (live_audit env ''risk'' ''risk_engine'' [Lit ''pre-trade checks passed''] lv2) (\<lambda>_ lv3. (Inr True, lv3))))"

text \<open>From the request that makes the symbol ready on.\<close>

definition live_signal_enter ::
  "'c api \<Rightarrow> live_cfg \<Rightarrow> live_env \<Rightarrow> string \<Rightarrow> signal_event \<Rightarrow> ('c, 'h) live \<Rightarrow> unit result \<times> ('c, 'h) live" where
  "live_signal_enter api cfg env oid sg lv =
     on_ok (lv_broker (bn_ensure_symbol_ready api (sg_symbol sg) (lc_leverage cfg) (lc_margin_type cfg)) lv)
       (\<lambda>_ lv1. live_submit api env oid sg (lv_last lv1 (sg_symbol sg)) lv1)"

lemma on_ok_assoc: "on_ok (on_ok r f) g = on_ok r (\<lambda>x s. on_ok (f x s) g)"
  by (cases r; cases "fst r") auto

lemma live_on_signal_split:
  "live_on_signal api cfg env oid sg lv =
     on_ok (live_signal_check api env sg lv)
       (\<lambda>passed lv1. if passed then live_signal_enter api cfg env oid sg lv1 else (Inr (), lv1))"
proof -
  have unit: "on_ok r (\<lambda>_ s. (Inr (), s)) = r" for r :: "unit result \<times> ('a, 'b) live"
    by (cases r; cases "fst r") auto
  show ?thesis
    unfolding live_on_signal_def live_signal_check_def live_signal_enter_def on_ok_assoc
    by (intro arg_cong [where f = "on_ok (live_account_view api lv)"] ext)
      (simp add: Let_def on_ok_assoc unit split: prod.split)
qed

section \<open>Turns\<close>

record 'c split_bot =
  sp_bot :: "'c bot"
  sp_signal :: "(string \<times> signal_event) option"   \<comment> \<open>approved, not yet submitted\<close>

datatype 'c split_op =
    Turn "'c bot_op"
  | SignalChecked live_env string signal_event
  | SignalEntered live_env

text \<open>The dispatcher is one task: while it is inside the handler it delivers nothing else.\<close>

fun split_step :: "'c bot_cfg \<Rightarrow> 'c split_op \<Rightarrow> 'c split_bot \<Rightarrow> 'c split_bot" where
  "split_step g (Turn oper) st =
     (if is_dispatch oper \<and> sp_signal st \<noteq> None then st else st\<lparr>sp_bot := bot_step g oper (sp_bot st)\<rparr>)"
| "split_step g (SignalChecked env oid sg) st =
     (if sp_signal st \<noteq> None then st
      else case live_signal_check (bg_api g) env sg (bt_live (sp_bot st)) of
        (r, lv) \<Rightarrow> \<lparr>sp_bot = (sp_bot st)\<lparr>bt_live := lv\<rparr>, sp_signal = (if r = Inr True then Some (oid, sg) else None)\<rparr>)"
| "split_step g (SignalEntered env) st =
     (case sp_signal st of
        None \<Rightarrow> st
      | Some (oid, sg) \<Rightarrow>
          \<lparr>sp_bot = (sp_bot st)\<lparr>bt_live := snd (live_signal_enter (bg_api g) (bg_live g) env oid sg (bt_live (sp_bot st)))\<rparr>,
           sp_signal = None\<rparr>)"

definition in_flight :: "'c split_bot \<Rightarrow> string set" where
  "in_flight st = (case sp_signal st of None \<Rightarrow> {} | Some (oid, _) \<Rightarrow> {oid})"

fun split_op_ids :: "'c bot_cfg \<Rightarrow> 'c split_op \<Rightarrow> string set" where
  "split_op_ids g (Turn oper) = bot_op_ids g oper"
| "split_op_ids g _ = {}"

fun split_op_quiet :: "'c bot_cfg \<Rightarrow> date \<Rightarrow> 'c split_op \<Rightarrow> bool" where
  "split_op_quiet g d (Turn oper) = bot_op_quiet g d oper"
| "split_op_quiet g d _ = True"

section \<open>At most the signal in flight\<close>

lemma live_signal_check_locked:
  assumes "live_locked om d lv"
  shows "fst (live_signal_check api env sg lv) \<noteq> Inr True \<and> live_locked om d (snd (live_signal_check api env sg lv))"
proof -
  obtain r lv1 where view: "live_account_view api lv = (r, lv1)" by (cases "live_account_view api lv")
  have kept: "lv_om lv1 = lv_om lv" "lv_re lv1 = lv_re lv"
    using live_account_view_kept [of lv api] by (simp_all add: view live_kept_def)
  show ?thesis
  proof (cases r)
    case (Inl e)
    with view assms kept show ?thesis by (simp add: live_signal_check_def live_locked_def)
  next
    case (Inr av)
    obtain res re where chk: "re_check_order sg av (le_mono env) (lv_re lv) = (res, re)"
      by (cases "re_check_order sg av (le_mono env) (lv_re lv)")
    from assms have "\<not> rr_passed (fst (re_check_order sg av (le_mono env) (lv_re lv)))"
        "re_breaker (snd (re_check_order sg av (le_mono env) (lv_re lv))) = re_breaker (lv_re lv)"
      by (simp_all add: live_locked_def re_check_order_passed_iff re_takes_token_def re_check_order_state)
    then have res: "\<not> rr_passed res" "re_breaker re = re_breaker (lv_re lv)" by (simp_all add: chk)
    obtain ra lv2 where aud: "live_audit env ''risk'' ''risk_engine''
        ([Lit ''REJECTED ['', StrP (rr_code res), Lit ''] ''] @ rr_message res) (lv1\<lparr>lv_re := re\<rparr>) = (ra, lv2)"
      by (cases "live_audit env ''risk'' ''risk_engine''
        ([Lit ''REJECTED ['', StrP (rr_code res), Lit ''] ''] @ rr_message res) (lv1\<lparr>lv_re := re\<rparr>)")
    have "live_locked om d (lv1\<lparr>lv_re := re\<rparr>)" using assms res(2) kept by (simp add: live_locked_def)
    then have "live_locked om d lv2" using live_locked_kept(2) [of om d env] aud by (metis snd_conv)
    with view Inr res(1) chk kept(2) aud show ?thesis
      by (cases ra) (simp_all add: live_signal_check_def Let_def)
  qed
qed

definition split_shut :: "date \<Rightarrow> string set \<Rightarrow> 'c split_bot \<Rightarrow> bool" where
  "split_shut d ids st \<longleftrightarrow> bot_shut d ids (sp_bot st) \<and> in_flight st \<subseteq> ids"

lemma live_signal_enter_shut:
  assumes "live_halted d lv" "om_within ids (lv_om lv)" "oid \<in> ids"
  shows "live_halted d (snd (live_signal_enter api cfg env oid sg lv))
    \<and> om_within ids (lv_om (snd (live_signal_enter api cfg env oid sg lv)))"
  unfolding live_signal_enter_def
proof (rule on_ok_snd [where P = "\<lambda>lv. live_halted d lv \<and> om_within ids (lv_om lv)"])
  fix x and lv1 :: "('a, 'b) live"
  assume "live_halted d lv1 \<and> om_within ids (lv_om lv1)"
  then show "live_halted d (snd (live_submit api env oid sg (lv_last lv1 (sg_symbol sg)) lv1))
      \<and> om_within ids (lv_om (snd (live_submit api env oid sg (lv_last lv1 (sg_symbol sg)) lv1)))"
    using halt_desk.live_keeps_submit [of ids lv1 oid] assms(3) by (simp add: halt_desk.live_keeps_def)
qed (use assms(1,2) in simp)

lemma split_step_shut:
  assumes "split_shut d ids st" "split_op_quiet g d oper" "split_op_ids g oper \<subseteq> ids"
  shows "split_shut d ids (split_step g oper st)"
proof (cases oper)
  case (Turn o1)
  with assms show ?thesis by (simp add: split_shut_def bot_step_shut in_flight_def)
next
  case (SignalChecked env oid sg)
  have "live_locked (lv_om (bt_live (sp_bot st))) d (bt_live (sp_bot st))"
    using assms(1) by (simp add: split_shut_def bot_shut_def live_locked_own)
  from live_signal_check_locked [OF this, of "bg_api g" env sg] assms(1) SignalChecked show ?thesis
    by (cases "live_signal_check (bg_api g) env sg (bt_live (sp_bot st))")
      (auto simp: split_shut_def bot_shut_def in_flight_def dest!: live_locked_halted)
next
  case (SignalEntered env)
  with assms(1) live_signal_enter_shut [where ids = ids and d = d and lv = "bt_live (sp_bot st)" and api = "bg_api g" and cfg = "bg_live g" and env = env] show ?thesis
    by (auto simp: split_shut_def bot_shut_def in_flight_def split: option.splits prod.splits)
qed

lemma split_run_shut:
  assumes "split_shut d ids st" "\<forall>oper \<in> set ops. split_op_quiet g d oper \<and> split_op_ids g oper \<subseteq> ids"
  shows "split_shut d ids (fold (split_step g) ops st)"
  using assms by (induction ops arbitrary: st) (simp_all add: split_step_shut)

text \<open>
  Property C9. Once an operator's kill switch has been served, at most one more signal becomes an
  order: the one that was approved and on its way to the exchange at that moment.  This holds as long
  as the operator does not reset it and no round of the monitor loop falls on another UTC day than
  the breaker's session (such a round lifts the halt).  Within that, the tasks of the bot may take
  any turns in any order, the two parts of the signal handler being turns of their own: the dispatcher
  with all its handlers, broker events, the sockets, polls, rounds of the loops, tabs and their commands.
  Any other order in the table was there before or was entered by a poll of the position monitor or
  a flatten command.
\<close>

theorem kill_switch_stops_all_but_one:
  fixes c :: nat and env :: live_env
  assumes "bn_client (lv_bn (bt_live (sp_bot st))) \<noteq> None" "incoming_command (bg_bridge g) raw = Some ''kill_switch''"
    and "\<forall>oper \<in> set ops. split_op_quiet g (cb_date (re_breaker (lv_re (bt_live (sp_bot st))))) oper"
  defines "st1 \<equiv> fold (split_step g) ops (split_step g (Turn (TabSends env c raw)) st)"
  shows "cb_halted (re_breaker (lv_re (bt_live (sp_bot st1))))
    \<and> orders_of (sp_bot st1) \<subseteq> orders_of (sp_bot st) \<union> in_flight st \<union> \<Union> (set (map (split_op_ids g) ops))"
proof -
  let ?d = "cb_date (re_breaker (lv_re (bt_live (sp_bot st))))"
  let ?ids = "orders_of (sp_bot st) \<union> (in_flight st \<union> \<Union> (set (map (split_op_ids g) ops)))"
  have "split_shut ?d ?ids (split_step g (Turn (TabSends env c raw)) st)"
    using bot_kill_shut [OF assms(1,2)] by (auto simp: split_shut_def in_flight_def)
  then have "split_shut ?d ?ids st1"
    unfolding st1_def using assms(3) by (intro split_run_shut) auto
  then show ?thesis using bot_shut_orders by (auto simp: split_shut_def)
qed

text \<open>
  Property C35. The one exception is real.  A signal approved before the kill switch and submitted
  after it is entered in the order table and placed at the exchange, although the breaker is halted
  and the audit line of the kill switch says that new entries are; nothing looks at the breaker
  again between the approval and the order.
\<close>

theorem signal_outruns_kill_switch:
  fixes c :: nat and env env2 :: live_env
  assumes "bn_client (lv_bn (bt_live (sp_bot st))) \<noteq> None" "incoming_command (bg_bridge g) raw = Some ''kill_switch''"
    and "sp_signal st = Some (oid, sg)"
  defines "killed \<equiv> split_step g (Turn (TabSends env c raw)) st"
  assumes "bn_ensure_symbol_ready (bg_api g) (sg_symbol sg) (lc_leverage (bg_live g)) (lc_margin_type (bg_live g))
      (lv_bn (bt_live (sp_bot killed))) = (Inr filt, bn)"
  defines "lv1 \<equiv> bt_live (sp_bot (split_step g (SignalEntered env2) killed))"
  shows "cb_halted (re_breaker (lv_re lv1))
    \<and> (\<exists>mo. om_get_order (lv_om lv1) oid = Some mo \<and> mo_status mo = SUBMITTED \<and> mo_symbol mo = sg_symbol sg \<and> mo_qty mo = \<bar>sg_qty sg\<bar>)
    \<and> lv_bn lv1 = snd (bn_place_order (bg_api g) (le_now env2) (om_request oid sg) bn)"
proof -
  let ?lv = "bt_live (sp_bot killed)"
  have halted: "live_halted (cb_date (re_breaker (lv_re (bt_live (sp_bot st))))) ?lv"
    using bot_kill_shut [OF assms(1,2)] by (simp add: killed_def bot_shut_def)
  have lv1: "lv1 = snd (live_submit (bg_api g) env2 oid sg (lv_last ?lv (sg_symbol sg)) (?lv\<lparr>lv_bn := bn\<rparr>))"
    using assms(3,5) by (simp add: lv1_def killed_def live_signal_enter_def lv_broker_def)
  have "cb_halted (re_breaker (lv_re lv1))"
    using halted unfolding lv1 by (simp add: live_halted_def)
  moreover have "om_get_order (lv_om lv1) oid =
      Some ((om_new_order oid (le_now env2) sg (lv_last ?lv (sg_symbol sg)))\<lparr>mo_status := SUBMITTED\<rparr>)
    \<and> lv_bn lv1 = snd (bn_place_order (bg_api g) (le_now env2) (om_request oid sg) bn)"
    unfolding lv1
    by (auto simp: live_submit_def lv_orders_def om_submit_def bn_venue_def om_get_order_def Let_def split: prod.split sum.split)
  ultimately show ?thesis by (simp add: om_new_order_def)
qed

section \<open>A race\<close>

text \<open>A signal is approved, the operator hits the kill switch, the request to the exchange returns.\<close>

definition racing_start :: "(string \<times> cancel_ref) list split_bot" where
  "racing_start = \<lparr>sp_bot = bot_init (sample_wired\<lparr>lv_re := armed_engine\<rparr>), sp_signal = None\<rparr>"

definition racing_bot :: "(string \<times> cancel_ref) list split_bot" where
  "racing_bot = split_step sample_bot_cfg (SignalChecked sample_live_env ''o'' armed_signal) racing_start"

lemma armed_check:
  assumes "lv_bn lv = sample_live_broker" "lv_re lv = armed_engine"
  shows "fst (live_signal_check sample_api sample_live_env armed_signal lv) = Inr True
    \<and> lv_bn (snd (live_signal_check sample_api sample_live_env armed_signal lv)) = sample_live_broker
    \<and> lv_om (snd (live_signal_check sample_api sample_live_env armed_signal lv)) = lv_om lv
    \<and> cb_date (re_breaker (lv_re (snd (live_signal_check sample_api sample_live_env armed_signal lv)))) = 0"
proof -
  obtain res re where chk: "re_check_order armed_signal armed_view 0 armed_engine = (res, re)"
    by (cases "re_check_order armed_signal armed_view 0 armed_engine")
  then have res: "rr_passed res" "re_breaker re = re_breaker armed_engine"
    using armed_passes re_check_order_state(1) [of armed_signal armed_view 0 armed_engine] by simp_all
  have quiet: "quiet_net (le_dash sample_live_env)"
    by (simp add: quiet_net_def sample_live_env_def sample_dash_env_def)
  have mono: "le_mono sample_live_env = 0" by (simp add: sample_live_env_def)
  have date: "cb_date (re_breaker armed_engine) = 0" by (simp add: armed_engine_def sample_engine_def re_init_def)
  let ?audit = "live_audit sample_live_env ''risk'' ''risk_engine'' [Lit ''pre-trade checks passed''] (lv\<lparr>lv_re := re\<rparr>)"
  have "live_signal_check sample_api sample_live_env armed_signal lv = (Inr True, snd ?audit)"
    using res(1) by (simp add: live_signal_check_def armed_account [OF assms(1)] mono assms(2) chk Let_def
        on_ok_Inr [OF live_audit_quiet [OF quiet]])
  with res(2) date assms(1) show ?thesis by simp
qed

lemma racing_bot_ok:
  "bn_client (lv_bn (bt_live (sp_bot racing_bot))) \<noteq> None" "sp_signal racing_bot = Some (''o'', armed_signal)"
  "incoming_command (bg_bridge sample_bot_cfg) (sample_command ''kill_switch'') = Some ''kill_switch''"
  "lv_bn (bt_live (sp_bot racing_bot)) = sample_live_broker" "lv_om (bt_live (sp_bot racing_bot)) = om_init"
  "cb_date (re_breaker (lv_re (bt_live (sp_bot racing_bot)))) = 0"
proof -
  let ?lv = "sample_wired\<lparr>lv_re := armed_engine\<rparr>"
  have wired: "lv_bn ?lv = sample_live_broker" "lv_re ?lv = armed_engine" "lv_om ?lv = om_init"
    by (simp_all add: sample_wired_def sample_live_def)
  obtain r lv where check: "live_signal_check sample_api sample_live_env armed_signal ?lv = (r, lv)"
    by (cases "live_signal_check sample_api sample_live_env armed_signal ?lv")
  then have lv: "r = Inr True" "lv_bn lv = sample_live_broker" "lv_om lv = om_init" "cb_date (re_breaker (lv_re lv)) = 0"
    using armed_check [OF wired(1,2)] wired(3) by simp_all
  have bot: "racing_bot = \<lparr>sp_bot = (bot_init ?lv)\<lparr>bt_live := lv\<rparr>, sp_signal = Some (''o'', armed_signal)\<rparr>"
    using check lv(1) by (simp add: racing_bot_def racing_start_def bot_init_def sample_bot_cfg_def)
  show "bn_client (lv_bn (bt_live (sp_bot racing_bot))) \<noteq> None" "sp_signal racing_bot = Some (''o'', armed_signal)"
    "lv_bn (bt_live (sp_bot racing_bot)) = sample_live_broker" "lv_om (bt_live (sp_bot racing_bot)) = om_init"
    "cb_date (re_breaker (lv_re (bt_live (sp_bot racing_bot)))) = 0"
    using lv by (simp_all add: bot sample_live_broker_def)
  show "incoming_command (bg_bridge sample_bot_cfg) (sample_command ''kill_switch'') = Some ''kill_switch''"
    by (simp add: sample_bot_cfg_def sample_bridge_cfg_def sample_command_def db_commands_def)
qed

theorem kill_switch_stops_all_but_one_witness:
  "orders_of (sp_bot (fold (split_step sample_bot_cfg)
      [SignalEntered sample_live_env, SignalChecked sample_live_env ''p'' armed_signal, Turn (MonitorRound sample_live_env),
       SignalEntered sample_live_env]
      (split_step sample_bot_cfg (Turn (TabSends sample_live_env 1 (sample_command ''kill_switch''))) racing_bot))) \<subseteq> {''o''}"
proof -
  let ?ops = "[SignalEntered sample_live_env, SignalChecked sample_live_env ''p'' armed_signal, Turn (MonitorRound sample_live_env),
       SignalEntered sample_live_env] :: (string \<times> cancel_ref) list split_op list"
  have "\<forall>oper \<in> set ?ops. split_op_quiet sample_bot_cfg (cb_date (re_breaker (lv_re (bt_live (sp_bot racing_bot))))) oper"
    by (simp add: sample_live_env_def date_of_def racing_bot_ok(6))
  from kill_switch_stops_all_but_one [OF racing_bot_ok(1,3) this, of sample_live_env 1]
  have "orders_of (sp_bot (fold (split_step sample_bot_cfg) ?ops
      (split_step sample_bot_cfg (Turn (TabSends sample_live_env 1 (sample_command ''kill_switch''))) racing_bot)))
    \<subseteq> orders_of (sp_bot racing_bot) \<union> in_flight racing_bot \<union> \<Union> (set (map (split_op_ids sample_bot_cfg) ?ops))"
    by blast
  also have "\<dots> = {''o''}"
    by (simp add: orders_of_def in_flight_def racing_bot_ok(2,5) om_init_def dkeys_def)
  finally show ?thesis .
qed

lemma kill_broker:
  assumes "bn_client (lv_bn (bt_live bt)) \<noteq> None" "incoming_command (bg_bridge g) raw = Some ''kill_switch''"
  shows "lv_bn (bt_live (bot_step g (TabSends env c raw) bt)) = snd (bn_cancel_all (bg_api g) (lv_bn (bt_live bt)))"
proof -
  obtain b where b: "snd (live_incoming (bg_api g) (bg_bridge g) env raw (bt_live bt)) =
      (snd (live_engage_kill_switch (bg_api g) env (bt_live bt)))\<lparr>lv_db := b\<rparr>"
    using live_incoming_command [OF assms(2), of "bg_api g" env "bt_live bt"] by (auto simp: live_command_def)
  then show ?thesis
    using live_engage_effect(4) [OF assms(1), of "bg_api g" env]
    by (cases "live_incoming (bg_api g) (bg_bridge g) env raw (bt_live bt)") (simp add: bot_incoming_def)
qed

theorem signal_outruns_kill_switch_witness:
  "\<exists>mo. om_get_order (lv_om (bt_live (sp_bot (split_step sample_bot_cfg (SignalEntered sample_live_env)
      (split_step sample_bot_cfg (Turn (TabSends sample_live_env 1 (sample_command ''kill_switch''))) racing_bot))))) ''o'' = Some mo
    \<and> mo_status mo = SUBMITTED \<and> mo_symbol mo = ''BTCUSDT'' \<and> mo_qty mo = 2"
proof -
  let ?killed = "split_step sample_bot_cfg (Turn (TabSends sample_live_env 1 (sample_command ''kill_switch''))) racing_bot"
  have bn: "lv_bn (bt_live (sp_bot ?killed)) = sample_live_broker"
    using kill_broker [OF racing_bot_ok(1,3), of sample_live_env 1]
    by (simp add: bn_cancel_all_def racing_bot_ok(4) sample_bot_cfg_def) (simp add: sample_live_broker_def bn_init_def)
  have "fst (bn_ensure_symbol_ready sample_api ''BTCUSDT'' 15 ''CROSSED'' sample_live_broker) = Inr sample_filters"
    by (simp add: bn_ensure_symbol_ready_def bn_configure_leverage_and_margin_def bn_call_def sample_live_broker_def
        sample_api_def bn_init_def bn_mark_configured_def Let_def)
  then obtain bn1 where "bn_ensure_symbol_ready (bg_api sample_bot_cfg) (sg_symbol armed_signal) (lc_leverage (bg_live sample_bot_cfg))
      (lc_margin_type (bg_live sample_bot_cfg)) (lv_bn (bt_live (sp_bot ?killed))) = (Inr sample_filters, bn1)"
    unfolding bn
    by (cases "bn_ensure_symbol_ready sample_api ''BTCUSDT'' 15 ''CROSSED'' sample_live_broker")
      (simp add: armed_signal_def sample_signal_def sample_bot_cfg_def sample_live_cfg_def)
  from signal_outruns_kill_switch [OF racing_bot_ok(1,3,2) this, of sample_live_env] show ?thesis
    by (auto simp: armed_signal_def sample_signal_def)
qed

end
