(* ===== verification/Live_Shutdown.thy ===== *)
theory Live_Shutdown
  imports Live_Invariant
begin

text \<open>
  The end of \<^verbatim>\<open>scripts/run_live_binance_scanner.py\<close>: the components are stopped one after the other, and
  wherever a stop awaits something the tasks that are not yet cancelled go on taking turns.  The
  order manager awaits the end of its cancelled task, the dashboard the end of its connections, and the bus
  that every queued event is done; the position monitor and the feed only cancel theirs.
\<close>

section \<open>The sequence\<close>

definition bot_cancel :: "task list \<Rightarrow> 'c bot \<Rightarrow> 'c bot" where
  "bot_cancel ts bt = bt\<lparr>bt_alive := (\<lambda>t. bt_alive bt t \<and> t \<notin> set ts)\<rparr>"

text \<open>
  Up to the stop of the bus: \<open>ops1\<close> are the turns taken while the order manager's stop awaits,
  \<open>ops2\<close> those while the dashboard closes its server and every connection with it.
\<close>

definition bot_stop_tasks :: "'c bot_cfg \<Rightarrow> 'c bot_op list \<Rightarrow> 'c bot_op list \<Rightarrow> 'c bot \<Rightarrow> 'c bot" where
  "bot_stop_tasks g ops1 ops2 bt =
     (let bt1 = fold (bot_step g) ops1 (bot_cancel [ConsumeTask] bt);
          bt2 = bot_cancel [PollTask] bt1;
          bt3 = bot_live (\<lambda>lv. lv\<lparr>lv_feed := uf_stop (lv_feed lv)\<rparr>) (bot_cancel [FeedTask] bt2);
          bt4 = fold (bot_step g) ops2 (bot_cancel [KpiTask] bt3)
      in bot_live (\<lambda>lv. lv\<lparr>lv_db := (lv_db lv)\<lparr>db_clients := []\<rparr>\<rparr>) bt4)"

text \<open>\<^verbatim>\<open>queue.join()\<close>, over the turns of the tasks that are left; \<open>None\<close>: it has not returned after them.\<close>

fun bot_join :: "'c bot_cfg \<Rightarrow> 'c bot_op list \<Rightarrow> 'c bot \<Rightarrow> 'c bot option" where
  "bot_join g [] bt = (if eb_joined (lv_bus (bt_live bt)) then Some bt else None)"
| "bot_join g (oper # ops) bt =
     (if eb_joined (lv_bus (bt_live bt)) then Some bt else bot_join g ops (bot_step g oper bt))"

definition bot_shutdown ::
  "'c bot_cfg \<Rightarrow> 'c bot_op list \<Rightarrow> 'c bot_op list \<Rightarrow> 'c bot_op list \<Rightarrow> 'c bot \<Rightarrow> (unit result \<times> 'c bot) option" where
  "bot_shutdown g ops1 ops2 ops3 bt =
     (case bot_join g ops3 (bot_live (\<lambda>lv. lv\<lparr>lv_bus := eb_stop_request (lv_bus lv)\<rparr>) (bot_stop_tasks g ops1 ops2 bt)) of
        None \<Rightarrow> None
      | Some bt1 \<Rightarrow>
          (let bt2 = bot_live (\<lambda>lv. lv\<lparr>lv_bus := (lv_bus lv)\<lparr>eb_pc := LoopExited\<rparr>\<rparr>) bt1 in
           Some (on_ok (case bn_disconnect (bg_api g) (lv_bn (bt_live bt2)) of
                          (r, bn) \<Rightarrow> (r, bot_live (\<lambda>lv. lv\<lparr>lv_bn := bn\<rparr>) bt2))
             (\<lambda>_ bt3. (Inr (), bt3\<lparr>bt_store_open := False\<rparr>)))))"

section \<open>Who still feeds the bus\<close>

abbreviation bot_bus :: "'c bot \<Rightarrow> live_handler_id bus" where
  "bot_bus bt \<equiv> lv_bus (bt_live bt)"

definition bot_unfed :: "'c bot \<Rightarrow> bool" where
  "bot_unfed bt \<longleftrightarrow> \<not> bt_alive bt ConsumeTask \<and> \<not> bt_alive bt FeedTask"

lemma bot_step_alive [simp]: "bt_alive (bot_step g oper bt) = bt_alive bt"
  by (cases oper)
    (simp_all add: bot_dispatch_def bot_consume_def bot_user_socket_def bot_mark_socket_def bot_incoming_def
      split: option.split prod.split)

lemma bot_run_alive [simp]: "bt_alive (fold (bot_step g) ops bt) = bt_alive bt"
  by (induction ops arbitrary: bt) simp_all

lemma bot_unfed_run [simp]: "bot_unfed (fold (bot_step g) ops bt) = bot_unfed bt"
  "bot_unfed (bot_step g oper bt) = bot_unfed bt"
  by (simp_all add: bot_unfed_def)

text \<open>With the order manager and the feed stopped, only the dispatcher touches the bus.\<close>

lemma live_rest_bus_eq: "live_rest lv1 = live_rest lv \<Longrightarrow> lv_bus lv1 = lv_bus lv"
  by (simp add: live_rest_def)

lemma live_rest_incoming [simp]: "live_rest (snd (live_incoming api bcfg env raw lv)) = live_rest lv"
  by (rule live_incoming_keeps [where P = "\<lambda>lv1. live_rest lv1 = live_rest lv"]) simp_all

lemma bot_step_bus:
  assumes "bot_unfed bt" "\<not> is_dispatch oper"
  shows "bot_bus (bot_step g oper bt) = bot_bus bt"
proof (cases oper)
  case (TabSends env c raw)
  show ?thesis
    using live_rest_bus_eq [OF live_rest_incoming [of "bg_api g" "bg_bridge g" env raw "bt_live bt"]]
    by (cases "live_incoming (bg_api g) (bg_bridge g) env raw (bt_live bt)") (simp add: TabSends bot_incoming_def)
qed (use assms in \<open>auto simp: bot_unfed_def bot_user_socket_def live_kpi_round_def intro: live_rest_bus_eq
      split: prod.split\<close>)

lemma bot_dispatch_bus:
  "eb_loop_step (live_run (bg_api g) (bg_live g) (bg_bridge g) envs) (bot_bus bt, bt_live bt) = Some (b, lv) \<Longrightarrow>
     bot_bus (bot_step g (Dispatch envs) bt) = b"
  "eb_loop_step (live_run (bg_api g) (bg_live g) (bg_bridge g) envs) (bot_bus bt, bt_live bt) = None \<Longrightarrow>
     bot_step g (Dispatch envs) bt = bt"
  by (simp_all add: bot_dispatch_def)

section \<open>The dispatcher empties an unfed bus\<close>

definition bus_measure :: "'h bus \<Rightarrow> nat multiset \<times> nat" where
  "bus_measure b = (mset (map event_rank (aq_items (eb_queue b))), if eb_pc b = LoopTest then 1 else 0)"

abbreviation bus_less :: "((nat multiset \<times> nat) \<times> nat multiset \<times> nat) set" where
  "bus_less \<equiv> mult less_than <*lex*> less_than"

text \<open>A turn of the dispatcher on a bus with events: the loop's test, or an event replaced by lower ones.\<close>

lemma bot_dispatch_less:
  assumes "eb_inv (bot_bus bt)" "eb_running (bot_bus bt)" "eb_pc (bot_bus bt) \<noteq> LoopExited" "is_dispatch oper"
    and "aq_items (eb_queue (bot_bus bt)) \<noteq> []"
  shows "(bus_measure (bot_bus (bot_step g oper bt)), bus_measure (bot_bus bt)) \<in> bus_less"
proof -
  obtain envs where oper: "oper = Dispatch envs" using assms(4) by (cases oper) simp_all
  let ?run = "live_run (bg_api g) (bg_live g) (bg_bridge g) envs" and ?b = "bot_bus bt"
  obtain e es where items: "aq_items (eb_queue ?b) = e # es" using assms(5) by (cases "aq_items (eb_queue ?b)") auto
  show ?thesis
  proof (cases "eb_pc ?b")
    case LoopTest
    have "bot_bus (bot_step g oper bt) = ?b\<lparr>eb_pc := LoopGet\<rparr>"
      using bot_dispatch_bus(1) [of g envs bt] eb_step_test [OF LoopTest, of ?run "bt_live bt"] assms(2) by (simp add: oper)
    with LoopTest show ?thesis by (simp add: bus_measure_def)
  next
    case LoopGet
    obtain b1 w1 fs where step: "eb_loop_step ?run (?b, bt_live bt) = Some (b1, w1)"
      and b1: "aq_items (eb_queue b1) = es @ fs"
      and fs: "subseq fs (handlers_publish ?run (eb_targets ?b e) e (bt_live bt))"
      by (rule eb_step_get [OF assms(1) LoopGet items, of ?run "bt_live bt"]) blast
    have "event_rank p < event_rank e" if p: "p \<in> set fs" for p
    proof -
      have "p \<in> set (handlers_publish ?run (eb_targets ?b e) e (bt_live bt))"
        by (rule list_emb_set [OF fs p]) simp
      then show ?thesis by (rule stratified_publish [OF live_run_stratified])
    qed
    then have "(mset (map event_rank es) + mset (map event_rank fs), mset (map event_rank es) + {#event_rank e#}) \<in> mult less_than"
      by (intro one_step_implies_mult) auto
    then have "(mset (map event_rank (es @ fs)), mset (map event_rank (e # es))) \<in> mult less_than" by simp
    moreover have "bot_bus (bot_step g oper bt) = b1" unfolding oper by (rule bot_dispatch_bus(1) [OF step])
    ultimately show ?thesis unfolding bus_measure_def in_lex_prod items b1 by (simp only: b1 simp_thms)
  qed (use assms(3) in simp)
qed

lemma bot_step_empty:
  assumes "eb_inv (bot_bus bt)" "bot_unfed bt" "aq_items (eb_queue (bot_bus bt)) = []"
  shows "aq_items (eb_queue (bot_bus (bot_step g oper bt))) = []"
proof (cases "is_dispatch oper")
  case True
  then obtain envs where oper: "oper = Dispatch envs" by (cases oper) simp_all
  let ?run = "live_run (bg_api g) (bg_live g) (bg_bridge g) envs"
  show ?thesis
    using bot_dispatch_bus [of g envs bt] eb_step_test [of "bot_bus bt" ?run "bt_live bt"]
      eb_step_idle [of "bot_bus bt" ?run "bt_live bt"] eb_step_exited [of "bot_bus bt" ?run "bt_live bt"] assms(3)
    by (cases "eb_pc (bot_bus bt)") (auto simp: oper)
next
  case False
  with assms(3) show ?thesis by (simp add: bot_step_bus [OF assms(2) False])
qed

text \<open>The states along an endless series of turns.\<close>

abbreviation bot_after :: "'c bot_cfg \<Rightarrow> (nat \<Rightarrow> 'c bot_op) \<Rightarrow> 'c bot \<Rightarrow> nat \<Rightarrow> 'c bot" where
  "bot_after g turns bt n \<equiv> fold (bot_step g) (map turns [0..<n]) bt"

lemma bot_after_Suc: "bot_after g turns bt (Suc n) = bot_step g (turns n) (bot_after g turns bt n)"
  by simp

lemma bot_run_sound: "bot_sound g bt \<Longrightarrow> bot_sound g (fold (bot_step g) ops bt)"
  by (induction ops arbitrary: bt) (simp_all add: bot_step_sound)

lemma bot_sound_bus:
  "bot_sound g bt \<Longrightarrow> eb_inv (bot_bus bt) \<and> eb_running (bot_bus bt) \<and> eb_pc (bot_bus bt) \<noteq> LoopExited"
  by (simp add: bot_sound_def bus_sound_def)

lemma bot_turns_drain:
  assumes "bot_sound g bt" "bot_unfed bt" "\<forall>k. \<exists>j \<ge> k. is_dispatch (turns j)"
  shows "\<exists>n \<ge> k. aq_items (eb_queue (bot_bus (bot_after g turns bt n))) = []"
proof (induction "bus_measure (bot_bus (bot_after g turns bt k))" arbitrary: k
    rule: wf_induct_rule [where r = bus_less, OF wf_lex_prod [OF wf_mult [OF wf_less_than] wf_less_than]])
  case 1
  let ?st = "bot_after g turns bt"
  define j where "j = (LEAST j. k \<le> j \<and> is_dispatch (turns j))"
  obtain j0 where "k \<le> j0 \<and> is_dispatch (turns j0)" using assms(3) by (meson order_refl)
  then have "k \<le> j \<and> is_dispatch (turns j)" unfolding j_def by (rule LeastI)
  then have j: "k \<le> j" "is_dispatch (turns j)" by simp_all
  have "bot_bus (?st i) = bot_bus (?st k)" if "k \<le> i" "i \<le> j" for i
    using that
  proof (induction i)
    case 0
    then show ?case by simp
  next
    case (Suc i)
    show ?case
    proof (cases "Suc i = k")
      case False
      with Suc.prems have i: "k \<le> i" "i < j" by simp_all
      then have "\<not> is_dispatch (turns i)" unfolding j_def using not_less_Least by blast
      then have "bot_bus (?st (Suc i)) = bot_bus (?st i)"
        unfolding bot_after_Suc using assms(2) by (intro bot_step_bus) simp_all
      with Suc.IH i show ?thesis by simp
    qed simp
  qed
  from this [of j] j have same: "bot_bus (?st j) = bot_bus (?st k)" by simp
  show ?case
  proof (cases "aq_items (eb_queue (bot_bus (?st j))) = []")
    case True
    with j(1) show ?thesis by blast
  next
    case False
    have "bot_sound g (?st j)" by (rule bot_run_sound [OF assms(1)])
    then have "(bus_measure (bot_bus (?st (Suc j))), bus_measure (bot_bus (?st j))) \<in> bus_less"
      unfolding bot_after_Suc using j(2) False by (intro bot_dispatch_less) (auto dest: bot_sound_bus)
    then have "(bus_measure (bot_bus (?st (Suc j))), bus_measure (bot_bus (?st k))) \<in> bus_less" by (simp add: same)
    from "1.hyps" [OF this] j(1) show ?thesis by (meson Suc_leD order_trans)
  qed
qed

lemma bot_stays_empty:
  assumes "bot_sound g bt" "bot_unfed bt" "n \<le> m" "aq_items (eb_queue (bot_bus (bot_after g turns bt n))) = []"
  shows "aq_items (eb_queue (bot_bus (bot_after g turns bt m))) = []"
  using assms(3)
proof (induction m rule: dec_induct)
  case base
  show ?case by (rule assms(4))
next
  case (step m)
  have "bot_sound g (bot_after g turns bt m)" by (rule bot_run_sound [OF assms(1)])
  with step.IH assms(2) show ?case
    unfolding bot_after_Suc by (intro bot_step_empty) (auto dest: bot_sound_bus)
qed

section \<open>A loop told to stop\<close>

text \<open>Two events on the bus, or one when the loop is not waiting for it: one at least is never done.\<close>

definition bus_stuck :: "'h bus \<Rightarrow> bool" where
  "bus_stuck b \<longleftrightarrow> eb_inv b \<and> \<not> eb_running b \<and> aq_items (eb_queue b) \<noteq> []
     \<and> (eb_pc b = LoopGet \<longrightarrow> 2 \<le> eb_queue_depth b)"

lemma bus_stuck_step:
  assumes "bus_stuck (bot_bus bt)" "bot_unfed bt"
  shows "bus_stuck (bot_bus (bot_step g oper bt))"
proof (cases "is_dispatch oper")
  case True
  then obtain envs where oper: "oper = Dispatch envs" by (cases oper) simp_all
  let ?run = "live_run (bg_api g) (bg_live g) (bg_bridge g) envs" and ?b = "bot_bus bt"
  have inv: "eb_inv ?b" "\<not> eb_running ?b" using assms(1) by (simp_all add: bus_stuck_def)
  show ?thesis
  proof (cases "eb_pc ?b")
    case LoopTest
    have "bot_bus (bot_step g oper bt) = ?b\<lparr>eb_pc := LoopExited\<rparr>"
      using bot_dispatch_bus(1) [of g envs bt] eb_step_test [OF LoopTest, of ?run "bt_live bt"] inv(2) by (simp add: oper)
    with assms(1) show ?thesis by (simp add: bus_stuck_def eb_inv_def)
  next
    case LoopGet
    with assms(1) obtain e es where items: "aq_items (eb_queue ?b) = e # es"
      by (cases "aq_items (eb_queue ?b)") (simp_all add: bus_stuck_def)
    have es: "es \<noteq> []" using assms(1) LoopGet items by (auto simp: bus_stuck_def eb_queue_depth_def)
    obtain b1 w1 fs where step: "eb_loop_step ?run (?b, bt_live bt) = Some (b1, w1)"
      and b1: "aq_items (eb_queue b1) = es @ fs" "eb_pc b1 = LoopTest" "eb_running b1 = eb_running ?b" "eb_inv b1"
      by (rule eb_step_get [OF inv(1) LoopGet items, of ?run "bt_live bt"]) blast
    have "bot_bus (bot_step g oper bt) = b1" using bot_dispatch_bus(1) [OF step] by (simp add: oper)
    with b1 es inv show ?thesis by (simp add: bus_stuck_def)
  next
    case LoopExited
    then have "bot_step g oper bt = bt" unfolding oper by (intro bot_dispatch_bus(2)) simp
    with assms(1) show ?thesis by simp
  qed
next
  case False
  with assms(1) show ?thesis by (simp add: bot_step_bus [OF assms(2) False])
qed

lemma bot_join_stuck:
  assumes "bus_stuck (bot_bus bt)" "bot_unfed bt"
  shows "bot_join g ops bt = None"
  using assms
proof (induction ops arbitrary: bt)
  case Nil
  then show ?case by (simp add: bus_stuck_def eb_joined_def eb_inv_def)
next
  case (Cons oper ops)
  then have "\<not> eb_joined (bot_bus bt)" by (simp add: bus_stuck_def eb_joined_def eb_inv_def)
  moreover have "bot_join g ops (bot_step g oper bt) = None"
    using Cons.prems by (intro Cons.IH bus_stuck_step) simp_all
  ultimately show ?case by simp
qed

lemma bot_join_done: "eb_joined (bot_bus bt) \<Longrightarrow> bot_join g ops bt = Some bt"
  by (cases ops) simp_all

section \<open>When the shutdown ends\<close>

lemma bot_sound_kept [simp]:
  "bot_sound g (bot_cancel ts bt) = bot_sound g bt"
  "bot_sound g (bot_live (\<lambda>lv. lv\<lparr>lv_feed := uf_stop (lv_feed lv)\<rparr>) bt) = bot_sound g bt"
  "bot_sound g (bot_live (\<lambda>lv. lv\<lparr>lv_db := (lv_db lv)\<lparr>db_clients := []\<rparr>\<rparr>) bt) = bot_sound g bt"
  by (simp_all add: bot_sound_def live_good_def bot_cancel_def)

text \<open>The state the second series of turns starts from.\<close>

definition bot_closing :: "'c bot_cfg \<Rightarrow> 'c bot_op list \<Rightarrow> 'c bot \<Rightarrow> 'c bot" where
  "bot_closing g ops1 bt = bot_cancel [KpiTask] (bot_live (\<lambda>lv. lv\<lparr>lv_feed := uf_stop (lv_feed lv)\<rparr>)
     (bot_cancel [FeedTask] (bot_cancel [PollTask] (fold (bot_step g) ops1 (bot_cancel [ConsumeTask] bt)))))"

lemma bot_stop_tasks_closing:
  "bot_stop_tasks g ops1 ops2 bt =
     bot_live (\<lambda>lv. lv\<lparr>lv_db := (lv_db lv)\<lparr>db_clients := []\<rparr>\<rparr>) (fold (bot_step g) ops2 (bot_closing g ops1 bt))"
  by (simp add: bot_stop_tasks_def bot_closing_def Let_def)

lemma bot_closing_sound:
  assumes "bot_sound g bt"
  shows "bot_sound g (bot_closing g ops1 bt)" "bot_unfed (bot_closing g ops1 bt)"
  using assms by (simp_all add: bot_closing_def bot_run_sound bot_unfed_def) (simp add: bot_cancel_def)

lemma bot_stop_tasks_bus [simp]:
  "bot_bus (bot_stop_tasks g ops1 ops2 bt) = bot_bus (fold (bot_step g) ops2 (bot_closing g ops1 bt))"
  by (simp add: bot_stop_tasks_closing)

lemma bot_shutdown_done:
  assumes "eb_inv (bot_bus (bot_stop_tasks g ops1 ops2 bt))" "eb_queue_depth (bot_bus (bot_stop_tasks g ops1 ops2 bt)) = 0"
  shows "\<exists>r bt1. bot_shutdown g ops1 ops2 ops3 bt = Some (r, bt1) \<and> \<not> bn_connected (lv_bn (bt_live bt1))
    \<and> (ok r \<longrightarrow> \<not> bt_store_open bt1)"
proof -
  let ?bt = "bot_live (\<lambda>lv. lv\<lparr>lv_bus := eb_stop_request (lv_bus lv)\<rparr>) (bot_stop_tasks g ops1 ops2 bt)"
  have "eb_joined (bot_bus ?bt)"
    using assms by (simp add: eb_joined_def eb_inv_def eb_queue_depth_def eb_stop_request_def del: bot_stop_tasks_bus)
  then have join: "bot_join g ops3 ?bt = Some ?bt" by (rule bot_join_done)
  obtain r bn where dis: "bn_disconnect (bg_api g) (lv_bn (bt_live ?bt)) = (r, bn)"
    by (cases "bn_disconnect (bg_api g) (lv_bn (bt_live ?bt))")
  then have "\<not> bn_connected bn"
    by (auto simp: bn_disconnect_def bn_call_def Let_def split: if_splits option.splits prod.splits)
  with join dis show ?thesis by (cases r) (simp_all add: bot_shutdown_def Let_def)
qed

text \<open>
  Property C36. When the shutdown of the script ends, whatever the running bot was doing.  The stop of the
  bus ends it, with the broker disconnected and, unless that raises, the store closed, if the bus is empty
  when it is reached.  It is reached with an empty bus whenever the dispatcher goes on taking turns, among
  any others, while the dashboard closes and that lasts long enough: the order manager and the feed are
  stopped by then and every event sets off only lower ones.  But if two events are still there, counting the
  one whose handlers are at work, the stop of the bus never ends, whatever turns follow.
\<close>

theorem bot_shutdown_ends_once_drained:
  fixes g :: "'c bot_cfg" and bt :: "'c bot" and ops1 :: "'c bot_op list"
  assumes "bot_reach api s g bt"
  defines "depth \<equiv> \<lambda>ops2. eb_queue_depth (lv_bus (bt_live (bot_stop_tasks g ops1 ops2 bt)))"
  shows "(depth ops2 = 0 \<longrightarrow>
      (\<exists>r bt1. bot_shutdown g ops1 ops2 ops3 bt = Some (r, bt1) \<and> \<not> bn_connected (lv_bn (bt_live bt1))
        \<and> (ok r \<longrightarrow> \<not> bt_store_open bt1)))
    \<and> ((\<forall>k. \<exists>j \<ge> k. is_dispatch (turns j)) \<longrightarrow> (\<exists>n. \<forall>m \<ge> n. depth (map turns [0..<m]) = 0))
    \<and> (2 \<le> depth ops2 \<longrightarrow> bot_shutdown g ops1 ops2 ops3 bt = None)"
proof -
  let ?bt0 = "bot_closing g ops1 bt"
  note start = bot_closing_sound [OF bot_reach_sound [OF assms(1)], of ops1]
  have sound: "bot_sound g (fold (bot_step g) ops2 ?bt0)" for ops2 by (rule bot_run_sound [OF start(1)])
  have "depth ops2 = 0 \<longrightarrow> (\<exists>r bt1. bot_shutdown g ops1 ops2 ops3 bt = Some (r, bt1)
      \<and> \<not> bn_connected (lv_bn (bt_live bt1)) \<and> (ok r \<longrightarrow> \<not> bt_store_open bt1))"
    unfolding depth_def using bot_sound_bus [OF sound, of ops2] by (intro impI bot_shutdown_done) simp_all
  moreover have "\<exists>n. \<forall>m \<ge> n. depth (map turns [0..<m]) = 0" if fair: "\<forall>k. \<exists>j \<ge> k. is_dispatch (turns j)"
  proof -
    obtain n where "aq_items (eb_queue (bot_bus (bot_after g turns ?bt0 n))) = []"
      using bot_turns_drain [OF start fair] by blast
    with bot_stays_empty [OF start] show ?thesis
      unfolding depth_def eb_queue_depth_def bot_stop_tasks_bus by (metis list.size(3))
  qed
  moreover have "bot_shutdown g ops1 ops2 ops3 bt = None" if "2 \<le> depth ops2"
  proof -
    let ?bt = "bot_live (\<lambda>lv. lv\<lparr>lv_bus := eb_stop_request (lv_bus lv)\<rparr>) (bot_stop_tasks g ops1 ops2 bt)"
    have "bus_stuck (bot_bus ?bt)"
      using that bot_sound_bus [OF sound, of ops2]
      by (auto simp: bus_stuck_def eb_stop_request_def eb_inv_def eb_queue_depth_def depth_def)
    moreover have "bot_unfed ?bt" using start(2) by (simp add: bot_stop_tasks_closing bot_unfed_def)
    ultimately have "bot_join g ops3 ?bt = None" by (rule bot_join_stuck)
    then show ?thesis by (simp add: bot_shutdown_def)
  qed
  ultimately show ?thesis by blast
qed

text \<open>
  Two prices arrive and the operator stops the bot.  If the dispatcher, inside a handler that awaits the
  exchange, gets no turn before the bus is stopped, the shutdown hangs; given the turns it ends.
\<close>

theorem bot_shutdown_ends_once_drained_witness:
  "\<exists>g bt. bot_reach sample_api sample_settings g bt \<and> bot_shutdown g [] [] [] bt = None
    \<and> (\<exists>ops2 r bt1. bot_shutdown g [] ops2 [] bt = Some (r, bt1) \<and> \<not> bn_connected (lv_bn (bt_live bt1)))"
proof -
  obtain lv cfg bcfg where start: "live_start sample_api sample_settings sample_start = Some (Inr (lv, cfg, bcfg))"
    by (rule sample_starts)
  let ?g = "bot_cfg_of sample_api sample_settings cfg bcfg"
  let ?msg = "FeedMsg 5 (Some [Some (''BTCUSDT'', 100, 1), Some (''ETHUSDT'', 10, 1)])"
  let ?turn = "Dispatch (\<lambda>_ _. sample_live_env)"
  let ?bt = "bot_step ?g (MarkSocket ?msg) (bot_step ?g (MarkSocket FeedOpened) (bot_init lv))"
  have reach: "bot_reach sample_api sample_settings ?g ?bt"
    by (intro bot_reach.step bot_reach.start [OF start])
  obtain universe re sr bn2 where lv: "lv = live_assemble sample_settings sample_start universe re sr bn2"
    using start by (rule live_start_cases) blast
  have bus: "lv_bus lv = live_wiring" "uf_connected (lv_feed lv)"
    by (simp_all add: lv live_assemble_def live_feed_def uf_start_def)
  have items: "aq_items (eb_queue live_wiring) = []" "aq_max (eb_queue live_wiring) = 100000"
    by (simp_all add: live_wiring_def eb_start_def eb_subscribe_def st_attach_def eb_subscribe_all_def eb_init_def aq_new_def)
  have depth: "2 \<le> eb_queue_depth (lv_bus (bt_live (bot_stop_tasks ?g [] [] ?bt)))"
    using bus(2) items
    by (simp add: bot_closing_def bot_cancel_def bot_mark_socket_def bot_init_def bot_live_def uf_stream_step_def
        uf_handle_message_def Let_def eb_publish_unfold aq_full_def eb_queue_depth_def uf_push_price_def uf_push_funding_def bus(1))
  have "bot_shutdown ?g [] [] [] ?bt = None"
    using bot_shutdown_ends_once_drained [OF reach, where ?ops1.0 = "[]" and ?ops2.0 = "[]" and ?ops3.0 = "[]"] depth by blast
  moreover obtain n where "\<forall>m \<ge> n. eb_queue_depth (lv_bus (bt_live (bot_stop_tasks ?g [] (map (\<lambda>_. ?turn) [0..<m]) ?bt))) = 0"
    using bot_shutdown_ends_once_drained [OF reach, where ?ops1.0 = "[]" and turns = "\<lambda>_. ?turn"]
    by (metis is_dispatch.simps(1) order_refl)
  then have "\<exists>r bt1. bot_shutdown ?g [] (map (\<lambda>_. ?turn) [0..<n]) [] ?bt = Some (r, bt1) \<and> \<not> bn_connected (lv_bn (bt_live bt1))"
    using bot_shutdown_ends_once_drained [OF reach, where ?ops1.0 = "[]" and ?ops2.0 = "map (\<lambda>_. ?turn) [0..<n]" and ?ops3.0 = "[]"]
    by (metis order_refl)
  ultimately show ?thesis using reach by blast
qed

end
