(* ===== verification/Spec2Isabelle.thy ===== *)
theory Spec2Isabelle
  imports Risk_Sizing Risk_Engine Trade_Tracker Scanner Market_Simulator Backtest_Engine State_Recovery
    IBKR_Broker IBKR_Feed Performance Dashboard Daily_Log Settings Live_Scanner Live_Startup
    Live_Bot Live_Invariant Live_Flatten Market_Store Backtest_Report
    Feature_Frames Live_Parity Live_Races Live_Shutdown
begin

text \<open>
  A verification development of the trading bot: a Python program that scans the perpetual
  futures of Binance for funding and price moves, checks every order against risk limits, places
  and follows orders, watches open positions, serves a dashboard, and can replay bars through the
  same components in a backtest.

  \<^bold>\<open>Parts and theories\<close> (paths are those of the source tree).

  \<^item> \<^verbatim>\<open>Bot_Prelude\<close>: exceptions as values (\<open>py_exn\<close>, \<open>'a result\<close>), sequencing of computations that
    may raise (\<open>and_then\<close>, \<open>on_ok\<close>), dictionaries as association lists in insertion order, times,
    dates, f-strings as lists of parts, JSON values, the lemma collections.
  \<^item> \<^verbatim>\<open>Interfaces\<close>: the contracts between components as locales: a latch that fires once (provided
    by the circuit breaker), an admission window that bounds a rate (by the rate limiter), a
    first-in first-out channel (by the queue of the event bus).  The locale of an order venue, in
    \<^verbatim>\<open>Order_Manager\<close>, is provided by the simulator and by both broker adapters.  The locale of a
    client of the bus, in \<^verbatim>\<open>Event_Bus\<close>, and that of the order desk, in \<^verbatim>\<open>Live_Bot\<close>, carry a property
    through the dispatcher and through everything that places orders; each is provided twice by the
    live script, for its halts and for the shape of its orders.  The locale of a ledger, in
    \<^verbatim>\<open>Market_Simulator\<close>, carries what fills keep through a run of the simulator; it is provided by the
    cash books and by the trade records.  The locale of a market data feed, in \<^verbatim>\<open>IBKR_Feed\<close>, states
    \<^verbatim>\<open>data/market_data_feed.py\<close> and is provided by its one implementation.
  \<^item> \<^verbatim>\<open>Events\<close>: \<^verbatim>\<open>core/enums.py\<close>, \<^verbatim>\<open>core/events.py\<close>.  \<^verbatim>\<open>Event_Bus\<close>: \<^verbatim>\<open>core/event_bus.py\<close>, the queue,
    the subscriptions, and the dispatcher loop as a step function.
  \<^item> \<^verbatim>\<open>Circuit_Breaker\<close>, \<^verbatim>\<open>Risk_Sizing\<close>, \<^verbatim>\<open>Risk_Engine\<close>: \<^verbatim>\<open>risk/circuit_breaker.py\<close>, \<^verbatim>\<open>risk/margin.py\<close> and
    \<^verbatim>\<open>risk/position_sizing.py\<close>, \<^verbatim>\<open>risk/risk_engine.py\<close>.
  \<^item> \<^verbatim>\<open>Order_Manager\<close>: \<^verbatim>\<open>execution/order_manager.py\<close>, \<^verbatim>\<open>execution/slippage.py\<close> and the interface of
    \<^verbatim>\<open>execution/broker_interface.py\<close> as the record \<open>venue\<close>.  \<^verbatim>\<open>Trade_Tracker\<close>:
    \<^verbatim>\<open>execution/trade_tracker.py\<close>.
  \<^item> \<^verbatim>\<open>Binance_Symbols\<close>, \<^verbatim>\<open>Binance_Broker\<close>: \<^verbatim>\<open>execution/binance_broker.py\<close>, first the arithmetic of steps,
    lots and stop prices, then the adapter.  \<^verbatim>\<open>IBKR_Broker\<close>, \<^verbatim>\<open>IBKR_Feed\<close>: \<^verbatim>\<open>execution/ibkr_broker.py\<close> and
    \<^verbatim>\<open>data/ibkr_feed.py\<close>.
  \<^item> \<^verbatim>\<open>Position_Monitor\<close>: \<^verbatim>\<open>execution/position_monitor.py\<close>.  \<^verbatim>\<open>Market_Feed\<close>: \<^verbatim>\<open>data/bar_aggregator.py\<close> and
    \<^verbatim>\<open>data/binance_universe_feed.py\<close>.  \<^verbatim>\<open>Scanner\<close>: \<^verbatim>\<open>strategies/base_strategy.py\<close> and
    \<^verbatim>\<open>strategies/funding_momentum_scanner.py\<close>.
  \<^item> \<^verbatim>\<open>Market_Simulator\<close>, \<^verbatim>\<open>Backtest_Engine\<close>, \<^verbatim>\<open>Performance\<close>: the three files of \<^verbatim>\<open>backtest/\<close>;
    \<^verbatim>\<open>Backtest_Report\<close>: the engine's run with the report it ends with.
  \<^item> \<^verbatim>\<open>State_Recovery\<close>, \<^verbatim>\<open>Daily_Log\<close>: \<^verbatim>\<open>utils/state_recovery.py\<close>, \<^verbatim>\<open>utils/daily_log.py\<close>.  \<^verbatim>\<open>Settings\<close>:
    \<^verbatim>\<open>config/settings.py\<close>.
  \<^item> \<^verbatim>\<open>Dashboard\<close>: \<^verbatim>\<open>server/dashboard_bridge.py\<close> and \<^verbatim>\<open>notifications/telegram_notifier.py\<close>.
  \<^item> \<^verbatim>\<open>Feature_Frames\<close>: \<^verbatim>\<open>strategies/features.py\<close>, the queries it builds for frames that are a parameter.
  \<^item> \<^verbatim>\<open>Market_Store\<close>: \<^verbatim>\<open>data/storage.py\<close>, its SQL statements over a database that is a parameter.
  \<^item> \<^verbatim>\<open>Live_Scanner\<close>, \<^verbatim>\<open>Live_Startup\<close>, \<^verbatim>\<open>Live_Bot\<close>: \<^verbatim>\<open>scripts/run_live_binance_scanner.py\<close>, first the
    closures that work on the running bot, then the start that builds and wires the components, then
    the tasks it leaves running, any of which may take any turn at any time.
    \<^verbatim>\<open>Live_Parity\<close>: one signal through the live script and through the backtest engine.
    \<^verbatim>\<open>Live_Invariant\<close>: what holds in every state the bot can reach.  \<^verbatim>\<open>Live_Flatten\<close>: the flatten command.
    \<^verbatim>\<open>Live_Races\<close>: the signal handler cut at its request to the exchange, against the kill switch.
    \<^verbatim>\<open>Live_Shutdown\<close>: the sequence of stops at the end, with the turns other tasks take at each wait.

  \<^bold>\<open>How the parts interact.\<close>  Ticks of the feed reach the live script over the bus, which updates
  the risk engine and the bar aggregator and publishes completed bars; the scanner turns a bar into
  a signal; the live script checks a signal against the account with the risk engine and submits it
  to the order manager, which calls the broker and matches the broker's event stream with its
  table, republishing what it knows on the bus; the dashboard bridge follows the bus, feeds the
  trade tracker and serves the operator's commands.  The position monitor and the monitor loop run
  beside this.  In a backtest the engine replaces the live script and the simulator the broker.
  A component's state is one record; an operation takes the state last and returns its result and
  the new state; a component that calls another works on a record or tuple holding both.

  \<^bold>\<open>Conventions.\<close>  Floats are real numbers, with division by zero raising as in Python; quantities
  are unbounded integers, as Python's are.  Every \<^verbatim>\<open>raise\<close>, early return and caught exception is a
  branch.  Dashes and pictograms in messages are written in ASCII.  Clocks, fresh ids, uuids, files and third-party clients (python-binance, ib_async,
  websockets, pydantic, numpy) are arguments: a client is a record of the calls the code makes over
  a state of its own, so every answer, a failure included, is covered.

  \<^bold>\<open>What the lemmas show.\<close>
  \<^item> Risk: an order is approved exactly when it passes every check, in the documented order of
    violations; approvals in any second and minute stay below the limits; the breaker halts on a day
    exactly when an observed equity lost the limit against the running peak.  Through the live
    script a signal changes the order table only after such an approval.  After a kill switch, or
    a start with a stored halt, none does, whatever turns the tasks take, save the one signal
    that was approved and on its way when the kill switch came; this lasts for the UTC day of the
    breaker's session and short of the operator's reset, since a monitor round of another day and
    a reset lift the halt.
  \<^item> The running bot: in every reachable state the orders are ungrouped market orders filed under
    their ids and the bus holds signals of the universe only; its bus drains, and a flatten closes what
    the exchange reports open.  The shutdown ends when the dispatcher has emptied the bus by the
    time the bus is stopped, which it does if it keeps taking turns while the dashboard closes; with two
    events left it never ends.
  \<^item> Accounting: the average price and quantity of an order, the realised profit of the tracker,
    and the equity of the simulator are equal to the sums of the fills they should come from; end to
    end, the order table of a backtest agrees with the simulator's fills, and its report adds up to
    the change of the equity.
  \<^item> Ordering and liveness: the bus loses nothing it does not count and keeps the order of
    publication; draining it, and so a backtest, ends when events only cause events of a lower rank;
    strategies see no bar before the simulator has resolved it; the heartbeat of the Interactive
    Brokers adapter reconnects.
  \<^item> Feeds and strategies: bars summarise the ticks of their time bucket, rolling windows hold what
    they should, stored bars are read back as written; the scanner signals exactly when its rule,
    its limits and its budget say so; a watched position is closed once, at the first reading that meets an
    exit rule, and a native stop caps the loss.
  \<^item> Persistence and dashboard: recovery resumes the session that was stored; history files are
    read back whole; commands need the token; the dashboard's histories mirror the tracker and stay within
    their ceilings, but for a longer list loaded at the start, which the first line added cuts.
  \<^item> Errors: theorems on what goes wrong when a write is torn, a request fails at a bad moment, a
    tab joins while a message is sent, or a broker reports under ids of its own.

  \<^bold>\<open>Bounds and fuel.\<close>  The connect loops of the two adapters and the draining of the bus take fuel
  and give \<open>None\<close> when it runs out; results on them assume or provide an amount that is enough: the
  number of failing attempts before the first success for a connection, and for the bus any amount
  from the number of steps on, which exists when handlers publish only events of a lower rank.  The
  bus holds a hundred thousand events and the event queue of the Interactive Brokers adapter ten
  thousand, as in the code.

  \<^bold>\<open>Not modelled.\<close>
  \<^item> \<^verbatim>\<open>config/logging_config.py\<close>: log lines do not affect the behaviour modelled.  The package files
    re-export.  The Redis copy of the bus's events: no entry point configures it.
  \<^item> Opening the dashboard's server socket and installing the signal handlers of the live script.
    DuckDB and polars themselves: \<^verbatim>\<open>Market_Store\<close> relies on named laws of inserting and selecting rows,
    \<^verbatim>\<open>Feature_Frames\<close> on one of adding a column; in the live script the outcome of a write is a
    parameter.
  \<^item> The bound of ten thousand events on the queue of the Binance adapter: a put waits while it is full,
    and that wait is not modelled.
  \<^item> Interleaving inside a handler: a handler runs to its end before the next step, except where
    the development makes the other task explicit (tabs joining or leaving while the dashboard
    sends, the two parts of the signal handler in \<^verbatim>\<open>Live_Races\<close>, whatever runs between two polls of
    the position monitor, the waits of the shutdown, the schedule of the backtest).
  \<^item> Rounding of floating-point arithmetic, infinities and \<^verbatim>\<open>NaN\<close>, except the \<^verbatim>\<open>NaN\<close> fields of an
    Interactive Brokers ticker and the infinite profit factor of a report.
\<close>

end
